(* ===== verification/Nfs_Prelude.thy ===== *)
theory Nfs_Prelude
  imports Main "HOL-Library.Word"
begin

text \<open>
  Shared vocabulary of the development: the machine types of the Rust sources, the result of a
  fallible operation on a mutable object, big-endian byte strings, and Rust's \<open>String\<close>.

  \<^item> \<open>u8\<close>, \<open>u16\<close>, \<open>u32\<close>, \<open>u64\<close> are words of that width; \<open>i32\<close> and \<open>i64\<close> are words of the same
    width that \<open>sint\<close> reads. \<open>usize\<close> is \<open>nat\<close>, and each place where the source checks or saturates
    a \<open>usize\<close> computation compares with \<open>usize_max\<close> (64-bit targets).
  \<^item> A Rust method \<open>fn m(&mut self) -> Result<T, E>\<close> is a function from the object to the result
    and the object after the call: the object keeps what was done before an error. \<open>bnd\<close> is the
    \<open>?\<close> operator followed by the rest of the body.
  \<^item> A Rust \<open>String\<close> is a \<open>string\<close>: a \<open>char\<close> of HOL is a byte, so it is the list of its UTF-8 bytes.
\<close>

unbundle bit_operations_syntax

subsection \<open>Machine types\<close>

type_synonym u8 = "8 word"
type_synonym u16 = "16 word"
type_synonym u32 = "32 word"
type_synonym u64 = "64 word"
type_synonym i32 = "32 word"
type_synonym i64 = "64 word"
type_synonym usize = nat
type_synonym bytes = "u8 list"

definition usize_max :: usize where
  "usize_max = 2 ^ 64 - 1"

definition checked_add_usize :: "usize \<Rightarrow> usize \<Rightarrow> usize option" where
  "checked_add_usize a b = (if a + b \<le> usize_max then Some (a + b) else None)"

definition saturating_add_usize :: "usize \<Rightarrow> usize \<Rightarrow> usize" where
  "saturating_add_usize a b = min (a + b) usize_max"

definition checked_add_u64 :: "u64 \<Rightarrow> u64 \<Rightarrow> u64 option" where
  "checked_add_u64 a b = (if unat a + unat b < 2 ^ 64 then Some (a + b) else None)"

definition u32_try_from :: "usize \<Rightarrow> u32 option" where
  "u32_try_from n = (if n < 2 ^ 32 then Some (of_nat n) else None)"

definition u64_try_from :: "usize \<Rightarrow> u64 option" where
  "u64_try_from n = (if n < 2 ^ 64 then Some (of_nat n) else None)"

subsection \<open>Fallible operations on a mutable object\<close>

type_synonym ('s, 'e, 'a) op = "'s \<Rightarrow> ('e + 'a) \<times> 's"

definition ret :: "'a \<Rightarrow> ('s, 'e, 'a) op" where
  "ret x = (\<lambda>s. (Inr x, s))"

definition fail :: "'e \<Rightarrow> ('s, 'e, 'a) op" where
  "fail e = (\<lambda>s. (Inl e, s))"

definition bnd :: "('s, 'e, 'a) op \<Rightarrow> ('a \<Rightarrow> ('s, 'e, 'b) op) \<Rightarrow> ('s, 'e, 'b) op" where
  "bnd m k = (\<lambda>s. case m s of (Inl e, s') \<Rightarrow> (Inl e, s') | (Inr x, s') \<Rightarrow> k x s')"

definition of_result :: "'e + 'a \<Rightarrow> ('s, 'e, 'a) op" where
  "of_result r = (\<lambda>s. (r, s))"

definition map_err :: "('e \<Rightarrow> 'f) \<Rightarrow> ('s, 'e, 'a) op \<Rightarrow> ('s, 'f, 'a) op" where
  "map_err f m = (\<lambda>s. case m s of (Inl e, s') \<Rightarrow> (Inl (f e), s') | (Inr x, s') \<Rightarrow> (Inr x, s'))"

text \<open>A method without a result to check: it only changes the object.\<close>

definition modify :: "('s \<Rightarrow> 's) \<Rightarrow> ('s, 'e, unit) op" where
  "modify f = (\<lambda>s. (Inr (), f s))"

definition gets :: "('s \<Rightarrow> 'a) \<Rightarrow> ('s, 'e, 'a) op" where
  "gets f = (\<lambda>s. (Inr (f s), s))"

text \<open>One turn of a \<open>loop\<close>: go on with new values of the loop's variables, or leave it.\<close>

datatype ('l, 'a) loop_step = Continue 'l | Break 'a

text \<open>A body that is a sequence of statements, each with \<open>?\<close>.\<close>

primrec seq_ops :: "('s, 'e, unit) op list \<Rightarrow> ('s, 'e, unit) op" where
  "seq_ops [] = ret ()"
| "seq_ops (m # ms) = bnd m (\<lambda>_. seq_ops ms)"

text \<open>The same sequencing for a pure \<open>Result\<close>.\<close>

definition bindR :: "'e + 'a \<Rightarrow> ('a \<Rightarrow> 'e + 'b) \<Rightarrow> 'e + 'b" where
  "bindR r k = (case r of Inl e \<Rightarrow> Inl e | Inr x \<Rightarrow> k x)"

definition ok_or :: "'a option \<Rightarrow> 'e \<Rightarrow> 'e + 'a" where
  "ok_or x e = (case x of None \<Rightarrow> Inl e | Some v \<Rightarrow> Inr v)"

named_theorems op_simps "rewriting of sequenced operations"

lemma ret_apply [op_simps]: "ret x s = (Inr x, s)"
  by (simp add: ret_def)

lemma fail_apply [op_simps]: "fail e s = (Inl e, s)"
  by (simp add: fail_def)

lemma of_result_apply [op_simps]: "of_result r s = (r, s)"
  by (simp add: of_result_def)

lemma modify_apply [op_simps]: "modify f s = (Inr (), f s)"
  by (simp add: modify_def)

lemma gets_apply [op_simps]: "gets f s = (Inr (f s), s)"
  by (simp add: gets_def)

lemma bnd_apply [op_simps]:
  "bnd m k s = (case m s of (Inl e, s') \<Rightarrow> (Inl e, s') | (Inr x, s') \<Rightarrow> k x s')"
  by (simp add: bnd_def)

lemma map_err_apply [op_simps]:
  "map_err f m s = (case m s of (Inl e, s') \<Rightarrow> (Inl (f e), s') | (Inr x, s') \<Rightarrow> (Inr x, s'))"
  by (simp add: map_err_def)

lemma bnd_Inr: "m s = (Inr x, s') \<Longrightarrow> bnd m k s = k x s'"
  by (simp add: bnd_def)

lemma bnd_Inl: "m s = (Inl e, s') \<Longrightarrow> bnd m k s = (Inl e, s')"
  by (simp add: bnd_def)

lemma bnd_ret_left [simp]: "bnd (ret x) k = k x"
  by (simp add: bnd_def ret_def fun_eq_iff)

lemma bnd_fail_left [simp]: "bnd (fail e) k = fail e"
  by (simp add: bnd_def fail_def fun_eq_iff)

lemma bnd_assoc: "bnd (bnd m k) l = bnd m (\<lambda>x. bnd (k x) l)"
  by (auto simp: bnd_def fun_eq_iff split: prod.splits sum.splits)

lemma bnd_Inr_iff:
  "bnd m k s = (Inr y, s'') \<longleftrightarrow> (\<exists>x s'. m s = (Inr x, s') \<and> k x s' = (Inr y, s''))"
  by (auto simp: bnd_def split: prod.splits sum.splits)

lemma map_err_Inr_iff: "map_err f m s = (Inr x, s') \<longleftrightarrow> m s = (Inr x, s')"
  by (auto simp: map_err_def split: prod.splits sum.splits)

lemma bndE:
  assumes "bnd m k s = (r, s'')"
  obtains (Err) e where "m s = (Inl e, s'')" "r = Inl e"
  | (Ok) x s' where "m s = (Inr x, s')" "k x s' = (r, s'')"
  using assms by (auto simp: bnd_def split: prod.splits sum.splits)

lemma bnd_cong [fundef_cong]:
  assumes "m s = m' s"
    and "\<And>x s'. m' s = (Inr x, s') \<Longrightarrow> k x s' = k' x s'"
    and "s = t"
  shows "bnd m k s = bnd m' k' t"
  using assms by (auto simp: bnd_def split: prod.splits sum.splits)

lemma bindR_simps [simp]: "bindR (Inl e) k = Inl e" "bindR (Inr x) k = k x"
  by (simp_all add: bindR_def)

lemma bindR_Inr_iff: "bindR r k = Inr y \<longleftrightarrow> (\<exists>x. r = Inr x \<and> k x = Inr y)"
  by (cases r) auto

lemma ok_or_simps [simp]: "ok_or None e = Inl e" "ok_or (Some x) e = Inr x"
  by (simp_all add: ok_or_def)

text \<open>\<open>match m { Ok(x) => k(x), Err(e) => h(e) }\<close>\<close>

definition match_result :: "('s, 'e, 'a) op \<Rightarrow> ('a \<Rightarrow> ('s, 'e, 'b) op) \<Rightarrow> ('e \<Rightarrow> ('s, 'e, 'b) op) \<Rightarrow>
    ('s, 'e, 'b) op" where
  "match_result m k h s = (case m s of (Inr x, s') \<Rightarrow> k x s' | (Inl e, s') \<Rightarrow> h e s')"

subsection \<open>Operations that keep a property of the object\<close>

text \<open>
  \<open>keeps I m\<close>: whatever \<open>m\<close> returns, it leads from an object with \<open>I\<close> to an object with \<open>I\<close>.
  The collection \<open>keeps_intros\<close> proves it along the structure of a body.
\<close>

definition keeps :: "('s \<Rightarrow> 's \<Rightarrow> bool) \<Rightarrow> ('s, 'e, 'a) op \<Rightarrow> bool" where
  "keeps R m \<longleftrightarrow> (\<forall>s. R s (snd (m s)))"

named_theorems keeps_intros "introduction rules for keeps"

lemma keepsI: "(\<And>s r s'. m s = (r, s') \<Longrightarrow> R s s') \<Longrightarrow> keeps R m"
  by (auto simp: keeps_def) (metis prod.collapse)

lemma keepsD: "keeps R m \<Longrightarrow> m s = (r, s') \<Longrightarrow> R s s'"
  by (auto simp: keeps_def dest: spec [of _ s])

lemma keeps_ret [keeps_intros]: "reflp R \<Longrightarrow> keeps R (ret x)"
  by (simp add: keeps_def op_simps reflpD)

lemma keeps_fail [keeps_intros]: "reflp R \<Longrightarrow> keeps R (fail e)"
  by (simp add: keeps_def op_simps reflpD)

lemma keeps_of_result [keeps_intros]: "reflp R \<Longrightarrow> keeps R (of_result r)"
  by (simp add: keeps_def op_simps reflpD)

lemma keeps_bnd [keeps_intros]:
  assumes "transp R" and m: "keeps R m" and k: "\<And>x. keeps R (k x)"
  shows "keeps R (bnd m k)"
proof (rule keepsI)
  fix s r s''
  assume "bnd m k s = (r, s'')"
  then show "R s s''"
  proof (cases rule: bndE)
    case (Err e)
    then show ?thesis using m by (auto dest: keepsD)
  next
    case (Ok x s')
    with m k [of x] have "R s s'" "R s' s''" by (auto dest: keepsD)
    with assms(1) show ?thesis by (rule transpD)
  qed
qed

lemma keeps_map_err [keeps_intros]: "keeps R m \<Longrightarrow> keeps R (map_err f m)"
  by (auto simp: keeps_def map_err_def split: prod.splits sum.splits) (metis snd_conv)+

lemma keeps_modify [keeps_intros]: "(\<And>s. R s (f s)) \<Longrightarrow> keeps R (modify f)"
  by (simp add: keeps_def op_simps)

lemma keeps_gets [keeps_intros]: "reflp R \<Longrightarrow> keeps R (gets f)"
  by (simp add: keeps_def op_simps reflpD)

lemma keeps_if [keeps_intros]:
  "(b \<Longrightarrow> keeps R m) \<Longrightarrow> (\<not> b \<Longrightarrow> keeps R n) \<Longrightarrow> keeps R (if b then m else n)"
  by simp

lemma keeps_case_option [keeps_intros]:
  "(x = None \<Longrightarrow> keeps R m) \<Longrightarrow> (\<And>y. x = Some y \<Longrightarrow> keeps R (n y)) \<Longrightarrow>
   keeps R (case x of None \<Rightarrow> m | Some y \<Rightarrow> n y)"
  by (cases x) auto

lemma keeps_case_prod [keeps_intros]: "(\<And>x y. keeps R (k x y)) \<Longrightarrow> keeps R (case p of (x, y) \<Rightarrow> k x y)"
  by (cases p) simp

lemma keeps_match_result [keeps_intros]:
  assumes "transp R" "keeps R m" "\<And>x. keeps R (k x)" "\<And>e. keeps R (h e)"
  shows "keeps R (match_result m k h)"
proof (rule keepsI)
  fix s r s''
  assume *: "match_result m k h s = (r, s'')"
  obtain t s' where m: "m s = (t, s')" by fastforce
  with * assms(3,4) have "R s' s''"
    by (cases t) (auto simp: match_result_def dest: keepsD)
  with keepsD [OF assms(2) m] assms(1) show "R s s''" by (blast dest: transpD)
qed

subsection \<open>The results of an operation\<close>

text \<open>\<open>returns P m\<close>: every result of \<open>m\<close> satisfies \<open>P\<close>.\<close>

definition returns :: "('a \<Rightarrow> bool) \<Rightarrow> ('s, 'e, 'a) op \<Rightarrow> bool" where
  "returns P m \<longleftrightarrow> (\<forall>s x s'. m s = (Inr x, s') \<longrightarrow> P x)"

named_theorems returns_intros "introduction rules for returns"

lemma returnsD: "returns P m \<Longrightarrow> m s = (Inr x, s') \<Longrightarrow> P x"
  by (auto simp: returns_def)

lemma returns_bnd [returns_intros]: "(\<And>x. returns P (k x)) \<Longrightarrow> returns P (bnd m k)"
  by (auto simp: returns_def bnd_Inr_iff)

lemma returns_bnd_from: "returns Q m \<Longrightarrow> (\<And>x. Q x \<Longrightarrow> returns P (k x)) \<Longrightarrow> returns P (bnd m k)"
  unfolding returns_def bnd_Inr_iff by blast

lemma returns_ret [returns_intros]: "P x \<Longrightarrow> returns P (ret x)"
  by (auto simp: returns_def ret_apply)

lemma returns_fail [returns_intros]: "returns P (fail e)"
  by (auto simp: returns_def fail_apply)

lemma returns_if [returns_intros]: "(b \<Longrightarrow> returns P m) \<Longrightarrow> (\<not> b \<Longrightarrow> returns P n) \<Longrightarrow> returns P (if b then m else n)"
  by simp

lemma returns_match_result [returns_intros]:
  "(\<And>x. returns P (k x)) \<Longrightarrow> (\<And>e. returns P (h e)) \<Longrightarrow> returns P (match_result m k h)"
  by (auto simp: returns_def match_result_def split: prod.splits sum.splits)

subsection \<open>The errors of an operation\<close>

text \<open>\<open>errs P m\<close>: every error that \<open>m\<close> returns satisfies \<open>P\<close>.\<close>

definition errs :: "('e \<Rightarrow> bool) \<Rightarrow> ('s, 'e, 'a) op \<Rightarrow> bool" where
  "errs P m \<longleftrightarrow> (\<forall>s e. fst (m s) = Inl e \<longrightarrow> P e)"

named_theorems errs_intros "introduction rules for errs"

lemma errsI: "(\<And>s e s'. m s = (Inl e, s') \<Longrightarrow> P e) \<Longrightarrow> errs P m"
  by (auto simp: errs_def) (metis prod.collapse)

lemma errsD: "errs P m \<Longrightarrow> m s = (Inl e, s') \<Longrightarrow> P e"
  by (auto simp: errs_def dest: spec [of _ s])

lemma errs_mono: "errs P m \<Longrightarrow> (\<And>e. P e \<Longrightarrow> Q e) \<Longrightarrow> errs Q m"
  by (auto simp: errs_def)

lemma errs_ret [errs_intros]: "errs P (ret x)"
  by (simp add: errs_def op_simps)

lemma errs_gets [errs_intros]: "errs P (gets f)"
  by (simp add: errs_def op_simps)

lemma errs_modify [errs_intros]: "errs P (modify f)"
  by (simp add: errs_def op_simps)

lemma errs_fail [errs_intros]: "P e \<Longrightarrow> errs P (fail e)"
  by (simp add: errs_def op_simps)

lemma errs_of_result [errs_intros]: "(\<And>e. r = Inl e \<Longrightarrow> P e) \<Longrightarrow> errs P (of_result r)"
  by (simp add: errs_def op_simps)

lemma errs_bnd [errs_intros]: "errs P m \<Longrightarrow> (\<And>x. errs P (k x)) \<Longrightarrow> errs P (bnd m k)"
  by (rule errsI) (auto elim!: bndE dest: errsD)

lemma errs_map_err [errs_intros]: "errs (\<lambda>e. P (f e)) m \<Longrightarrow> errs P (map_err f m)"
  by (rule errsI) (auto simp: map_err_def split: prod.splits sum.splits dest: errsD)

lemma errs_if [errs_intros]:
  "(b \<Longrightarrow> errs P m) \<Longrightarrow> (\<not> b \<Longrightarrow> errs P n) \<Longrightarrow> errs P (if b then m else n)"
  by simp

lemma errs_case_option [errs_intros]:
  "(x = None \<Longrightarrow> errs P m) \<Longrightarrow> (\<And>y. x = Some y \<Longrightarrow> errs P (n y)) \<Longrightarrow>
   errs P (case x of None \<Rightarrow> m | Some y \<Rightarrow> n y)"
  by (cases x) auto

subsection \<open>Loops\<close>

text \<open>
  The contract of a \<open>loop\<close> of the source: its function unfolds into one turn of the body, and a
  measure goes down with every turn that continues. The locale gives induction over the turns, the
  invariant rule, and that the loop keeps what its body keeps.
\<close>

locale body_loop =
  fixes body :: "'l \<Rightarrow> ('s, 'e, ('l, 'a) loop_step) op" and loop :: "'l \<Rightarrow> ('s, 'e, 'a) op"
    and size_of :: "'l \<Rightarrow> 's \<Rightarrow> nat"
  assumes loop_unfold: "loop l s =
      (case body l s of
         (Inl e, s') \<Rightarrow> (Inl e, s')
       | (Inr (Continue l'), s') \<Rightarrow> loop l' s'
       | (Inr (Break a), s') \<Rightarrow> (Inr a, s'))"
    and body_shrinks: "body l s = (Inr (Continue l'), s') \<Longrightarrow> size_of l' s' < size_of l s"
begin

lemma loop_induct:
  assumes "\<And>l s. (\<And>l' s'. body l s = (Inr (Continue l'), s') \<Longrightarrow> P l' s') \<Longrightarrow> P l s"
  shows "P l s"
proof (induction "size_of l s" arbitrary: l s rule: less_induct)
  case less
  show ?case by (rule assms, rule less, rule body_shrinks)
qed

lemma loop_rule:
  assumes "I l s" "loop l s = (r, s')"
    and "\<And>l s l' s'. I l s \<Longrightarrow> body l s = (Inr (Continue l'), s') \<Longrightarrow> I l' s'"
    and "\<And>l s a s'. I l s \<Longrightarrow> body l s = (Inr (Break a), s') \<Longrightarrow> Q (Inr a) s'"
    and "\<And>l s e s'. I l s \<Longrightarrow> body l s = (Inl e, s') \<Longrightarrow> Q (Inl e) s'"
  shows "Q r s'"
  using assms(1,2)
proof (induction l s rule: loop_induct)
  case (1 l s)
  obtain st s1 where b: "body l s = (st, s1)" by fastforce
  show ?case
  proof (cases st)
    case (Inl e)
    with b 1 assms(5) show ?thesis by (auto simp: loop_unfold [of l s])
  next
    case (Inr t)
    with b 1 assms(3,4) show ?thesis by (cases t) (auto simp: loop_unfold [of l s])
  qed
qed

lemma loop_ok_rule:
  assumes "loop l s = (Inr a, s')" "I l s"
    and "\<And>l s l' s'. I l s \<Longrightarrow> body l s = (Inr (Continue l'), s') \<Longrightarrow> I l' s'"
    and "\<And>l s a s'. I l s \<Longrightarrow> body l s = (Inr (Break a), s') \<Longrightarrow> Q a s'"
  shows "Q a s'"
  using loop_rule [where I = I and Q = "\<lambda>r s. case r of Inl _ \<Rightarrow> True | Inr a \<Rightarrow> Q a s", OF assms(2,1,3)] assms(4)
  by simp

lemma keeps_loop:
  assumes "reflp R" "transp R" "\<And>l. keeps R (body l)"
  shows "keeps R (loop l)"
proof (rule keepsI)
  fix s0 r s'
  assume "loop l s0 = (r, s')"
  with reflpD [OF assms(1)] show "R s0 s'"
    by (rule loop_rule [where I = "\<lambda>l s. R s0 s" and Q = "\<lambda>r s. R s0 s"])
      (use assms(2,3) in \<open>blast dest: transpD keepsD\<close>)+
qed

end

subsection \<open>Big-endian byte strings\<close>

definition u32_to_be_bytes :: "u32 \<Rightarrow> bytes" where
  "u32_to_be_bytes w =
     [ucast (drop_bit 24 w), ucast (drop_bit 16 w), ucast (drop_bit 8 w), ucast w]"

definition u64_to_be_bytes :: "u64 \<Rightarrow> bytes" where
  "u64_to_be_bytes w =
     [ucast (drop_bit 56 w), ucast (drop_bit 48 w), ucast (drop_bit 40 w), ucast (drop_bit 32 w),
      ucast (drop_bit 24 w), ucast (drop_bit 16 w), ucast (drop_bit 8 w), ucast w]"

definition from_be_bytes :: "bytes \<Rightarrow> 'a::len word" where
  "from_be_bytes bs = foldl (\<lambda>acc b. push_bit 8 acc OR ucast b) 0 bs"

lemma length_u32_to_be_bytes [simp]: "length (u32_to_be_bytes w) = 4"
  by (simp add: u32_to_be_bytes_def)

lemma length_u64_to_be_bytes [simp]: "length (u64_to_be_bytes w) = 8"
  by (simp add: u64_to_be_bytes_def)

lemma be_step:
  fixes w :: "'a::len word"
  assumes "8 \<le> LENGTH('a)"
  shows "push_bit 8 (drop_bit (8 + k) w) OR ucast (ucast (drop_bit k w) :: u8) = drop_bit k w"
proof (rule bit_word_eqI)
  fix n assume "n < LENGTH('a)"
  then show "bit (push_bit 8 (drop_bit (8 + k) w) OR ucast (ucast (drop_bit k w) :: u8)) n
      \<longleftrightarrow> bit (drop_bit k w) n"
    using assms by (cases "n < 8") (auto simp: bit_simps ac_simps)
qed

lemma drop_bit_length_eq_0: "LENGTH('a) \<le> k \<Longrightarrow> drop_bit k (w :: 'a::len word) = 0"
  by (intro bit_word_eqI) (auto simp: bit_simps dest: bit_imp_le_length)

lemma from_be_bytes_u32 [simp]: "from_be_bytes (u32_to_be_bytes w) = (w :: u32)"
  using be_step [of 24 w] be_step [of 16 w] be_step [of 8 w] be_step [of 0 w]
    drop_bit_length_eq_0 [of 32 w]
  by (simp add: from_be_bytes_def u32_to_be_bytes_def)

lemma from_be_bytes_u64 [simp]: "from_be_bytes (u64_to_be_bytes w) = (w :: u64)"
  using be_step [of 56 w] be_step [of 48 w] be_step [of 40 w] be_step [of 32 w]
    be_step [of 24 w] be_step [of 16 w] be_step [of 8 w] be_step [of 0 w]
    drop_bit_length_eq_0 [of 64 w]
  by (simp add: from_be_bytes_def u64_to_be_bytes_def)

lemma bit_u8_less: "bit (b :: u8) n \<Longrightarrow> n < 8"
  using bit_imp_le_length [of b n] by simp

lemma u32_to_from_be:
  assumes "length bs = 4"
  shows "u32_to_be_bytes (from_be_bytes bs) = bs"
proof -
  obtain a b c d where bs: "bs = [a, b, c, d]"
    using assms by (auto simp: length_Suc_conv numeral_eq_Suc)
  show ?thesis
    unfolding bs u32_to_be_bytes_def from_be_bytes_def
    by (simp add: push_bit_or, intro conjI; rule bit_word_eqI)
      (auto simp: bit_simps dest: bit_u8_less)
qed

subsection \<open>Strings and UTF-8\<close>

text \<open>
  \<open>str::as_bytes\<close> and the constructor from bytes are inverse to each other; a \<open>String\<close> value of the
  program in addition satisfies \<open>from_utf8\<close> (the well-formed byte sequences of the Unicode
  standard, table 3-7), which \<open>std::str::from_utf8\<close> checks.
\<close>

definition as_bytes :: "string \<Rightarrow> bytes" where
  "as_bytes s = map (\<lambda>c. of_nat (of_char c)) s"

definition str_of_bytes :: "bytes \<Rightarrow> string" where
  "str_of_bytes bs = map (\<lambda>b. char_of (unat b)) bs"

definition is_cont :: "u8 \<Rightarrow> bool" where
  "is_cont b \<longleftrightarrow> 0x80 \<le> b \<and> b \<le> 0xBF"

definition utf8_second_ok :: "u8 \<Rightarrow> u8 \<Rightarrow> bool" where
  "utf8_second_ok a b \<longleftrightarrow>
     (if a = 0xE0 then 0xA0 \<le> b \<and> b \<le> 0xBF
      else if a = 0xED then 0x80 \<le> b \<and> b \<le> 0x9F
      else if a = 0xF0 then 0x90 \<le> b \<and> b \<le> 0xBF
      else if a = 0xF4 then 0x80 \<le> b \<and> b \<le> 0x8F
      else is_cont b)"

definition utf8_width :: "u8 \<Rightarrow> nat" where
  "utf8_width a =
     (if a \<le> 0x7F then 1
      else if 0xC2 \<le> a \<and> a \<le> 0xDF then 2
      else if 0xE0 \<le> a \<and> a \<le> 0xEF then 3
      else if 0xF0 \<le> a \<and> a \<le> 0xF4 then 4
      else 0)"

fun utf8_char_ok :: "bytes \<Rightarrow> bool" where
  "utf8_char_ok [] = False"
| "utf8_char_ok (a # rest) \<longleftrightarrow>
     utf8_width a = Suc (length rest) \<and>
     (rest = [] \<or> utf8_second_ok a (hd rest) \<and> list_all is_cont (tl rest))"

function utf8_valid :: "bytes \<Rightarrow> bool" where
  "utf8_valid [] = True"
| "utf8_valid (a # rest) \<longleftrightarrow>
     utf8_width a \<noteq> 0 \<and> utf8_char_ok (take (utf8_width a) (a # rest)) \<and>
     utf8_valid (drop (utf8_width a - 1) rest)"
  by pat_completeness auto
termination
  by (relation "measure length") auto

definition is_char_boundary :: "bytes \<Rightarrow> nat \<Rightarrow> bool" where
  "is_char_boundary bs i \<longleftrightarrow>
     (if i = 0 then True
      else if i < length bs then \<not> is_cont (bs ! i)
      else i = length bs)"

lemma length_as_bytes [simp]: "length (as_bytes s) = length s"
  by (simp add: as_bytes_def)

lemma length_str_of_bytes [simp]: "length (str_of_bytes bs) = length bs"
  by (simp add: str_of_bytes_def)

lemma unat_u8_less: "unat (b :: u8) < 256"
  using unsigned_less [of b, where ?'a = nat] by simp

lemma of_char_less_256: "of_char c < (256 :: nat)"
  using of_char_mod_256 [of c, where 'a = nat] mod_less_divisor [of 256 "of_char c :: nat"]
  by simp

lemma str_of_as_bytes [simp]: "str_of_bytes (as_bytes s) = s"
  by (auto simp: as_bytes_def str_of_bytes_def unat_of_nat of_char_less_256 intro!: map_idI)

lemma as_bytes_of_bytes [simp]: "as_bytes (str_of_bytes bs) = bs"
  by (auto simp: as_bytes_def str_of_bytes_def unat_u8_less intro!: map_idI)

lemma take_as_bytes: "take n (as_bytes s) = as_bytes (take n s)"
  by (simp add: as_bytes_def take_map)

subsection \<open>Arithmetic of the machine types\<close>

lemma u32_try_from_Some: "u32_try_from n = Some w \<Longrightarrow> unat w = n"
  by (auto simp: u32_try_from_def unat_of_nat split: if_splits)

lemma u32_try_from_small [simp]: "n < 2 ^ 32 \<Longrightarrow> u32_try_from n = Some (of_nat n)"
  by (simp add: u32_try_from_def)

lemma unat_u32_less: "unat (w :: u32) < 2 ^ 32"
  using unsigned_less [of w, where ?'a = nat] by simp

lemma unat_u64_less: "unat (w :: u64) < 2 ^ 64"
  using unsigned_less [of w, where ?'a = nat] by simp

lemma unat_of_nat_u32 [simp]: "n < 2 ^ 32 \<Longrightarrow> unat (of_nat n :: u32) = n"
  by (simp add: unat_of_nat)

lemma checked_add_u64_Some: "checked_add_u64 a b = Some c \<Longrightarrow> unat c = unat a + unat b"
  by (auto simp: checked_add_u64_def unat_word_ariths split: if_splits)

lemma checked_add_usize_Some: "checked_add_usize a b = Some c \<longleftrightarrow> c = a + b \<and> a + b \<le> usize_max"
  by (auto simp: checked_add_usize_def)

end
