(* ===== verification/Xdr.thy ===== *)
theory Xdr
  imports Nfs_Prelude
begin

text \<open>
  The XDR layer (\<open>src/xdr\<close>): the streaming \<open>Encoder\<close> (a growing byte vector) and \<open>Decoder\<close> (an
  input slice with a position), their primitive operations, and the impls of \<open>Encode\<close> and \<open>Decode\<close>
  for the base types.

  The contract of a wire type is the locale \<open>xdr_codec\<close>: its encoder appends the byte string \<open>wire x\<close>
  and its decoder, placed at that byte string, returns \<open>x\<close> and stops right behind it. The locale
  proves the round trip through \<open>to_bytes\<close> and \<open>from_bytes\<close>, that no encoding is a proper prefix of
  another one, and lifts the contract to arrays and optional values; it is interpreted for every
  type that is both encoded and decoded. \<open>keeps advances\<close> is the safety contract of a decoder alone:
  it leaves the input as it is and never moves the position backwards or past the end, so that the
  slice expressions of \<open>read_bytes\<close> and the subtraction of \<open>remaining\<close> cannot panic.
\<close>

subsection \<open>Errors (src/xdr/error.rs)\<close>

datatype xdr_error =
    UnexpectedEof usize usize
  | TrailingBytes usize
  | InvalidBool u32
  | InvalidDiscriminant string i32
  | LengthLimitExceeded usize usize
  | LengthOutOfRange usize
  | InvalidUtf8

subsection \<open>Helpers (src/xdr/mod.rs)\<close>

definition padding_len :: "usize \<Rightarrow> usize" where
  "padding_len len = (4 - (len mod 4)) mod 4"

definition checked_u32_len :: "usize \<Rightarrow> xdr_error + u32" where
  "checked_u32_len len = ok_or (u32_try_from len) (LengthOutOfRange len)"

subsection \<open>The encoder (src/xdr/encode.rs)\<close>

record encoder =
  enc_bytes :: bytes

type_synonym 'a enc = "'a \<Rightarrow> (encoder, xdr_error, unit) op"

definition encoder_new :: encoder where
  "encoder_new = \<lparr>enc_bytes = []\<rparr>"

definition into_bytes :: "encoder \<Rightarrow> bytes" where
  "into_bytes e = enc_bytes e"

definition extend_from_slice :: "bytes \<Rightarrow> encoder \<Rightarrow> encoder" where
  "extend_from_slice bs e = e\<lparr>enc_bytes := enc_bytes e @ bs\<rparr>"

definition write_u32 :: "u32 enc" where
  "write_u32 v = modify (extend_from_slice (u32_to_be_bytes v))"

definition write_i32 :: "i32 enc" where
  "write_i32 v = modify (extend_from_slice (u32_to_be_bytes v))"

definition write_u64 :: "u64 enc" where
  "write_u64 v = modify (extend_from_slice (u64_to_be_bytes v))"

definition write_i64 :: "i64 enc" where
  "write_i64 v = modify (extend_from_slice (u64_to_be_bytes v))"

definition write_bool :: "bool enc" where
  "write_bool v = write_u32 (if v then 1 else 0)"

definition write_discriminant :: "i32 enc" where
  "write_discriminant v = write_i32 v"

definition write_padding :: "usize enc" where
  "write_padding len = modify (extend_from_slice (take (padding_len len) [0, 0, 0]))"

definition write_fixed_opaque :: "bytes enc" where
  "write_fixed_opaque v = bnd (modify (extend_from_slice v)) (\<lambda>_. write_padding (length v))"

definition write_len :: "usize \<Rightarrow> usize \<Rightarrow> (encoder, xdr_error, unit) op" where
  "write_len len limit =
     (if len > limit then fail (LengthLimitExceeded len limit)
      else bnd (of_result (checked_u32_len len)) write_u32)"

definition write_opaque :: "bytes \<Rightarrow> usize \<Rightarrow> (encoder, xdr_error, unit) op" where
  "write_opaque v limit = bnd (write_len (length v) limit) (\<lambda>_. write_fixed_opaque v)"

definition write_string :: "string \<Rightarrow> usize \<Rightarrow> (encoder, xdr_error, unit) op" where
  "write_string v limit = write_opaque (as_bytes v) limit"

definition write_array :: "'a enc \<Rightarrow> 'a list \<Rightarrow> usize \<Rightarrow> (encoder, xdr_error, unit) op" where
  "write_array enc vs limit = bnd (write_len (length vs) limit) (\<lambda>_. seq_ops (map enc vs))"

definition write_optional :: "'a enc \<Rightarrow> 'a option \<Rightarrow> (encoder, xdr_error, unit) op" where
  "write_optional enc v =
     bnd (write_bool (v \<noteq> None)) (\<lambda>_. case v of None \<Rightarrow> ret () | Some x \<Rightarrow> enc x)"

definition to_bytes :: "'a enc \<Rightarrow> 'a \<Rightarrow> xdr_error + bytes" where
  "to_bytes enc v =
     (case enc v encoder_new of (Inl e, _) \<Rightarrow> Inl e | (Inr _, e) \<Rightarrow> Inr (into_bytes e))"

definition encode_u32 :: "u32 enc" where "encode_u32 = write_u32"
definition encode_i32 :: "i32 enc" where "encode_i32 = write_i32"
definition encode_u64 :: "u64 enc" where "encode_u64 = write_u64"
definition encode_i64 :: "i64 enc" where "encode_i64 = write_i64"
definition encode_bool :: "bool enc" where "encode_bool = write_bool"
definition encode_unit :: "unit enc" where "encode_unit = ret"

subsection \<open>The decoder (src/xdr/decode.rs)\<close>

record decoder =
  dec_input :: bytes
  dec_position :: usize

type_synonym 'a dec = "(decoder, xdr_error, 'a) op"

definition decoder_new :: "bytes \<Rightarrow> decoder" where
  "decoder_new bs = \<lparr>dec_input = bs, dec_position = 0\<rparr>"

definition remaining :: "decoder \<Rightarrow> usize" where
  "remaining d = length (dec_input d) - dec_position d"

definition is_finished :: "decoder \<Rightarrow> bool" where
  "is_finished d \<longleftrightarrow> remaining d = 0"

definition finish :: "decoder \<Rightarrow> xdr_error + unit" where
  "finish d = (if is_finished d then Inr () else Inl (TrailingBytes (remaining d)))"

definition read_bytes :: "usize \<Rightarrow> bytes dec" where
  "read_bytes len d =
     (case checked_add_usize (dec_position d) len of
        None \<Rightarrow> (Inl (UnexpectedEof len (remaining d)), d)
      | Some end \<Rightarrow>
          if end > length (dec_input d) then (Inl (UnexpectedEof len (remaining d)), d)
          else (Inr (take (end - dec_position d) (drop (dec_position d) (dec_input d))),
                d\<lparr>dec_position := end\<rparr>))"

definition read_byte_array :: "usize \<Rightarrow> bytes dec" where
  "read_byte_array n = read_bytes n"

definition skip_padding :: "usize \<Rightarrow> unit dec" where
  "skip_padding len = bnd (read_bytes (padding_len len)) (\<lambda>_. ret ())"

definition read_u32 :: "u32 dec" where
  "read_u32 = bnd (read_byte_array 4) (\<lambda>bs. ret (from_be_bytes bs))"

definition read_i32 :: "i32 dec" where
  "read_i32 = bnd (read_byte_array 4) (\<lambda>bs. ret (from_be_bytes bs))"

definition read_u64 :: "u64 dec" where
  "read_u64 = bnd (read_byte_array 8) (\<lambda>bs. ret (from_be_bytes bs))"

definition read_i64 :: "i64 dec" where
  "read_i64 = bnd (read_byte_array 8) (\<lambda>bs. ret (from_be_bytes bs))"

definition read_bool :: "bool dec" where
  "read_bool = bnd read_u32 (\<lambda>v.
     if v = 0 then ret False else if v = 1 then ret True else fail (InvalidBool v))"

definition read_discriminant :: "i32 dec" where
  "read_discriminant = read_i32"

definition read_fixed_opaque :: "usize \<Rightarrow> bytes dec" where
  "read_fixed_opaque len = bnd (read_bytes len) (\<lambda>v. bnd (skip_padding len) (\<lambda>_. ret v))"

definition read_fixed_opaque_unpadded :: "usize \<Rightarrow> bytes dec" where
  "read_fixed_opaque_unpadded len = read_bytes len"

definition read_len :: "usize \<Rightarrow> usize dec" where
  "read_len limit = bnd read_u32 (\<lambda>v.
     if unat v > limit then fail (LengthLimitExceeded (unat v) limit) else ret (unat v))"

definition read_opaque :: "usize \<Rightarrow> bytes dec" where
  "read_opaque limit = bnd (read_len limit) read_fixed_opaque"

definition read_opaque_vec :: "usize \<Rightarrow> bytes dec" where
  "read_opaque_vec limit = read_opaque limit"

definition read_string :: "usize \<Rightarrow> string dec" where
  "read_string limit = bnd (read_opaque limit) (\<lambda>bs.
     if utf8_valid bs then ret (str_of_bytes bs) else fail InvalidUtf8)"

primrec read_n :: "nat \<Rightarrow> 'a dec \<Rightarrow> 'a list dec" where
  "read_n 0 dec = ret []"
| "read_n (Suc n) dec = bnd dec (\<lambda>v. bnd (read_n n dec) (\<lambda>vs. ret (v # vs)))"

definition read_array :: "'a dec \<Rightarrow> usize \<Rightarrow> 'a list dec" where
  "read_array dec limit = bnd (read_len limit) (\<lambda>len. read_n len dec)"

definition read_optional :: "'a dec \<Rightarrow> 'a option dec" where
  "read_optional dec = bnd read_bool (\<lambda>b.
     if b then bnd dec (\<lambda>v. ret (Some v)) else ret None)"

definition from_bytes :: "'a dec \<Rightarrow> bytes \<Rightarrow> xdr_error + 'a" where
  "from_bytes dec bs =
     (case dec (decoder_new bs) of
        (Inl e, _) \<Rightarrow> Inl e
      | (Inr v, d) \<Rightarrow> bindR (finish d) (\<lambda>_. Inr v))"

definition decode_u32 :: "u32 dec" where "decode_u32 = read_u32"
definition decode_i32 :: "i32 dec" where "decode_i32 = read_i32"
definition decode_u64 :: "u64 dec" where "decode_u64 = read_u64"
definition decode_i64 :: "i64 dec" where "decode_i64 = read_i64"
definition decode_bool :: "bool dec" where "decode_bool = read_bool"
definition decode_unit :: "unit dec" where "decode_unit = ret ()"

subsection \<open>What an encoder appends, what a decoder reads\<close>

definition encodes :: "(encoder, 'e, unit) op \<Rightarrow> bytes \<Rightarrow> bool" where
  "encodes m bs \<longleftrightarrow> (\<forall>e. m e = (Inr (), extend_from_slice bs e))"

definition dec_at :: "bytes \<Rightarrow> bytes \<Rightarrow> decoder" where
  "dec_at pre post = \<lparr>dec_input = pre @ post, dec_position = length pre\<rparr>"

definition decodes :: "(decoder, 'e, 'a) op \<Rightarrow> bytes \<Rightarrow> 'a \<Rightarrow> bool" where
  "decodes m bs x \<longleftrightarrow>
     (\<forall>pre post. length (pre @ bs @ post) \<le> usize_max \<longrightarrow>
        m (dec_at pre (bs @ post)) = (Inr x, dec_at (pre @ bs) post))"

definition advances :: "decoder \<Rightarrow> decoder \<Rightarrow> bool" where
  "advances d d' \<longleftrightarrow>
     dec_input d' = dec_input d \<and>
     (dec_position d \<le> length (dec_input d) \<longrightarrow>
        dec_position d \<le> dec_position d' \<and> dec_position d' \<le> length (dec_input d))"

named_theorems enc_leaf "what an encoding operation appends"
named_theorems dec_leaf "what a decoding operation reads"

lemma extend_extend [simp]:
  "extend_from_slice cs (extend_from_slice bs e) = extend_from_slice (bs @ cs) e"
  by (simp add: extend_from_slice_def)

lemma extend_Nil [simp]: "extend_from_slice [] e = e"
  by (simp add: extend_from_slice_def)

lemma encodesD: "encodes m bs \<Longrightarrow> m e = (Inr (), extend_from_slice bs e)"
  by (simp add: encodes_def)

lemma encodes_modify [enc_leaf]: "encodes (modify (extend_from_slice bs)) bs"
  by (simp add: encodes_def op_simps)

lemma encodes_ret [enc_leaf]: "encodes (ret ()) []"
  by (simp add: encodes_def op_simps)

lemma encodes_bnd: "encodes m bs \<Longrightarrow> encodes (k ()) cs \<Longrightarrow> encodes (bnd m k) (bs @ cs)"
  by (simp add: encodes_def op_simps)

lemma encodes_seq_Nil: "encodes (seq_ops []) []"
  by (simp add: encodes_ret)

lemma encodes_seq_Cons:
  "encodes m bs \<Longrightarrow> encodes (seq_ops ms) cs \<Longrightarrow> encodes (seq_ops (m # ms)) (bs @ cs)"
  by (simp add: encodes_bnd)

lemma encodes_seq_single: "encodes m bs \<Longrightarrow> encodes (seq_ops [m]) bs"
  using encodes_seq_Cons [OF _ encodes_seq_Nil, of m bs] by simp

lemmas encodes_structure = encodes_seq_single encodes_seq_Cons encodes_seq_Nil encodes_bnd

lemma decodesD:
  "decodes m bs x \<Longrightarrow> length (pre @ bs @ post) \<le> usize_max \<Longrightarrow>
   m (dec_at pre (bs @ post)) = (Inr x, dec_at (pre @ bs) post)"
  by (simp add: decodes_def)

lemma decodes_ret [dec_leaf]: "decodes (ret x) [] x"
  by (simp add: decodes_def op_simps)

lemma decodes_bnd:
  assumes "decodes m bs x" and "decodes (k x) cs y"
  shows "decodes (bnd m k) (bs @ cs) y"
  unfolding decodes_def
proof (intro allI impI)
  fix pre post
  assume len: "length (pre @ (bs @ cs) @ post) \<le> usize_max"
  then have "m (dec_at pre (bs @ cs @ post)) = (Inr x, dec_at (pre @ bs) (cs @ post))"
    by (intro decodesD assms) simp
  moreover from len
  have "k x (dec_at (pre @ bs) (cs @ post)) = (Inr y, dec_at ((pre @ bs) @ cs) post)"
    by (intro decodesD assms) simp
  ultimately show "bnd m k (dec_at pre ((bs @ cs) @ post)) = (Inr y, dec_at (pre @ bs @ cs) post)"
    by (simp add: op_simps)
qed

lemma decodes_eq: "decodes m bs x \<Longrightarrow> bs = cs \<Longrightarrow> decodes m cs x"
  by simp

lemma decodes_bnd_last:
  assumes "decodes m bs x" "decodes (k x) [] y"
  shows "decodes (bnd m k) bs y"
  using decodes_bnd [where k = k, OF assms] by simp

lemma decodes_bnd_ret: "decodes m bs x \<Longrightarrow> f x = y \<Longrightarrow> decodes (bnd m (\<lambda>v. ret (f v))) bs y"
  by (rule decodes_bnd_last) (auto simp: decodes_ret)

lemma decodes_read_bytes [dec_leaf]: "n = length bs \<Longrightarrow> decodes (read_bytes n) bs bs"
  by (auto simp: decodes_def read_bytes_def dec_at_def checked_add_usize_def)

subsection \<open>The primitives\<close>

definition opaque_pad :: "bytes \<Rightarrow> bytes" where
  "opaque_pad v = v @ replicate (padding_len (length v)) 0"

definition opaque_wire :: "bytes \<Rightarrow> bytes" where
  "opaque_wire v = u32_to_be_bytes (of_nat (length v)) @ opaque_pad v"

definition bool_wire :: "bool \<Rightarrow> bytes" where
  "bool_wire b = u32_to_be_bytes (if b then 1 else 0)"

definition array_wire :: "('a \<Rightarrow> bytes) \<Rightarrow> 'a list \<Rightarrow> bytes" where
  "array_wire wire xs = u32_to_be_bytes (of_nat (length xs)) @ concat (map wire xs)"

definition optional_wire :: "('a \<Rightarrow> bytes) \<Rightarrow> 'a option \<Rightarrow> bytes" where
  "optional_wire wire x = (case x of None \<Rightarrow> bool_wire False | Some y \<Rightarrow> bool_wire True @ wire y)"

lemma padding_len_less: "padding_len n < 4"
  by (simp add: padding_len_def)

lemma padding_len_aligned: "4 dvd n + padding_len n"
proof -
  have "(n + (4 - n mod 4)) mod 4 = (n mod 4 + (4 - n mod 4)) mod 4"
    by (simp only: mod_add_left_eq)
  also have "n mod 4 + (4 - n mod 4) = 4"
    by (rule le_add_diff_inverse) (simp add: less_imp_le)
  finally show ?thesis
    by (simp only: padding_len_def dvd_eq_mod_eq_0 mod_add_right_eq mod_self)
qed

lemma padding_len_0 [simp]: "n mod 4 = 0 \<Longrightarrow> padding_len n = 0"
  by (simp add: padding_len_def)

lemma take_zeros: "n < 4 \<Longrightarrow> take n [0, 0, 0] = replicate n (0 :: 'a::zero)"
proof -
  assume "n < 4"
  moreover have "[0, 0, 0] = replicate 3 (0 :: 'a)" by (simp add: numeral_3_eq_3)
  ultimately show ?thesis by (simp add: min_def)
qed

lemma take_padding [simp]: "take (padding_len n) [0, 0, 0] = replicate (padding_len n) (0 :: u8)"
  by (rule take_zeros) (rule padding_len_less)

lemma length_opaque_pad_aligned [simp]: "4 dvd length (opaque_pad v)"
  using padding_len_aligned [of "length v"] by (simp add: opaque_pad_def)

lemma length_bool_wire [simp]: "length (bool_wire b) = 4"
  by (simp add: bool_wire_def)

lemma length_opaque_wire_aligned [simp]: "4 dvd length (opaque_wire v)"
  using length_opaque_pad_aligned [of v] by (simp add: opaque_wire_def del: length_opaque_pad_aligned)

lemma encodes_write_u32 [enc_leaf]: "encodes (write_u32 v) (u32_to_be_bytes v)"
  by (simp add: write_u32_def encodes_modify)

lemma encodes_write_i32 [enc_leaf]: "encodes (write_i32 v) (u32_to_be_bytes v)"
  by (simp add: write_i32_def encodes_modify)

lemma encodes_write_u64 [enc_leaf]: "encodes (write_u64 v) (u64_to_be_bytes v)"
  by (simp add: write_u64_def encodes_modify)

lemma encodes_write_i64 [enc_leaf]: "encodes (write_i64 v) (u64_to_be_bytes v)"
  by (simp add: write_i64_def encodes_modify)

lemma encodes_write_bool [enc_leaf]: "encodes (write_bool v) (bool_wire v)"
  by (simp add: write_bool_def bool_wire_def encodes_write_u32)

lemma encodes_write_discriminant [enc_leaf]: "encodes (write_discriminant v) (u32_to_be_bytes v)"
  by (simp add: write_discriminant_def encodes_write_i32)

lemma encodes_write_fixed_opaque [enc_leaf]: "encodes (write_fixed_opaque v) (opaque_pad v)"
  unfolding write_fixed_opaque_def write_padding_def opaque_pad_def take_padding
  by (rule encodes_bnd) (rule enc_leaf)+

lemma write_len_ok:
  "n \<le> limit \<Longrightarrow> n < 2 ^ 32 \<Longrightarrow> write_len n limit = write_u32 (of_nat n)"
  by (simp add: write_len_def checked_u32_len_def fun_eq_iff op_simps)

lemma write_len_limit: "n > limit \<Longrightarrow> write_len n limit = fail (LengthLimitExceeded n limit)"
  by (simp add: write_len_def)

lemma write_len_range:
  "n \<le> limit \<Longrightarrow> \<not> n < 2 ^ 32 \<Longrightarrow> write_len n limit = fail (LengthOutOfRange n)"
  by (simp add: write_len_def checked_u32_len_def u32_try_from_def fun_eq_iff op_simps)

lemma encodes_write_opaque [enc_leaf]:
  "length v \<le> limit \<Longrightarrow> length v < 2 ^ 32 \<Longrightarrow> encodes (write_opaque v limit) (opaque_wire v)"
  unfolding write_opaque_def opaque_wire_def
  by (simp only: write_len_ok) (rule encodes_bnd, (rule enc_leaf)+)

lemma encodes_write_string [enc_leaf]:
  "length v \<le> limit \<Longrightarrow> length v < 2 ^ 32 \<Longrightarrow>
   encodes (write_string v limit) (opaque_wire (as_bytes v))"
  unfolding write_string_def by (rule encodes_write_opaque) simp_all

lemma decodes_read_u32 [dec_leaf]: "decodes read_u32 (u32_to_be_bytes v) v"
  unfolding read_u32_def read_byte_array_def
  by (rule decodes_bnd_ret, rule decodes_read_bytes) simp_all

lemma decodes_read_i32 [dec_leaf]: "decodes read_i32 (u32_to_be_bytes v) v"
  unfolding read_i32_def read_byte_array_def
  by (rule decodes_bnd_ret, rule decodes_read_bytes) simp_all

lemma decodes_read_u64 [dec_leaf]: "decodes read_u64 (u64_to_be_bytes v) v"
  unfolding read_u64_def read_byte_array_def
  by (rule decodes_bnd_ret, rule decodes_read_bytes) simp_all

lemma decodes_read_i64 [dec_leaf]: "decodes read_i64 (u64_to_be_bytes v) v"
  unfolding read_i64_def read_byte_array_def
  by (rule decodes_bnd_ret, rule decodes_read_bytes) simp_all

lemma decodes_read_discriminant [dec_leaf]: "decodes read_discriminant (u32_to_be_bytes v) v"
  by (simp add: read_discriminant_def decodes_read_i32)

lemma decodes_read_bool [dec_leaf]: "decodes read_bool (bool_wire b) b"
  unfolding read_bool_def bool_wire_def
  by (rule decodes_bnd_last, rule decodes_read_u32) (auto simp: decodes_ret)

lemma decodes_skip_padding [dec_leaf]:
  "decodes (skip_padding n) (replicate (padding_len n) 0) ()"
  unfolding skip_padding_def by (rule decodes_bnd_ret, rule decodes_read_bytes) simp_all

lemma decodes_read_fixed_opaque [dec_leaf]:
  "n = length v \<Longrightarrow> decodes (read_fixed_opaque n) (opaque_pad v) v"
  unfolding read_fixed_opaque_def opaque_pad_def
  by (rule decodes_bnd, erule decodes_read_bytes, simp, rule decodes_bnd_ret,
      rule decodes_skip_padding) simp

lemma decodes_read_len:
  "n \<le> limit \<Longrightarrow> n < 2 ^ 32 \<Longrightarrow> decodes (read_len limit) (u32_to_be_bytes (of_nat n)) n"
  unfolding read_len_def
  by (rule decodes_bnd_last, rule decodes_read_u32) (auto simp: decodes_ret)

lemma decodes_read_opaque [dec_leaf]:
  "length v \<le> limit \<Longrightarrow> length v < 2 ^ 32 \<Longrightarrow> decodes (read_opaque limit) (opaque_wire v) v"
  unfolding read_opaque_def opaque_wire_def
  by (rule decodes_bnd, erule (1) decodes_read_len) (rule decodes_read_fixed_opaque, simp)

lemma decodes_read_opaque_vec [dec_leaf]:
  "length v \<le> limit \<Longrightarrow> length v < 2 ^ 32 \<Longrightarrow> decodes (read_opaque_vec limit) (opaque_wire v) v"
  by (simp add: read_opaque_vec_def decodes_read_opaque)

lemma decodes_read_string [dec_leaf]:
  assumes "length s \<le> limit" "length s < 2 ^ 32" "utf8_valid (as_bytes s)"
  shows "decodes (read_string limit) (opaque_wire (as_bytes s)) s"
  unfolding read_string_def
  by (rule decodes_bnd_last, rule decodes_read_opaque) (use assms in \<open>auto simp: decodes_ret\<close>)

lemma decodes_read_optional:
  assumes "\<And>y. x = Some y \<Longrightarrow> decodes dec (wire y) y"
  shows "decodes (read_optional dec) (optional_wire wire x) x"
proof (cases x)
  case None
  show ?thesis unfolding None read_optional_def optional_wire_def option.case
    by (rule decodes_bnd_last, rule decodes_read_bool) (simp add: decodes_ret)
next
  case (Some y)
  with assms have "decodes (bnd dec (\<lambda>v. ret (Some v))) (wire y) (Some y)"
    by (auto intro: decodes_bnd_ret)
  then have "decodes (if True then bnd dec (\<lambda>v. ret (Some v)) else ret None) (wire y) (Some y)"
    by simp
  then show ?thesis unfolding Some read_optional_def optional_wire_def option.case
    by (rule decodes_bnd [OF decodes_read_bool])
qed

lemma decodes_of_result [dec_leaf]: "r = Inr x \<Longrightarrow> decodes (of_result r) [] x"
  by (simp add: decodes_def of_result_apply)

lemma decodes_retI: "x = y \<Longrightarrow> decodes (ret x) [] y"
  by (simp add: decodes_ret)

lemma encodes_of_result [enc_leaf]: "r = Inr () \<Longrightarrow> encodes (of_result r) []"
  by (simp add: encodes_def of_result_apply)

subsection \<open>The contract of a wire type\<close>

locale xdr_codec =
  fixes enc :: "'a enc" and dec :: "'a dec" and wire :: "'a \<Rightarrow> bytes" and valid :: "'a \<Rightarrow> bool"
  assumes enc_wire: "valid x \<Longrightarrow> encodes (enc x) (wire x)"
    and dec_wire: "valid x \<Longrightarrow> decodes dec (wire x) x"
    and wire_aligned: "valid x \<Longrightarrow> 4 dvd length (wire x)"
begin

lemma to_bytes_wire: "valid x \<Longrightarrow> to_bytes enc x = Inr (wire x)"
  by (simp add: to_bytes_def encodesD [OF enc_wire] encoder_new_def into_bytes_def
      extend_from_slice_def)

lemma decode_prefix:
  assumes "valid x" "length (wire x @ rest) \<le> usize_max"
  shows "dec (decoder_new (wire x @ rest)) = (Inr x, dec_at (wire x) rest)"
  using decodesD [OF dec_wire [OF assms(1)], of "[]" rest] assms(2)
  by (simp add: dec_at_def decoder_new_def)

lemma roundtrip:
  assumes "valid x" "length (wire x) \<le> usize_max"
  shows "bindR (to_bytes enc x) (from_bytes dec) = Inr x"
  using decode_prefix [of x "[]"] assms
  by (simp add: to_bytes_wire from_bytes_def finish_def is_finished_def remaining_def dec_at_def)

lemma trailing_rejected:
  assumes "valid x" "length (wire x @ rest) \<le> usize_max" "rest \<noteq> []"
  shows "from_bytes dec (wire x @ rest) = Inl (TrailingBytes (length rest))"
  using decode_prefix [of x rest] assms
  by (simp add: from_bytes_def finish_def is_finished_def remaining_def dec_at_def)

lemma unique_decoding:
  assumes "valid x" "valid y" "wire x @ r = wire y @ q" "length (wire x @ r) \<le> usize_max"
  shows "x = y \<and> r = q"
proof -
  have "dec (decoder_new (wire x @ r)) = (Inr x, dec_at (wire x) r)"
    using assms by (intro decode_prefix)
  moreover have "dec (decoder_new (wire y @ q)) = (Inr y, dec_at (wire y) q)"
    using assms by (intro decode_prefix) auto
  ultimately have "x = y" using assms(3) by simp
  with assms(3) show ?thesis by simp
qed

lemma encodes_all: "list_all valid xs \<Longrightarrow> encodes (seq_ops (map enc xs)) (concat (map wire xs))"
proof (induction xs)
  case Nil
  then show ?case by (simp add: encodes_ret)
next
  case (Cons x xs)
  then show ?case by (simp add: encodes_bnd enc_wire)
qed

lemma decodes_all: "list_all valid xs \<Longrightarrow> decodes (read_n (length xs) dec) (concat (map wire xs)) xs"
proof (induction xs)
  case Nil
  then show ?case by (simp add: decodes_ret)
next
  case (Cons x xs)
  then have "decodes (bnd (read_n (length xs) dec) (\<lambda>vs. ret (x # vs))) (concat (map wire xs)) (x # xs)"
    by (intro decodes_bnd_ret) auto
  with Cons.prems show ?case by (auto intro!: decodes_bnd dec_wire)
qed

lemma aligned_all: "list_all valid xs \<Longrightarrow> 4 dvd length (concat (map wire xs))"
  by (induction xs) (simp_all add: wire_aligned)

lemma optional_encodes: "pred_option valid x \<Longrightarrow> encodes (write_optional enc x) (optional_wire wire x)"
  using encodes_bnd [where k = "\<lambda>_. ret ()", OF encodes_write_bool encodes_ret, of False]
  by (cases x) (auto simp: write_optional_def optional_wire_def
      intro!: encodes_bnd encodes_write_bool enc_wire)

lemma optional_decodes:
  "pred_option valid x \<Longrightarrow> decodes (read_optional dec) (optional_wire wire x) x"
  by (rule decodes_read_optional) (simp add: dec_wire)

lemma optional_aligned: "pred_option valid x \<Longrightarrow> 4 dvd length (optional_wire wire x)"
  by (cases x) (simp_all add: optional_wire_def wire_aligned)

lemma optional_codec:
  "xdr_codec (write_optional enc) (read_optional dec) (optional_wire wire) (pred_option valid)"
  by (rule xdr_codec.intro) (fact optional_encodes optional_decodes optional_aligned)+

end

text \<open>Arrays of a wire type are wire types.\<close>

locale xdr_array_codec = elem: xdr_codec enc dec wire valid
  for enc :: "'a enc" and dec wire valid +
  fixes limit :: usize
  assumes limit_u32: "limit < 2 ^ 32"
begin

lemma array_encodes:
  assumes "list_all valid xs" "length xs \<le> limit"
  shows "encodes (write_array enc xs limit) (array_wire wire xs)"
proof -
  have "write_len (length xs) limit = write_u32 (of_nat (length xs))"
    using assms(2) limit_u32 by (intro write_len_ok) simp_all
  then show ?thesis
    unfolding write_array_def array_wire_def
    by (simp add: encodes_bnd encodes_write_u32 elem.encodes_all assms(1))
qed

lemma array_decodes:
  assumes "list_all valid xs" "length xs \<le> limit"
  shows "decodes (read_array dec limit) (array_wire wire xs) xs"
  unfolding read_array_def array_wire_def
  by (rule decodes_bnd, rule decodes_read_len) (use assms limit_u32 in \<open>auto intro: elem.decodes_all\<close>)

lemma array_aligned: "list_all valid xs \<Longrightarrow> 4 dvd length (array_wire wire xs)"
  using elem.aligned_all [of xs] by (simp add: array_wire_def)

end

sublocale xdr_array_codec \<subseteq> arr: xdr_codec "\<lambda>xs. write_array enc xs limit" "read_array dec limit"
  "array_wire wire" "\<lambda>xs. list_all valid xs \<and> length xs \<le> limit"
  by (rule xdr_codec.intro; elim conjE) (fact array_encodes array_decodes | erule array_aligned)+

interpretation u32c: xdr_codec encode_u32 decode_u32 u32_to_be_bytes "\<lambda>_. True"
  by unfold_locales (simp_all add: encode_u32_def decode_u32_def enc_leaf dec_leaf)

interpretation i32c: xdr_codec encode_i32 decode_i32 u32_to_be_bytes "\<lambda>_. True"
  by unfold_locales (simp_all add: encode_i32_def decode_i32_def enc_leaf dec_leaf)

interpretation u64c: xdr_codec encode_u64 decode_u64 u64_to_be_bytes "\<lambda>_. True"
  by unfold_locales (simp_all add: encode_u64_def decode_u64_def enc_leaf dec_leaf)

interpretation i64c: xdr_codec encode_i64 decode_i64 u64_to_be_bytes "\<lambda>_. True"
  by unfold_locales (simp_all add: encode_i64_def decode_i64_def enc_leaf dec_leaf)

interpretation boolc: xdr_codec encode_bool decode_bool bool_wire "\<lambda>_. True"
  by unfold_locales (simp_all add: encode_bool_def decode_bool_def enc_leaf dec_leaf)

interpretation unitc: xdr_codec encode_unit decode_unit "\<lambda>_. []" "\<lambda>_. True"
  by unfold_locales (simp_all add: encode_unit_def decode_unit_def enc_leaf dec_leaf)

interpretation opaquec: xdr_codec "\<lambda>v. write_opaque v limit" "read_opaque_vec limit" opaque_wire
  "\<lambda>v. length v \<le> limit \<and> length v < 2 ^ 32" for limit
  by unfold_locales (simp_all add: enc_leaf dec_leaf)

interpretation stringc: xdr_codec "\<lambda>v. write_string v limit" "read_string limit"
  "\<lambda>v. opaque_wire (as_bytes v)"
  "\<lambda>v. length v \<le> limit \<and> length v < 2 ^ 32 \<and> utf8_valid (as_bytes v)" for limit
  by unfold_locales (simp_all add: enc_leaf dec_leaf)

lemmas base_enc_leaf [enc_leaf] =
  u32c.enc_wire [OF TrueI] i32c.enc_wire [OF TrueI] u64c.enc_wire [OF TrueI]
  i64c.enc_wire [OF TrueI] boolc.enc_wire [OF TrueI] unitc.enc_wire [OF TrueI]

lemmas base_dec_leaf [dec_leaf] =
  u32c.dec_wire [OF TrueI] i32c.dec_wire [OF TrueI] u64c.dec_wire [OF TrueI]
  i64c.dec_wire [OF TrueI] boolc.dec_wire [OF TrueI] unitc.dec_wire [OF TrueI]

subsection \<open>Decoding never leaves the input\<close>

lemma reflp_advances [simp, keeps_intros]: "reflp advances"
  by (auto simp: advances_def intro: reflpI)

lemma transp_advances [simp, keeps_intros]: "transp advances"
  by (auto simp: advances_def intro!: transpI)

lemma advances_read_bytes [keeps_intros]: "keeps advances (read_bytes n)"
  by (auto simp: keeps_def advances_def read_bytes_def checked_add_usize_def)

lemma advances_u32 [keeps_intros]: "keeps advances read_u32" "keeps advances decode_u32"
  unfolding decode_u32_def read_u32_def read_byte_array_def by (intro keeps_intros)+

lemma advances_i32 [keeps_intros]:
  "keeps advances read_i32" "keeps advances decode_i32" "keeps advances read_discriminant"
  unfolding decode_i32_def read_discriminant_def read_i32_def read_byte_array_def
  by (intro keeps_intros)+

lemma advances_u64 [keeps_intros]: "keeps advances read_u64" "keeps advances decode_u64"
  unfolding decode_u64_def read_u64_def read_byte_array_def by (intro keeps_intros)+

lemma advances_i64 [keeps_intros]: "keeps advances read_i64" "keeps advances decode_i64"
  unfolding decode_i64_def read_i64_def read_byte_array_def by (intro keeps_intros)+

lemma advances_bool [keeps_intros]: "keeps advances read_bool" "keeps advances decode_bool"
  unfolding decode_bool_def read_bool_def by (intro keeps_intros)+

lemma advances_opaque [keeps_intros]:
  "keeps advances (read_fixed_opaque n)" "keeps advances (read_fixed_opaque_unpadded n)"
  "keeps advances (read_len n)" "keeps advances (read_opaque n)"
  "keeps advances (read_opaque_vec n)" "keeps advances (read_string n)"
  unfolding read_string_def read_opaque_vec_def read_opaque_def read_len_def
    read_fixed_opaque_unpadded_def read_fixed_opaque_def skip_padding_def
  by (intro keeps_intros)+

lemma advances_read_n [keeps_intros]: "keeps advances dec \<Longrightarrow> keeps advances (read_n n dec)"
  by (induction n) (auto intro!: keeps_intros)

lemma advances_read_array [keeps_intros]: "keeps advances dec \<Longrightarrow> keeps advances (read_array dec n)"
  unfolding read_array_def by (intro keeps_intros) auto

lemma advances_read_optional [keeps_intros]:
  "keeps advances dec \<Longrightarrow> keeps advances (read_optional dec)"
  unfolding read_optional_def by (intro keeps_intros) auto

lemma advancesD:
  assumes "keeps advances m" "m (decoder_new bs) = (r, d)"
  shows "dec_input d = bs \<and> dec_position d \<le> length bs"
  using keepsD [OF assms] by (simp add: advances_def decoder_new_def)

lemma read_bytes_exact:
  assumes "dec_position d \<le> length (dec_input d)" "length (dec_input d) \<le> usize_max"
  shows "read_bytes n d =
    (if n \<le> remaining d
     then (Inr (take n (drop (dec_position d) (dec_input d))), d\<lparr>dec_position := dec_position d + n\<rparr>)
     else (Inl (UnexpectedEof n (remaining d)), d))"
  using assms by (auto simp: read_bytes_def checked_add_usize_def remaining_def)

subsection \<open>What a successful decoding has read\<close>

text \<open>
  The converse of \<open>decodes\<close>: whenever the decoder succeeds, it has read bytes that are related to
  its result by \<open>P\<close>. The decoder does not look at padding bytes, so \<open>P\<close> leaves them open.
\<close>

definition parses :: "(decoder, 'e, 'a) op \<Rightarrow> ('a \<Rightarrow> bytes \<Rightarrow> bool) \<Rightarrow> bool" where
  "parses m P \<longleftrightarrow>
     (\<forall>pre post x d. m (dec_at pre post) = (Inr x, d) \<longrightarrow>
        (\<exists>bs post'. post = bs @ post' \<and> d = dec_at (pre @ bs) post' \<and> P x bs))"

lemma parsesE:
  assumes "parses m P" "m (dec_at pre post) = (Inr x, d)"
  obtains bs post' where "post = bs @ post'" "d = dec_at (pre @ bs) post'" "P x bs"
  using assms unfolding parses_def by metis

lemma parses_bnd:
  assumes "parses m P" "\<And>x. parses (k x) (Q x)"
  shows "parses (bnd m k) (\<lambda>y cs. \<exists>x bs bs'. cs = bs @ bs' \<and> P x bs \<and> Q x y bs')"
  unfolding parses_def
proof (intro allI impI)
  fix pre post y d
  assume "bnd m k (dec_at pre post) = (Inr y, d)"
  then obtain x d1 where 1: "m (dec_at pre post) = (Inr x, d1)" "k x d1 = (Inr y, d)"
    by (auto simp: bnd_Inr_iff)
  from assms(1) 1(1) obtain bs post' where 2: "post = bs @ post'" "d1 = dec_at (pre @ bs) post'" "P x bs"
    by (rule parsesE)
  from assms(2) [of x] 1(2) 2(2) obtain bs' post'' where
    "post' = bs' @ post''" "d = dec_at ((pre @ bs) @ bs') post''" "Q x y bs'"
    by (auto elim: parsesE)
  with 2 show "\<exists>cs post''. post = cs @ post'' \<and> d = dec_at (pre @ cs) post'' \<and>
      (\<exists>x bs bs'. cs = bs @ bs' \<and> P x bs \<and> Q x y bs')"
    by (intro exI [of _ "bs @ bs'"] exI [of _ post'']) auto
qed

lemma parses_mono: "parses m P \<Longrightarrow> (\<And>x bs. P x bs \<Longrightarrow> Q x bs) \<Longrightarrow> parses m Q"
  unfolding parses_def by meson

lemma parses_ret: "parses (ret x) (\<lambda>y bs. y = x \<and> bs = [])"
  by (auto simp: parses_def op_simps)

lemma parses_fail: "parses (fail e) P"
  by (simp add: parses_def op_simps)

lemma parses_if:
  "(b \<Longrightarrow> parses m P) \<Longrightarrow> (\<not> b \<Longrightarrow> parses n P) \<Longrightarrow> parses (if b then m else n) P"
  by simp

lemma parses_bnd_ret:
  assumes "parses m P"
  shows "parses (bnd m (\<lambda>x. ret (f x))) (\<lambda>y bs. \<exists>x. y = f x \<and> P x bs)"
  by (rule parses_mono [OF parses_bnd [where k = "\<lambda>x. ret (f x)", OF assms parses_ret]]) auto

lemma parses_read_bytes: "parses (read_bytes n) (\<lambda>x bs. bs = x \<and> length x = n)"
  unfolding parses_def
proof (intro allI impI)
  fix pre post x d
  assume "read_bytes n (dec_at pre post) = (Inr x, d)"
  then have "n \<le> length post" "x = take n post" "d = dec_at (pre @ take n post) (drop n post)"
    by (auto simp: read_bytes_def dec_at_def checked_add_usize_def split: if_splits)
  then show "\<exists>bs post'. post = bs @ post' \<and> d = dec_at (pre @ bs) post' \<and> bs = x \<and> length x = n"
    by (intro exI [of _ "take n post"] exI [of _ "drop n post"]) simp
qed

lemma parses_read_u32: "parses read_u32 (\<lambda>v bs. bs = u32_to_be_bytes v)"
  unfolding read_u32_def read_byte_array_def
  by (rule parses_mono [OF parses_bnd_ret [OF parses_read_bytes]]) (auto simp: u32_to_from_be)

lemma parses_read_opaque:
  "parses (read_opaque limit)
     (\<lambda>v bs. \<exists>pad. bs = u32_to_be_bytes (of_nat (length v)) @ v @ pad \<and>
        length pad = padding_len (length v) \<and> length v \<le> limit)"
proof -
  have check: "parses (if unat v > limit then fail (LengthLimitExceeded (unat v) limit)
      else ret (unat v)) (\<lambda>n bs. n = unat v \<and> bs = [] \<and> n \<le> limit)" for v :: u32
    by (rule parses_if, rule parses_fail, rule parses_mono [OF parses_ret]) auto
  have len: "parses (read_len limit) (\<lambda>n bs. bs = u32_to_be_bytes (of_nat n) \<and> n \<le> limit)"
    unfolding read_len_def
    by (rule parses_mono [OF parses_bnd [OF parses_read_u32 check]]) auto
  have pad: "parses (skip_padding n) (\<lambda>_ bs. length bs = padding_len n)" for n
    unfolding skip_padding_def by (rule parses_mono [OF parses_bnd_ret [OF parses_read_bytes]]) auto
  have "parses (read_fixed_opaque n)
      (\<lambda>v bs. length v = n \<and> (\<exists>pad. bs = v @ pad \<and> length pad = padding_len n))" for n
    unfolding read_fixed_opaque_def
    by (rule parses_mono [OF parses_bnd [OF parses_read_bytes parses_bnd_ret [OF pad]]]) auto
  from parses_bnd [OF len this] show ?thesis
    unfolding read_opaque_def by (rule parses_mono) auto
qed

subsection \<open>What a decoder returns\<close>

lemma returns_read_bytes: "returns (\<lambda>v. length v = len) (read_bytes len)"
  by (auto simp: returns_def read_bytes_def checked_add_usize_def split: option.splits if_splits)

lemma returns_read_len: "returns (\<lambda>n. n \<le> limit) (read_len limit)"
  unfolding read_len_def by (intro returns_intros) simp

lemma returns_read_fixed_opaque: "returns (\<lambda>v. length v = len) (read_fixed_opaque len)"
  unfolding read_fixed_opaque_def
  by (rule returns_bnd_from [OF returns_read_bytes]) (intro returns_intros, simp)

lemma returns_read_opaque: "returns (\<lambda>v. length v \<le> limit) (read_opaque limit)"
  unfolding read_opaque_def
  by (rule returns_bnd_from [OF returns_read_len]) (use returns_read_fixed_opaque in \<open>force simp: returns_def\<close>)

lemma returns_read_n: "returns (\<lambda>xs. length xs = n) (read_n n dec)"
proof (induction n)
  case (Suc n)
  show ?case
    unfolding read_n.simps
    by (rule returns_bnd, rule returns_bnd_from [OF Suc.IH]) (intro returns_intros, simp)
qed (simp add: returns_ret)

lemma returns_read_array: "returns (\<lambda>xs. length xs \<le> limit) (read_array dec limit)"
  unfolding read_array_def
  by (rule returns_bnd_from [OF returns_read_len]) (use returns_read_n in \<open>force simp: returns_def\<close>)

end
