(* ===== verification/Nfs_Status.thy ===== *)
theory Nfs_Status
  imports Nfs_Prelude
begin

text \<open>
  The status enumerations of the three protocols: \<open>NfsStatus\<close> (\<open>src/v3/proto.rs\<close>), \<open>MountStatus\<close>
  (\<open>src/v3/mount.rs\<close>) and the NFSv4 \<open>Status\<close> (\<open>src/v4/proto.rs\<close>), with the conversions from and to
  the numbers on the wire and the classification predicates of \<open>Status\<close>. The \<open>match\<close> of each
  \<open>from_u32\<close> is a table, with \<open>Unknown\<close> for the numbers outside it. A
  datatype with the 112 variants of \<open>Status\<close> takes minutes to define; its variants are split into five consecutive
  ranges of the enumeration (\<open>posix4\<close>, \<open>state4\<close>, \<open>proto4\<close>, \<open>sess4\<close>, \<open>ext4\<close>), each under its own
  constructor of \<open>Status\<close>.

  The lemmas show that decoding and encoding are inverse to each other, so no two numbers are
  confused, and that the predicates classify a status in at most one of the ways the retry code
  branches on.
\<close>

subsection \<open>NFSv3 status (src/v3/proto.rs)\<close>

datatype NfsStatus =
    Ok | Perm | NoEnt | Io | Nxio | Access | Exist | Xdev | Nodev | NotDir | IsDir | Inval
    | Fbig | NoSpc | ReadOnlyFs | Mlink | NameTooLong | NotEmpty | Dquot | Stale | Remote
    | BadHandle | NotSync | BadCookie | NotSupported | TooSmall | ServerFault | BadType
    | Jukebox | Unknown u32

definition NfsStatus_codes :: "(u32 \<times> NfsStatus) list" where
  "NfsStatus_codes = [
     (0, NfsStatus.Ok), (1, NfsStatus.Perm), (2, NfsStatus.NoEnt), (5, NfsStatus.Io),
     (6, NfsStatus.Nxio), (13, NfsStatus.Access), (17, NfsStatus.Exist), (18, NfsStatus.Xdev),
     (19, NfsStatus.Nodev), (20, NfsStatus.NotDir), (21, NfsStatus.IsDir), (22, NfsStatus.Inval),
     (27, NfsStatus.Fbig), (28, NfsStatus.NoSpc), (30, NfsStatus.ReadOnlyFs),
     (31, NfsStatus.Mlink), (63, NfsStatus.NameTooLong), (66, NfsStatus.NotEmpty),
     (69, NfsStatus.Dquot), (70, NfsStatus.Stale), (71, NfsStatus.Remote),
     (10001, NfsStatus.BadHandle), (10002, NfsStatus.NotSync), (10003, NfsStatus.BadCookie),
     (10004, NfsStatus.NotSupported), (10005, NfsStatus.TooSmall),
     (10006, NfsStatus.ServerFault), (10007, NfsStatus.BadType), (10008, NfsStatus.Jukebox)]"

definition NfsStatus_from_u32 :: "u32 \<Rightarrow> NfsStatus" where
  "NfsStatus_from_u32 v = (case map_of NfsStatus_codes v of Some s \<Rightarrow> s | None \<Rightarrow> NfsStatus.Unknown v)"

primrec NfsStatus_as_u32 :: "NfsStatus \<Rightarrow> u32" where
  "NfsStatus_as_u32 NfsStatus.Ok = 0"
| "NfsStatus_as_u32 NfsStatus.Perm = 1"
| "NfsStatus_as_u32 NfsStatus.NoEnt = 2"
| "NfsStatus_as_u32 NfsStatus.Io = 5"
| "NfsStatus_as_u32 NfsStatus.Nxio = 6"
| "NfsStatus_as_u32 NfsStatus.Access = 13"
| "NfsStatus_as_u32 NfsStatus.Exist = 17"
| "NfsStatus_as_u32 NfsStatus.Xdev = 18"
| "NfsStatus_as_u32 NfsStatus.Nodev = 19"
| "NfsStatus_as_u32 NfsStatus.NotDir = 20"
| "NfsStatus_as_u32 NfsStatus.IsDir = 21"
| "NfsStatus_as_u32 NfsStatus.Inval = 22"
| "NfsStatus_as_u32 NfsStatus.Fbig = 27"
| "NfsStatus_as_u32 NfsStatus.NoSpc = 28"
| "NfsStatus_as_u32 NfsStatus.ReadOnlyFs = 30"
| "NfsStatus_as_u32 NfsStatus.Mlink = 31"
| "NfsStatus_as_u32 NfsStatus.NameTooLong = 63"
| "NfsStatus_as_u32 NfsStatus.NotEmpty = 66"
| "NfsStatus_as_u32 NfsStatus.Dquot = 69"
| "NfsStatus_as_u32 NfsStatus.Stale = 70"
| "NfsStatus_as_u32 NfsStatus.Remote = 71"
| "NfsStatus_as_u32 NfsStatus.BadHandle = 10001"
| "NfsStatus_as_u32 NfsStatus.NotSync = 10002"
| "NfsStatus_as_u32 NfsStatus.BadCookie = 10003"
| "NfsStatus_as_u32 NfsStatus.NotSupported = 10004"
| "NfsStatus_as_u32 NfsStatus.TooSmall = 10005"
| "NfsStatus_as_u32 NfsStatus.ServerFault = 10006"
| "NfsStatus_as_u32 NfsStatus.BadType = 10007"
| "NfsStatus_as_u32 NfsStatus.Jukebox = 10008"
| "NfsStatus_as_u32 (NfsStatus.Unknown value) = value"

subsection \<open>MOUNT status (src/v3/mount.rs)\<close>

datatype MountStatus =
    Ok | Perm | NoEnt | Io | Access | NotDir | Invalid | NameTooLong | NotSupported
    | ServerFault | Unknown u32

definition MountStatus_codes :: "(u32 \<times> MountStatus) list" where
  "MountStatus_codes = [
     (0, MountStatus.Ok), (1, MountStatus.Perm), (2, MountStatus.NoEnt), (5, MountStatus.Io),
     (13, MountStatus.Access), (20, MountStatus.NotDir), (22, MountStatus.Invalid),
     (63, MountStatus.NameTooLong), (10004, MountStatus.NotSupported),
     (10006, MountStatus.ServerFault)]"

definition MountStatus_from_u32 :: "u32 \<Rightarrow> MountStatus" where
  "MountStatus_from_u32 v = (case map_of MountStatus_codes v of Some s \<Rightarrow> s | None \<Rightarrow> MountStatus.Unknown v)"

subsection \<open>NFSv4 status (src/v4/proto.rs)\<close>

datatype posix4 =
    Ok | Perm | NoEnt | Io | Nxio | Access | Exist | Xdev | NotDir | IsDir | Inval | Fbig
    | NoSpc | ReadOnlyFs | Mlink | NameTooLong | NotEmpty | Dquot | Stale

datatype state4 =
    Same | Denied | Expired | Locked | Grace | FhExpired | ShareDenied | BadHandle | BadCookie
    | NotSupported | TooSmall | ServerFault | BadType | Delay | ClidInUse | Resource | Moved
    | StaleClientId | StaleStateId | OldStateId | BadStateId

datatype proto4 =
    BadSeqId | NotSame | LockRange | Symlink | RestoreFh | LeaseMoved | AttrNotSupp | NoGrace
    | ReclaimBad | ReclaimConflict | BadXdr | LocksHeld | OpenMode | BadOwner | BadChar
    | BadName | BadRange | LockNotSupp | OpIllegal | Deadlock | FileOpen | WrongSec
    | NoFileHandle | MinorVersionMismatch | AdminRevoked | CbPathDown

datatype sess4 =
    BadIoMode | BadLayout | BadSessionDigest | BadSession | BadSlot | CompleteAlready
    | ConnNotBoundToSession | DelegAlreadyWanted | BackChanBusy | LayoutTryLater
    | LayoutUnavailable | NoMatchingLayout | RecallConflict | UnknownLayoutType | SeqMisordered
    | SequencePos | ReqTooBig | RepTooBig | RepTooBigToCache | RetryUncachedRep | UnsafeCompound
    | TooManyOps | SeqFalseRetry | OpNotInSession

datatype ext4 =
    HashAlgUnsupported | ClientIdBusy | BadHighSlot | DeadSession | EncrAlgUnsupported
    | PnfsIoHole | PnfsNoLayout | NotOnlyOp | WrongCred | WrongType | DirDelegUnavailable
    | RejectDeleg | ReturnConflict | DelegRevoked | PartnerNotSupp | PartnerNoAuth
    | UnionNotSupported | OffloadDenied | WrongLfs | BadLabel | OffloadNoReqs

datatype Status =
    Posix posix4 | State state4 | Proto proto4 | Sess sess4 | Ext ext4 | Unknown u32

definition posix4_codes :: "(u32 \<times> posix4) list" where
  "posix4_codes = [
     (0, posix4.Ok), (1, posix4.Perm), (2, posix4.NoEnt), (5, posix4.Io), (6, posix4.Nxio),
     (13, posix4.Access), (17, posix4.Exist), (18, posix4.Xdev), (20, posix4.NotDir),
     (21, posix4.IsDir), (22, posix4.Inval), (27, posix4.Fbig), (28, posix4.NoSpc),
     (30, posix4.ReadOnlyFs), (31, posix4.Mlink), (63, posix4.NameTooLong),
     (66, posix4.NotEmpty), (69, posix4.Dquot), (70, posix4.Stale)]"

definition state4_codes :: "(u32 \<times> state4) list" where
  "state4_codes = [
     (10009, state4.Same), (10010, state4.Denied), (10011, state4.Expired),
     (10012, state4.Locked), (10013, state4.Grace), (10014, state4.FhExpired),
     (10015, state4.ShareDenied), (10001, state4.BadHandle), (10003, state4.BadCookie),
     (10004, state4.NotSupported), (10005, state4.TooSmall), (10006, state4.ServerFault),
     (10007, state4.BadType), (10008, state4.Delay), (10017, state4.ClidInUse),
     (10018, state4.Resource), (10019, state4.Moved), (10022, state4.StaleClientId),
     (10023, state4.StaleStateId), (10024, state4.OldStateId), (10025, state4.BadStateId)]"

definition proto4_codes :: "(u32 \<times> proto4) list" where
  "proto4_codes = [
     (10026, proto4.BadSeqId), (10027, proto4.NotSame), (10028, proto4.LockRange),
     (10029, proto4.Symlink), (10030, proto4.RestoreFh), (10031, proto4.LeaseMoved),
     (10032, proto4.AttrNotSupp), (10033, proto4.NoGrace), (10034, proto4.ReclaimBad),
     (10035, proto4.ReclaimConflict), (10036, proto4.BadXdr), (10037, proto4.LocksHeld),
     (10038, proto4.OpenMode), (10039, proto4.BadOwner), (10040, proto4.BadChar),
     (10041, proto4.BadName), (10042, proto4.BadRange), (10043, proto4.LockNotSupp),
     (10044, proto4.OpIllegal), (10045, proto4.Deadlock), (10046, proto4.FileOpen),
     (10016, proto4.WrongSec), (10020, proto4.NoFileHandle),
     (10021, proto4.MinorVersionMismatch), (10047, proto4.AdminRevoked),
     (10048, proto4.CbPathDown)]"

definition sess4_codes :: "(u32 \<times> sess4) list" where
  "sess4_codes = [
     (10049, sess4.BadIoMode), (10050, sess4.BadLayout), (10051, sess4.BadSessionDigest),
     (10052, sess4.BadSession), (10053, sess4.BadSlot), (10054, sess4.CompleteAlready),
     (10055, sess4.ConnNotBoundToSession), (10056, sess4.DelegAlreadyWanted),
     (10057, sess4.BackChanBusy), (10058, sess4.LayoutTryLater),
     (10059, sess4.LayoutUnavailable), (10060, sess4.NoMatchingLayout),
     (10061, sess4.RecallConflict), (10062, sess4.UnknownLayoutType),
     (10063, sess4.SeqMisordered), (10064, sess4.SequencePos), (10065, sess4.ReqTooBig),
     (10066, sess4.RepTooBig), (10067, sess4.RepTooBigToCache), (10068, sess4.RetryUncachedRep),
     (10069, sess4.UnsafeCompound), (10070, sess4.TooManyOps), (10076, sess4.SeqFalseRetry),
     (10071, sess4.OpNotInSession)]"

definition ext4_codes :: "(u32 \<times> ext4) list" where
  "ext4_codes = [
     (10072, ext4.HashAlgUnsupported), (10074, ext4.ClientIdBusy), (10077, ext4.BadHighSlot),
     (10078, ext4.DeadSession), (10079, ext4.EncrAlgUnsupported), (10075, ext4.PnfsIoHole),
     (10080, ext4.PnfsNoLayout), (10081, ext4.NotOnlyOp), (10082, ext4.WrongCred),
     (10083, ext4.WrongType), (10084, ext4.DirDelegUnavailable), (10085, ext4.RejectDeleg),
     (10086, ext4.ReturnConflict), (10087, ext4.DelegRevoked), (10088, ext4.PartnerNotSupp),
     (10089, ext4.PartnerNoAuth), (10090, ext4.UnionNotSupported), (10091, ext4.OffloadDenied),
     (10092, ext4.WrongLfs), (10093, ext4.BadLabel), (10094, ext4.OffloadNoReqs)]"

definition Status_codes :: "(u32 \<times> Status) list" where
  "Status_codes =
     map (apsnd Posix) posix4_codes @
     map (apsnd State) state4_codes @
     map (apsnd Proto) proto4_codes @
     map (apsnd Sess) sess4_codes @
     map (apsnd Ext) ext4_codes"

definition Status_from_u32 :: "u32 \<Rightarrow> Status" where
  "Status_from_u32 v = (case map_of Status_codes v of Some s \<Rightarrow> s | None \<Rightarrow> Status.Unknown v)"

primrec posix4_as_u32 :: "posix4 \<Rightarrow> u32" where
  "posix4_as_u32 posix4.Ok = 0"
| "posix4_as_u32 posix4.Perm = 1"
| "posix4_as_u32 posix4.NoEnt = 2"
| "posix4_as_u32 posix4.Io = 5"
| "posix4_as_u32 posix4.Nxio = 6"
| "posix4_as_u32 posix4.Access = 13"
| "posix4_as_u32 posix4.Exist = 17"
| "posix4_as_u32 posix4.Xdev = 18"
| "posix4_as_u32 posix4.NotDir = 20"
| "posix4_as_u32 posix4.IsDir = 21"
| "posix4_as_u32 posix4.Inval = 22"
| "posix4_as_u32 posix4.Fbig = 27"
| "posix4_as_u32 posix4.NoSpc = 28"
| "posix4_as_u32 posix4.ReadOnlyFs = 30"
| "posix4_as_u32 posix4.Mlink = 31"
| "posix4_as_u32 posix4.NameTooLong = 63"
| "posix4_as_u32 posix4.NotEmpty = 66"
| "posix4_as_u32 posix4.Dquot = 69"
| "posix4_as_u32 posix4.Stale = 70"

primrec state4_as_u32 :: "state4 \<Rightarrow> u32" where
  "state4_as_u32 state4.Same = 10009"
| "state4_as_u32 state4.Denied = 10010"
| "state4_as_u32 state4.Expired = 10011"
| "state4_as_u32 state4.Locked = 10012"
| "state4_as_u32 state4.Grace = 10013"
| "state4_as_u32 state4.FhExpired = 10014"
| "state4_as_u32 state4.ShareDenied = 10015"
| "state4_as_u32 state4.BadHandle = 10001"
| "state4_as_u32 state4.BadCookie = 10003"
| "state4_as_u32 state4.NotSupported = 10004"
| "state4_as_u32 state4.TooSmall = 10005"
| "state4_as_u32 state4.ServerFault = 10006"
| "state4_as_u32 state4.BadType = 10007"
| "state4_as_u32 state4.Delay = 10008"
| "state4_as_u32 state4.ClidInUse = 10017"
| "state4_as_u32 state4.Resource = 10018"
| "state4_as_u32 state4.Moved = 10019"
| "state4_as_u32 state4.StaleClientId = 10022"
| "state4_as_u32 state4.StaleStateId = 10023"
| "state4_as_u32 state4.OldStateId = 10024"
| "state4_as_u32 state4.BadStateId = 10025"

primrec proto4_as_u32 :: "proto4 \<Rightarrow> u32" where
  "proto4_as_u32 proto4.BadSeqId = 10026"
| "proto4_as_u32 proto4.NotSame = 10027"
| "proto4_as_u32 proto4.LockRange = 10028"
| "proto4_as_u32 proto4.Symlink = 10029"
| "proto4_as_u32 proto4.RestoreFh = 10030"
| "proto4_as_u32 proto4.LeaseMoved = 10031"
| "proto4_as_u32 proto4.AttrNotSupp = 10032"
| "proto4_as_u32 proto4.NoGrace = 10033"
| "proto4_as_u32 proto4.ReclaimBad = 10034"
| "proto4_as_u32 proto4.ReclaimConflict = 10035"
| "proto4_as_u32 proto4.BadXdr = 10036"
| "proto4_as_u32 proto4.LocksHeld = 10037"
| "proto4_as_u32 proto4.OpenMode = 10038"
| "proto4_as_u32 proto4.BadOwner = 10039"
| "proto4_as_u32 proto4.BadChar = 10040"
| "proto4_as_u32 proto4.BadName = 10041"
| "proto4_as_u32 proto4.BadRange = 10042"
| "proto4_as_u32 proto4.LockNotSupp = 10043"
| "proto4_as_u32 proto4.OpIllegal = 10044"
| "proto4_as_u32 proto4.Deadlock = 10045"
| "proto4_as_u32 proto4.FileOpen = 10046"
| "proto4_as_u32 proto4.WrongSec = 10016"
| "proto4_as_u32 proto4.NoFileHandle = 10020"
| "proto4_as_u32 proto4.MinorVersionMismatch = 10021"
| "proto4_as_u32 proto4.AdminRevoked = 10047"
| "proto4_as_u32 proto4.CbPathDown = 10048"

primrec sess4_as_u32 :: "sess4 \<Rightarrow> u32" where
  "sess4_as_u32 sess4.BadIoMode = 10049"
| "sess4_as_u32 sess4.BadLayout = 10050"
| "sess4_as_u32 sess4.BadSessionDigest = 10051"
| "sess4_as_u32 sess4.BadSession = 10052"
| "sess4_as_u32 sess4.BadSlot = 10053"
| "sess4_as_u32 sess4.CompleteAlready = 10054"
| "sess4_as_u32 sess4.ConnNotBoundToSession = 10055"
| "sess4_as_u32 sess4.DelegAlreadyWanted = 10056"
| "sess4_as_u32 sess4.BackChanBusy = 10057"
| "sess4_as_u32 sess4.LayoutTryLater = 10058"
| "sess4_as_u32 sess4.LayoutUnavailable = 10059"
| "sess4_as_u32 sess4.NoMatchingLayout = 10060"
| "sess4_as_u32 sess4.RecallConflict = 10061"
| "sess4_as_u32 sess4.UnknownLayoutType = 10062"
| "sess4_as_u32 sess4.SeqMisordered = 10063"
| "sess4_as_u32 sess4.SequencePos = 10064"
| "sess4_as_u32 sess4.ReqTooBig = 10065"
| "sess4_as_u32 sess4.RepTooBig = 10066"
| "sess4_as_u32 sess4.RepTooBigToCache = 10067"
| "sess4_as_u32 sess4.RetryUncachedRep = 10068"
| "sess4_as_u32 sess4.UnsafeCompound = 10069"
| "sess4_as_u32 sess4.TooManyOps = 10070"
| "sess4_as_u32 sess4.SeqFalseRetry = 10076"
| "sess4_as_u32 sess4.OpNotInSession = 10071"

primrec ext4_as_u32 :: "ext4 \<Rightarrow> u32" where
  "ext4_as_u32 ext4.HashAlgUnsupported = 10072"
| "ext4_as_u32 ext4.ClientIdBusy = 10074"
| "ext4_as_u32 ext4.BadHighSlot = 10077"
| "ext4_as_u32 ext4.DeadSession = 10078"
| "ext4_as_u32 ext4.EncrAlgUnsupported = 10079"
| "ext4_as_u32 ext4.PnfsIoHole = 10075"
| "ext4_as_u32 ext4.PnfsNoLayout = 10080"
| "ext4_as_u32 ext4.NotOnlyOp = 10081"
| "ext4_as_u32 ext4.WrongCred = 10082"
| "ext4_as_u32 ext4.WrongType = 10083"
| "ext4_as_u32 ext4.DirDelegUnavailable = 10084"
| "ext4_as_u32 ext4.RejectDeleg = 10085"
| "ext4_as_u32 ext4.ReturnConflict = 10086"
| "ext4_as_u32 ext4.DelegRevoked = 10087"
| "ext4_as_u32 ext4.PartnerNotSupp = 10088"
| "ext4_as_u32 ext4.PartnerNoAuth = 10089"
| "ext4_as_u32 ext4.UnionNotSupported = 10090"
| "ext4_as_u32 ext4.OffloadDenied = 10091"
| "ext4_as_u32 ext4.WrongLfs = 10092"
| "ext4_as_u32 ext4.BadLabel = 10093"
| "ext4_as_u32 ext4.OffloadNoReqs = 10094"

primrec Status_as_u32 :: "Status \<Rightarrow> u32" where
  "Status_as_u32 (Posix s) = posix4_as_u32 s"
| "Status_as_u32 (State s) = state4_as_u32 s"
| "Status_as_u32 (Proto s) = proto4_as_u32 s"
| "Status_as_u32 (Sess s) = sess4_as_u32 s"
| "Status_as_u32 (Ext s) = ext4_as_u32 s"
| "Status_as_u32 (Status.Unknown value) = value"


definition Status_is_ok :: "Status \<Rightarrow> bool" where
  "Status_is_ok s \<longleftrightarrow> s = Posix posix4.Ok"

definition Status_is_retryable :: "Status \<Rightarrow> bool" where
  "Status_is_retryable s \<longleftrightarrow> s \<in> set [
       State state4.Delay, State state4.Grace]"

definition Status_requires_session_recovery :: "Status \<Rightarrow> bool" where
  "Status_requires_session_recovery s \<longleftrightarrow> s \<in> set [
       Sess sess4.BadSession, Sess sess4.ConnNotBoundToSession, Ext ext4.DeadSession,
       State state4.StaleClientId, State state4.Expired]"

definition Status_indicates_lost_state :: "Status \<Rightarrow> bool" where
  "Status_indicates_lost_state s \<longleftrightarrow> s \<in> set [
       Proto proto4.AdminRevoked, State state4.BadStateId, Ext ext4.DelegRevoked,
       State state4.Expired, Proto proto4.LeaseMoved, Proto proto4.NoGrace,
       State state4.OldStateId, Proto proto4.ReclaimBad, Proto proto4.ReclaimConflict,
       State state4.StaleClientId, State state4.StaleStateId]"

subsection \<open>Numbers and variants\<close>

text \<open>
  The contract of a status enumeration: the table has one row per number, the number of a variant
  is the one of its row, and every variant but \<open>unknown\<close> has a row.
\<close>

locale status_codes =
  fixes codes :: "(u32 \<times> 's) list" and as_u32 :: "'s \<Rightarrow> u32" and unknown :: "u32 \<Rightarrow> 's"
  assumes codes_distinct: "distinct (map fst codes)"
    and codes_as: "list_all (\<lambda>(c, s). as_u32 s = c \<and> s \<noteq> unknown c) codes"
    and unknown_as: "as_u32 (unknown v) = v"
    and codes_complete: "(\<exists>v. s = unknown v) \<or> (as_u32 s, s) \<in> set codes"
begin

lemma as_from: "as_u32 (case map_of codes v of Some s \<Rightarrow> s | None \<Rightarrow> unknown v) = v"
  using codes_as by (auto simp: unknown_as list_all_iff split: option.split dest: map_of_SomeD)

lemma from_inject:
  assumes "(case map_of codes v of Some s \<Rightarrow> s | None \<Rightarrow> unknown v) =
    (case map_of codes w of Some s \<Rightarrow> s | None \<Rightarrow> unknown w)"
  shows "v = w"
  using as_from [of v] as_from [of w] assms by simp

lemma from_as_known:
  assumes "(as_u32 s, s) \<in> set codes"
  shows "(case map_of codes (as_u32 s) of Some s \<Rightarrow> s | None \<Rightarrow> unknown (as_u32 s)) = s"
  using assms codes_distinct by simp

lemma from_not_hidden:
  "(case map_of codes v of Some s \<Rightarrow> s | None \<Rightarrow> unknown v) \<notin> unknown ` fst ` set codes"
proof
  assume "(case map_of codes v of Some s \<Rightarrow> s | None \<Rightarrow> unknown v) \<in> unknown ` fst ` set codes"
  then obtain c where c: "(case map_of codes v of Some s \<Rightarrow> s | None \<Rightarrow> unknown v) = unknown c"
    "c \<in> fst ` set codes" by blast
  with as_from [of v] have "c = v" by (simp add: unknown_as)
  with c(2) obtain s where "map_of codes v = Some s" by (cases "map_of codes v") (auto simp: map_of_eq_None_iff)
  with c(1) \<open>c = v\<close> codes_as show False by (auto simp: list_all_iff dest!: map_of_SomeD)
qed

lemma from_bij:
  "bij_betw (\<lambda>v. case map_of codes v of Some s \<Rightarrow> s | None \<Rightarrow> unknown v) UNIV
     (- (unknown ` fst ` set codes))"
proof (rule bij_betw_imageI)
  show "inj (\<lambda>v. case map_of codes v of Some s \<Rightarrow> s | None \<Rightarrow> unknown v)"
    by (rule injI) (erule from_inject)
  show "range (\<lambda>v. case map_of codes v of Some s \<Rightarrow> s | None \<Rightarrow> unknown v) =
      - (unknown ` fst ` set codes)"
  proof (intro equalityI subsetI)
    fix s
    assume s: "s \<in> - (unknown ` fst ` set codes)"
    show "s \<in> range (\<lambda>v. case map_of codes v of Some s \<Rightarrow> s | None \<Rightarrow> unknown v)"
    proof (cases "(as_u32 s, s) \<in> set codes")
      case True
      from from_as_known [OF this] show ?thesis
        by (intro image_eqI [of _ _ "as_u32 s"]) (rule sym, assumption, rule UNIV_I)
    next
      case False
      then obtain v where v: "s = unknown v" using codes_complete by blast
      with s have "map_of codes v = None" by (auto simp: map_of_eq_None_iff)
      with v show ?thesis by (intro image_eqI [of _ _ v]) simp_all
    qed
  qed (use from_not_hidden in auto)
qed

end

lemma distinct_codesI: "distinct (map (unat \<circ> fst) codes) \<Longrightarrow> distinct (map fst codes)"
  by (metis distinct_map map_map)

lemmas Status_codes_defs = Status_codes_def posix4_codes_def state4_codes_def proto4_codes_def
  sess4_codes_def ext4_codes_def

lemma in_codesI: "map_of (map prod.swap codes) s = Some c \<Longrightarrow> (c, s) \<in> set codes"
  by (auto dest: map_of_SomeD)

lemma NfsStatus_cases:
  "(\<exists>v. s = NfsStatus.Unknown v) \<or> (NfsStatus_as_u32 s, s) \<in> set NfsStatus_codes"
proof (cases "\<exists>v. s = NfsStatus.Unknown v")
  case False
  then have "map_of (map prod.swap NfsStatus_codes) s = Some (NfsStatus_as_u32 s)"
    by (cases s; simp add: NfsStatus_codes_def)
  then show ?thesis by (blast intro: in_codesI)
qed simp

lemma posix4_in_codes: "(posix4_as_u32 x, x) \<in> set posix4_codes"
  by (rule in_codesI) (cases x; simp add: posix4_codes_def)

lemma state4_in_codes: "(state4_as_u32 x, x) \<in> set state4_codes"
  by (rule in_codesI) (cases x; simp add: state4_codes_def)

lemma proto4_in_codes: "(proto4_as_u32 x, x) \<in> set proto4_codes"
  by (rule in_codesI) (cases x; simp add: proto4_codes_def)

lemma sess4_in_codes: "(sess4_as_u32 x, x) \<in> set sess4_codes"
  by (rule in_codesI) (cases x; simp add: sess4_codes_def)

lemma ext4_in_codes: "(ext4_as_u32 x, x) \<in> set ext4_codes"
  by (rule in_codesI) (cases x; simp add: ext4_codes_def)

lemma in_apsnd: "(c, x) \<in> set t \<Longrightarrow> (c, f x) \<in> set (map (apsnd f) t)"
  by (auto simp: image_iff intro!: bexI [of _ "(c, x)"])

lemma Status_cases: "(\<exists>v. s = Status.Unknown v) \<or> (Status_as_u32 s, s) \<in> set Status_codes"
  by (cases s) (simp_all only: Status_as_u32.simps Status_codes_def set_append Un_iff simp_thms
      in_apsnd [OF posix4_in_codes] in_apsnd [OF state4_in_codes] in_apsnd [OF proto4_in_codes]
      in_apsnd [OF sess4_in_codes] in_apsnd [OF ext4_in_codes] Status.inject ex_simps)

interpretation n3: status_codes NfsStatus_codes NfsStatus_as_u32 NfsStatus.Unknown
proof
  show "distinct (map fst NfsStatus_codes)"
    by (rule distinct_codesI) (simp add: NfsStatus_codes_def)
  show "(\<exists>v. s = NfsStatus.Unknown v) \<or> (NfsStatus_as_u32 s, s) \<in> set NfsStatus_codes" for s
    by (rule NfsStatus_cases)
qed (simp_all add: NfsStatus_codes_def)

interpretation s4: status_codes Status_codes Status_as_u32 Status.Unknown
proof
  show "distinct (map fst Status_codes)"
    by (rule distinct_codesI) (simp add: Status_codes_defs)
  show "(\<exists>v. s = Status.Unknown v) \<or> (Status_as_u32 s, s) \<in> set Status_codes" for s
    by (rule Status_cases)
qed (simp_all add: Status_codes_defs)

text \<open>The status numbers of both protocol versions are read and written without loss: \<open>from_u32\<close>
  is a bijection between the 32-bit numbers and the variants (an \<open>Unknown\<close> that hides a known number
  is the only value it never produces), and \<open>as_u32\<close> is its inverse.\<close>

lemma status_numbers_bijective:
  "bij_betw NfsStatus_from_u32 UNIV (- (NfsStatus.Unknown ` fst ` set NfsStatus_codes)) \<and>
   NfsStatus_as_u32 (NfsStatus_from_u32 v) = v \<and>
   bij_betw Status_from_u32 UNIV (- (Status.Unknown ` fst ` set Status_codes)) \<and>
   Status_as_u32 (Status_from_u32 v) = v"
  using n3.from_bij n3.as_from [of v] s4.from_bij s4.as_from [of v]
  unfolding NfsStatus_from_u32_def [abs_def] Status_from_u32_def [abs_def] by blast

text \<open>The statuses on which the clients wait and repeat the call (\<open>Delay\<close>, \<open>Grace\<close>) are disjoint
  from those that need a new session and from those that mean lost state, so no reply is handled by
  two recovery mechanisms at once; none of them is \<open>Ok\<close>.\<close>

lemma status_classes_disjoint:
  "\<not> (Status_is_retryable s \<and> Status_requires_session_recovery s) \<and>
   \<not> (Status_is_retryable s \<and> Status_indicates_lost_state s) \<and>
   \<not> (Status_is_ok s \<and> (Status_is_retryable s \<or> Status_requires_session_recovery s \<or>
      Status_indicates_lost_state s))"
  by (auto simp: Status_is_retryable_def Status_requires_session_recovery_def
      Status_indicates_lost_state_def Status_is_ok_def)

end
