(* ===== verification/Nfs_Error.thy ===== *)
theory Nfs_Error
  imports Xdr Nfs_Status
begin

text \<open>
  The crate's error type and its classification methods (\<open>src/error.rs\<close>). A
  \<open>std::io::Error\<close> is its \<open>ErrorKind\<close>; the kinds the crate never names are \<open>OtherKind\<close>. A message
  built by \<open>format!\<close> is its format string with the list of its arguments.

  The lemmas show how the predicates look through the wrappers \<open>Cleanup\<close> and \<open>OutcomeUnknown\<close>, and
  that an error whose request may have executed is never reported as retryable.
\<close>

subsection \<open>Errors\<close>

datatype io_kind =
    NotFound | PermissionDenied | ConnectionRefused | ConnectionReset | ConnectionAborted
  | NotConnected | BrokenPipe | AlreadyExists | WouldBlock | InvalidInput | TimedOut
  | Interrupted | IoUnexpectedEof | WriteZero | OtherKind

datatype fmt_arg = FNat nat | FInt int | FStr string

datatype error =
    Io io_kind
  | Xdr xdr_error
  | InvalidTarget string
  | InvalidPath string
  | NameTooLong string usize
  | LengthOutOfRange usize
  | Protocol string "fmt_arg list"
  | RpcConnectionInvalid
  | OutcomeUnknown error
  | LockLost Status
  | Cleanup string error error
  | RpcMismatch u32 u32
  | RpcUnexpectedMessageType u32
  | RpcDenied u32 u32
  | RpcAcceptedError u32
  | RpcProgramMismatch u32 u32
  | RpcRecordTooLarge usize usize
  | PortUnavailable u32 u32
  | Mount MountStatus
  | Nfs string NfsStatus
  | NfsV4 string Status

type_synonym 'a result = "error + 'a"

text \<open>\<open>?\<close> in a function that returns \<open>Result<T, Error>\<close> converts the error of the callee (the
  \<open>From\<close> impls of \<open>src/error.rs\<close>).\<close>

definition from_xdr :: "('s, xdr_error, 'a) op \<Rightarrow> ('s, error, 'a) op" where
  "from_xdr m = map_err Xdr m"

definition from_io :: "('s, io_kind, 'a) op \<Rightarrow> ('s, error, 'a) op" where
  "from_io m = map_err Io m"

definition is_retryable_io_error :: "io_kind \<Rightarrow> bool" where
  "is_retryable_io_error k \<longleftrightarrow>
     k \<in> set [Interrupted, TimedOut, WouldBlock, IoUnexpectedEof, ConnectionAborted,
       ConnectionReset, ConnectionRefused, BrokenPipe, NotConnected]"

fun is_outcome_unknown :: "error \<Rightarrow> bool" where
  "is_outcome_unknown e =
     (case e of
        OutcomeUnknown _ \<Rightarrow> True
      | Cleanup _ primary _ \<Rightarrow> is_outcome_unknown primary
      | _ \<Rightarrow> False)"

fun is_transport_failure :: "error \<Rightarrow> bool" where
  "is_transport_failure e =
     (case e of
        RpcConnectionInvalid \<Rightarrow> True
      | Io k \<Rightarrow> is_retryable_io_error k
      | OutcomeUnknown err \<Rightarrow> is_transport_failure err
      | _ \<Rightarrow> False)"

definition error_cleanup :: "string \<Rightarrow> error \<Rightarrow> error \<Rightarrow> error" where
  "error_cleanup context primary cleanup = Cleanup context primary cleanup"

fun is_not_found :: "error \<Rightarrow> bool" where
  "is_not_found e =
     (case e of
        Cleanup _ primary _ \<Rightarrow> is_not_found primary
      | Io k \<Rightarrow> k = NotFound
      | Mount status \<Rightarrow> status = MountStatus.NoEnt
      | Nfs _ status \<Rightarrow> status = NfsStatus.NoEnt
      | NfsV4 _ status \<Rightarrow> status = Posix posix4.NoEnt
      | _ \<Rightarrow> False)"

fun is_permission_denied :: "error \<Rightarrow> bool" where
  "is_permission_denied e =
     (case e of
        Cleanup _ primary _ \<Rightarrow> is_permission_denied primary
      | Io k \<Rightarrow> k = PermissionDenied
      | Mount status \<Rightarrow> status \<in> set [MountStatus.Perm, MountStatus.Access]
      | Nfs _ status \<Rightarrow> status \<in> set [NfsStatus.Perm, NfsStatus.Access]
      | NfsV4 _ status \<Rightarrow> status \<in> set [Posix posix4.Perm, Posix posix4.Access,
          Ext ext4.PartnerNoAuth, Ext ext4.WrongCred, Proto proto4.WrongSec]
      | _ \<Rightarrow> False)"

fun is_retryable :: "error \<Rightarrow> bool" where
  "is_retryable e =
     (case e of
        Cleanup _ primary _ \<Rightarrow> is_retryable primary
      | Io k \<Rightarrow> is_retryable_io_error k
      | Nfs _ status \<Rightarrow> status = NfsStatus.Jukebox
      | NfsV4 _ status \<Rightarrow> Status_is_retryable status
      | _ \<Rightarrow> False)"

fun requires_session_recovery :: "error \<Rightarrow> bool" where
  "requires_session_recovery e =
     (case e of
        Cleanup _ primary cleanup \<Rightarrow>
          requires_session_recovery primary \<or> requires_session_recovery cleanup
      | NfsV4 _ status \<Rightarrow> Status_requires_session_recovery status
      | _ \<Rightarrow> False)"

fun is_no_space :: "error \<Rightarrow> bool" where
  "is_no_space e =
     (case e of
        Cleanup _ primary _ \<Rightarrow> is_no_space primary
      | Nfs _ status \<Rightarrow> status \<in> set [NfsStatus.NoSpc, NfsStatus.Dquot]
      | NfsV4 _ status \<Rightarrow> status \<in> set [Posix posix4.NoSpc, Posix posix4.Dquot]
      | _ \<Rightarrow> False)"

fun is_read_only :: "error \<Rightarrow> bool" where
  "is_read_only e =
     (case e of
        Cleanup _ primary _ \<Rightarrow> is_read_only primary
      | Nfs _ status \<Rightarrow> status = NfsStatus.ReadOnlyFs
      | NfsV4 _ status \<Rightarrow> status = Posix posix4.ReadOnlyFs
      | _ \<Rightarrow> False)"

fun is_stale_handle :: "error \<Rightarrow> bool" where
  "is_stale_handle e =
     (case e of
        Cleanup _ primary _ \<Rightarrow> is_stale_handle primary
      | Nfs _ status \<Rightarrow> status \<in> set [NfsStatus.Stale, NfsStatus.BadHandle]
      | NfsV4 _ status \<Rightarrow> status \<in> set [Posix posix4.Stale, State state4.BadHandle, State state4.FhExpired]
      | _ \<Rightarrow> False)"

fun is_lost_state :: "error \<Rightarrow> bool" where
  "is_lost_state e =
     (case e of
        LockLost _ \<Rightarrow> True
      | Cleanup _ primary cleanup \<Rightarrow> is_lost_state primary \<or> is_lost_state cleanup
      | NfsV4 _ status \<Rightarrow> Status_indicates_lost_state status
      | _ \<Rightarrow> False)"

fun is_session_recoverable :: "error \<Rightarrow> bool" where
  "is_session_recoverable e =
     (case e of
        Cleanup _ primary cleanup \<Rightarrow> is_session_recoverable primary \<or> is_session_recoverable cleanup
      | NfsV4 _ status \<Rightarrow> Status_requires_session_recovery status
      | _ \<Rightarrow> False)"

fun is_already_exists :: "error \<Rightarrow> bool" where
  "is_already_exists e =
     (case e of
        Cleanup _ primary _ \<Rightarrow> is_already_exists primary
      | Io k \<Rightarrow> k = AlreadyExists
      | Nfs _ status \<Rightarrow> status = NfsStatus.Exist
      | NfsV4 _ status \<Rightarrow> status = Posix posix4.Exist
      | _ \<Rightarrow> False)"

subsection \<open>Classification\<close>

lemma encodes_from_xdr [enc_leaf]: "encodes m bs \<Longrightarrow> encodes (from_xdr m) bs"
  by (simp add: encodes_def from_xdr_def op_simps)

lemma decodes_from_xdr [dec_leaf]: "decodes m bs x \<Longrightarrow> decodes (from_xdr m) bs x"
  by (simp add: decodes_def from_xdr_def op_simps)

lemma parses_from_xdr: "parses m P \<Longrightarrow> parses (from_xdr m) P"
  by (simp add: parses_def from_xdr_def map_err_Inr_iff)

lemma errs_from_xdr [errs_intros]: "(\<And>e. P (Xdr e)) \<Longrightarrow> errs P (from_xdr m)"
  unfolding from_xdr_def by (rule errs_map_err) (simp add: errs_def)

lemma keeps_from_xdr [keeps_intros]: "keeps R m \<Longrightarrow> keeps R (from_xdr m)"
  by (simp add: from_xdr_def keeps_map_err)

lemma cleanup_transparent:
  "is_outcome_unknown (Cleanup c p q) = is_outcome_unknown p"
  "is_not_found (Cleanup c p q) = is_not_found p"
  "is_permission_denied (Cleanup c p q) = is_permission_denied p"
  "is_retryable (Cleanup c p q) = is_retryable p"
  "is_no_space (Cleanup c p q) = is_no_space p"
  "is_read_only (Cleanup c p q) = is_read_only p"
  "is_stale_handle (Cleanup c p q) = is_stale_handle p"
  "is_already_exists (Cleanup c p q) = is_already_exists p"
  by simp_all

text \<open>A request that may have executed is never classified as retryable, as missing, as denied,
  as out of space, as already existing, as read-only or as stale: callers that branch on these
  predicates cannot mistake an unknown outcome for a definite one, and a retry on \<open>is_retryable\<close>
  cannot repeat a write. This also holds when the error was wrapped by any number of cleanup
  failures.\<close>

lemma outcome_unknown_exclusive:
  assumes "is_outcome_unknown e"
  shows "\<not> is_retryable e \<and> \<not> is_not_found e \<and> \<not> is_permission_denied e \<and>
    \<not> is_no_space e \<and> \<not> is_already_exists e \<and> \<not> is_read_only e \<and> \<not> is_stale_handle e"
  using assms by (induction e) auto

lemma outcome_unknown_exclusive_witness:
  "is_outcome_unknown (Cleanup ''cleanup REMOVE'' (OutcomeUnknown (Io TimedOut)) (Io TimedOut)) \<and>
   \<not> is_retryable (Cleanup ''cleanup REMOVE'' (OutcomeUnknown (Io TimedOut)) (Io TimedOut))"
  using outcome_unknown_exclusive
    [of "Cleanup ''cleanup REMOVE'' (OutcomeUnknown (Io TimedOut)) (Io TimedOut)"]
  by simp

lemma session_predicates_agree: "is_session_recoverable e \<longleftrightarrow> requires_session_recovery e"
  by (induction e) auto

lemma transport_failure_is_io:
  "is_transport_failure e \<Longrightarrow> \<not> is_outcome_unknown e \<Longrightarrow>
   e = RpcConnectionInvalid \<or> (\<exists>k. e = Io k \<and> is_retryable_io_error k)"
  by (cases e) auto

end
