(* ===== verification/Retry.thy ===== *)
theory Retry
  imports Nfs_Prelude
begin

text \<open>
  The backoff policy (\<open>src/retry.rs\<close>). A \<open>std::time::Duration\<close> is its number of nanoseconds; the
  largest one has \<open>u64::MAX\<close> seconds and 999,999,999 nanoseconds, where \<open>saturating_mul\<close> stops.

  The lemmas show when a retry is granted, that its delay is exactly the capped power of two, and
  that delays never decrease and never exceed the configured maximum.
\<close>

subsection \<open>Durations\<close>

type_synonym duration = nat

definition duration_max :: duration where
  "duration_max = (2 ^ 64 - 1) * 10 ^ 9 + 999999999"

definition from_millis :: "nat \<Rightarrow> duration" where
  "from_millis n = n * 10 ^ 6"

definition from_secs :: "nat \<Rightarrow> duration" where
  "from_secs n = n * 10 ^ 9"

definition duration_saturating_mul :: "duration \<Rightarrow> u32 \<Rightarrow> duration" where
  "duration_saturating_mul d k = min (d * unat k) duration_max"

definition u32_checked_shl :: "u32 \<Rightarrow> u32 \<Rightarrow> u32 option" where
  "u32_checked_shl a k = (if unat k < 32 then Some (push_bit (unat k) a) else None)"

subsection \<open>The policy\<close>

record RetryPolicy =
  max_retries :: u32
  initial_delay :: duration
  max_delay :: duration

definition RetryPolicy_new :: "u32 \<Rightarrow> duration \<Rightarrow> duration \<Rightarrow> RetryPolicy" where
  "RetryPolicy_new retries initial delay =
     \<lparr>max_retries = retries, initial_delay = initial, max_delay = delay\<rparr>"

definition RetryPolicy_disabled :: RetryPolicy where
  "RetryPolicy_disabled = \<lparr>max_retries = 0, initial_delay = 0, max_delay = 0\<rparr>"

definition RetryPolicy_default :: RetryPolicy where
  "RetryPolicy_default =
     \<lparr>max_retries = 3, initial_delay = from_millis 50, max_delay = from_secs 1\<rparr>"

definition delay_for_retry :: "RetryPolicy \<Rightarrow> u32 \<Rightarrow> duration option" where
  "delay_for_retry p retry =
     (if max_retries p \<le> retry then None
      else
        let multiplier = (case u32_checked_shl 1 (min retry 31) of Some m \<Rightarrow> m | None \<Rightarrow> - 1)
        in Some (min (duration_saturating_mul (initial_delay p) multiplier) (max_delay p)))"

subsection \<open>Delays\<close>

lemma delay_for_retry_None [simp]: "delay_for_retry p r = None \<longleftrightarrow> max_retries p \<le> r"
  by (simp add: delay_for_retry_def Let_def)

lemma unat_min_31: "unat (min r 31 :: u32) = min (unat r) 31"
  by (auto simp: min_def word_le_nat_alt)

lemma multiplier_eq:
  "(case u32_checked_shl 1 (min r 31) of Some m \<Rightarrow> m | None \<Rightarrow> - 1) = push_bit (min (unat r) 31) 1"
proof -
  have "min (unat r) 31 < 32" by (simp add: min_def)
  then show ?thesis by (simp add: u32_checked_shl_def unat_min_31 del: push_bit_of_1)
qed

lemma unat_push_bit_one: "k < 32 \<Longrightarrow> unat (push_bit k 1 :: u32) = 2 ^ k"
  using power_strict_increasing [of k 32 "2 :: nat"]
  by (simp add: unsigned_push_bit_eq take_bit_nat_eq_self del: push_bit_of_1)

definition backoff :: "RetryPolicy \<Rightarrow> nat \<Rightarrow> duration" where
  "backoff p n = min (min (initial_delay p * 2 ^ min n 31) duration_max) (max_delay p)"

lemma delay_for_retry_backoff:
  "delay_for_retry p r = (if unat r < unat (max_retries p) then Some (backoff p (unat r)) else None)"
proof -
  have "min (unat r) 31 < 32" by (simp add: min_def)
  then show ?thesis
    by (simp add: delay_for_retry_def multiplier_eq duration_saturating_mul_def backoff_def
        unat_push_bit_one word_le_nat_alt Let_def del: push_bit_of_1)
qed

lemma backoff_mono: "m \<le> n \<Longrightarrow> backoff p m \<le> backoff p n"
  unfolding backoff_def by (intro min.mono mult_le_mono2 power_increasing) auto

lemma backoff_capped: "backoff p n \<le> max_delay p"
  by (simp only: backoff_def min.cobounded2)

text \<open>A retry is granted exactly while fewer than \<open>max_retries\<close> were made, and its delay is the
  initial delay times two to the power of the retry number (the exponent stops at 31, the product
  at the largest duration), capped by \<open>max_delay\<close>: no shift or multiplication of the computation
  overflows.\<close>

lemma delay_for_retry_exact:
  "delay_for_retry p r =
     (if unat r < unat (max_retries p)
      then Some (min (min (initial_delay p * 2 ^ min (unat r) 31) duration_max) (max_delay p))
      else None)"
  using delay_for_retry_backoff [of p r] unfolding backoff_def .

text \<open>Backoff is monotone: a later retry never waits less than an earlier one, and every wait is
  at most \<open>max_delay\<close>.\<close>

lemma delay_for_retry_mono:
  assumes "r \<le> r'" "delay_for_retry p r = Some d" "delay_for_retry p r' = Some d'"
  shows "d \<le> d' \<and> d' \<le> max_delay p"
  using assms backoff_mono [of "unat r" "unat r'" p] backoff_capped [of p "unat r'"]
  by (simp add: delay_for_retry_backoff word_le_nat_alt split: if_splits)

lemma delay_for_retry_mono_witness:
  "delay_for_retry RetryPolicy_default 1 = Some (from_millis 100) \<and>
   delay_for_retry RetryPolicy_default 2 = Some (from_millis 200) \<and>
   from_millis 100 \<le> from_millis 200 \<and> from_millis 200 \<le> max_delay RetryPolicy_default"
proof -
  have "delay_for_retry RetryPolicy_default 1 = Some (from_millis 100)"
    "delay_for_retry RetryPolicy_default 2 = Some (from_millis 200)"
    by (simp_all add: delay_for_retry_backoff backoff_def RetryPolicy_default_def from_millis_def
        from_secs_def duration_max_def)
  with delay_for_retry_mono [of 1 2 RetryPolicy_default "from_millis 100" "from_millis 200"]
  show ?thesis by simp
qed

end
