(* ===== verification/Rpc_Message.thy ===== *)
theory Rpc_Message
  imports Nfs_Error "HOL-Library.Sublist"
begin

text \<open>
  The messages of ONC RPC (\<open>src/rpc.rs\<close>): the \<open>AUTH_SYS\<close> credential and its normalisation to the
  limits of the wire format, the encoding of a call and the decoding of a reply.

  The lemmas show that the normalised credential always encodes (whatever the process identity or
  the host name was), which groups and which part of the name it keeps, and exactly which replies
  yield a payload.
\<close>

subsection \<open>Constants\<close>

definition RPC_VERSION :: u32 where "RPC_VERSION = 2"
definition AUTH_NONE :: u32 where "AUTH_NONE = 0"
definition AUTH_SYS :: u32 where "AUTH_SYS = 1"
definition AUTH_SYS_MACHINE_NAME_MAX :: usize where "AUTH_SYS_MACHINE_NAME_MAX = 255"
definition AUTH_SYS_MAX_GROUPS :: usize where "AUTH_SYS_MAX_GROUPS = 16"
definition MSG_CALL :: u32 where "MSG_CALL = 0"
definition MSG_REPLY :: u32 where "MSG_REPLY = 1"
definition REPLY_ACCEPTED :: u32 where "REPLY_ACCEPTED = 0"
definition REPLY_DENIED :: u32 where "REPLY_DENIED = 1"
definition ACCEPT_SUCCESS :: u32 where "ACCEPT_SUCCESS = 0"
definition ACCEPT_PROG_MISMATCH :: u32 where "ACCEPT_PROG_MISMATCH = 2"
definition REJECT_RPC_MISMATCH :: u32 where "REJECT_RPC_MISMATCH = 0"
definition REJECT_AUTH_ERROR :: u32 where "REJECT_AUTH_ERROR = 1"

lemmas rpc_consts =
  RPC_VERSION_def AUTH_NONE_def AUTH_SYS_def AUTH_SYS_MACHINE_NAME_MAX_def AUTH_SYS_MAX_GROUPS_def
  MSG_CALL_def MSG_REPLY_def REPLY_ACCEPTED_def REPLY_DENIED_def ACCEPT_SUCCESS_def
  ACCEPT_PROG_MISMATCH_def REJECT_RPC_MISMATCH_def REJECT_AUTH_ERROR_def

subsection \<open>Normalisation of credentials\<close>

fun normalize_auxiliary_gids_loop :: "u32 \<Rightarrow> u32 list \<Rightarrow> u32 list \<Rightarrow> u32 list" where
  "normalize_auxiliary_gids_loop primary_gid normalized [] = normalized"
| "normalize_auxiliary_gids_loop primary_gid normalized (gid # groups) =
     (if gid = primary_gid \<or> gid \<in> set normalized
      then normalize_auxiliary_gids_loop primary_gid normalized groups
      else
        let normalized = normalized @ [gid] in
        if length normalized = AUTH_SYS_MAX_GROUPS then normalized
        else normalize_auxiliary_gids_loop primary_gid normalized groups)"

definition normalize_auxiliary_gids :: "u32 \<Rightarrow> u32 list \<Rightarrow> u32 list" where
  "normalize_auxiliary_gids primary_gid groups = normalize_auxiliary_gids_loop primary_gid [] groups"

text \<open>The \<open>while\<close> loop counts down to a character boundary; 0 is one.\<close>

function boundary_at_most :: "bytes \<Rightarrow> usize \<Rightarrow> usize" where
  "boundary_at_most name len =
     (if is_char_boundary name len then len else boundary_at_most name (len - 1))"
  by pat_completeness auto
termination
  by (relation "measure snd") (auto simp: is_char_boundary_def split: if_splits)

declare boundary_at_most.simps [simp del]

definition normalized_machine_name_len :: "string \<Rightarrow> usize" where
  "normalized_machine_name_len machine_name =
     (if length machine_name \<le> AUTH_SYS_MACHINE_NAME_MAX then length machine_name
      else boundary_at_most (as_bytes machine_name) AUTH_SYS_MACHINE_NAME_MAX)"

definition normalize_machine_name :: "string \<Rightarrow> string" where
  "normalize_machine_name machine_name =
     take (normalized_machine_name_len machine_name) machine_name"

definition normalized_machine_name_ref :: "string \<Rightarrow> string" where
  "normalized_machine_name_ref machine_name =
     take (normalized_machine_name_len machine_name) machine_name"

subsection \<open>Credentials\<close>

record AuthSys =
  auth_stamp :: u32
  auth_machine_name :: string
  auth_uid :: u32
  auth_gid :: u32
  auth_gids :: "u32 list"

text \<open>\<open>default_stamp\<close> reads the system clock; its value is the argument \<open>stamp\<close>.\<close>

definition AuthSys_new :: "u32 \<Rightarrow> string \<Rightarrow> u32 \<Rightarrow> u32 \<Rightarrow> u32 list \<Rightarrow> AuthSys" where
  "AuthSys_new stamp machine_name uid gid gids =
     \<lparr>auth_stamp = stamp, auth_machine_name = normalize_machine_name machine_name,
      auth_uid = uid, auth_gid = gid, auth_gids = normalize_auxiliary_gids gid gids\<rparr>"

definition default_stamp :: "nat \<Rightarrow> u32 \<Rightarrow> u32" where
  "default_stamp secs subsec_nanos = of_nat secs XOR subsec_nanos"

definition encode_AuthSys :: "AuthSys enc" where
  "encode_AuthSys a =
     (let gids = normalize_auxiliary_gids (auth_gid a) (auth_gids a) in
      seq_ops
        [write_u32 (auth_stamp a),
         write_string (normalized_machine_name_ref (auth_machine_name a)) AUTH_SYS_MACHINE_NAME_MAX,
         write_u32 (auth_uid a),
         write_u32 (auth_gid a),
         write_array encode_u32 gids AUTH_SYS_MAX_GROUPS])"

datatype Auth = AuthNone | Sys AuthSys

definition encode_opaque_auth :: "Auth \<Rightarrow> (encoder, error, unit) op" where
  "encode_opaque_auth auth =
     (case auth of
        AuthNone \<Rightarrow> seq_ops [from_xdr (write_u32 AUTH_NONE), from_xdr (write_opaque [] 400)]
      | Sys a \<Rightarrow>
          bnd (from_xdr (of_result (to_bytes encode_AuthSys a))) (\<lambda>body.
          seq_ops [from_xdr (write_u32 AUTH_SYS), from_xdr (write_opaque body 400)]))"

subsection \<open>Calls and replies\<close>

text \<open>\<open>args\<close> is the call \<open>args.encode(&mut encoder)\<close> of the argument's \<open>Encode\<close> impl.\<close>

definition encode_call ::
    "u32 \<Rightarrow> u32 \<Rightarrow> u32 \<Rightarrow> u32 \<Rightarrow> Auth \<Rightarrow> (encoder, xdr_error, unit) op \<Rightarrow> bytes result" where
  "encode_call xid program version procedure auth args =
     (case seq_ops
        [from_xdr (write_u32 xid), from_xdr (write_u32 MSG_CALL), from_xdr (write_u32 RPC_VERSION),
         from_xdr (write_u32 program), from_xdr (write_u32 version),
         from_xdr (write_u32 procedure),
         encode_opaque_auth auth, encode_opaque_auth AuthNone, from_xdr args] encoder_new of
        (Inl e, _) \<Rightarrow> Inl e
      | (Inr _, encoder) \<Rightarrow> Inr (into_bytes encoder))"

definition ensure_rpc_reply_consumed :: "(decoder, error, unit) op" where
  "ensure_rpc_reply_consumed decoder =
     (if is_finished decoder then (Inr (), decoder)
      else (Inl (Xdr (TrailingBytes (remaining decoder))), decoder))"

definition read_opaque_auth :: "(decoder, error, u32 \<times> bytes) op" where
  "read_opaque_auth =
     bnd (from_xdr read_u32) (\<lambda>flavor.
     bnd (from_xdr (read_opaque 400)) (\<lambda>body. ret (flavor, body)))"

definition decode_accepted_reply :: "(decoder, error, bytes) op" where
  "decode_accepted_reply =
     bnd read_opaque_auth (\<lambda>_.
     bnd (from_xdr read_u32) (\<lambda>accept_stat.
       if accept_stat = ACCEPT_SUCCESS then
         (\<lambda>d. from_xdr (read_fixed_opaque_unpadded (remaining d)) d)
       else if accept_stat = ACCEPT_PROG_MISMATCH then
         bnd (from_xdr read_u32) (\<lambda>low.
         bnd (from_xdr read_u32) (\<lambda>high.
         bnd ensure_rpc_reply_consumed (\<lambda>_. fail (RpcProgramMismatch low high))))
       else
         bnd ensure_rpc_reply_consumed (\<lambda>_. fail (RpcAcceptedError accept_stat))))"

definition decode_denied_reply :: "(decoder, error, bytes) op" where
  "decode_denied_reply =
     bnd (from_xdr read_u32) (\<lambda>reject_stat.
       if reject_stat = REJECT_RPC_MISMATCH then
         bnd (from_xdr read_u32) (\<lambda>low.
         bnd (from_xdr read_u32) (\<lambda>high.
         bnd ensure_rpc_reply_consumed (\<lambda>_. fail (RpcProgramMismatch low high))))
       else if reject_stat = REJECT_AUTH_ERROR then
         bnd (from_xdr read_u32) (\<lambda>auth_stat.
         bnd ensure_rpc_reply_consumed (\<lambda>_. fail (RpcDenied REJECT_AUTH_ERROR auth_stat)))
       else
         bnd ensure_rpc_reply_consumed (\<lambda>_. fail (RpcDenied reject_stat 0)))"

definition decode_reply_from :: "u32 \<Rightarrow> (decoder, error, bytes) op" where
  "decode_reply_from expected_xid =
     bnd (from_xdr read_u32) (\<lambda>actual_xid.
     if actual_xid \<noteq> expected_xid then fail (RpcMismatch expected_xid actual_xid)
     else
       bnd (from_xdr read_u32) (\<lambda>message_type.
       if message_type \<noteq> MSG_REPLY then fail (RpcUnexpectedMessageType message_type)
       else
         bnd (from_xdr read_u32) (\<lambda>v.
         if v = REPLY_ACCEPTED then decode_accepted_reply
         else if v = REPLY_DENIED then decode_denied_reply
         else bnd ensure_rpc_reply_consumed (\<lambda>_. fail (RpcDenied v 0)))))"

definition decode_reply :: "u32 \<Rightarrow> bytes \<Rightarrow> bytes result" where
  "decode_reply expected_xid reply = fst (decode_reply_from expected_xid (decoder_new reply))"

subsection \<open>Which groups are kept\<close>

text \<open>The reference: drop the primary group, keep first occurrences, keep sixteen.\<close>

definition first_occurrences :: "'a list \<Rightarrow> 'a list" where
  "first_occurrences xs = rev (remdups (rev xs))"

lemma first_occurrences_snoc:
  "first_occurrences (xs @ [x]) =
     (if x \<in> set xs then first_occurrences xs else first_occurrences xs @ [x])"
  by (simp add: first_occurrences_def)

lemma set_first_occurrences [simp]: "set (first_occurrences xs) = set xs"
  by (simp add: first_occurrences_def)

lemma distinct_first_occurrences [simp]: "distinct (first_occurrences xs)"
  by (simp add: first_occurrences_def)

lemma first_occurrences_append:
  "\<exists>zs. first_occurrences (xs @ ys) = first_occurrences xs @ zs"
proof (induction ys rule: rev_induct)
  case Nil
  then show ?case by simp
next
  case (snoc y ys)
  then show ?case
    using first_occurrences_snoc [of "xs @ ys" y] by auto
qed

lemma normalize_loop_eq:
  assumes "acc = first_occurrences (filter (\<lambda>g. g \<noteq> p) seen)" "length acc < AUTH_SYS_MAX_GROUPS"
  shows "normalize_auxiliary_gids_loop p acc gs =
    take AUTH_SYS_MAX_GROUPS (first_occurrences (filter (\<lambda>g. g \<noteq> p) (seen @ gs)))"
  using assms
proof (induction p acc gs arbitrary: seen rule: normalize_auxiliary_gids_loop.induct)
  case (1 p acc)
  then show ?case by simp
next
  case (2 p acc g gs)
  show ?case
  proof (cases "g = p \<or> g \<in> set acc")
    case True
    then have "acc = first_occurrences (filter (\<lambda>g. g \<noteq> p) (seen @ [g]))"
      using "2.prems"(1) by (auto simp: first_occurrences_snoc)
    from "2.IH"(1) [OF True this] True "2.prems"(2) show ?thesis by simp
  next
    case False
    then have acc: "acc @ [g] = first_occurrences (filter (\<lambda>g. g \<noteq> p) (seen @ [g]))"
      using "2.prems"(1) by (auto simp: first_occurrences_snoc)
    show ?thesis
    proof (cases "length (acc @ [g]) = AUTH_SYS_MAX_GROUPS")
      case True
      obtain zs where "first_occurrences (filter (\<lambda>g. g \<noteq> p) (seen @ g # gs)) = (acc @ [g]) @ zs"
        using first_occurrences_append
          [of "filter (\<lambda>g. g \<noteq> p) (seen @ [g])" "filter (\<lambda>g. g \<noteq> p) gs"] acc
        by (auto split: if_splits)
      moreover have "take AUTH_SYS_MAX_GROUPS ((acc @ [g]) @ zs) = acc @ [g]"
        unfolding True [symmetric] by simp
      ultimately show ?thesis using False True by simp
    next
      case neq: False
      with "2.prems"(2) have "length (acc @ [g]) < AUTH_SYS_MAX_GROUPS" by simp
      from "2.IH"(2) [OF False refl neq acc this] False neq show ?thesis by (simp add: Let_def)
    qed
  qed
qed

lemma normalize_auxiliary_gids_eq:
  "normalize_auxiliary_gids p gs =
     take AUTH_SYS_MAX_GROUPS (first_occurrences (filter (\<lambda>g. g \<noteq> p) gs))"
  using normalize_loop_eq [of "[]" p "[]" gs]
  by (simp add: normalize_auxiliary_gids_def first_occurrences_def AUTH_SYS_MAX_GROUPS_def)

lemma length_normalize_gids: "length (normalize_auxiliary_gids p gs) \<le> AUTH_SYS_MAX_GROUPS"
  by (simp add: normalize_auxiliary_gids_eq)

lemma distinct_normalize_gids: "distinct (normalize_auxiliary_gids p gs)"
  by (simp add: normalize_auxiliary_gids_eq distinct_take)

lemma primary_not_normalized: "p \<notin> set (normalize_auxiliary_gids p gs)"
  by (auto simp: normalize_auxiliary_gids_eq dest!: in_set_takeD)

lemma first_occurrences_distinct: "distinct xs \<Longrightarrow> first_occurrences xs = xs"
  by (simp add: first_occurrences_def distinct_remdups_id)

lemma filter_primary_id: "p \<notin> set xs \<Longrightarrow> filter (\<lambda>g. g \<noteq> p) xs = xs"
  by (auto intro: filter_True)

text \<open>The auxiliary groups of a credential are exactly the first sixteen distinct groups, in the
  order given, that differ from the primary group, and normalising them again (as the encoder does
  for a credential whose public fields were set by hand) changes nothing.\<close>

lemma normalize_auxiliary_gids_reference:
  "normalize_auxiliary_gids p gs =
     take 16 (first_occurrences (filter (\<lambda>g. g \<noteq> p) gs)) \<and>
   normalize_auxiliary_gids p (normalize_auxiliary_gids p gs) = normalize_auxiliary_gids p gs"
proof
  show "normalize_auxiliary_gids p gs = take 16 (first_occurrences (filter (\<lambda>g. g \<noteq> p) gs))"
    by (simp add: normalize_auxiliary_gids_eq AUTH_SYS_MAX_GROUPS_def)
  have "normalize_auxiliary_gids p (normalize_auxiliary_gids p gs) =
      take AUTH_SYS_MAX_GROUPS (normalize_auxiliary_gids p gs)"
    by (simp only: normalize_auxiliary_gids_eq [of p "normalize_auxiliary_gids p gs"]
        filter_primary_id [OF primary_not_normalized]
        first_occurrences_distinct [OF distinct_normalize_gids])
  then show "normalize_auxiliary_gids p (normalize_auxiliary_gids p gs) =
      normalize_auxiliary_gids p gs"
    using length_normalize_gids [of p gs] by simp
qed

subsection \<open>Which part of the machine name is kept\<close>

lemma utf8_char_ok_cont:
  "utf8_char_ok cs \<Longrightarrow> 0 < i \<Longrightarrow> i < length cs \<Longrightarrow> is_cont (cs ! i)"
proof (cases cs)
  case (Cons a rest)
  assume ok: "utf8_char_ok cs" and i: "0 < i" "i < length cs"
  then obtain b rest' where rest: "rest = b # rest'" using Cons by (cases rest) auto
  from ok Cons rest have "utf8_second_ok a b" "list_all is_cont rest'" by auto
  moreover have "utf8_second_ok a b \<Longrightarrow> is_cont b"
    by (auto simp: utf8_second_ok_def is_cont_def word_le_nat_alt split: if_splits)
  ultimately show ?thesis
    using i Cons rest by (cases i; cases "i - 1") (auto simp: list_all_length)
qed auto

lemma utf8_valid_step:
  assumes "utf8_char_ok cs" "utf8_valid rest"
  shows "utf8_valid (cs @ rest)"
proof -
  from assms(1) obtain a cs' where cs: "cs = a # cs'" by (cases cs) auto
  with assms(1) have "utf8_width a = Suc (length cs')" by simp
  with assms cs show ?thesis by simp
qed

lemma utf8_valid_split:
  assumes "utf8_valid (a # rest)"
  obtains cs ds where "a # rest = cs @ ds" "utf8_char_ok cs" "utf8_valid ds" "cs \<noteq> []"
proof
  let ?w = "utf8_width a"
  show "a # rest = take ?w (a # rest) @ drop ?w (a # rest)" by simp
  show "utf8_char_ok (take ?w (a # rest))" using assms by simp
  show "utf8_valid (drop ?w (a # rest))" using assms by (cases ?w) simp_all
  show "take ?w (a # rest) \<noteq> []" using assms by simp
qed

lemma is_char_boundary_append:
  "length cs \<le> i \<Longrightarrow> is_char_boundary (cs @ ds) i \<Longrightarrow> is_char_boundary ds (i - length cs)"
  by (auto simp: is_char_boundary_def nth_append split: if_splits)

lemma utf8_valid_take:
  "utf8_valid bs \<Longrightarrow> is_char_boundary bs i \<Longrightarrow> utf8_valid (take i bs)"
proof (induction "length bs" arbitrary: bs i rule: less_induct)
  case less
  show ?case
  proof (cases bs)
    case (Cons a rest)
    then obtain cs ds where bs: "bs = cs @ ds" and cs: "utf8_char_ok cs" "cs \<noteq> []"
      and ds: "utf8_valid ds"
      using less.prems(1) utf8_valid_split by metis
    consider "i = 0" | "0 < i" "i < length cs" | "length cs \<le> i" by linarith
    then show ?thesis
    proof cases
      case 2
      then have "is_cont (bs ! i)" using utf8_char_ok_cont [OF cs(1)] bs by (simp add: nth_append)
      with 2 less.prems(2) bs show ?thesis by (simp add: is_char_boundary_def)
    next
      case 3
      then have "is_char_boundary ds (i - length cs)"
        using less.prems(2) bs by (simp add: is_char_boundary_append)
      then have "utf8_valid (take (i - length cs) ds)"
        using less.hyps [of ds] bs cs(2) ds by simp
      with 3 bs cs(1) show ?thesis by (simp add: utf8_valid_step del: utf8_valid.simps)
    qed simp
  qed simp
qed

lemma is_char_boundary_length: "is_char_boundary bs (length bs)"
  by (simp add: is_char_boundary_def)

lemma boundary_at_most_boundary: "is_char_boundary bs (boundary_at_most bs n)"
  by (induction bs n rule: boundary_at_most.induct) (simp add: boundary_at_most.simps)

lemma boundary_at_most_le: "boundary_at_most bs n \<le> n"
proof (induction bs n rule: boundary_at_most.induct)
  case (1 bs n)
  then show ?case by (subst boundary_at_most.simps) force
qed

lemma boundary_at_most_greatest:
  "is_char_boundary bs i \<Longrightarrow> i \<le> n \<Longrightarrow> i \<le> boundary_at_most bs n"
proof (induction bs n rule: boundary_at_most.induct)
  case (1 bs n)
  show ?case
  proof (cases "is_char_boundary bs n")
    case True
    with 1 show ?thesis by (subst boundary_at_most.simps) simp
  next
    case False
    with 1 have "i \<noteq> n" by auto
    with 1 False show ?thesis by (subst boundary_at_most.simps) simp
  qed
qed

lemma normalized_machine_name_len_le:
  "normalized_machine_name_len s \<le> AUTH_SYS_MACHINE_NAME_MAX"
  "normalized_machine_name_len s \<le> length s"
  using boundary_at_most_le [of "as_bytes s" AUTH_SYS_MACHINE_NAME_MAX]
  by (auto simp: normalized_machine_name_len_def)

lemma normalized_machine_name_len_boundary:
  "is_char_boundary (as_bytes s) (normalized_machine_name_len s)"
  using is_char_boundary_length [of "as_bytes s"]
  by (simp add: normalized_machine_name_len_def boundary_at_most_boundary)

lemma length_normalized_ref: "length (normalized_machine_name_ref s) \<le> AUTH_SYS_MACHINE_NAME_MAX"
  using normalized_machine_name_len_le [of s] by (simp add: normalized_machine_name_ref_def)

lemma utf8_valid_rest:
  "utf8_valid (ts @ rest) \<Longrightarrow> utf8_valid ts \<Longrightarrow> utf8_valid rest"
proof (induction ts rule: utf8_valid.induct)
  case (2 a ts)
  let ?w = "utf8_width a"
  from 2(3) have w: "?w \<noteq> 0" "utf8_char_ok (take ?w (a # ts))" "utf8_valid (drop (?w - 1) ts)" by simp_all
  then have "utf8_width a \<le> Suc (length ts)" by (cases ?w) auto
  with 2(2) have "utf8_valid (drop (?w - 1) ts @ rest)" by simp
  with 2(1) w show ?case by blast
qed simp

lemma utf8_valid_lead: "utf8_valid (a # rest) \<Longrightarrow> \<not> is_cont a"
  by (auto simp: utf8_width_def is_cont_def word_le_nat_alt split: if_splits)

lemma utf8_valid_boundary:
  assumes "utf8_valid (ts @ rest)" "utf8_valid ts"
  shows "is_char_boundary (ts @ rest) (length ts)"
  using utf8_valid_rest [OF assms] utf8_valid_lead [of "hd rest" "tl rest"]
  by (cases rest) (auto simp: is_char_boundary_def nth_append simp del: utf8_valid.simps)

lemma normalize_machine_name_prefix: "prefix (normalize_machine_name s) s"
  by (simp add: normalize_machine_name_def take_is_prefix)

lemma normalize_machine_name_longest:
  assumes "utf8_valid (as_bytes s)" "prefix t s" "utf8_valid (as_bytes t)" "length t \<le> 255"
  shows "prefix t (normalize_machine_name s)"
proof -
  from assms(2) obtain rest where s: "s = t @ rest" by (auto simp: prefix_def)
  then have "as_bytes s = as_bytes t @ as_bytes rest" by (simp add: as_bytes_def)
  with assms utf8_valid_boundary [of "as_bytes t" "as_bytes rest"] have b: "is_char_boundary (as_bytes s) (length t)" by simp
  have "length t \<le> normalized_machine_name_len s"
    using boundary_at_most_greatest [OF b, of AUTH_SYS_MACHINE_NAME_MAX] assms(4) s
    by (simp add: normalized_machine_name_len_def AUTH_SYS_MACHINE_NAME_MAX_def)
  then show ?thesis unfolding normalize_machine_name_def s by (simp add: prefix_def)
qed

text \<open>C40. Truncating a machine name never splits a character: the result is a prefix of the name of at
  most 255 bytes that ends at a character boundary (so \<open>String::truncate\<close> and the slice expression do
  not panic) and is again valid UTF-8, and every such prefix of the name is a prefix of the result. The
  name the encoder writes is truncated in the same way.\<close>

theorem normalize_machine_name_utf8:
  assumes "utf8_valid (as_bytes s)"
  shows "prefix (normalize_machine_name s) s \<and> length (normalize_machine_name s) \<le> 255 \<and>
    is_char_boundary (as_bytes s) (length (normalize_machine_name s)) \<and>
    utf8_valid (as_bytes (normalize_machine_name s)) \<and>
    (\<forall>t. prefix t s \<and> length t \<le> 255 \<and> utf8_valid (as_bytes t) \<longrightarrow> prefix t (normalize_machine_name s)) \<and>
    normalized_machine_name_ref s = normalize_machine_name s"
proof (intro conjI allI impI)
  have len: "length (normalize_machine_name s) = normalized_machine_name_len s"
    using normalized_machine_name_len_le(2) [of s] by (simp add: normalize_machine_name_def)
  show "is_char_boundary (as_bytes s) (length (normalize_machine_name s))"
    unfolding len by (rule normalized_machine_name_len_boundary)
  with assms have "utf8_valid (take (length (normalize_machine_name s)) (as_bytes s))"
    by (rule utf8_valid_take)
  then show "utf8_valid (as_bytes (normalize_machine_name s))"
    unfolding len by (simp add: normalize_machine_name_def take_as_bytes)
  show "length (normalize_machine_name s) \<le> 255"
    using normalized_machine_name_len_le(1) [of s] by (simp add: len AUTH_SYS_MACHINE_NAME_MAX_def)
  show "prefix (normalize_machine_name s) s" by (rule normalize_machine_name_prefix)
  show "prefix t (normalize_machine_name s)"
    if "prefix t s \<and> length t \<le> 255 \<and> utf8_valid (as_bytes t)" for t
    using that normalize_machine_name_longest [OF assms] by blast
  show "normalized_machine_name_ref s = normalize_machine_name s"
    by (simp add: normalized_machine_name_ref_def normalize_machine_name_def)
qed

text \<open>A name of 256 bytes whose last character takes two bytes: both go.\<close>

lemma utf8_valid_ascii: "list_all (\<lambda>b. b \<le> 0x7F) bs \<Longrightarrow> utf8_valid (bs @ cs) \<longleftrightarrow> utf8_valid cs"
  by (induction bs) (auto simp: utf8_width_def)

theorem normalize_machine_name_utf8_witness:
  "normalize_machine_name (replicate 254 CHR ''a'' @ str_of_bytes [0xC3, 0xA9]) = replicate 254 CHR ''a''"
proof -
  let ?a = "replicate 254 CHR ''a''" and ?e = "str_of_bytes [0xC3, 0xA9]"
  have a: "as_bytes ?a = replicate 254 97" by (simp add: as_bytes_def)
  have e: "as_bytes (?a @ ?e) = replicate 254 97 @ [0xC3, 0xA9]"
    by (simp add: as_bytes_def str_of_bytes_def)
  have valid: "utf8_valid (as_bytes ?a)" "utf8_valid (as_bytes (?a @ ?e))"
    unfolding a e using utf8_valid_ascii [of "replicate 254 97" "[]"] utf8_valid_ascii [of "replicate 254 97" "[0xC3, 0xA9]"]
    by (simp_all add: list_all_iff utf8_width_def utf8_second_ok_def is_cont_def)
  let ?n = "normalize_machine_name (?a @ ?e)"
  note spec = normalize_machine_name_utf8 [OF valid(2)]
  have "prefix ?a ?n" using spec valid(1) by simp
  then obtain r where r: "?n = ?a @ r" by (auto simp: prefix_def)
  from spec r have len: "length r \<le> 1" by simp
  have "\<not> is_char_boundary (as_bytes (?a @ ?e)) 255"
    unfolding e by (simp add: is_char_boundary_def nth_append is_cont_def)
  with spec r have "length r \<noteq> 1" by auto
  with len have "r = []" by (cases r) simp_all
  with r show ?thesis by simp
qed

subsection \<open>Encoding a credential and a call\<close>

definition auth_sys_wire :: "AuthSys \<Rightarrow> bytes" where
  "auth_sys_wire a =
     u32_to_be_bytes (auth_stamp a) @
     opaque_wire (as_bytes (normalized_machine_name_ref (auth_machine_name a))) @
     u32_to_be_bytes (auth_uid a) @ u32_to_be_bytes (auth_gid a) @
     array_wire u32_to_be_bytes (normalize_auxiliary_gids (auth_gid a) (auth_gids a))"

definition auth_wire :: "Auth \<Rightarrow> bytes" where
  "auth_wire auth =
     (case auth of
        AuthNone \<Rightarrow> u32_to_be_bytes AUTH_NONE @ opaque_wire []
      | Sys a \<Rightarrow> u32_to_be_bytes AUTH_SYS @ opaque_wire (auth_sys_wire a))"

definition call_wire :: "u32 \<Rightarrow> u32 \<Rightarrow> u32 \<Rightarrow> u32 \<Rightarrow> Auth \<Rightarrow> bytes \<Rightarrow> bytes" where
  "call_wire xid program version procedure auth args =
     u32_to_be_bytes xid @ u32_to_be_bytes MSG_CALL @ u32_to_be_bytes RPC_VERSION @
     u32_to_be_bytes program @ u32_to_be_bytes version @ u32_to_be_bytes procedure @
     auth_wire auth @ auth_wire AuthNone @ args"

interpretation gidsc: xdr_array_codec encode_u32 decode_u32 u32_to_be_bytes "\<lambda>_. True"
  AUTH_SYS_MAX_GROUPS
  by unfold_locales (simp add: AUTH_SYS_MAX_GROUPS_def)

lemma encodes_AuthSys: "encodes (encode_AuthSys a) (auth_sys_wire a)"
proof -
  let ?g = "normalize_auxiliary_gids (auth_gid a) (auth_gids a)"
  have "encodes (write_array encode_u32 ?g AUTH_SYS_MAX_GROUPS) (array_wire u32_to_be_bytes ?g)"
    using length_normalize_gids by (intro gidsc.array_encodes) (simp_all add: list_all_iff)
  moreover
  have "encodes (write_string (normalized_machine_name_ref (auth_machine_name a))
      AUTH_SYS_MACHINE_NAME_MAX) (opaque_wire (as_bytes (normalized_machine_name_ref (auth_machine_name a))))"
    using length_normalized_ref [of "auth_machine_name a"]
    by (intro encodes_write_string) (simp_all add: AUTH_SYS_MACHINE_NAME_MAX_def)
  ultimately show ?thesis
    unfolding encode_AuthSys_def auth_sys_wire_def Let_def
    by (intro encodes_structure) (simp_all add: encodes_write_u32)
qed

lemma length_concat_u32 [simp]: "length (concat (map u32_to_be_bytes xs)) = 4 * length xs"
  by (induction xs) simp_all

lemma length_auth_sys_wire: "length (auth_sys_wire a) \<le> 400"
proof -
  have "length (normalized_machine_name_ref (auth_machine_name a)) \<le> 255"
    "length (normalize_auxiliary_gids (auth_gid a) (auth_gids a)) \<le> 16"
    using length_normalized_ref [of "auth_machine_name a"]
      length_normalize_gids [of "auth_gid a" "auth_gids a"]
    by (simp_all add: AUTH_SYS_MACHINE_NAME_MAX_def AUTH_SYS_MAX_GROUPS_def)
  with padding_len_less [of "length (normalized_machine_name_ref (auth_machine_name a))"]
  show ?thesis
    by (simp add: auth_sys_wire_def opaque_wire_def opaque_pad_def array_wire_def)
qed

lemma to_bytes_AuthSys: "to_bytes encode_AuthSys a = Inr (auth_sys_wire a)"
  by (simp add: to_bytes_def encodesD [OF encodes_AuthSys] encoder_new_def into_bytes_def
      extend_from_slice_def)

lemma encodes_opaque_auth [enc_leaf]: "encodes (encode_opaque_auth auth) (auth_wire auth)"
proof (cases auth)
  case AuthNone
  then show ?thesis
    unfolding encode_opaque_auth_def auth_wire_def
    by (simp del: seq_ops.simps) (intro encodes_structure enc_leaf; simp)
next
  case (Sys a)
  have "encodes (seq_ops [from_xdr (write_u32 AUTH_SYS), from_xdr (write_opaque (auth_sys_wire a) 400)])
      (u32_to_be_bytes AUTH_SYS @ opaque_wire (auth_sys_wire a))"
    using length_auth_sys_wire [of a] by (intro encodes_structure enc_leaf) simp_all
  then show ?thesis
    unfolding encode_opaque_auth_def auth_wire_def Sys
    by (simp add: to_bytes_AuthSys encodes_def from_xdr_def op_simps)
qed

lemma encode_call_eq:
  "encode_call xid program version procedure auth args =
     (case args (extend_from_slice (call_wire xid program version procedure auth []) encoder_new) of
        (Inl e, _) \<Rightarrow> Inl (Xdr e)
      | (Inr _, encoder) \<Rightarrow> Inr (into_bytes encoder))"
proof -
  have e: "from_xdr (write_u32 v) e = (Inr (), extend_from_slice (u32_to_be_bytes v) e)"
    "encode_opaque_auth auth' e = (Inr (), extend_from_slice (auth_wire auth') e)"
    for v auth' and e
    by (intro encodesD enc_leaf)+
  show ?thesis
    unfolding encode_call_def call_wire_def seq_ops.simps
    by (simp add: bnd_apply ret_apply e) (simp add: from_xdr_def op_simps split: prod.split sum.split)
qed

text \<open>Encoding a call never fails because of the credential: whatever host name and groups it
  holds, the call is the fixed header, the credential, an empty verifier and the arguments, and it
  fails only when the arguments do not encode, with their error.\<close>

lemma encode_call_total:
  "(encodes args bs \<longrightarrow>
     encode_call xid program version procedure auth args =
       Inr (u32_to_be_bytes xid @ u32_to_be_bytes 0 @ u32_to_be_bytes 2 @
            u32_to_be_bytes program @ u32_to_be_bytes version @ u32_to_be_bytes procedure @
            auth_wire auth @ auth_wire AuthNone @ bs)) \<and>
   (encode_call xid program version procedure auth args = Inl err \<longrightarrow>
     (\<exists>e enc enc'. err = Xdr e \<and> args enc = (Inl e, enc')))"
proof (intro conjI impI)
  assume "encodes args bs"
  then show "encode_call xid program version procedure auth args =
       Inr (u32_to_be_bytes xid @ u32_to_be_bytes 0 @ u32_to_be_bytes 2 @
            u32_to_be_bytes program @ u32_to_be_bytes version @ u32_to_be_bytes procedure @
            auth_wire auth @ auth_wire AuthNone @ bs)"
    by (simp add: encode_call_eq encodesD call_wire_def into_bytes_def extend_from_slice_def
        encoder_new_def MSG_CALL_def RPC_VERSION_def)
next
  assume "encode_call xid program version procedure auth args = Inl err"
  then show "\<exists>e enc enc'. err = Xdr e \<and> args enc = (Inl e, enc')"
    by (auto simp: encode_call_eq split: prod.splits sum.splits)
qed

lemma encode_call_total_example:
  "encode_call 7 100003 3 0 AuthNone (encode_unit ()) =
     Inr (u32_to_be_bytes 7 @ u32_to_be_bytes 0 @ u32_to_be_bytes 2 @
          u32_to_be_bytes 100003 @ u32_to_be_bytes 3 @ u32_to_be_bytes 0 @
          auth_wire AuthNone @ auth_wire AuthNone @ [])"
  using encode_call_total [of "encode_unit ()" "[]" 7 100003 3 0 AuthNone] unitc.enc_wire
  by blast

subsection \<open>Which replies yield a payload\<close>

definition reply_ok :: "u32 \<Rightarrow> bytes \<Rightarrow> bytes \<Rightarrow> bool" where
  "reply_ok xid reply payload \<longleftrightarrow>
     (\<exists>flavor body pad.
        reply = u32_to_be_bytes xid @ u32_to_be_bytes MSG_REPLY @ u32_to_be_bytes REPLY_ACCEPTED @
          u32_to_be_bytes flavor @ u32_to_be_bytes (of_nat (length body)) @ body @ pad @
          u32_to_be_bytes ACCEPT_SUCCESS @ payload \<and>
        length body \<le> 400 \<and> length pad = padding_len (length body))"

lemma rest_read:
  assumes "length (pre @ post) \<le> usize_max"
  shows "read_fixed_opaque_unpadded (remaining (dec_at pre post)) (dec_at pre post) =
    (Inr post, dec_at (pre @ post) [])"
  using assms
  by (simp add: read_fixed_opaque_unpadded_def read_bytes_def remaining_def dec_at_def
      checked_add_usize_def)

lemma read_opaque_any_pad:
  assumes "length v \<le> limit" "length v < 2 ^ 32" "length pad = padding_len (length v)"
  shows "decodes (read_opaque limit) (u32_to_be_bytes (of_nat (length v)) @ v @ pad) v"
  unfolding read_opaque_def read_fixed_opaque_def skip_padding_def
  by (rule decodes_bnd, rule decodes_read_len, rule assms, rule assms,
      rule decodes_bnd, rule decodes_read_bytes, rule refl, rule decodes_bnd_last,
      rule decodes_bnd_ret, rule decodes_read_bytes, rule assms(3) [symmetric], rule refl,
      rule decodes_ret)

lemma decode_accepted_ok:
  assumes "length body \<le> 400" "length pad = padding_len (length body)"
    "length (pre @ u32_to_be_bytes flavor @ u32_to_be_bytes (of_nat (length body)) @ body @ pad @
          u32_to_be_bytes ACCEPT_SUCCESS @ payload) \<le> usize_max"
  shows "fst (decode_accepted_reply (dec_at pre (u32_to_be_bytes flavor @
          u32_to_be_bytes (of_nat (length body)) @ body @ pad @
          u32_to_be_bytes ACCEPT_SUCCESS @ payload))) = Inr payload"
proof -
  let ?auth = "u32_to_be_bytes flavor @ u32_to_be_bytes (of_nat (length body)) @ body @ pad"
  have "decodes (bnd read_opaque_auth (\<lambda>_. from_xdr read_u32))
      (?auth @ u32_to_be_bytes ACCEPT_SUCCESS) ACCEPT_SUCCESS"
    unfolding read_opaque_auth_def
    by (rule decodes_bnd, rule decodes_bnd, rule decodes_from_xdr, rule decodes_read_u32,
        rule decodes_bnd_ret, rule decodes_from_xdr, rule read_opaque_any_pad)
      (use assms in \<open>simp_all add: decodes_from_xdr decodes_read_u32\<close>)
  from decodesD [OF this, of pre payload] assms(3)
  have "bnd read_opaque_auth (\<lambda>_. from_xdr read_u32) (dec_at pre (?auth @
      u32_to_be_bytes ACCEPT_SUCCESS @ payload)) =
    (Inr ACCEPT_SUCCESS, dec_at (pre @ ?auth @ u32_to_be_bytes ACCEPT_SUCCESS) payload)"
    by simp
  then show ?thesis
    unfolding decode_accepted_reply_def bnd_assoc [symmetric]
    by (subst bnd_Inr, simp) (use rest_read [of "pre @ ?auth @ u32_to_be_bytes ACCEPT_SUCCESS" payload]
        assms(3) in \<open>simp add: from_xdr_def op_simps\<close>)
qed

lemma decode_reply_complete:
  assumes "reply_ok xid reply payload" "length reply \<le> usize_max"
  shows "decode_reply xid reply = Inr payload"
proof -
  from assms obtain flavor body pad where
    ok: "length body \<le> 400" "length pad = padding_len (length body)" and
    reply: "reply = u32_to_be_bytes xid @ u32_to_be_bytes MSG_REPLY @ u32_to_be_bytes REPLY_ACCEPTED @
      u32_to_be_bytes flavor @ u32_to_be_bytes (of_nat (length body)) @ body @ pad @
      u32_to_be_bytes ACCEPT_SUCCESS @ payload"
    unfolding reply_ok_def by blast
  let ?rest = "u32_to_be_bytes flavor @ u32_to_be_bytes (of_nat (length body)) @ body @ pad @
      u32_to_be_bytes ACCEPT_SUCCESS @ payload"
  have word: "from_xdr read_u32 (dec_at pre (u32_to_be_bytes v @ post)) =
      (Inr v, dec_at (pre @ u32_to_be_bytes v) post)"
    if "length (pre @ u32_to_be_bytes v @ post) \<le> usize_max" for pre v post
    using that by (intro decodesD decodes_from_xdr decodes_read_u32)
  have "decoder_new reply = dec_at [] reply" by (simp add: decoder_new_def dec_at_def)
  then show ?thesis
    using decode_accepted_ok [OF ok, of "u32_to_be_bytes xid @ u32_to_be_bytes MSG_REPLY @
        u32_to_be_bytes REPLY_ACCEPTED" flavor payload] assms(2)
    by (simp add: decode_reply_def decode_reply_from_def reply bnd_apply word)
qed

lemma read_opaque_auth_parses:
  "parses read_opaque_auth
     (\<lambda>(flavor, body) bs. \<exists>pad. bs = u32_to_be_bytes flavor @
        u32_to_be_bytes (of_nat (length body)) @ body @ pad \<and>
        length pad = padding_len (length body) \<and> length body \<le> 400)"
  unfolding read_opaque_auth_def
  by (rule parses_mono [OF parses_bnd [OF parses_from_xdr [OF parses_read_u32]
        parses_bnd_ret [OF parses_from_xdr [OF parses_read_opaque]]]]) auto

lemma consumed_then_fail: "bnd ensure_rpc_reply_consumed (\<lambda>_. fail e) d \<noteq> (Inr p, d')"
  by (simp add: bnd_apply ensure_rpc_reply_consumed_def fail_apply)

lemma decode_accepted_sound:
  assumes "decode_accepted_reply (dec_at pre post) = (Inr p, d)"
  shows "\<exists>flavor body pad. post = u32_to_be_bytes flavor @
      u32_to_be_bytes (of_nat (length body)) @ body @ pad @ u32_to_be_bytes ACCEPT_SUCCESS @ p \<and>
      length body \<le> 400 \<and> length pad = padding_len (length body)"
proof -
  from assms obtain a d1 v d2 where 1: "read_opaque_auth (dec_at pre post) = (Inr a, d1)"
    and 2: "from_xdr read_u32 d1 = (Inr v, d2)"
    and v: "v = ACCEPT_SUCCESS"
    and 3: "from_xdr (read_fixed_opaque_unpadded (remaining d2)) d2 = (Inr p, d)"
    by (auto simp: decode_accepted_reply_def bnd_Inr_iff consumed_then_fail fail_apply split: if_splits)
  from read_opaque_auth_parses 1 obtain bs post1 where
    bs: "post = bs @ post1" "d1 = dec_at (pre @ bs) post1" and
    P: "(\<lambda>(flavor, body) bs. \<exists>pad. bs = u32_to_be_bytes flavor @
        u32_to_be_bytes (of_nat (length body)) @ body @ pad \<and>
        length pad = padding_len (length body) \<and> length body \<le> 400) a bs"
    by (rule parsesE)
  from parses_from_xdr [OF parses_read_u32] 2 [unfolded bs(2)] obtain cs post2 where
    cs: "post1 = cs @ post2" "d2 = dec_at ((pre @ bs) @ cs) post2" "cs = u32_to_be_bytes v"
    by (rule parsesE)
  from 3 cs(2) have "p = post2"
    by (auto simp: from_xdr_def map_err_Inr_iff read_fixed_opaque_unpadded_def read_bytes_def
        remaining_def dec_at_def checked_add_usize_def split: if_splits)
  with bs(1) cs(1,3) P v show ?thesis by (cases a) auto
qed

lemma decode_denied_no_payload: "decode_denied_reply d \<noteq> (Inr p, d')"
  by (auto simp: decode_denied_reply_def bnd_Inr_iff consumed_then_fail fail_apply split: if_splits)

lemma decode_reply_sound:
  assumes "decode_reply xid reply = Inr payload"
  shows "reply_ok xid reply payload"
proof -
  obtain d where "decode_reply_from xid (dec_at [] reply) = (Inr payload, d)"
    using assms by (cases "decode_reply_from xid (dec_at [] reply)")
      (auto simp: decode_reply_def decoder_new_def dec_at_def)
  then obtain d1 d2 d3 where 1: "from_xdr read_u32 (dec_at [] reply) = (Inr xid, d1)"
    and 2: "from_xdr read_u32 d1 = (Inr MSG_REPLY, d2)"
    and 3: "from_xdr read_u32 d2 = (Inr REPLY_ACCEPTED, d3)"
    and 4: "decode_accepted_reply d3 = (Inr payload, d)"
    by (auto simp: decode_reply_from_def bnd_Inr_iff consumed_then_fail fail_apply
        decode_denied_no_payload split: if_splits)
  note word = parses_from_xdr [OF parses_read_u32]
  from word 1 obtain b1 r1 where 5: "reply = b1 @ r1" "d1 = dec_at ([] @ b1) r1"
    "b1 = u32_to_be_bytes xid" by (rule parsesE)
  from word 2 [unfolded 5(2)] obtain b2 r2 where 6: "r1 = b2 @ r2" "d2 = dec_at (([] @ b1) @ b2) r2"
    "b2 = u32_to_be_bytes MSG_REPLY" by (rule parsesE)
  from word 3 [unfolded 6(2)] obtain b3 r3 where 7: "r2 = b3 @ r3"
    "d3 = dec_at ((([] @ b1) @ b2) @ b3) r3" "b3 = u32_to_be_bytes REPLY_ACCEPTED" by (rule parsesE)
  from decode_accepted_sound [OF 4 [unfolded 7(2)]] 5(1,3) 6(1,3) 7(1,3)
  show ?thesis unfolding reply_ok_def by auto
qed

text \<open>C5. A reply yields a payload exactly when it is an accepted, successful reply to the call that
  is waiting for it: it carries the expected transaction id, a verifier of at most 400 bytes and the
  status \<open>SUCCESS\<close>, and the payload is everything behind them. Every other byte string, truncated
  or malformed ones included, is an error.\<close>

theorem decode_reply_iff:
  assumes "length reply \<le> usize_max"
  shows "decode_reply xid reply = Inr payload \<longleftrightarrow>
    (\<exists>flavor body pad.
       reply = u32_to_be_bytes xid @ u32_to_be_bytes 1 @ u32_to_be_bytes 0 @
         u32_to_be_bytes flavor @ u32_to_be_bytes (of_nat (length body)) @ body @ pad @
         u32_to_be_bytes 0 @ payload \<and>
       length body \<le> 400 \<and> length pad = padding_len (length body))"
  using decode_reply_sound [of xid reply payload] decode_reply_complete [OF _ assms, of xid payload]
  by (auto simp: reply_ok_def MSG_REPLY_def REPLY_ACCEPTED_def ACCEPT_SUCCESS_def)

definition null_reply :: bytes where
  "null_reply = concat (map u32_to_be_bytes [5, 1, 0, 0, 0, 0])"

theorem decode_reply_iff_witness:
  "length null_reply \<le> usize_max \<and> decode_reply 5 null_reply = Inr []"
proof -
  have len: "length null_reply \<le> usize_max" by (simp add: null_reply_def usize_max_def)
  have "null_reply = u32_to_be_bytes 5 @ u32_to_be_bytes 1 @ u32_to_be_bytes 0 @
      u32_to_be_bytes 0 @ u32_to_be_bytes (of_nat (length [])) @ [] @ [] @ u32_to_be_bytes 0 @ []"
    by (simp add: null_reply_def)
  then show ?thesis
    using decode_reply_iff [OF len, of 5 "[]"] len padding_len_0 [of 0] by fastforce
qed

end
