(* ===== verification/Tcp_Stream.thy ===== *)
theory Tcp_Stream
  imports Nfs_Error Retry
begin

text \<open>
  What the crate uses of \<open>std::net::TcpStream\<close>. A stream is what the peer and the network do to it:
  \<open>rx\<close> lists the outcomes of the coming calls of \<open>read\<close> (a chunk of bytes, where the empty chunk
  and the end of the list are the end of the stream, or an error), \<open>tx\<close> those of \<open>write\<close> (how many
  bytes the socket takes, or an error; at the end of the list it takes everything), and \<open>sent\<close> is
  what was written so far. A statement for all values of \<open>rx\<close> and \<open>tx\<close> is one for all peers.

  \<open>read_exact\<close> and \<open>write_all\<close> are the provided methods of \<open>std::io::Read\<close> and \<open>Write\<close>: both go on
  after \<open>Interrupted\<close>, the first fails with \<open>UnexpectedEof\<close>, the second with \<open>WriteZero\<close>.
\<close>

datatype rx_event = RxData bytes | RxErr io_kind

datatype tx_event = TxAccept nat | TxErr io_kind

record tcp_stream =
  rx :: "rx_event list"
  tx :: "tx_event list"
  sent :: bytes
  nodelay :: bool
  read_timeout :: "duration option"
  write_timeout :: "duration option"
  sockopt_error :: "io_kind option"

type_synonym 'a tcp = "(tcp_stream, io_kind, 'a) op"

subsection \<open>Reading\<close>

fun read_exact_rx :: "nat \<Rightarrow> rx_event list \<Rightarrow> (io_kind + bytes) \<times> rx_event list" where
  "read_exact_rx 0 evs = (Inr [], evs)"
| "read_exact_rx (Suc n) [] = (Inl IoUnexpectedEof, [])"
| "read_exact_rx (Suc n) (RxErr k # evs) =
     (if k = Interrupted then read_exact_rx (Suc n) evs else (Inl k, evs))"
| "read_exact_rx (Suc n) (RxData bs # evs) =
     (if bs = [] then (Inl IoUnexpectedEof, evs)
      else if length bs \<le> Suc n then
        (case read_exact_rx (Suc n - length bs) evs of
           (Inl k, evs') \<Rightarrow> (Inl k, evs')
         | (Inr cs, evs') \<Rightarrow> (Inr (bs @ cs), evs'))
      else (Inr (take (Suc n) bs), RxData (drop (Suc n) bs) # evs))"

definition read_exact :: "nat \<Rightarrow> bytes tcp" where
  "read_exact n s = (case read_exact_rx n (rx s) of (r, evs) \<Rightarrow> (r, s\<lparr>rx := evs\<rparr>))"

text \<open>The bytes that arrive before the first hard error or the end of the stream.\<close>

fun rx_bytes :: "rx_event list \<Rightarrow> bytes" where
  "rx_bytes [] = []"
| "rx_bytes (RxErr k # evs) = (if k = Interrupted then rx_bytes evs else [])"
| "rx_bytes (RxData bs # evs) = (if bs = [] then [] else bs @ rx_bytes evs)"

fun rx_size :: "rx_event list \<Rightarrow> nat" where
  "rx_size [] = 0"
| "rx_size (RxErr k # evs) = rx_size evs"
| "rx_size (RxData bs # evs) = length bs + rx_size evs"

subsection \<open>Writing\<close>

fun write_all_tx :: "bytes \<Rightarrow> tx_event list \<Rightarrow> (io_kind + unit) \<times> tx_event list \<times> bytes" where
  "write_all_tx [] evs = (Inr (), evs, [])"
| "write_all_tx bs [] = (Inr (), [], bs)"
| "write_all_tx bs (TxErr k # evs) =
     (if k = Interrupted then write_all_tx bs evs else (Inl k, evs, []))"
| "write_all_tx bs (TxAccept n # evs) =
     (if n = 0 then (Inl WriteZero, evs, [])
      else case write_all_tx (drop n bs) evs of (r, evs', out) \<Rightarrow> (r, evs', take n bs @ out))"

definition write_all :: "bytes \<Rightarrow> unit tcp" where
  "write_all bs s =
     (case write_all_tx bs (tx s) of (r, evs, out) \<Rightarrow> (r, s\<lparr>tx := evs, sent := sent s @ out\<rparr>))"

text \<open>\<open>flush\<close> on a \<open>TcpStream\<close> does nothing and succeeds.\<close>

definition flush :: "unit tcp" where
  "flush = ret ()"

subsection \<open>Options\<close>

definition set_nodelay :: "bool \<Rightarrow> unit tcp" where
  "set_nodelay v s =
     (case sockopt_error s of Some k \<Rightarrow> (Inl k, s) | None \<Rightarrow> (Inr (), s\<lparr>nodelay := v\<rparr>))"

text \<open>The setters of the timeouts refuse \<open>Some(Duration::ZERO)\<close>.\<close>

definition set_read_timeout :: "duration option \<Rightarrow> unit tcp" where
  "set_read_timeout t s =
     (if t = Some 0 then (Inl InvalidInput, s)
      else case sockopt_error s of Some k \<Rightarrow> (Inl k, s) | None \<Rightarrow> (Inr (), s\<lparr>read_timeout := t\<rparr>))"

definition set_write_timeout :: "duration option \<Rightarrow> unit tcp" where
  "set_write_timeout t s =
     (if t = Some 0 then (Inl InvalidInput, s)
      else case sockopt_error s of Some k \<Rightarrow> (Inl k, s) | None \<Rightarrow> (Inr (), s\<lparr>write_timeout := t\<rparr>))"

subsection \<open>Connecting\<close>

text \<open>
  \<open>resolve\<close> is the outcome of \<open>to_socket_addrs\<close>, \<open>dial a\<close> that of connecting to one address.
  \<open>TcpStream::connect\<close> tries the addresses in order and returns the last error.
\<close>

fun connect_each :: "io_kind option \<Rightarrow> ('addr \<Rightarrow> io_kind + tcp_stream) \<Rightarrow> 'addr list \<Rightarrow>
    io_kind + tcp_stream" where
  "connect_each last_error dial [] =
     Inl (case last_error of Some k \<Rightarrow> k | None \<Rightarrow> InvalidInput)"
| "connect_each last_error dial (a # as) =
     (case dial a of Inr s \<Rightarrow> Inr s | Inl k \<Rightarrow> connect_each (Some k) dial as)"

definition tcp_connect :: "io_kind + 'addr list \<Rightarrow> ('addr \<Rightarrow> io_kind + tcp_stream) \<Rightarrow>
    io_kind + tcp_stream" where
  "tcp_connect resolve dial = bindR resolve (connect_each None dial)"

subsection \<open>Facts\<close>

lemma rx_size_bytes: "length (rx_bytes evs) \<le> rx_size evs"
  by (induction evs rule: rx_bytes.induct) auto

lemma read_exact_rx_ok:
  "n \<le> length (rx_bytes evs) \<Longrightarrow>
   \<exists>evs'. read_exact_rx n evs = (Inr (take n (rx_bytes evs)), evs') \<and>
     rx_bytes evs' = drop n (rx_bytes evs)"
proof (induction n evs rule: read_exact_rx.induct)
  case (4 n bs evs)
  show ?case
  proof (cases "bs = [] \<or> \<not> length bs \<le> Suc n")
    case False
    with "4.prems" have "Suc n - length bs \<le> length (rx_bytes evs)" by simp
    with "4.IH" False obtain evs' where
      "read_exact_rx (Suc n - length bs) evs = (Inr (take (Suc n - length bs) (rx_bytes evs)), evs')"
      "rx_bytes evs' = drop (Suc n - length bs) (rx_bytes evs)"
      by auto
    with False show ?thesis by (auto simp: take_Cons' not_le)
  qed (use "4.prems" in auto)
qed (auto split: if_splits)

lemma read_exact_rx_short:
  "length (rx_bytes evs) < n \<Longrightarrow> \<exists>k evs'. read_exact_rx n evs = (Inl k, evs')"
proof (induction n evs rule: read_exact_rx.induct)
  case (4 n bs evs)
  show ?case
  proof (cases "bs = []")
    case False
    with "4.prems" have "length bs \<le> Suc n" "length (rx_bytes evs) < Suc n - length bs" by simp_all
    with "4.IH" False obtain k evs' where "read_exact_rx (Suc n - length bs) evs = (Inl k, evs')"
      by blast
    with False \<open>length bs \<le> Suc n\<close> show ?thesis by simp
  qed simp
qed (auto split: if_splits)

lemma read_exact_rx_Inr:
  assumes "read_exact_rx n evs = (Inr bs, evs')"
  shows "n \<le> length (rx_bytes evs) \<and> bs = take n (rx_bytes evs) \<and> rx_bytes evs' = drop n (rx_bytes evs)"
proof (cases "n \<le> length (rx_bytes evs)")
  case True
  with assms read_exact_rx_ok [OF True] show ?thesis by auto
next
  case False
  with assms read_exact_rx_short [of evs n] show ?thesis by auto
qed

lemma read_exact_rx_size:
  "read_exact_rx n evs = (r, evs') \<Longrightarrow>
   rx_size evs' \<le> rx_size evs \<and> (\<forall>bs. r = Inr bs \<longrightarrow> length bs = n \<and> rx_size evs' + n \<le> rx_size evs)"
proof (induction n evs arbitrary: r evs' rule: read_exact_rx.induct)
  case (3 n k evs)
  then show ?case by (cases "k = Interrupted") auto
next
  case (4 n bs evs)
  show ?case
  proof (cases "bs = [] \<or> \<not> length bs \<le> Suc n")
    case True
    with "4.prems" show ?thesis by (cases "bs = []") auto
  next
    case False
    obtain r1 evs1 where 1: "read_exact_rx (Suc n - length bs) evs = (r1, evs1)"
      by fastforce
    with "4.IH" False have
      "rx_size evs1 \<le> rx_size evs \<and> (\<forall>bs'. r1 = Inr bs' \<longrightarrow>
        length bs' = Suc n - length bs \<and> rx_size evs1 + (Suc n - length bs) \<le> rx_size evs)"
      by simp
    with "4.prems" False 1 show ?thesis by (auto split: sum.splits)
  qed
qed auto

lemma write_all_tx_Inr: "write_all_tx bs evs = (Inr (), evs', out) \<Longrightarrow> out = bs"
  by (induction bs evs arbitrary: evs' out rule: write_all_tx.induct)
    (auto split: if_splits prod.splits)

lemma write_all_tx_prefix: "write_all_tx bs evs = (r, evs', out) \<Longrightarrow> \<exists>rest. bs = out @ rest"
proof (induction bs evs arbitrary: r evs' out rule: write_all_tx.induct)
  case (4 b bs n evs)
  show ?case
  proof (cases n)
    case (Suc m)
    obtain r1 e1 o1 where 1: "write_all_tx (drop n (b # bs)) evs = (r1, e1, o1)" by (metis prod_cases3)
    with "4.IH" Suc obtain rest where "drop n (b # bs) = o1 @ rest" by blast
    then have "b # bs = (take n (b # bs) @ o1) @ rest"
      by (metis append.assoc append_take_drop_id)
    with "4.prems" Suc 1 show ?thesis by auto
  qed (use "4.prems" in auto)
qed (auto split: if_splits)

lemma write_all_tx_idle [simp]: "write_all_tx bs [] = (Inr (), [], bs)"
  by (cases bs) simp_all

text \<open>What the calls on the stream leave alone.\<close>

lemma read_exact_frame:
  "read_exact n s = (r, s') \<Longrightarrow> tx s' = tx s \<and> sent s' = sent s"
  by (auto simp: read_exact_def split: prod.splits)

lemma write_all_frame: "write_all bs s = (r, s') \<Longrightarrow> rx s' = rx s"
  by (auto simp: write_all_def split: prod.splits)

text \<open>The first address that answers is taken; if none does, the error is that of the last one.\<close>

lemma connect_each_eq:
  "connect_each e dial as =
     (case dropWhile (\<lambda>a. isl (dial a)) as of
        a # _ \<Rightarrow> dial a
      | [] \<Rightarrow> Inl (if as = [] then (case e of Some k \<Rightarrow> k | None \<Rightarrow> InvalidInput)
                  else projl (dial (last as))))"
  by (induction as arbitrary: e)
    (simp_all del: dropWhile_eq_Nil_conv split: sum.split list.split)

end
