(* ===== verification/Rpc_Client.thy ===== *)
theory Rpc_Client
  imports Rpc_Message Tcp_Stream
begin

text \<open>
  The blocking RPC client (\<open>src/rpc.rs\<close>): record marking over a TCP stream and the call itself.

  The lemmas show that \<open>read_record\<close> always returns, that it returns exactly the records that the
  fragments on the stream encode and never one above the limit, that transaction ids are not reused,
  and the contract the upper layers rely on (locale \<open>rpc_transport\<close>): after a call whose outcome is
  unknown the connection refuses every further call and sends nothing, and every other outcome
  leaves it usable.
\<close>

unbundle bit_operations_syntax

subsection \<open>Constants and limits\<close>

definition LAST_FRAGMENT :: u32 where "LAST_FRAGMENT = 0x80000000"
definition FRAGMENT_LEN_MASK :: u32 where "FRAGMENT_LEN_MASK = 0x7fffffff"
definition DEFAULT_MAX_RECORD_SIZE :: usize where "DEFAULT_MAX_RECORD_SIZE = 64 * 1024 * 1024"
definition MAX_RECORD_HEADROOM :: usize where "MAX_RECORD_HEADROOM = 1024 * 1024"

definition max_record_size_for_payloads :: "u32 list \<Rightarrow> usize" where
  "max_record_size_for_payloads payload_sizes =
     max (saturating_add_usize (foldr (\<lambda>size. max (unat size)) payload_sizes 0) MAX_RECORD_HEADROOM)
       DEFAULT_MAX_RECORD_SIZE"

definition validate_max_record_size :: "usize \<Rightarrow> unit result" where
  "validate_max_record_size max_record_size =
     (if max_record_size = 0
      then Inl (Protocol ''RPC max_record_size must be greater than zero'' [])
      else Inr ())"

subsection \<open>The client\<close>

record RpcClient =
  rpc_stream :: tcp_stream
  rpc_xid :: u32
  rpc_auth :: Auth
  rpc_max_record_size :: usize
  rpc_interrupted :: bool

type_synonym 'a rpc = "(RpcClient, error, 'a) op"

text \<open>A call on the field \<open>stream\<close>, followed by \<open>?\<close>.\<close>

definition with_stream :: "'a tcp \<Rightarrow> 'a rpc" where
  "with_stream m c =
     (case m (rpc_stream c) of
        (Inl k, s) \<Rightarrow> (Inl (Io k), c\<lparr>rpc_stream := s\<rparr>)
      | (Inr x, s) \<Rightarrow> (Inr x, c\<lparr>rpc_stream := s\<rparr>))"

fun connect_timeout_loop :: "io_kind option \<Rightarrow> ('addr \<Rightarrow> io_kind + tcp_stream) \<Rightarrow> 'addr list \<Rightarrow>
    tcp_stream result" where
  "connect_timeout_loop last_error dial [] =
     Inl (Io (case last_error of Some err \<Rightarrow> err | None \<Rightarrow> InvalidInput))"
| "connect_timeout_loop last_error dial (socket_addr # rest) =
     (case dial socket_addr of
        Inr stream \<Rightarrow> Inr stream
      | Inl err \<Rightarrow> connect_timeout_loop (Some err) dial rest)"

text \<open>\<open>dial t a\<close> is the outcome of connecting to \<open>a\<close> with the timeout \<open>t\<close>.\<close>

definition connect_tcp_stream :: "io_kind + 'addr list \<Rightarrow>
    (duration option \<Rightarrow> 'addr \<Rightarrow> io_kind + tcp_stream) \<Rightarrow> duration option \<Rightarrow> tcp_stream result" where
  "connect_tcp_stream resolve dial timeout =
     (case timeout of
        None \<Rightarrow> (case tcp_connect resolve (dial None) of Inl k \<Rightarrow> Inl (Io k) | Inr s \<Rightarrow> Inr s)
      | Some t \<Rightarrow>
          (case resolve of
             Inl k \<Rightarrow> Inl (Io k)
           | Inr addrs \<Rightarrow> connect_timeout_loop None (dial (Some t)) addrs))"

definition RpcClient_new :: "u32 \<Rightarrow> tcp_stream \<Rightarrow> Auth \<Rightarrow> RpcClient result" where
  "RpcClient_new stamp stream auth =
     (case set_nodelay True stream of
        (Inl k, _) \<Rightarrow> Inl (Io k)
      | (Inr _, stream) \<Rightarrow>
          Inr \<lparr>rpc_stream = stream, rpc_xid = stamp, rpc_auth = auth,
               rpc_max_record_size = DEFAULT_MAX_RECORD_SIZE, rpc_interrupted = False\<rparr>)"

definition RpcClient_set_timeout :: "duration option \<Rightarrow> unit rpc" where
  "RpcClient_set_timeout timeout =
     bnd (with_stream (set_read_timeout timeout)) (\<lambda>_.
     bnd (with_stream (set_write_timeout timeout)) (\<lambda>_. ret ()))"

definition connect_with_timeout :: "u32 \<Rightarrow> io_kind + 'addr list \<Rightarrow>
    (duration option \<Rightarrow> 'addr \<Rightarrow> io_kind + tcp_stream) \<Rightarrow> Auth \<Rightarrow> duration option \<Rightarrow>
    RpcClient result" where
  "connect_with_timeout stamp resolve dial auth timeout =
     bindR (connect_tcp_stream resolve dial timeout) (\<lambda>stream.
     bindR (RpcClient_new stamp stream auth) (\<lambda>client.
     case RpcClient_set_timeout timeout client of
       (Inl e, _) \<Rightarrow> Inl e
     | (Inr _, client) \<Rightarrow> Inr client))"

definition set_max_record_size :: "usize \<Rightarrow> unit rpc" where
  "set_max_record_size max_record_size =
     bnd (of_result (validate_max_record_size max_record_size)) (\<lambda>_.
     modify (\<lambda>c. c\<lparr>rpc_max_record_size := max_record_size\<rparr>))"

definition next_xid :: "u32 rpc" where
  "next_xid c =
     (let xid = rpc_xid c + 1;
          xid = (if xid = 0 then 1 else xid)
      in (Inr xid, c\<lparr>rpc_xid := xid\<rparr>))"

definition write_record :: "bytes \<Rightarrow> unit rpc" where
  "write_record payload =
     (if length payload > unat FRAGMENT_LEN_MASK
      then fail (RpcRecordTooLarge (length payload) (unat FRAGMENT_LEN_MASK))
      else
        bnd (of_result (ok_or (u32_try_from (length payload))
               (RpcRecordTooLarge (length payload) (unat FRAGMENT_LEN_MASK)))) (\<lambda>len.
        let header = LAST_FRAGMENT OR len in
        seq_ops
          [with_stream (write_all (u32_to_be_bytes header)),
           with_stream (write_all payload),
           with_stream flush]))"

definition read_fragment :: "bytes \<Rightarrow> (bytes, bytes) loop_step rpc" where
  "read_fragment record =
     bnd (with_stream (read_exact 4)) (\<lambda>header_bytes.
     let header = from_be_bytes header_bytes :: u32;
         is_last = (header AND LAST_FRAGMENT \<noteq> 0);
         fragment_len = unat (header AND FRAGMENT_LEN_MASK)
     in
       if fragment_len = 0 \<and> \<not> is_last
       then fail (Protocol ''RPC record contained zero-length non-final fragment'' [])
       else
         bnd (gets rpc_max_record_size) (\<lambda>max_record_size.
         bnd (of_result (ok_or (checked_add_usize (length record) fragment_len)
                (RpcRecordTooLarge usize_max max_record_size))) (\<lambda>next_len.
         if next_len > max_record_size then fail (RpcRecordTooLarge next_len max_record_size)
         else
           bnd (with_stream (read_exact (next_len - length record))) (\<lambda>chunk.
           if is_last then ret (Break (record @ chunk)) else ret (Continue (record @ chunk))))))"

text \<open>Each turn takes at least the four header bytes from the stream.\<close>

lemma with_stream_Inr:
  "with_stream m c = (Inr x, c') \<longleftrightarrow>
     (\<exists>s. m (rpc_stream c) = (Inr x, s) \<and> c' = c\<lparr>rpc_stream := s\<rparr>)"
  by (auto simp: with_stream_def split: prod.splits sum.splits)

lemma read_exact_Inr:
  assumes "with_stream (read_exact n) c = (Inr bs, c')"
  shows "length bs = n" "rx_size (rx (rpc_stream c')) + n \<le> rx_size (rx (rpc_stream c))"
proof -
  from assms obtain evs where "read_exact_rx n (rx (rpc_stream c)) = (Inr bs, evs)"
    "c' = c\<lparr>rpc_stream := (rpc_stream c)\<lparr>rx := evs\<rparr>\<rparr>"
    by (auto simp: with_stream_Inr read_exact_def split: prod.splits)
  with read_exact_rx_size [OF this(1)]
  show "length bs = n" "rx_size (rx (rpc_stream c')) + n \<le> rx_size (rx (rpc_stream c))" by simp_all
qed

lemma read_fragment_shrinks:
  assumes "read_fragment record c = (Inr st, c')"
  shows "rx_size (rx (rpc_stream c')) < rx_size (rx (rpc_stream c))"
proof -
  from assms obtain bs cs c1 n where 1: "with_stream (read_exact 4) c = (Inr bs, c1)"
    and 2: "with_stream (read_exact n) c1 = (Inr cs, c')"
    by (auto simp: read_fragment_def bnd_Inr_iff Let_def gets_apply ret_apply fail_apply
        of_result_apply split: if_splits)
  from read_exact_Inr(2) [OF 1] read_exact_Inr(2) [OF 2] show ?thesis by linarith
qed

function read_record_loop :: "bytes \<Rightarrow> bytes rpc" where
  "read_record_loop record c =
     (case read_fragment record c of
        (Inl e, c') \<Rightarrow> (Inl e, c')
      | (Inr (Continue record'), c') \<Rightarrow> read_record_loop record' c'
      | (Inr (Break record'), c') \<Rightarrow> (Inr record', c'))"
  by pat_completeness auto
termination
  by (relation "measure (\<lambda>(record, c). rx_size (rx (rpc_stream c)))")
    (auto intro: read_fragment_shrinks [OF sym])

declare read_record_loop.simps [simp del]

interpretation rrl: body_loop read_fragment read_record_loop "\<lambda>_ c. rx_size (rx (rpc_stream c))"
  by unfold_locales (rule read_record_loop.simps, rule read_fragment_shrinks)

definition read_record :: "bytes rpc" where
  "read_record = read_record_loop []"

definition rpc_call :: "u32 \<Rightarrow> u32 \<Rightarrow> u32 \<Rightarrow> (encoder, xdr_error, unit) op \<Rightarrow> bytes rpc" where
  "rpc_call program version procedure args =
     bnd (gets rpc_interrupted) (\<lambda>interrupted.
     if interrupted then fail RpcConnectionInvalid
     else
       bnd next_xid (\<lambda>xid.
       bnd (gets rpc_auth) (\<lambda>auth.
       bnd (of_result (encode_call xid program version procedure auth args)) (\<lambda>request.
       bnd (modify (\<lambda>c. c\<lparr>rpc_interrupted := True\<rparr>)) (\<lambda>_.
       bnd (map_err OutcomeUnknown (write_record request)) (\<lambda>_.
       bnd (map_err OutcomeUnknown read_record) (\<lambda>reply.
       case decode_reply xid reply of
         Inr payload \<Rightarrow> bnd (modify (\<lambda>c. c\<lparr>rpc_interrupted := False\<rparr>)) (\<lambda>_. ret payload)
       | Inl err \<Rightarrow>
           (case err of
              RpcDenied _ _ \<Rightarrow> bnd (modify (\<lambda>c. c\<lparr>rpc_interrupted := False\<rparr>)) (\<lambda>_. fail err)
            | RpcAcceptedError _ \<Rightarrow>
                bnd (modify (\<lambda>c. c\<lparr>rpc_interrupted := False\<rparr>)) (\<lambda>_. fail err)
            | RpcProgramMismatch _ _ \<Rightarrow>
                bnd (modify (\<lambda>c. c\<lparr>rpc_interrupted := False\<rparr>)) (\<lambda>_. fail err)
            | _ \<Rightarrow> fail (OutcomeUnknown err)))))))))"

subsection \<open>Record marking\<close>

text \<open>A record on the wire: fragments with their headers, the last one marked.\<close>

definition frag_header :: "bool \<Rightarrow> nat \<Rightarrow> u32" where
  "frag_header is_last n = (if is_last then LAST_FRAGMENT OR of_nat n else of_nat n)"

fun frame :: "bytes list \<Rightarrow> bytes" where
  "frame [] = []"
| "frame (f # fs) = u32_to_be_bytes (frag_header (fs = []) (length f)) @ f @ frame fs"

fun wf_fragments :: "bytes list \<Rightarrow> bool" where
  "wf_fragments [] = False"
| "wf_fragments (f # fs) \<longleftrightarrow> length f < 2 ^ 31 \<and> (fs = [] \<or> f \<noteq> [] \<and> wf_fragments fs)"

lemma FRAGMENT_LEN_MASK_mask: "FRAGMENT_LEN_MASK = mask 31"
  by (simp add: FRAGMENT_LEN_MASK_def mask_eq_exp_minus_1)

lemma LAST_FRAGMENT_bit: "LAST_FRAGMENT = push_bit 31 1"
  by (simp add: LAST_FRAGMENT_def)

lemma and_mask_31: "w AND FRAGMENT_LEN_MASK = take_bit 31 w"
  by (simp add: FRAGMENT_LEN_MASK_mask take_bit_eq_mask)

lemma unat_and_mask_less: "unat (w AND FRAGMENT_LEN_MASK) < 2 ^ 31"
  unfolding and_mask_31 unsigned_take_bit_eq by (rule take_bit_nat_less_exp)

lemma and_LAST_FRAGMENT: "w AND LAST_FRAGMENT \<noteq> 0 \<longleftrightarrow> bit w 31"
proof -
  have b: "bit (w AND LAST_FRAGMENT) n \<longleftrightarrow> n = 31 \<and> bit w 31" for n
    by (auto simp: LAST_FRAGMENT_bit bit_simps simp del: push_bit_of_1)
  have "w AND LAST_FRAGMENT = 0" if "\<not> bit w 31"
    by (rule bit_word_eqI) (simp add: b that)
  moreover have "w AND LAST_FRAGMENT \<noteq> 0" if "bit w 31"
    using b [of 31] that by force
  ultimately show ?thesis by blast
qed

lemma take_bit_of_small: "n < 2 ^ 31 \<Longrightarrow> take_bit 31 (of_nat n :: u32) = of_nat n"
  by (metis of_nat_take_bit take_bit_nat_eq_self)

lemma bit_of_small: "n < 2 ^ 31 \<Longrightarrow> \<not> bit (of_nat n :: u32) 31"
  by (metis bit_take_bit_iff less_irrefl take_bit_of_small)

lemma frag_header_last [simp]:
  assumes "n < 2 ^ 31"
  shows "frag_header l n AND LAST_FRAGMENT = 0 \<longleftrightarrow> \<not> l"
    "unat (frag_header l n AND FRAGMENT_LEN_MASK) = n"
proof -
  have b: "bit LAST_FRAGMENT 31" "take_bit 31 LAST_FRAGMENT = 0"
    by (simp_all add: LAST_FRAGMENT_bit bit_simps take_bit_push_bit del: push_bit_of_1)
  show "frag_header l n AND LAST_FRAGMENT = 0 \<longleftrightarrow> \<not> l"
    using bit_of_small [OF assms] b and_LAST_FRAGMENT [of "frag_header l n"]
    by (simp add: frag_header_def bit_or_iff split: if_splits)
  have "take_bit 31 (frag_header l n) = of_nat n"
    using b by (simp add: frag_header_def take_bit_or take_bit_of_small [OF assms])
  then show "unat (frag_header l n AND FRAGMENT_LEN_MASK) = n"
    using assms by (simp add: and_mask_31)
qed

lemma frag_header_split:
  "w = frag_header (w AND LAST_FRAGMENT \<noteq> 0) (unat (w AND FRAGMENT_LEN_MASK))"
proof -
  have "w = take_bit 31 w" if "\<not> bit w 31"
    by (rule bit_word_eqI) (use that in \<open>auto simp: bit_simps less_Suc_eq numeral_eq_Suc\<close>)
  moreover have "w = LAST_FRAGMENT OR take_bit 31 w" if "bit w 31"
  proof (rule bit_word_eqI)
    fix n assume "n < LENGTH(32)"
    then consider "n < 31" | "n = 31" by fastforce
    then show "bit w n \<longleftrightarrow> bit (LAST_FRAGMENT OR take_bit 31 w) n"
      using that by cases (simp_all add: LAST_FRAGMENT_bit bit_simps del: push_bit_of_1)
  qed
  ultimately show ?thesis
    by (simp add: and_LAST_FRAGMENT frag_header_def and_mask_31)
qed

definition arriving :: "RpcClient \<Rightarrow> bytes" where
  "arriving c = rx_bytes (rx (rpc_stream c))"

definition set_rx :: "rx_event list \<Rightarrow> RpcClient \<Rightarrow> RpcClient" where
  "set_rx evs c = c\<lparr>rpc_stream := (rpc_stream c)\<lparr>rx := evs\<rparr>\<rparr>"

lemma set_rx_simps [simp]:
  "arriving (set_rx evs c) = rx_bytes evs" "set_rx evs (set_rx evs' c) = set_rx evs c"
  "rpc_max_record_size (set_rx evs c) = rpc_max_record_size c"
  "rpc_interrupted (set_rx evs c) = rpc_interrupted c" "rpc_xid (set_rx evs c) = rpc_xid c"
  "rpc_auth (set_rx evs c) = rpc_auth c" "sent (rpc_stream (set_rx evs c)) = sent (rpc_stream c)"
  "tx (rpc_stream (set_rx evs c)) = tx (rpc_stream c)"
  by (simp_all add: arriving_def set_rx_def)

lemma arriving_update [simp]:
  "arriving (c\<lparr>rpc_xid := x\<rparr>) = arriving c" "arriving (c\<lparr>rpc_interrupted := b\<rparr>) = arriving c"
  "arriving (c\<lparr>rpc_max_record_size := n\<rparr>) = arriving c"
  by (simp_all add: arriving_def)

lemma with_read_exact_ok:
  assumes "arriving c = bs @ rest"
  shows "\<exists>evs. with_stream (read_exact (length bs)) c = (Inr bs, set_rx evs c) \<and> rx_bytes evs = rest"
  using read_exact_rx_ok [of "length bs" "rx (rpc_stream c)"] assms
  by (auto simp: with_stream_def read_exact_def arriving_def set_rx_def)

lemma with_read_exact_Inr:
  assumes "with_stream (read_exact n) c = (Inr bs, c')"
  obtains evs where "c' = set_rx evs c" "arriving c = bs @ rx_bytes evs" "length bs = n"
proof -
  from assms obtain evs where 1: "read_exact_rx n (rx (rpc_stream c)) = (Inr bs, evs)"
    "c' = set_rx evs c"
    by (auto simp: with_stream_Inr read_exact_def set_rx_def split: prod.splits)
  show ?thesis
    using read_exact_rx_Inr [OF 1(1)] 1(2) by (intro that [of evs]) (auto simp: arriving_def)
qed

lemma read_fragment_ok:
  assumes "arriving c = u32_to_be_bytes (frag_header l (length f)) @ f @ rest"
    "length f < 2 ^ 31" "l \<or> f \<noteq> []" "length (record @ f) \<le> rpc_max_record_size c"
    "rpc_max_record_size c \<le> usize_max"
  shows "\<exists>evs. read_fragment record c =
      (Inr (if l then Break (record @ f) else Continue (record @ f)), set_rx evs c) \<and>
      rx_bytes evs = rest"
proof -
  obtain evs1 where 1: "with_stream (read_exact 4) c =
      (Inr (u32_to_be_bytes (frag_header l (length f))), set_rx evs1 c)" "rx_bytes evs1 = f @ rest"
    using with_read_exact_ok [OF assms(1)] by auto
  obtain evs2 where 2: "with_stream (read_exact (length f)) (set_rx evs1 c) = (Inr f, set_rx evs2 c)"
    "rx_bytes evs2 = rest"
    using with_read_exact_ok [of "set_rx evs1 c" f rest] 1(2) by auto
  have add: "checked_add_usize (length record) (length f) = Some (length record + length f)"
    using assms(4,5) by (simp add: checked_add_usize_def)
  have "read_fragment record c =
      (Inr (if l then Break (record @ f) else Continue (record @ f)), set_rx evs2 c)"
    using assms(3,4) by (cases l) (simp_all add: read_fragment_def Let_def bnd_apply gets_apply
        of_result_apply ret_apply 1(1) 2(1) add frag_header_last [OF assms(2)])
  with 2(2) show ?thesis by blast
qed

lemma read_fragment_Inr:
  assumes "read_fragment record c = (Inr st, c')"
  obtains l f evs where "c' = set_rx evs c"
    "arriving c = u32_to_be_bytes (frag_header l (length f)) @ f @ rx_bytes evs"
    "length f < 2 ^ 31" "l \<or> f \<noteq> []" "length (record @ f) \<le> rpc_max_record_size c"
    "st = (if l then Break (record @ f) else Continue (record @ f))"
proof -
  let ?l = "\<lambda>bs. (from_be_bytes bs :: u32) AND LAST_FRAGMENT \<noteq> 0"
  let ?n = "\<lambda>bs. unat ((from_be_bytes bs :: u32) AND FRAGMENT_LEN_MASK)"
  from assms obtain bs f c1 where 1: "with_stream (read_exact 4) c = (Inr bs, c1)"
    and 2: "with_stream (read_exact (?n bs)) c1 = (Inr f, c')"
    and 3: "?l bs \<or> ?n bs \<noteq> 0" "length record + ?n bs \<le> rpc_max_record_size c1"
      "st = (if ?l bs then Break (record @ f) else Continue (record @ f))"
    by (auto simp: read_fragment_def bnd_Inr_iff Let_def gets_apply ret_apply fail_apply
        of_result_apply checked_add_usize_def ok_or_def split: if_splits)
  from 1 obtain e1 where 4: "c1 = set_rx e1 c" "arriving c = bs @ rx_bytes e1" "length bs = 4"
    by (rule with_read_exact_Inr)
  from 2 obtain e2 where 5: "c' = set_rx e2 c1" "arriving c1 = f @ rx_bytes e2" "length f = ?n bs"
    by (rule with_read_exact_Inr)
  have "bs = u32_to_be_bytes (frag_header (?l bs) (length f))"
    unfolding 5(3) frag_header_split [symmetric] by (rule u32_to_from_be [OF 4(3), symmetric])
  then show ?thesis
    using 3 4 5 unat_and_mask_less [of "from_be_bytes bs"] by (intro that [of e2 "?l bs" f]) auto
qed

lemma read_record_loop_ok:
  assumes "wf_fragments fs" "arriving c = frame fs @ rest"
    "length (buf @ concat fs) \<le> rpc_max_record_size c" "rpc_max_record_size c \<le> usize_max"
  shows "\<exists>evs. read_record_loop buf c = (Inr (buf @ concat fs), set_rx evs c) \<and>
    rx_bytes evs = rest"
  using assms
proof (induction fs arbitrary: buf c)
  case (Cons f fs)
  then obtain evs where 1: "read_fragment buf c =
      (Inr (if fs = [] then Break (buf @ f) else Continue (buf @ f)), set_rx evs c)"
    "rx_bytes evs = frame fs @ rest"
    using read_fragment_ok [of c "fs = []" f "frame fs @ rest" buf] by auto
  show ?case
  proof (cases "fs = []")
    case True
    with 1 show ?thesis by (subst read_record_loop.simps) auto
  next
    case False
    with Cons.prems 1(2) obtain evs2 where
      "read_record_loop (buf @ f) (set_rx evs c) =
         (Inr ((buf @ f) @ concat fs), set_rx evs2 (set_rx evs c)) \<and> rx_bytes evs2 = rest"
      using Cons.IH [of "set_rx evs c" "buf @ f"] by auto
    with 1 False show ?thesis by (subst read_record_loop.simps) auto
  qed
qed simp

lemma read_record_loop_Inr:
  "read_record_loop buf c = (Inr r, c') \<Longrightarrow>
   \<exists>fs evs. wf_fragments fs \<and> r = buf @ concat fs \<and> arriving c = frame fs @ rx_bytes evs \<and>
     c' = set_rx evs c \<and> length r \<le> rpc_max_record_size c"
proof (induction buf c arbitrary: r c' rule: read_record_loop.induct)
  case (1 buf c)
  from "1.prems" obtain st c1 where 2: "read_fragment buf c = (Inr st, c1)"
    unfolding read_record_loop.simps [of buf c] by (auto split: prod.splits sum.splits)
  then obtain l f e1 where f: "c1 = set_rx e1 c"
    "arriving c = u32_to_be_bytes (frag_header l (length f)) @ f @ rx_bytes e1"
    "length f < 2 ^ 31" "l \<or> f \<noteq> []" "length (buf @ f) \<le> rpc_max_record_size c"
    "st = (if l then Break (buf @ f) else Continue (buf @ f))"
    by (rule read_fragment_Inr)
  show ?case
  proof (cases l)
    case True
    with "1.prems" 2 f have "r = buf @ f \<and> c' = set_rx e1 c"
      unfolding read_record_loop.simps [of buf c] by simp
    with f True show ?thesis by (intro exI [of _ "[f]"] exI [of _ e1]) auto
  next
    case False
    with "1.prems" 2 f have "read_record_loop (buf @ f) c1 = (Inr r, c')"
      unfolding read_record_loop.simps [of buf c] by simp
    with "1.IH" 2 f(6) False obtain fs e2 where
      "wf_fragments fs" "r = (buf @ f) @ concat fs" "arriving c1 = frame fs @ rx_bytes e2"
      "c' = set_rx e2 c1" "length r \<le> rpc_max_record_size c1"
      by (metis (full_types))
    moreover from this(1) have "fs \<noteq> []" by auto
    ultimately show ?thesis using f False by (intro exI [of _ "f # fs"] exI [of _ e2]) auto
  qed
qed

text \<open>C3. Reading a record is exact: \<open>read_record\<close> (which always returns) yields the record \<open>r\<close> if and
  only if the bytes arriving on the stream start with well-formed fragments (each shorter than
  \<open>2 ^ 31\<close>, none empty but the last one, only the last one marked) whose contents concatenate to
  \<open>r\<close>, and \<open>r\<close> is not longer than the configured limit. However the bytes are cut into reads makes
  no difference.\<close>

theorem read_record_iff:
  assumes "rpc_max_record_size c \<le> usize_max"
  shows "(\<exists>c'. read_record c = (Inr r, c')) \<longleftrightarrow>
    (\<exists>fs rest. wf_fragments fs \<and> arriving c = frame fs @ rest \<and> r = concat fs \<and>
       length r \<le> rpc_max_record_size c)"
proof
  assume "\<exists>c'. read_record c = (Inr r, c')"
  then show "\<exists>fs rest. wf_fragments fs \<and> arriving c = frame fs @ rest \<and> r = concat fs \<and>
       length r \<le> rpc_max_record_size c"
    using read_record_loop_Inr [of "[]" c r] by (force simp: read_record_def)
next
  assume "\<exists>fs rest. wf_fragments fs \<and> arriving c = frame fs @ rest \<and> r = concat fs \<and>
       length r \<le> rpc_max_record_size c"
  then show "\<exists>c'. read_record c = (Inr r, c')"
    using read_record_loop_ok [of _ c _ "[]"] assms by (force simp: read_record_def)
qed

definition demo_stream :: "rx_event list \<Rightarrow> tcp_stream" where
  "demo_stream evs =
     \<lparr>rx = evs, tx = [], sent = [], nodelay = True, read_timeout = None, write_timeout = None,
      sockopt_error = None\<rparr>"

definition demo_client :: "rx_event list \<Rightarrow> RpcClient" where
  "demo_client evs =
     \<lparr>rpc_stream = demo_stream evs, rpc_xid = 4, rpc_auth = AuthNone,
      rpc_max_record_size = DEFAULT_MAX_RECORD_SIZE, rpc_interrupted = False\<rparr>"

lemma demo_client_simps [simp]:
  "rpc_stream (demo_client evs) = demo_stream evs" "rpc_xid (demo_client evs) = 4"
  "rpc_auth (demo_client evs) = AuthNone" "rpc_interrupted (demo_client evs) = False"
  "rpc_max_record_size (demo_client evs) = DEFAULT_MAX_RECORD_SIZE"
  "arriving (demo_client evs) = rx_bytes evs" "tx (demo_stream evs) = []" "sent (demo_stream evs) = []"
  by (simp_all add: demo_client_def demo_stream_def arriving_def)

text \<open>Two fragments, cut into reads in the middle of a header, with an interrupted read between.\<close>

theorem read_record_iff_witness:
  "\<exists>c'. read_record (demo_client [RxData [0, 0], RxErr Interrupted, RxData [0, 2, 7, 8, 128],
      RxData [0, 0, 1, 9]]) = (Inr [7, 8, 9], c')"
proof -
  let ?c = "demo_client [RxData [0, 0], RxErr Interrupted, RxData [0, 2, 7, 8, 128],
      RxData [0, 0, 1, 9]]"
  have "u32_to_be_bytes (frag_header False (Suc (Suc 0))) = [0, 0, 0, 2]"
    "u32_to_be_bytes (frag_header True (Suc 0)) = [128, 0, 0, 1]"
    by code_simp+
  then have "wf_fragments [[7, 8], [9]] \<and> arriving ?c = frame [[7, 8], [9]] @ [] \<and>
      [7, 8, 9] = concat [[7, 8], [9]] \<and> length [7, 8, 9] \<le> rpc_max_record_size ?c"
    by (simp add: DEFAULT_MAX_RECORD_SIZE_def)
  moreover have "rpc_max_record_size ?c \<le> usize_max"
    by (simp add: DEFAULT_MAX_RECORD_SIZE_def usize_max_def)
  ultimately show ?thesis using read_record_iff [of ?c "[7, 8, 9]"] by blast
qed

text \<open>Reading touches nothing but the receiving side of the stream.\<close>

definition only_rx :: "RpcClient \<Rightarrow> RpcClient \<Rightarrow> bool" where
  "only_rx c c' \<longleftrightarrow> (\<exists>evs. c' = set_rx evs c)"

lemma reflp_only_rx [simp, keeps_intros]: "reflp only_rx"
proof (rule reflpI)
  show "only_rx c c" for c
    unfolding only_rx_def by (intro exI [of _ "rx (rpc_stream c)"]) (simp add: set_rx_def)
qed

lemma transp_only_rx [simp, keeps_intros]: "transp only_rx"
  by (rule transpI) (unfold only_rx_def, metis set_rx_simps(2))

lemma only_rx_read_exact [keeps_intros]: "keeps only_rx (with_stream (read_exact n))"
  by (rule keepsI)
    (auto simp: only_rx_def with_stream_def read_exact_def set_rx_def split: prod.splits sum.splits)

lemma only_rx_read_fragment: "keeps only_rx (read_fragment buf)"
  unfolding read_fragment_def Let_def by (intro keeps_intros)

lemma only_rx_read_record [keeps_intros]: "keeps only_rx read_record"
  unfolding read_record_def by (rule rrl.keeps_loop) (simp_all add: only_rx_read_fragment)

subsection \<open>Writing a record\<close>

definition send :: "bytes \<Rightarrow> tx_event list \<Rightarrow> RpcClient \<Rightarrow> RpcClient" where
  "send out evs c =
     c\<lparr>rpc_stream := (rpc_stream c)\<lparr>tx := evs, sent := sent (rpc_stream c) @ out\<rparr>\<rparr>"

lemma send_simps [simp]:
  "send out2 evs2 (send out1 evs1 c) = send (out1 @ out2) evs2 c"
  "rpc_max_record_size (send out evs c) = rpc_max_record_size c"
  "rpc_interrupted (send out evs c) = rpc_interrupted c" "rpc_xid (send out evs c) = rpc_xid c"
  "rpc_auth (send out evs c) = rpc_auth c" "sent (rpc_stream (send out evs c)) = sent (rpc_stream c) @ out"
  "tx (rpc_stream (send out evs c)) = evs" "arriving (send out evs c) = arriving c"
  by (simp_all add: send_def arriving_def)

lemma send_nothing: "send [] (tx (rpc_stream c)) c = c"
  by (simp add: send_def)

lemma with_write_all:
  "with_stream (write_all bs) c =
     (case write_all_tx bs (tx (rpc_stream c)) of
        (Inl k, evs, out) \<Rightarrow> (Inl (Io k), send out evs c)
      | (Inr x, evs, out) \<Rightarrow> (Inr x, send out evs c))"
  by (simp add: with_stream_def write_all_def send_def split: prod.split sum.split)

lemma with_flush [simp]: "with_stream flush c = (Inr (), c)"
  by (simp add: with_stream_def flush_def ret_apply)

lemma unat_FRAGMENT_LEN_MASK: "unat FRAGMENT_LEN_MASK = 2 ^ 31 - 1"
  by (simp add: FRAGMENT_LEN_MASK_def)

lemma write_record_body:
  assumes "length payload < 2 ^ 31"
  shows "write_record payload =
    seq_ops [with_stream (write_all (u32_to_be_bytes (frag_header True (length payload)))),
      with_stream (write_all payload), with_stream flush]"
proof -
  have "length payload < 2 ^ 32" "\<not> unat FRAGMENT_LEN_MASK < length payload"
    using assms by (simp_all add: unat_FRAGMENT_LEN_MASK)
  then show ?thesis
    by (simp add: write_record_def frag_header_def Let_def of_result_def bnd_def ret_def fun_eq_iff
        split: prod.split sum.split)
qed

lemma write_record_sends_prefix:
  assumes "write_record payload c = (r, c')"
  obtains out evs rest where "c' = send out evs c" "frame [payload] = out @ rest"
    "r = Inr () \<Longrightarrow> rest = []"
proof (cases "length payload < 2 ^ 31")
  case False
  then have "unat FRAGMENT_LEN_MASK < length payload" by (simp add: unat_FRAGMENT_LEN_MASK)
  then have "c' = c" "r \<noteq> Inr ()" using assms by (auto simp: write_record_def fail_apply)
  then show ?thesis
    using that [of "[]" "tx (rpc_stream c)" "frame [payload]"] by (simp add: send_nothing)
next
  case True
  let ?h = "u32_to_be_bytes (frag_header True (length payload))"
  obtain r1 e1 o1 where 1: "write_all_tx ?h (tx (rpc_stream c)) = (r1, e1, o1)" by (metis prod_cases3)
  obtain r2 e2 o2 where 2: "write_all_tx payload e1 = (r2, e2, o2)" by (metis prod_cases3)
  obtain t1 where t1: "?h = o1 @ t1" using write_all_tx_prefix [OF 1] by blast
  obtain t2 where t2: "payload = o2 @ t2" using write_all_tx_prefix [OF 2] by blast
  note body = assms [unfolded write_record_body [OF True]]
  show ?thesis
  proof (cases r1)
    case (Inl k)
    with body 1 show ?thesis
      using that [of o1 e1 "t1 @ payload"] t1 by (auto simp: bnd_apply with_write_all)
  next
    case (Inr x)
    with 1 have o1: "o1 = ?h" using write_all_tx_Inr by simp
    have "r2 = Inr () \<Longrightarrow> t2 = []" using 2 write_all_tx_Inr [of payload e1 e2 o2] t2 by simp
    with Inr body 1 2 show ?thesis
      using that [of "?h @ o2" e2 t2] t2 o1
      by (cases r2) (auto simp: bnd_apply with_write_all ret_apply)
  qed
qed

lemma write_record_idle:
  assumes "length payload < 2 ^ 31" "tx (rpc_stream c) = []"
  shows "write_record payload c = (Inr (), send (frame [payload]) [] c)"
  using assms by (simp add: write_record_body bnd_apply with_write_all ret_apply)

subsection \<open>Transaction ids\<close>

text \<open>\<open>next_xid\<close> goes round the non-zero words: a successor modulo \<open>2 ^ 32 - 1\<close>.\<close>

definition succ_xid :: "u32 \<Rightarrow> u32" where
  "succ_xid x = (if x + 1 = 0 then 1 else x + 1)"

lemma next_xid_eq: "next_xid c = (Inr (succ_xid (rpc_xid c)), c\<lparr>rpc_xid := succ_xid (rpc_xid c)\<rparr>)"
  by (simp add: next_xid_def succ_xid_def Let_def)

lemma unat_succ_xid: "unat (succ_xid x) = unat x mod (2 ^ 32 - 1) + 1"
proof -
  have sum: "unat (x + 1) = (unat x + 1) mod 2 ^ 32" by (simp add: unat_word_ariths)
  show ?thesis
  proof (cases "unat x = 2 ^ 32 - 1")
    case True
    with sum have "x + 1 = 0" by (simp add: unat_eq_0 [symmetric] del: unat_eq_0)
    with True show ?thesis by (simp add: succ_xid_def)
  next
    case False
    with unat_u32_less [of x] have "unat x < 2 ^ 32 - 1" by simp
    with sum have "unat (x + 1) = unat x + 1" "unat x mod (2 ^ 32 - 1) = unat x" by simp_all
    then show ?thesis by (auto simp: succ_xid_def)
  qed
qed

lemma unat_succ_xid_pow: "unat ((succ_xid ^^ Suc n) x) = (unat x + n) mod (2 ^ 32 - 1) + 1"
proof (induction n)
  case 0
  then show ?case using unat_succ_xid [of x] by simp
next
  case (Suc n)
  have "unat ((succ_xid ^^ Suc (Suc n)) x) = unat ((succ_xid ^^ Suc n) x) mod (2 ^ 32 - 1) + 1"
    using unat_succ_xid [of "(succ_xid ^^ Suc n) x"] by simp
  also have "\<dots> = (unat x + Suc n) mod (2 ^ 32 - 1) + 1"
    unfolding Suc.IH by (simp only: mod_add_left_eq add_Suc_right Suc_eq_plus1 add.assoc)
  finally show ?case .
qed

definition xid_of_call :: "RpcClient \<Rightarrow> nat \<Rightarrow> u32" where
  "xid_of_call c n = rpc_xid (((\<lambda>c. snd (next_xid c)) ^^ Suc n) c)"

lemma xid_of_call_eq: "xid_of_call c n = (succ_xid ^^ Suc n) (rpc_xid c)"
proof -
  have "rpc_xid (((\<lambda>c. snd (next_xid c)) ^^ m) c) = (succ_xid ^^ m) (rpc_xid c)" for m
    by (induction m) (simp_all add: next_xid_eq)
  then show ?thesis unfolding xid_of_call_def .
qed

text \<open>C6. Transaction ids: no call uses 0, and the ids of two calls are different as long as fewer
  than \<open>2 ^ 32 - 1\<close> calls lie between them, across the wrap-around of the counter and whatever its
  start value was. A reply to an earlier call can therefore not be taken for the reply to a later
  one.\<close>

theorem next_xid_fresh:
  assumes "i < j" "j - i < 2 ^ 32 - 1"
  shows "xid_of_call c i \<noteq> 0 \<and> xid_of_call c i \<noteq> xid_of_call c j"
proof
  let ?x = "unat (rpc_xid c)"
  have u: "unat (xid_of_call c n) = (?x + n) mod (2 ^ 32 - 1) + 1" for n
    unfolding xid_of_call_eq by (rule unat_succ_xid_pow)
  from u [of i] show "xid_of_call c i \<noteq> 0" by auto
  show "xid_of_call c i \<noteq> xid_of_call c j"
  proof
    assume "xid_of_call c i = xid_of_call c j"
    with u [of i] u [of j] have "(?x + j) mod (2 ^ 32 - 1) = (?x + i) mod (2 ^ 32 - 1)" by simp
    then have "(2 ^ 32 - 1) dvd (?x + j) - (?x + i)"
      using assms(1) by (subst (asm) mod_eq_dvd_iff_nat) simp_all
    with assms show False by (auto dest: nat_dvd_not_less)
  qed
qed

theorem next_xid_fresh_witness:
  "xid_of_call (demo_client []) 0 \<noteq> 0 \<and> xid_of_call (demo_client []) 0 \<noteq> xid_of_call (demo_client []) 9"
  using next_xid_fresh [of 0 9 "demo_client []"] by simp

subsection \<open>The outcome of a call\<close>

lemma rpc_call_interrupted:
  "rpc_interrupted c \<Longrightarrow> rpc_call program version procedure args c = (Inl RpcConnectionInvalid, c)"
  by (simp add: rpc_call_def bnd_apply gets_apply fail_apply)

fun definite_rejection :: "error \<Rightarrow> bool" where
  "definite_rejection (RpcDenied _ _) = True"
| "definite_rejection (RpcAcceptedError _) = True"
| "definite_rejection (RpcProgramMismatch _ _) = True"
| "definite_rejection _ = False"

lemma rpc_call_eq:
  assumes "\<not> rpc_interrupted c"
  shows "rpc_call program version procedure args c =
    (let xid = succ_xid (rpc_xid c);
         c0 = c\<lparr>rpc_xid := xid\<rparr>
     in case encode_call xid program version procedure (rpc_auth c) args of
       Inl e \<Rightarrow> (Inl e, c0)
     | Inr request \<Rightarrow>
         (case write_record request (c0\<lparr>rpc_interrupted := True\<rparr>) of
            (Inl e, c1) \<Rightarrow> (Inl (OutcomeUnknown e), c1)
          | (Inr _, c1) \<Rightarrow>
              (case read_record c1 of
                 (Inl e, c2) \<Rightarrow> (Inl (OutcomeUnknown e), c2)
               | (Inr reply, c2) \<Rightarrow>
                   (case decode_reply xid reply of
                      Inr payload \<Rightarrow> (Inr payload, c2\<lparr>rpc_interrupted := False\<rparr>)
                    | Inl e \<Rightarrow>
                        if definite_rejection e then (Inl e, c2\<lparr>rpc_interrupted := False\<rparr>)
                        else (Inl (OutcomeUnknown e), c2)))))"
  using assms
  by (auto simp: rpc_call_def Let_def bnd_apply gets_apply next_xid_eq of_result_apply modify_apply
      map_err_apply ret_apply fail_apply split: prod.split sum.split error.split)

lemma encode_call_Inl:
  "encode_call xid program version procedure auth args = Inl e \<Longrightarrow> \<exists>xe. e = Xdr xe"
  by (auto simp: encode_call_eq split: prod.splits sum.splits)

lemma rpc_interrupted_write:
  "write_record payload c = (r, c') \<Longrightarrow> rpc_interrupted c' = rpc_interrupted c"
  by (elim write_record_sends_prefix) simp

lemma read_record_set_rx: "read_record c = (r, c') \<Longrightarrow> \<exists>evs. c' = set_rx evs c"
  by (drule keepsD [OF only_rx_read_record]) (simp add: only_rx_def)

lemma rpc_interrupted_read: "read_record c = (r, c') \<Longrightarrow> rpc_interrupted c' = rpc_interrupted c"
  by (drule read_record_set_rx) auto

lemma definite_not_unknown: "definite_rejection e \<Longrightarrow> e \<noteq> OutcomeUnknown e'"
  by auto

lemma rpc_call_poisons:
  assumes "\<not> rpc_interrupted c" "rpc_call program version procedure args c = (r, c')"
  shows "rpc_interrupted c' \<longleftrightarrow> (\<exists>e. r = Inl (OutcomeUnknown e))"
  using assms(2) assms(1)
  unfolding rpc_call_eq [OF assms(1)] Let_def
  by (auto split: prod.splits sum.splits if_splits
      dest: encode_call_Inl rpc_interrupted_write rpc_interrupted_read definite_not_unknown)

lemma rpc_call_sends:
  assumes "rpc_call program version procedure args c = (r, c')"
  shows "\<exists>out rest. sent (rpc_stream c') = sent (rpc_stream c) @ out \<and>
    (out = [] \<or> (\<exists>request. encode_call (succ_xid (rpc_xid c)) program version procedure
       (rpc_auth c) args = Inr request \<and> frame [request] = out @ rest))"
proof (cases "rpc_interrupted c")
  case True
  with assms show ?thesis by (auto simp: rpc_call_interrupted)
next
  case False
  let ?xid = "succ_xid (rpc_xid c)"
  let ?c1 = "c\<lparr>rpc_xid := ?xid, rpc_interrupted := True\<rparr>"
  show ?thesis
  proof (cases "encode_call ?xid program version procedure (rpc_auth c) args")
    case (Inl e)
    with assms show ?thesis unfolding rpc_call_eq [OF False] Let_def by auto
  next
    case (Inr request)
    obtain w c2 where w: "write_record request ?c1 = (w, c2)" by fastforce
    then obtain out evs rest where out: "c2 = send out evs ?c1" "frame [request] = out @ rest"
      by (rule write_record_sends_prefix)
    obtain q c3 where q: "read_record c2 = (q, c3)" by fastforce
    then obtain evs where "c3 = set_rx evs c2" using read_record_set_rx by blast
    with out assms Inr w q have "sent (rpc_stream c') = sent (rpc_stream c) @ out"
      unfolding rpc_call_eq [OF False] Let_def
      by (auto split: sum.splits if_splits)
    with Inr out(2) show ?thesis by blast
  qed
qed

text \<open>C1. The two flags agree: after a call on a usable connection, the connection is marked unusable
  if and only if the call reported an unknown outcome. A connection marked unusable answers every
  call with \<open>RpcConnectionInvalid\<close>, and such a call changes nothing: it sends no byte and uses no
  transaction id.\<close>

theorem rpc_call_interrupted_iff_unknown:
  "(\<not> rpc_interrupted c \<and> rpc_call program version procedure args c = (r, c') \<longrightarrow>
     (rpc_interrupted c' \<longleftrightarrow> (\<exists>e. r = Inl (OutcomeUnknown e)))) \<and>
   (rpc_interrupted c \<longrightarrow>
     rpc_call program version procedure args c = (Inl RpcConnectionInvalid, c))"
  using rpc_call_poisons rpc_call_interrupted by blast

theorem rpc_call_interrupted_iff_unknown_witness:
  "(rpc_interrupted (snd (rpc_call 100003 3 0 (encode_unit ()) (demo_client []))) \<longleftrightarrow>
     (\<exists>e. fst (rpc_call 100003 3 0 (encode_unit ()) (demo_client [])) = Inl (OutcomeUnknown e))) \<and>
   rpc_call 100003 3 0 (encode_unit ()) ((demo_client [])\<lparr>rpc_interrupted := True\<rparr>) =
     (Inl RpcConnectionInvalid, (demo_client [])\<lparr>rpc_interrupted := True\<rparr>)"
proof (rule conjI)
  let ?r = "rpc_call 100003 3 0 (encode_unit ()) (demo_client [])"
  show "rpc_interrupted (snd ?r) \<longleftrightarrow> (\<exists>e. fst ?r = Inl (OutcomeUnknown e))"
    by (rule rpc_call_interrupted_iff_unknown [THEN conjunct1, rule_format,
          of "demo_client []" 100003 3 0 "encode_unit ()"])
      (simp only: demo_client_simps prod.collapse not_False_eq_True simp_thms)
  show "rpc_call 100003 3 0 (encode_unit ()) ((demo_client [])\<lparr>rpc_interrupted := True\<rparr>) =
     (Inl RpcConnectionInvalid, (demo_client [])\<lparr>rpc_interrupted := True\<rparr>)"
    by (rule rpc_call_interrupted_iff_unknown [THEN conjunct2, rule_format]) simp
qed

text \<open>A call sends at most one record: what it appends to the outgoing bytes is a prefix of the
  marked record of its own request (the whole record, or the part that the socket took before an
  error), encoded with a fresh transaction id.\<close>

lemma rpc_call_sends_at_most_one_record:
  assumes "rpc_call program version procedure args c = (r, c')"
  shows "\<exists>out. sent (rpc_stream c') = sent (rpc_stream c) @ out \<and>
    (out \<noteq> [] \<longrightarrow> (\<exists>request rest.
       encode_call (succ_xid (rpc_xid c)) program version procedure (rpc_auth c) args = Inr request \<and>
       u32_to_be_bytes (frag_header True (length request)) @ request = out @ rest))"
  using rpc_call_sends [OF assms] by fastforce

lemma rpc_call_exchange:
  assumes c: "\<not> rpc_interrupted c" "tx (rpc_stream c) = []"
    "rpc_max_record_size c \<le> usize_max"
    and request: "encode_call (succ_xid (rpc_xid c)) program version procedure (rpc_auth c) args =
      Inr request" "length request < 2 ^ 31"
    and reply: "wf_fragments fs" "arriving c = frame fs @ rest"
      "length (concat fs) \<le> rpc_max_record_size c" "reply_ok (succ_xid (rpc_xid c)) (concat fs) payload"
  shows "\<exists>c'. rpc_call program version procedure args c = (Inr payload, c') \<and>
    \<not> rpc_interrupted c' \<and> sent (rpc_stream c') = sent (rpc_stream c) @ frame [request] \<and>
    arriving c' = rest \<and> tx (rpc_stream c') = [] \<and> rpc_xid c' = succ_xid (rpc_xid c) \<and>
    rpc_auth c' = rpc_auth c \<and> rpc_max_record_size c' = rpc_max_record_size c"
proof -
  let ?c1 = "send (frame [request]) [] (c\<lparr>rpc_xid := succ_xid (rpc_xid c), rpc_interrupted := True\<rparr>)"
  have w: "write_record request (c\<lparr>rpc_xid := succ_xid (rpc_xid c), rpc_interrupted := True\<rparr>) =
      (Inr (), ?c1)"
    using request(2) c(2) by (intro write_record_idle) simp_all
  obtain evs where q: "read_record ?c1 = (Inr (concat fs), set_rx evs ?c1)" "rx_bytes evs = rest"
    using read_record_loop_ok [of fs ?c1 rest "[]"] reply(1-3) c(3)
    by (auto simp: read_record_def)
  have "decode_reply (succ_xid (rpc_xid c)) (concat fs) = Inr payload"
    using reply(3,4) c(3) by (intro decode_reply_complete) simp_all
  with w q(1) request(1) show ?thesis
    unfolding rpc_call_eq [OF c(1)] Let_def
    using q(2) by (simp add: arriving_def set_rx_def send_def)
qed

abbreviation (input) demo_null_client :: RpcClient where
  "demo_null_client \<equiv> demo_client [RxData (u32_to_be_bytes (frag_header True 24) @ null_reply)]"

lemma demo_null_call:
  "\<exists>c'. rpc_call 100003 3 0 (encode_unit ()) demo_null_client = (Inr [], c') \<and> \<not> rpc_interrupted c' \<and>
     sent (rpc_stream c') = frame [call_wire 5 100003 3 0 AuthNone []]"
proof -
  let ?request = "call_wire 5 100003 3 0 AuthNone []"
  have xid: "succ_xid 4 = 5" by (simp add: succ_xid_def)
  have len: "length null_reply = 24" by (simp add: null_reply_def)
  have enc: "encode_call (succ_xid (rpc_xid demo_null_client)) 100003 3 0 (rpc_auth demo_null_client) (encode_unit ()) =
      Inr ?request"
    by (simp add: xid encode_call_eq encodesD [OF unitc.enc_wire] into_bytes_def extend_from_slice_def
        encoder_new_def)
  have "reply_ok 5 null_reply []"
    unfolding reply_ok_def
    by (rule exI [of _ 0], rule exI [of _ "[]"], rule exI [of _ "[]"])
      (simp add: null_reply_def MSG_REPLY_def REPLY_ACCEPTED_def ACCEPT_SUCCESS_def)
  moreover have "wf_fragments [null_reply]" "arriving demo_null_client = frame [null_reply] @ []"
    using len by (auto simp: null_reply_def)
  moreover have "length ?request < 2 ^ 31"
    by (simp add: call_wire_def auth_wire_def opaque_wire_def opaque_pad_def)
  ultimately show ?thesis
    using rpc_call_exchange [OF _ _ _ enc, of "[null_reply]" "[]" "[]"] len
    by (fastforce simp: xid DEFAULT_MAX_RECORD_SIZE_def usize_max_def)
qed

lemma rpc_call_sends_at_most_one_record_example:
  "\<exists>c' request rest. rpc_call 100003 3 0 (encode_unit ()) demo_null_client = (Inr [], c') \<and>
     sent (rpc_stream c') \<noteq> [] \<and>
     encode_call 5 100003 3 0 AuthNone (encode_unit ()) = Inr request \<and>
     u32_to_be_bytes (frag_header True (length request)) @ request = sent (rpc_stream c') @ rest"
proof -
  from demo_null_call obtain c' where c': "rpc_call 100003 3 0 (encode_unit ()) demo_null_client = (Inr [], c')"
      "sent (rpc_stream c') = frame [call_wire 5 100003 3 0 AuthNone []]" by blast
  have sent: "sent (rpc_stream c') \<noteq> []" by (simp add: c'(2) u32_to_be_bytes_def)
  have "succ_xid 4 = 5" by (simp add: succ_xid_def)
  with rpc_call_sends_at_most_one_record [OF c'(1)] sent c'(1) show ?thesis by auto
qed

text \<open>C4. The exchange works: on a usable, writable connection, whenever the request encodes and the
  peer's fragments carry an accepted reply with the request's transaction id (in a record within the
  limit), the call returns exactly the payload, the connection stays usable, the bytes sent are the
  marked request, and exactly the reply's record is consumed.\<close>

theorem rpc_call_roundtrip:
  assumes "\<not> rpc_interrupted c" "tx (rpc_stream c) = []" "rpc_max_record_size c \<le> usize_max"
    and "encode_call (succ_xid (rpc_xid c)) program version procedure (rpc_auth c) args = Inr request"
      "length request < 2 ^ 31"
    and "wf_fragments fs" "arriving c = frame fs @ rest"
      "length (concat fs) \<le> rpc_max_record_size c" "reply_ok (succ_xid (rpc_xid c)) (concat fs) payload"
  shows "\<exists>c'. rpc_call program version procedure args c = (Inr payload, c') \<and>
    \<not> rpc_interrupted c' \<and>
    sent (rpc_stream c') =
      sent (rpc_stream c) @ u32_to_be_bytes (frag_header True (length request)) @ request \<and>
    arriving c' = rest"
  using rpc_call_exchange [OF assms] by auto

theorem rpc_call_roundtrip_witness:
  "\<exists>request c'. rpc_call 100003 3 0 (encode_unit ())
      (demo_client [RxData (u32_to_be_bytes (frag_header True 24) @ null_reply)]) = (Inr [], c') \<and>
    \<not> rpc_interrupted c' \<and>
    sent (rpc_stream c') = u32_to_be_bytes (frag_header True (length request)) @ request"
proof -
  let ?c = "demo_client [RxData (u32_to_be_bytes (frag_header True 24) @ null_reply)]"
  let ?request = "call_wire 5 100003 3 0 AuthNone []"
  have xid: "succ_xid (rpc_xid ?c) = 5" by (simp add: succ_xid_def)
  have len: "length null_reply = 24" by (simp add: null_reply_def)
  have enc: "encode_call 5 100003 3 0 AuthNone (encode_unit ()) = Inr ?request"
    by (simp add: encode_call_eq encodesD [OF unitc.enc_wire] into_bytes_def extend_from_slice_def
        encoder_new_def)
  have "reply_ok 5 null_reply []"
    unfolding reply_ok_def
    by (rule exI [of _ 0], rule exI [of _ "[]"], rule exI [of _ "[]"])
      (simp add: null_reply_def MSG_REPLY_def REPLY_ACCEPTED_def ACCEPT_SUCCESS_def)
  moreover have "wf_fragments [null_reply]" "arriving ?c = frame [null_reply] @ []"
    using len by (auto simp: null_reply_def)
  moreover have "length ?request < 2 ^ 31"
    by (simp add: call_wire_def auth_wire_def opaque_wire_def opaque_pad_def)
  ultimately have "\<exists>c'. rpc_call 100003 3 0 (encode_unit ()) ?c = (Inr [], c') \<and>
    \<not> rpc_interrupted c' \<and>
    sent (rpc_stream c') =
      sent (rpc_stream ?c) @ u32_to_be_bytes (frag_header True (length ?request)) @ ?request \<and>
    arriving c' = []"
    using xid len enc
    by (intro rpc_call_roundtrip [of ?c 100003 3 0 "encode_unit ()" ?request "[null_reply]" "[]" "[]"])
      (simp_all add: DEFAULT_MAX_RECORD_SIZE_def usize_max_def)
  then show ?thesis by auto
qed

subsection \<open>The contract of a transport\<close>

text \<open>A client that makes one call after the other, whatever the results are.\<close>

fun run_calls :: "('q \<Rightarrow> ('s, error, 'r) op) \<Rightarrow> 'q list \<Rightarrow> 's \<Rightarrow> 'r result list \<times> 's" where
  "run_calls call [] s = ([], s)"
| "run_calls call (q # qs) s =
     (let (r, s') = call q s; (rs, s'') = run_calls call qs s' in (r # rs, s''))"

definition is_unknown :: "'r result \<Rightarrow> bool" where
  "is_unknown r \<longleftrightarrow> (case r of Inl (OutcomeUnknown _) \<Rightarrow> True | _ \<Rightarrow> False)"

lemma is_unknown_iff: "is_unknown r \<longleftrightarrow> (\<exists>e. r = Inl (OutcomeUnknown e))"
  by (auto simp: is_unknown_def split: sum.splits error.splits)

locale rpc_transport =
  fixes call :: "'q \<Rightarrow> ('s, error, 'r) op" and poisoned :: "'s \<Rightarrow> bool"
  assumes poisoned_call: "poisoned s \<Longrightarrow> call q s = (Inl RpcConnectionInvalid, s)"
    and unknown_poisons:
      "\<not> poisoned s \<Longrightarrow> call q s = (r, s') \<Longrightarrow> poisoned s' \<longleftrightarrow> (\<exists>e. r = Inl (OutcomeUnknown e))"
begin

lemma run_poisoned:
  "poisoned s \<Longrightarrow> run_calls call qs s = (replicate (length qs) (Inl RpcConnectionInvalid), s)"
  by (induction qs) (simp_all add: poisoned_call)

lemma run_usable:
  assumes "\<not> poisoned s" "run_calls call qs s = (rs, s')"
  shows "(\<not> poisoned s' \<and> \<not> list_ex is_unknown rs) \<or>
    (poisoned s' \<and> (\<exists>good e n. rs = good @ Inl (OutcomeUnknown e) #
       replicate n (Inl RpcConnectionInvalid) \<and> \<not> list_ex is_unknown good))"
  using assms
proof (induction qs arbitrary: s rs)
  case Nil
  then show ?case by simp
next
  case (Cons q qs)
  obtain r s1 where 1: "call q s = (r, s1)" by fastforce
  obtain rs1 s2 where 2: "run_calls call qs s1 = (rs1, s2)" by fastforce
  from Cons.prems 1 2 have rs: "rs = r # rs1" "s' = s2" by simp_all
  show ?case
  proof (cases "poisoned s1")
    case True
    with Cons.prems(1) 1 obtain e where "r = Inl (OutcomeUnknown e)"
      using unknown_poisons by blast
    moreover have "rs1 = replicate (length qs) (Inl RpcConnectionInvalid)" "s2 = s1"
      using run_poisoned [OF True, of qs] 2 by simp_all
    ultimately show ?thesis
      using True rs
      by (intro disjI2 conjI exI [of _ "[]"] exI [of _ e] exI [of _ "length qs"]) simp_all
  next
    case False
    with Cons.prems(1) 1 have "\<not> is_unknown r"
      using unknown_poisons by (auto simp: is_unknown_iff)
    with Cons.IH [OF False 2 [folded rs(2)]] rs show ?thesis
      by (elim disjE conjE exE) (simp, rule disjI2, intro conjI exI [of _ "r # good" for good], auto)
  qed
qed

end

interpretation rpct: rpc_transport
  "\<lambda>(program, version, procedure, args). rpc_call program version procedure args" rpc_interrupted
  by unfold_locales (auto simp: rpc_call_interrupted rpc_call_poisons split: prod.splits)

text \<open>C2. In any sequence of calls on one connection at most one has an unknown outcome, and from then
  on every call fails with \<open>RpcConnectionInvalid\<close> without touching the connection: no request is
  ever sent behind one whose reply may still arrive.\<close>

theorem calls_after_unknown_refused:
  assumes "\<not> rpc_interrupted c"
    "run_calls (\<lambda>(program, version, procedure, args). rpc_call program version procedure args) qs c =
       (rs, c')"
  shows "(\<not> rpc_interrupted c' \<and> \<not> list_ex is_unknown rs) \<or>
    (rpc_interrupted c' \<and> (\<exists>good e n. rs = good @ Inl (OutcomeUnknown e) #
       replicate n (Inl RpcConnectionInvalid) \<and> \<not> list_ex is_unknown good))"
  using assms by (rule rpct.run_usable)

definition null_calls :: "nat \<Rightarrow> (u32 \<times> u32 \<times> u32 \<times> (encoder, xdr_error, unit) op) list" where
  "null_calls n = replicate n (100003, 3, 0, encode_unit ())"

theorem calls_after_unknown_refused_witness:
  "\<exists>rs c'. run_calls (\<lambda>(program, version, procedure, args). rpc_call program version procedure args)
       (null_calls 2) (demo_client []) = (rs, c') \<and>
     ((\<not> rpc_interrupted c' \<and> \<not> list_ex is_unknown rs) \<or>
      (rpc_interrupted c' \<and> (\<exists>good e n. rs = good @ Inl (OutcomeUnknown e) #
         replicate n (Inl RpcConnectionInvalid) \<and> \<not> list_ex is_unknown good)))"
proof -
  let ?r = "run_calls (\<lambda>(program, version, procedure, args). rpc_call program version procedure args)
       (null_calls 2) (demo_client [])"
  have r: "?r = (fst ?r, snd ?r)" by (simp only: prod.collapse)
  have "\<not> rpc_interrupted (demo_client [])" by simp
  from calls_after_unknown_refused [OF this r] r show ?thesis by blast
qed

subsection \<open>Connecting\<close>

lemma connect_timeout_loop_eq:
  "connect_timeout_loop e dial as = (case connect_each e dial as of Inl k \<Rightarrow> Inl (Io k) | Inr s \<Rightarrow> Inr s)"
  by (induction as arbitrary: e) (simp_all split: sum.split)

lemma connect_tcp_stream_eq:
  "connect_tcp_stream resolve dial timeout =
     (case tcp_connect resolve (dial timeout) of Inl k \<Rightarrow> Inl (Io k) | Inr s \<Rightarrow> Inr s)"
  by (simp add: connect_tcp_stream_def tcp_connect_def connect_timeout_loop_eq
      split: option.split sum.split)

text \<open>Connecting with a timeout tries the resolved addresses exactly like connecting without one
  (the first that answers wins, otherwise the error of the last one), and a client it returns is
  usable: not marked as interrupted, with the default record limit, \<open>TCP_NODELAY\<close> set and both
  stream timeouts equal to the requested one.\<close>

lemma connect_with_timeout_usable:
  "(connect_with_timeout stamp resolve dial auth timeout = Inr c \<longrightarrow>
     \<not> rpc_interrupted c \<and> rpc_max_record_size c = 64 * 1024 * 1024 \<and> rpc_auth c = auth \<and>
     nodelay (rpc_stream c) \<and> read_timeout (rpc_stream c) = timeout \<and>
     write_timeout (rpc_stream c) = timeout \<and>
     (\<exists>s. tcp_connect resolve (dial timeout) = Inr s \<and> sent (rpc_stream c) = sent s)) \<and>
   (tcp_connect resolve (dial timeout) = Inl k \<longrightarrow>
     connect_with_timeout stamp resolve dial auth timeout = Inl (Io k))"
  by (auto simp: connect_with_timeout_def connect_tcp_stream_eq RpcClient_new_def
      RpcClient_set_timeout_def bindR_def bnd_apply ret_apply with_stream_def set_nodelay_def
      set_read_timeout_def set_write_timeout_def DEFAULT_MAX_RECORD_SIZE_def
      split: sum.splits prod.splits option.splits if_splits)

lemma connect_with_timeout_usable_example:
  "connect_with_timeout 7 (Inr [False, True])
     (\<lambda>_ a. if a then Inr (demo_stream []) else Inl ConnectionRefused) AuthNone (Some 5) =
   Inr \<lparr>rpc_stream = (demo_stream [])\<lparr>read_timeout := Some 5, write_timeout := Some 5\<rparr>,
     rpc_xid = 7, rpc_auth = AuthNone, rpc_max_record_size = DEFAULT_MAX_RECORD_SIZE,
     rpc_interrupted = False\<rparr> \<and>
   connect_with_timeout 7 (Inr [False, True]) (\<lambda>_ a. Inl ConnectionRefused) AuthNone (Some 5) =
   Inl (Io ConnectionRefused)"
proof (rule conjI)
  show "connect_with_timeout 7 (Inr [False, True])
     (\<lambda>_ a. if a then Inr (demo_stream []) else Inl ConnectionRefused) AuthNone (Some 5) =
   Inr \<lparr>rpc_stream = (demo_stream [])\<lparr>read_timeout := Some 5, write_timeout := Some 5\<rparr>,
     rpc_xid = 7, rpc_auth = AuthNone, rpc_max_record_size = DEFAULT_MAX_RECORD_SIZE,
     rpc_interrupted = False\<rparr>"
    by (simp add: connect_with_timeout_def connect_tcp_stream_eq tcp_connect_def RpcClient_new_def
        RpcClient_set_timeout_def bnd_apply ret_apply with_stream_def set_nodelay_def
        set_read_timeout_def set_write_timeout_def demo_stream_def)
  show "connect_with_timeout 7 (Inr [False, True]) (\<lambda>_ a. Inl ConnectionRefused) AuthNone (Some 5) =
     Inl (Io ConnectionRefused)"
    by (rule connect_with_timeout_usable [THEN conjunct2, rule_format]) (simp add: tcp_connect_def)
qed

subsection \<open>Record limits\<close>

lemma foldr_max_ge: "x \<in> set xs \<Longrightarrow> unat x \<le> foldr (\<lambda>size. max (unat size)) xs 0"
  by (induction xs) auto

lemma max_record_size_for_payloads_fits:
  assumes "x \<in> set sizes"
  shows "unat x + MAX_RECORD_HEADROOM \<le> max_record_size_for_payloads sizes"
proof -
  have "foldr (\<lambda>size. max (unat size)) sizes 0 < (2 ^ 32 :: nat)"
    using unat_u32_less by (induction sizes) auto
  with foldr_max_ge [OF assms] show ?thesis
    by (simp add: max_record_size_for_payloads_def saturating_add_usize_def MAX_RECORD_HEADROOM_def
        usize_max_def min_def max_def)
qed

lemma max_record_size_for_payloads_bounds:
  "DEFAULT_MAX_RECORD_SIZE \<le> max_record_size_for_payloads sizes"
  "max_record_size_for_payloads sizes \<le> usize_max"
  by (simp_all add: max_record_size_for_payloads_def saturating_add_usize_def DEFAULT_MAX_RECORD_SIZE_def
      usize_max_def)

end
