(* ===== verification/V3_Types.thy ===== *)
theory V3_Types
  imports Rpc_Client
begin

text \<open>
  The data of NFSv3 (\<open>src/v3/proto.rs\<close>): file types, handles, times, attributes, attribute updates,
  write stability and creation modes, with their \<open>Encode\<close> and \<open>Decode\<close> impls. Field names carry the
  initials of their struct. A verifier, \<open>[u8; 8]\<close> in the source, is a byte list.

  Types that are both encoded and decoded interpret the contract \<open>xdr_codec\<close>. For the types the
  client only decodes, the functions \<open>..._wire\<close> give the layout of RFC 1813 that a server sends, and
  the lemmas show that decoding reads it back; for the types it only encodes, they show that the
  encoder produces the layout.
\<close>

subsection \<open>Constants\<close>

definition NFS3_FHSIZE :: usize where "NFS3_FHSIZE = 64"
definition NFS3_COOKIEVERFSIZE :: usize where "NFS3_COOKIEVERFSIZE = 8"
definition NFS3_WRITEVERFSIZE :: usize where "NFS3_WRITEVERFSIZE = 8"
definition MAX_NAME_BYTES :: usize where "MAX_NAME_BYTES = 1024 * 1024"
definition MAX_PATH_BYTES :: usize where "MAX_PATH_BYTES = 1024 * 1024"
definition MAX_IO_BYTES :: usize where "MAX_IO_BYTES = 64 * 1024 * 1024"
definition MAX_DIR_ENTRIES :: usize where "MAX_DIR_ENTRIES = 1000000"
definition NFS3_NSECONDS_PER_SECOND :: u32 where "NFS3_NSECONDS_PER_SECOND = 1000000000"

lemmas v3_consts = NFS3_FHSIZE_def NFS3_COOKIEVERFSIZE_def NFS3_WRITEVERFSIZE_def
  MAX_NAME_BYTES_def MAX_PATH_BYTES_def MAX_IO_BYTES_def MAX_DIR_ENTRIES_def

subsection \<open>File types\<close>

datatype FileType =
    Regular | Directory | BlockDevice | CharacterDevice | Symlink | Socket | Fifo

definition FileType_is_file :: "FileType \<Rightarrow> bool" where "FileType_is_file t \<longleftrightarrow> t = Regular"
definition FileType_is_dir :: "FileType \<Rightarrow> bool" where "FileType_is_dir t \<longleftrightarrow> t = Directory"
definition FileType_is_symlink :: "FileType \<Rightarrow> bool" where "FileType_is_symlink t \<longleftrightarrow> t = Symlink"

definition FileType_from_i32 :: "i32 \<Rightarrow> xdr_error + FileType" where
  "FileType_from_i32 v =
     (if v = 1 then Inr Regular else if v = 2 then Inr Directory
      else if v = 3 then Inr BlockDevice else if v = 4 then Inr CharacterDevice
      else if v = 5 then Inr Symlink else if v = 6 then Inr Socket else if v = 7 then Inr Fifo
      else Inl (InvalidDiscriminant ''ftype3'' v))"

primrec FileType_as_i32 :: "FileType \<Rightarrow> i32" where
  "FileType_as_i32 Regular = 1"
| "FileType_as_i32 Directory = 2"
| "FileType_as_i32 BlockDevice = 3"
| "FileType_as_i32 CharacterDevice = 4"
| "FileType_as_i32 Symlink = 5"
| "FileType_as_i32 Socket = 6"
| "FileType_as_i32 Fifo = 7"

definition encode_FileType :: "FileType enc" where
  "encode_FileType t = write_discriminant (FileType_as_i32 t)"

definition decode_FileType :: "FileType dec" where
  "decode_FileType = bnd read_discriminant (\<lambda>v. of_result (FileType_from_i32 v))"

subsection \<open>Handles, device numbers and times\<close>

record FileHandle =
  fh_data :: bytes

definition FileHandle_new :: "bytes \<Rightarrow> FileHandle result" where
  "FileHandle_new data =
     (if length data > NFS3_FHSIZE
      then Inl (Protocol ''NFS file handle is {} bytes, maximum is {}''
             [FNat (length data), FNat NFS3_FHSIZE])
      else Inr \<lparr>fh_data = data\<rparr>)"

definition encode_FileHandle :: "FileHandle enc" where
  "encode_FileHandle h = write_opaque (fh_data h) NFS3_FHSIZE"

definition decode_FileHandle :: "FileHandle dec" where
  "decode_FileHandle = bnd (read_opaque_vec NFS3_FHSIZE) (\<lambda>data. ret \<lparr>fh_data = data\<rparr>)"

record SpecData =
  specdata1 :: u32
  specdata2 :: u32

definition decode_SpecData :: "SpecData dec" where
  "decode_SpecData =
     bnd decode_u32 (\<lambda>a. bnd decode_u32 (\<lambda>b. ret \<lparr>specdata1 = a, specdata2 = b\<rparr>))"

definition encode_SpecData :: "SpecData enc" where
  "encode_SpecData s = seq_ops [encode_u32 (specdata1 s), encode_u32 (specdata2 s)]"

record NfsTime =
  seconds :: u32
  nseconds :: u32

definition validate_nseconds :: "u32 \<Rightarrow> xdr_error + unit" where
  "validate_nseconds n =
     (if n \<ge> NFS3_NSECONDS_PER_SECOND
      then Inl (LengthLimitExceeded (unat n) (unat (NFS3_NSECONDS_PER_SECOND - 1)))
      else Inr ())"

definition NfsTime_validate :: "NfsTime \<Rightarrow> xdr_error + unit" where
  "NfsTime_validate t = validate_nseconds (nseconds t)"

definition decode_NfsTime :: "NfsTime dec" where
  "decode_NfsTime =
     bnd decode_u32 (\<lambda>s. bnd decode_u32 (\<lambda>n.
     let time = \<lparr>seconds = s, nseconds = n\<rparr> in
     bnd (of_result (NfsTime_validate time)) (\<lambda>_. ret time)))"

definition encode_NfsTime :: "NfsTime enc" where
  "encode_NfsTime t =
     seq_ops [of_result (NfsTime_validate t), encode_u32 (seconds t), encode_u32 (nseconds t)]"

subsection \<open>Attributes\<close>

record FileAttr =
  fa_file_type :: FileType
  fa_mode :: u32
  fa_nlink :: u32
  fa_uid :: u32
  fa_gid :: u32
  fa_size :: u64
  fa_used :: u64
  fa_rdev :: SpecData
  fa_fsid :: u64
  fa_fileid :: u64
  fa_atime :: NfsTime
  fa_mtime :: NfsTime
  fa_ctime :: NfsTime

definition FileAttr_is_file :: "FileAttr \<Rightarrow> bool" where
  "FileAttr_is_file a = FileType_is_file (fa_file_type a)"

definition FileAttr_is_dir :: "FileAttr \<Rightarrow> bool" where
  "FileAttr_is_dir a = FileType_is_dir (fa_file_type a)"

definition FileAttr_is_symlink :: "FileAttr \<Rightarrow> bool" where
  "FileAttr_is_symlink a = FileType_is_symlink (fa_file_type a)"

definition decode_FileAttr :: "FileAttr dec" where
  "decode_FileAttr =
     bnd decode_FileType (\<lambda>file_type.
     bnd decode_u32 (\<lambda>mode.
     bnd decode_u32 (\<lambda>nlink.
     bnd decode_u32 (\<lambda>uid.
     bnd decode_u32 (\<lambda>gid.
     bnd decode_u64 (\<lambda>size.
     bnd decode_u64 (\<lambda>used.
     bnd decode_SpecData (\<lambda>rdev.
     bnd decode_u64 (\<lambda>fsid.
     bnd decode_u64 (\<lambda>fileid.
     bnd decode_NfsTime (\<lambda>atime.
     bnd decode_NfsTime (\<lambda>mtime.
     bnd decode_NfsTime (\<lambda>ctime.
     ret \<lparr>fa_file_type = file_type, fa_mode = mode, fa_nlink = nlink, fa_uid = uid, fa_gid = gid,
          fa_size = size, fa_used = used, fa_rdev = rdev, fa_fsid = fsid, fa_fileid = fileid,
          fa_atime = atime, fa_mtime = mtime, fa_ctime = ctime\<rparr>)))))))))))))"

record WccAttr =
  wa_size :: u64
  wa_mtime :: NfsTime
  wa_ctime :: NfsTime

definition decode_WccAttr :: "WccAttr dec" where
  "decode_WccAttr =
     bnd decode_u64 (\<lambda>size.
     bnd decode_NfsTime (\<lambda>mtime.
     bnd decode_NfsTime (\<lambda>ctime.
     ret \<lparr>wa_size = size, wa_mtime = mtime, wa_ctime = ctime\<rparr>)))"

definition decode_post_op_attr :: "FileAttr option dec" where
  "decode_post_op_attr =
     bnd decode_bool (\<lambda>b. if b then bnd decode_FileAttr (\<lambda>a. ret (Some a)) else ret None)"

definition decode_pre_op_attr :: "WccAttr option dec" where
  "decode_pre_op_attr =
     bnd decode_bool (\<lambda>b. if b then bnd decode_WccAttr (\<lambda>a. ret (Some a)) else ret None)"

definition decode_post_op_fh :: "FileHandle option dec" where
  "decode_post_op_fh =
     bnd decode_bool (\<lambda>b. if b then bnd decode_FileHandle (\<lambda>h. ret (Some h)) else ret None)"

record WccData =
  wcc_before :: "WccAttr option"
  wcc_after :: "FileAttr option"

definition decode_WccData :: "WccData dec" where
  "decode_WccData =
     bnd decode_pre_op_attr (\<lambda>before.
     bnd decode_post_op_attr (\<lambda>after. ret \<lparr>wcc_before = before, wcc_after = after\<rparr>))"

subsection \<open>Attribute updates\<close>

datatype SetTime = DontChange | ServerTime | ClientTime NfsTime

record SetAttr =
  sa_mode :: "u32 option"
  sa_uid :: "u32 option"
  sa_gid :: "u32 option"
  sa_size :: "u64 option"
  sa_atime :: SetTime
  sa_mtime :: SetTime

definition SetAttr_default :: SetAttr where
  "SetAttr_default =
     \<lparr>sa_mode = None, sa_uid = None, sa_gid = None, sa_size = None,
      sa_atime = DontChange, sa_mtime = DontChange\<rparr>"

definition SetAttr_mode :: "u32 \<Rightarrow> SetAttr" where
  "SetAttr_mode mode = SetAttr_default\<lparr>sa_mode := Some mode\<rparr>"

definition SetAttr_uid :: "u32 \<Rightarrow> SetAttr" where
  "SetAttr_uid uid = SetAttr_default\<lparr>sa_uid := Some uid\<rparr>"

definition SetAttr_gid :: "u32 \<Rightarrow> SetAttr" where
  "SetAttr_gid gid = SetAttr_default\<lparr>sa_gid := Some gid\<rparr>"

definition SetAttr_ownership :: "u32 \<Rightarrow> u32 \<Rightarrow> SetAttr" where
  "SetAttr_ownership uid gid = SetAttr_default\<lparr>sa_uid := Some uid, sa_gid := Some gid\<rparr>"

definition SetAttr_size :: "u64 \<Rightarrow> SetAttr" where
  "SetAttr_size n = SetAttr_default\<lparr>sa_size := Some n\<rparr>"

definition SetAttr_times :: "NfsTime option \<Rightarrow> NfsTime option \<Rightarrow> SetAttr" where
  "SetAttr_times atime mtime =
     SetAttr_default\<lparr>sa_atime := (case atime of None \<Rightarrow> DontChange | Some t \<Rightarrow> ClientTime t),
       sa_mtime := (case mtime of None \<Rightarrow> DontChange | Some t \<Rightarrow> ClientTime t)\<rparr>"

definition SetAttr_touch :: SetAttr where
  "SetAttr_touch = SetAttr_default\<lparr>sa_atime := ServerTime, sa_mtime := ServerTime\<rparr>"

definition encode_optional_u32 :: "u32 option enc" where
  "encode_optional_u32 value =
     bnd (write_bool (value \<noteq> None)) (\<lambda>_. case value of Some v \<Rightarrow> write_u32 v | None \<Rightarrow> ret ())"

definition encode_optional_u64 :: "u64 option enc" where
  "encode_optional_u64 value =
     bnd (write_bool (value \<noteq> None)) (\<lambda>_. case value of Some v \<Rightarrow> write_u64 v | None \<Rightarrow> ret ())"

definition encode_set_time :: "SetTime enc" where
  "encode_set_time value =
     (case value of
        DontChange \<Rightarrow> write_discriminant 0
      | ServerTime \<Rightarrow> write_discriminant 1
      | ClientTime time \<Rightarrow>
          seq_ops [of_result (NfsTime_validate time), write_discriminant 2, encode_NfsTime time])"

definition encode_SetAttr :: "SetAttr enc" where
  "encode_SetAttr a =
     seq_ops
       [encode_optional_u32 (sa_mode a),
        encode_optional_u32 (sa_uid a),
        encode_optional_u32 (sa_gid a),
        encode_optional_u64 (sa_size a),
        encode_set_time (sa_atime a),
        encode_set_time (sa_mtime a)]"

subsection \<open>Write stability\<close>

datatype StableHow = Unstable | DataSync | FileSync

definition StableHow_from_i32 :: "i32 \<Rightarrow> xdr_error + StableHow" where
  "StableHow_from_i32 v =
     (if v = 0 then Inr Unstable else if v = 1 then Inr DataSync else if v = 2 then Inr FileSync
      else Inl (InvalidDiscriminant ''stable_how'' v))"

primrec StableHow_as_i32 :: "StableHow \<Rightarrow> i32" where
  "StableHow_as_i32 Unstable = 0"
| "StableHow_as_i32 DataSync = 1"
| "StableHow_as_i32 FileSync = 2"

text \<open>\<open>derive(PartialOrd, Ord)\<close>: the order of the variants.\<close>

primrec stable_rank :: "StableHow \<Rightarrow> nat" where
  "stable_rank Unstable = 0"
| "stable_rank DataSync = 1"
| "stable_rank FileSync = 2"

instantiation StableHow :: linorder
begin

definition less_eq_StableHow :: "StableHow \<Rightarrow> StableHow \<Rightarrow> bool" where
  "a \<le> b \<longleftrightarrow> stable_rank a \<le> stable_rank b"

definition less_StableHow :: "StableHow \<Rightarrow> StableHow \<Rightarrow> bool" where
  "a < b \<longleftrightarrow> stable_rank a < stable_rank b"

instance
proof
  fix a b :: StableHow
  assume "a \<le> b" "b \<le> a"
  then show "a = b" by (cases a; cases b; simp add: less_eq_StableHow_def)
qed (auto simp: less_eq_StableHow_def less_StableHow_def)

end

definition satisfies :: "StableHow \<Rightarrow> StableHow \<Rightarrow> bool" where
  "satisfies committed requested \<longleftrightarrow> committed \<ge> requested"

definition encode_StableHow :: "StableHow enc" where
  "encode_StableHow s = write_discriminant (StableHow_as_i32 s)"

definition decode_StableHow :: "StableHow dec" where
  "decode_StableHow = bnd read_discriminant (\<lambda>v. of_result (StableHow_from_i32 v))"

subsection \<open>Creation modes\<close>

datatype CreateHow = Unchecked SetAttr | Guarded SetAttr | Exclusive bytes

definition encode_CreateHow :: "CreateHow enc" where
  "encode_CreateHow how =
     (case how of
        Unchecked attr \<Rightarrow> seq_ops [write_discriminant 0, encode_SetAttr attr]
      | Guarded attr \<Rightarrow> seq_ops [write_discriminant 1, encode_SetAttr attr]
      | Exclusive verf \<Rightarrow> seq_ops [write_discriminant 2, write_fixed_opaque verf])"

datatype MknodData =
    MkCharacterDevice SetAttr SpecData
  | MkBlockDevice SetAttr SpecData
  | MkSocket SetAttr
  | MkFifo SetAttr

definition encode_MknodData :: "MknodData enc" where
  "encode_MknodData what =
     (case what of
        MkCharacterDevice attributes spec \<Rightarrow>
          seq_ops [encode_FileType CharacterDevice, encode_SetAttr attributes, encode_SpecData spec]
      | MkBlockDevice attributes spec \<Rightarrow>
          seq_ops [encode_FileType BlockDevice, encode_SetAttr attributes, encode_SpecData spec]
      | MkSocket attributes \<Rightarrow> seq_ops [encode_FileType Socket, encode_SetAttr attributes]
      | MkFifo attributes \<Rightarrow> seq_ops [encode_FileType Fifo, encode_SetAttr attributes])"

subsection \<open>Layouts and codecs\<close>

definition time_ok :: "NfsTime \<Rightarrow> bool" where
  "time_ok t \<longleftrightarrow> nseconds t < 1000000000"

definition time_wire :: "NfsTime \<Rightarrow> bytes" where
  "time_wire t = u32_to_be_bytes (seconds t) @ u32_to_be_bytes (nseconds t)"

definition specdata_wire :: "SpecData \<Rightarrow> bytes" where
  "specdata_wire s = u32_to_be_bytes (specdata1 s) @ u32_to_be_bytes (specdata2 s)"

definition ftype_wire :: "FileType \<Rightarrow> bytes" where
  "ftype_wire t = u32_to_be_bytes (FileType_as_i32 t)"

definition fh_ok :: "FileHandle \<Rightarrow> bool" where
  "fh_ok h \<longleftrightarrow> length (fh_data h) \<le> 64"

definition fh_wire :: "FileHandle \<Rightarrow> bytes" where
  "fh_wire h = opaque_wire (fh_data h)"

definition stable_wire :: "StableHow \<Rightarrow> bytes" where
  "stable_wire s = u32_to_be_bytes (StableHow_as_i32 s)"

lemma FileHandle_new_ok: "FileHandle_new d = Inr h \<longleftrightarrow> fh_ok h \<and> fh_data h = d"
  by (auto simp: FileHandle_new_def fh_ok_def NFS3_FHSIZE_def)

lemma FileType_from_as: "FileType_from_i32 (FileType_as_i32 t) = Inr t"
  by (cases t) (simp_all add: FileType_from_i32_def)

lemma StableHow_from_as: "StableHow_from_i32 (StableHow_as_i32 s) = Inr s"
  by (cases s) (simp_all add: StableHow_from_i32_def)

lemma validate_time_ok: "time_ok t \<Longrightarrow> NfsTime_validate t = Inr ()"
  by (simp add: time_ok_def NfsTime_validate_def validate_nseconds_def NFS3_NSECONDS_PER_SECOND_def
      word_le_nat_alt word_less_nat_alt)

lemma validate_time_Inr: "NfsTime_validate t = Inr () \<longleftrightarrow> time_ok t"
  by (auto simp: time_ok_def NfsTime_validate_def validate_nseconds_def NFS3_NSECONDS_PER_SECOND_def)

interpretation ftypec: xdr_codec encode_FileType decode_FileType ftype_wire "\<lambda>_. True"
proof
  show "encodes (encode_FileType t) (ftype_wire t)" for t
    unfolding encode_FileType_def ftype_wire_def by (rule enc_leaf)
  show "decodes decode_FileType (ftype_wire t) t" for t
    unfolding decode_FileType_def ftype_wire_def
    by (rule decodes_bnd_last, rule dec_leaf) (rule dec_leaf, rule FileType_from_as)
qed (simp add: ftype_wire_def)

interpretation stablec: xdr_codec encode_StableHow decode_StableHow stable_wire "\<lambda>_. True"
proof
  show "encodes (encode_StableHow t) (stable_wire t)" for t
    unfolding encode_StableHow_def stable_wire_def by (rule enc_leaf)
  show "decodes decode_StableHow (stable_wire t) t" for t
    unfolding decode_StableHow_def stable_wire_def
    by (rule decodes_bnd_last, rule dec_leaf) (rule dec_leaf, rule StableHow_from_as)
qed (simp add: stable_wire_def)

interpretation fhc: xdr_codec encode_FileHandle decode_FileHandle fh_wire fh_ok
proof
  show "encodes (encode_FileHandle h) (fh_wire h)" if "fh_ok h" for h
    unfolding encode_FileHandle_def fh_wire_def
    using that by (intro encodes_write_opaque) (simp_all add: fh_ok_def NFS3_FHSIZE_def)
  show "decodes decode_FileHandle (fh_wire h) h" if "fh_ok h" for h
    unfolding decode_FileHandle_def fh_wire_def
    by (rule decodes_bnd_ret, rule decodes_read_opaque_vec)
      (use that in \<open>simp_all add: fh_ok_def NFS3_FHSIZE_def\<close>)
qed (simp add: fh_wire_def)

interpretation specc: xdr_codec encode_SpecData decode_SpecData specdata_wire "\<lambda>_. True"
proof
  show "encodes (encode_SpecData h) (specdata_wire h)" for h
    unfolding encode_SpecData_def specdata_wire_def by (intro encodes_structure; rule enc_leaf)
  show "decodes decode_SpecData (specdata_wire h) h" for h
    unfolding decode_SpecData_def specdata_wire_def
    by (rule decodes_bnd, rule dec_leaf, rule decodes_bnd_ret, rule dec_leaf) simp
qed (simp add: specdata_wire_def)

interpretation timec: xdr_codec encode_NfsTime decode_NfsTime time_wire time_ok
proof
  show "encodes (encode_NfsTime t) (time_wire t)" if "time_ok t" for t
  proof -
    have "encodes (encode_NfsTime t) ([] @ time_wire t)"
      unfolding encode_NfsTime_def time_wire_def
      by (intro encodes_structure; rule enc_leaf) (rule validate_time_ok [OF that])
    then show ?thesis by simp
  qed
  show "decodes decode_NfsTime (time_wire t) t" if "time_ok t" for t
    unfolding decode_NfsTime_def time_wire_def Let_def
    by (rule decodes_bnd, rule base_dec_leaf, rule decodes_bnd_last, rule base_dec_leaf,
        rule decodes_bnd_last, rule decodes_of_result, rule validate_time_ok)
      (use that in \<open>auto simp: time_ok_def intro: decodes_retI\<close>)
qed (simp add: time_wire_def)

lemmas v3_dec_leaf [dec_leaf] =
  ftypec.dec_wire [OF TrueI] stablec.dec_wire [OF TrueI] specc.dec_wire [OF TrueI]
  timec.dec_wire fhc.dec_wire

lemmas v3_enc_leaf [enc_leaf] =
  ftypec.enc_wire [OF TrueI] stablec.enc_wire [OF TrueI] specc.enc_wire [OF TrueI]
  timec.enc_wire fhc.enc_wire

subsubsection \<open>What the client only decodes\<close>

definition attr_ok :: "FileAttr \<Rightarrow> bool" where
  "attr_ok a \<longleftrightarrow> time_ok (fa_atime a) \<and> time_ok (fa_mtime a) \<and> time_ok (fa_ctime a)"

definition attr_wire :: "FileAttr \<Rightarrow> bytes" where
  "attr_wire a =
     ftype_wire (fa_file_type a) @ u32_to_be_bytes (fa_mode a) @ u32_to_be_bytes (fa_nlink a) @
     u32_to_be_bytes (fa_uid a) @ u32_to_be_bytes (fa_gid a) @ u64_to_be_bytes (fa_size a) @
     u64_to_be_bytes (fa_used a) @ specdata_wire (fa_rdev a) @ u64_to_be_bytes (fa_fsid a) @
     u64_to_be_bytes (fa_fileid a) @ time_wire (fa_atime a) @ time_wire (fa_mtime a) @
     time_wire (fa_ctime a)"

definition wcc_attr_ok :: "WccAttr \<Rightarrow> bool" where
  "wcc_attr_ok a \<longleftrightarrow> time_ok (wa_mtime a) \<and> time_ok (wa_ctime a)"

definition wcc_attr_wire :: "WccAttr \<Rightarrow> bytes" where
  "wcc_attr_wire a = u64_to_be_bytes (wa_size a) @ time_wire (wa_mtime a) @ time_wire (wa_ctime a)"

definition wcc_ok :: "WccData \<Rightarrow> bool" where
  "wcc_ok w \<longleftrightarrow> pred_option wcc_attr_ok (wcc_before w) \<and> pred_option attr_ok (wcc_after w)"

definition wcc_wire :: "WccData \<Rightarrow> bytes" where
  "wcc_wire w = optional_wire wcc_attr_wire (wcc_before w) @ optional_wire attr_wire (wcc_after w)"

lemma decodes_FileAttr [dec_leaf]: "attr_ok a \<Longrightarrow> decodes decode_FileAttr (attr_wire a) a"
  unfolding decode_FileAttr_def attr_wire_def attr_ok_def
  by ((rule decodes_bnd, rule base_dec_leaf v3_dec_leaf; simp?)+,
      rule decodes_bnd_ret, rule v3_dec_leaf, simp_all)

lemma decodes_WccAttr [dec_leaf]: "wcc_attr_ok a \<Longrightarrow> decodes decode_WccAttr (wcc_attr_wire a) a"
  unfolding decode_WccAttr_def wcc_attr_wire_def wcc_attr_ok_def
  by ((rule decodes_bnd, rule base_dec_leaf v3_dec_leaf; simp?)+,
      rule decodes_bnd_ret, rule v3_dec_leaf, simp_all)

lemma post_op_eq:
  "decode_post_op_attr = read_optional decode_FileAttr"
  "decode_pre_op_attr = read_optional decode_WccAttr"
  "decode_post_op_fh = read_optional decode_FileHandle"
  by (simp_all add: decode_post_op_attr_def decode_pre_op_attr_def decode_post_op_fh_def
      read_optional_def decode_bool_def)

lemma decodes_post_op_attr [dec_leaf]:
  "pred_option attr_ok a \<Longrightarrow> decodes decode_post_op_attr (optional_wire attr_wire a) a"
  unfolding post_op_eq by (rule decodes_read_optional) (simp add: decodes_FileAttr)

lemma decodes_pre_op_attr [dec_leaf]:
  "pred_option wcc_attr_ok a \<Longrightarrow> decodes decode_pre_op_attr (optional_wire wcc_attr_wire a) a"
  unfolding post_op_eq by (rule decodes_read_optional) (simp add: decodes_WccAttr)

lemma decodes_post_op_fh [dec_leaf]:
  "pred_option fh_ok h \<Longrightarrow> decodes decode_post_op_fh (optional_wire fh_wire h) h"
  unfolding post_op_eq by (rule decodes_read_optional) (simp add: fhc.dec_wire)

lemma decodes_WccData [dec_leaf]: "wcc_ok w \<Longrightarrow> decodes decode_WccData (wcc_wire w) w"
  unfolding decode_WccData_def wcc_wire_def wcc_ok_def
  by (rule decodes_bnd, rule decodes_pre_op_attr, simp, rule decodes_bnd_ret,
      rule decodes_post_op_attr, simp_all)

subsubsection \<open>What the client only encodes\<close>

fun set_time_ok :: "SetTime \<Rightarrow> bool" where
  "set_time_ok (ClientTime t) = time_ok t"
| "set_time_ok _ = True"

fun set_time_wire :: "SetTime \<Rightarrow> bytes" where
  "set_time_wire DontChange = u32_to_be_bytes 0"
| "set_time_wire ServerTime = u32_to_be_bytes 1"
| "set_time_wire (ClientTime t) = u32_to_be_bytes 2 @ time_wire t"

definition sattr_ok :: "SetAttr \<Rightarrow> bool" where
  "sattr_ok a \<longleftrightarrow> set_time_ok (sa_atime a) \<and> set_time_ok (sa_mtime a)"

definition sattr_wire :: "SetAttr \<Rightarrow> bytes" where
  "sattr_wire a =
     optional_wire u32_to_be_bytes (sa_mode a) @ optional_wire u32_to_be_bytes (sa_uid a) @
     optional_wire u32_to_be_bytes (sa_gid a) @ optional_wire u64_to_be_bytes (sa_size a) @
     set_time_wire (sa_atime a) @ set_time_wire (sa_mtime a)"

fun create_how_ok :: "CreateHow \<Rightarrow> bool" where
  "create_how_ok (Unchecked a) = sattr_ok a"
| "create_how_ok (Guarded a) = sattr_ok a"
| "create_how_ok (Exclusive verf) \<longleftrightarrow> length verf = 8"

fun create_how_wire :: "CreateHow \<Rightarrow> bytes" where
  "create_how_wire (Unchecked a) = u32_to_be_bytes 0 @ sattr_wire a"
| "create_how_wire (Guarded a) = u32_to_be_bytes 1 @ sattr_wire a"
| "create_how_wire (Exclusive verf) = u32_to_be_bytes 2 @ opaque_pad verf"

lemma encode_optional_eq:
  "encode_optional_u32 = write_optional encode_u32" "encode_optional_u64 = write_optional encode_u64"
  by (simp_all add: encode_optional_u32_def encode_optional_u64_def write_optional_def encode_u32_def
      encode_u64_def fun_eq_iff split: option.split)

lemma encodes_optional_u32 [enc_leaf]:
  "encodes (encode_optional_u32 x) (optional_wire u32_to_be_bytes x)"
  unfolding encode_optional_eq by (rule u32c.optional_encodes) (simp add: pred_option_def)

lemma encodes_optional_u64 [enc_leaf]:
  "encodes (encode_optional_u64 x) (optional_wire u64_to_be_bytes x)"
  unfolding encode_optional_eq by (rule u64c.optional_encodes) (simp add: pred_option_def)

lemma encodes_set_time [enc_leaf]:
  assumes "set_time_ok t"
  shows "encodes (encode_set_time t) (set_time_wire t)"
proof (cases t)
  case (ClientTime u)
  with assms have ok: "time_ok u" by simp
  have "encodes (seq_ops [of_result (NfsTime_validate u), write_discriminant 2, encode_NfsTime u])
      ([] @ u32_to_be_bytes 2 @ time_wire u)"
    by (intro encodes_structure; rule enc_leaf) (simp_all add: ok validate_time_ok)
  with ClientTime show ?thesis by (simp add: encode_set_time_def)
qed (simp_all add: encode_set_time_def encodes_write_discriminant)

lemma encodes_SetAttr [enc_leaf]:
  "sattr_ok a \<Longrightarrow> encodes (encode_SetAttr a) (sattr_wire a)"
  unfolding encode_SetAttr_def sattr_wire_def sattr_ok_def
  by (intro encodes_structure encodes_optional_u32 encodes_optional_u64 encodes_set_time) simp_all

lemma encodes_CreateHow [enc_leaf]:
  "create_how_ok h \<Longrightarrow> encodes (encode_CreateHow h) (create_how_wire h)"
  unfolding encode_CreateHow_def
  by (cases h; simp only: CreateHow.case create_how_wire.simps create_how_ok.simps)
    (intro encodes_structure encodes_write_discriminant encodes_SetAttr encodes_write_fixed_opaque;
     assumption?)+

text \<open>An update with an invalid time is refused before the time is written.\<close>

lemma encode_SetAttr_invalid:
  assumes "\<not> sattr_ok a"
  shows "\<exists>n e'. encode_SetAttr a e = (Inl (LengthLimitExceeded n 999999999), e') \<and> n \<ge> 1000000000"
proof -
  have inv: "\<exists>n. encode_set_time t e = (Inl (LengthLimitExceeded n 999999999), e) \<and> n \<ge> 1000000000"
    if "\<not> set_time_ok t" for t e
    using that by (cases t)
      (auto simp: encode_set_time_def bnd_apply of_result_apply NfsTime_validate_def time_ok_def
        validate_nseconds_def NFS3_NSECONDS_PER_SECOND_def word_le_nat_alt word_less_nat_alt)
  have ok: "encode_set_time t e = (Inr (), extend_from_slice (set_time_wire t) e)"
    if "set_time_ok t" for t e using that by (intro encodesD encodes_set_time)
  have opt: "encode_optional_u32 x e = (Inr (), extend_from_slice (optional_wire u32_to_be_bytes x) e)"
    "encode_optional_u64 y e = (Inr (), extend_from_slice (optional_wire u64_to_be_bytes y) e)"
    for x y e by (intro encodesD enc_leaf)+
  let ?fixed = "optional_wire u32_to_be_bytes (sa_mode a) @ optional_wire u32_to_be_bytes (sa_uid a) @
     optional_wire u32_to_be_bytes (sa_gid a) @ optional_wire u64_to_be_bytes (sa_size a)"
  show ?thesis
  proof (cases "set_time_ok (sa_atime a)")
    case True
    with assms have "\<not> set_time_ok (sa_mtime a)" by (simp add: sattr_ok_def)
    from inv [OF this, of "extend_from_slice (?fixed @ set_time_wire (sa_atime a)) e"] True
    show ?thesis by (auto simp: encode_SetAttr_def bnd_apply opt ok)
  next
    case False
    from inv [OF this, of "extend_from_slice ?fixed e"] show ?thesis
      by (auto simp: encode_SetAttr_def bnd_apply opt)
  qed
qed

subsubsection \<open>Decoding stays within the input\<close>

lemma advances_v3 [keeps_intros]:
  "keeps advances decode_FileType" "keeps advances decode_StableHow" "keeps advances decode_FileHandle"
  "keeps advances decode_SpecData" "keeps advances decode_NfsTime"
  unfolding decode_FileType_def decode_StableHow_def decode_FileHandle_def decode_SpecData_def
    decode_NfsTime_def Let_def
  by (intro keeps_intros)+

lemma advances_attr [keeps_intros]: "keeps advances decode_FileAttr" "keeps advances decode_WccAttr"
  unfolding decode_FileAttr_def decode_WccAttr_def by (intro keeps_intros)+

lemma advances_post_op [keeps_intros]:
  "keeps advances decode_post_op_attr" "keeps advances decode_pre_op_attr"
  "keeps advances decode_post_op_fh" "keeps advances decode_WccData"
  unfolding decode_WccData_def post_op_eq by (intro keeps_intros)+

end
