(* ===== verification/V3_Messages.thy ===== *)
theory V3_Messages
  imports V3_Types
begin

text \<open>
  The arguments and results of the NFSv3 procedures (\<open>src/v3/proto.rs\<close>): the \<open>...Args\<close> structs with
  their encoders, the result structs, the decoders the procedures share, and the checks of a READ
  and a WRITE reply against the request.

  The lemmas show that every argument encodes to its layout in RFC 1813 when its parts are within
  the limits, that a directory listing decodes to the entries it encodes, that decoding it always
  ends and stays below the limit of entries, and what the two checks accept.
\<close>

subsection \<open>Arguments\<close>

record Diropargs =
  da_dir :: FileHandle
  da_name :: string

definition encode_Diropargs :: "Diropargs enc" where
  "encode_Diropargs a =
     seq_ops [encode_FileHandle (da_dir a), write_string (da_name a) MAX_NAME_BYTES]"

record SetattrArgs =
  sta_object :: FileHandle
  sta_attr :: SetAttr
  sta_guard :: "NfsTime option"

definition encode_SetattrArgs :: "SetattrArgs enc" where
  "encode_SetattrArgs a =
     seq_ops
       [encode_FileHandle (sta_object a),
        encode_SetAttr (sta_attr a),
        write_bool (sta_guard a \<noteq> None),
        (case sta_guard a of Some guard \<Rightarrow> encode_NfsTime guard | None \<Rightarrow> ret ())]"

record AccessArgs =
  aa_object :: FileHandle
  aa_access :: u32

definition encode_AccessArgs :: "AccessArgs enc" where
  "encode_AccessArgs a = seq_ops [encode_FileHandle (aa_object a), write_u32 (aa_access a)]"

record ReadArgs =
  ra_file :: FileHandle
  ra_offset :: u64
  ra_count :: u32

definition encode_ReadArgs :: "ReadArgs enc" where
  "encode_ReadArgs a =
     seq_ops [encode_FileHandle (ra_file a), write_u64 (ra_offset a), write_u32 (ra_count a)]"

record WriteArgs =
  wra_file :: FileHandle
  wra_offset :: u64
  wra_count :: u32
  wra_stable :: StableHow
  wra_data :: bytes

definition encode_WriteArgs :: "WriteArgs enc" where
  "encode_WriteArgs a =
     seq_ops
       [encode_FileHandle (wra_file a),
        write_u64 (wra_offset a),
        write_u32 (wra_count a),
        encode_StableHow (wra_stable a),
        write_opaque (wra_data a) MAX_IO_BYTES]"

record CreateArgs =
  cra_where :: Diropargs
  cra_how :: CreateHow

definition encode_CreateArgs :: "CreateArgs enc" where
  "encode_CreateArgs a = seq_ops [encode_Diropargs (cra_where a), encode_CreateHow (cra_how a)]"

record MkdirArgs =
  mka_where :: Diropargs
  mka_attributes :: SetAttr

definition encode_MkdirArgs :: "MkdirArgs enc" where
  "encode_MkdirArgs a = seq_ops [encode_Diropargs (mka_where a), encode_SetAttr (mka_attributes a)]"

record SymlinkArgs =
  sla_where :: Diropargs
  sla_target :: string
  sla_attributes :: SetAttr

definition encode_SymlinkArgs :: "SymlinkArgs enc" where
  "encode_SymlinkArgs a =
     seq_ops
       [encode_Diropargs (sla_where a),
        encode_SetAttr (sla_attributes a),
        write_string (sla_target a) MAX_PATH_BYTES]"

record MknodArgs =
  mna_where :: Diropargs
  mna_what :: MknodData

definition encode_MknodArgs :: "MknodArgs enc" where
  "encode_MknodArgs a = seq_ops [encode_Diropargs (mna_where a), encode_MknodData (mna_what a)]"

record RenameArgs =
  rna_from :: Diropargs
  rna_to :: Diropargs

definition encode_RenameArgs :: "RenameArgs enc" where
  "encode_RenameArgs a = seq_ops [encode_Diropargs (rna_from a), encode_Diropargs (rna_to a)]"

record LinkArgs =
  lka_file :: FileHandle
  lka_link :: Diropargs

definition encode_LinkArgs :: "LinkArgs enc" where
  "encode_LinkArgs a = seq_ops [encode_FileHandle (lka_file a), encode_Diropargs (lka_link a)]"

record ReadDirArgs =
  rda_dir :: FileHandle
  rda_cookie :: u64
  rda_cookieverf :: bytes
  rda_count :: u32

definition encode_ReadDirArgs :: "ReadDirArgs enc" where
  "encode_ReadDirArgs a =
     seq_ops
       [encode_FileHandle (rda_dir a),
        write_u64 (rda_cookie a),
        write_fixed_opaque (rda_cookieverf a),
        write_u32 (rda_count a)]"

record ReadDirPlusArgs =
  rpa_dir :: FileHandle
  rpa_cookie :: u64
  rpa_cookieverf :: bytes
  rpa_dircount :: u32
  rpa_maxcount :: u32

definition encode_ReadDirPlusArgs :: "ReadDirPlusArgs enc" where
  "encode_ReadDirPlusArgs a =
     seq_ops
       [encode_FileHandle (rpa_dir a),
        write_u64 (rpa_cookie a),
        write_fixed_opaque (rpa_cookieverf a),
        write_u32 (rpa_dircount a),
        write_u32 (rpa_maxcount a)]"

record CommitArgs =
  cma_file :: FileHandle
  cma_offset :: u64
  cma_count :: u32

definition encode_CommitArgs :: "CommitArgs enc" where
  "encode_CommitArgs a =
     seq_ops [encode_FileHandle (cma_file a), write_u64 (cma_offset a), write_u32 (cma_count a)]"

subsection \<open>Results\<close>

record LookupResult =
  lr_object :: FileHandle
  lr_object_attributes :: "FileAttr option"
  lr_directory_attributes :: "FileAttr option"

record AccessResult =
  acr_object_attributes :: "FileAttr option"
  acr_access :: u32

record ReadResult =
  rr_file_attributes :: "FileAttr option"
  rr_count :: u32
  rr_eof :: bool
  rr_data :: bytes

record WriteResult =
  wr_file_wcc :: WccData
  wr_count :: u32
  wr_committed :: StableHow
  wr_verifier :: bytes

record CreateResult =
  cr_object :: "FileHandle option"
  cr_object_attributes :: "FileAttr option"
  cr_directory_wcc :: WccData

record RenameResult =
  rn_fromdir_wcc :: WccData
  rn_todir_wcc :: WccData

record LinkResult =
  lk_file_attributes :: "FileAttr option"
  lk_linkdir_wcc :: WccData

record DirectoryEntry =
  de_fileid :: u64
  de_name :: string
  de_cookie :: u64
  de_attributes :: "FileAttr option"
  de_handle :: "FileHandle option"

record ReadDirResult =
  rd_directory_attributes :: "FileAttr option"
  rd_cookieverf :: bytes
  rd_entries :: "DirectoryEntry list"
  rd_eof :: bool

record FsStat =
  fs_object_attributes :: "FileAttr option"
  fs_total_bytes :: u64
  fs_free_bytes :: u64
  fs_available_bytes :: u64
  fs_total_files :: u64
  fs_free_files :: u64
  fs_available_files :: u64
  fs_invariant_seconds :: u32

record FsInfo =
  fi_object_attributes :: "FileAttr option"
  fi_read_max :: u32
  fi_read_preferred :: u32
  fi_read_multiple :: u32
  fi_write_max :: u32
  fi_write_preferred :: u32
  fi_write_multiple :: u32
  fi_dir_preferred :: u32
  fi_max_file_size :: u64
  fi_time_delta :: NfsTime
  fi_properties :: u32

record PathConf =
  pc_object_attributes :: "FileAttr option"
  pc_link_max :: u32
  pc_name_max :: u32
  pc_no_trunc :: bool
  pc_chown_restricted :: bool
  pc_case_insensitive :: bool
  pc_case_preserving :: bool

record CommitResult =
  ct_file_wcc :: WccData
  ct_verifier :: bytes

subsection \<open>Shared decoders\<close>

definition decode_status :: "NfsStatus dec" where
  "decode_status = bnd decode_u32 (\<lambda>v. ret (NfsStatus_from_u32 v))"

definition require_ok :: "string \<Rightarrow> (decoder, error, unit) op" where
  "require_ok procedure =
     bnd (from_xdr decode_status) (\<lambda>status.
     if status = NfsStatus.Ok then ret () else fail (Nfs procedure status))"

definition dec_finish :: "unit dec" where
  "dec_finish d = (finish d, d)"

text \<open>The conversion of the slice to an array fails only for a slice of another length.\<close>

definition decode_cookieverf :: "bytes dec" where
  "decode_cookieverf =
     bnd (read_fixed_opaque NFS3_COOKIEVERFSIZE) (\<lambda>bs.
     if length bs = NFS3_COOKIEVERFSIZE then ret bs
     else fail (UnexpectedEof NFS3_COOKIEVERFSIZE (length bs)))"

definition decode_writeverf :: "bytes dec" where
  "decode_writeverf =
     bnd (read_fixed_opaque NFS3_WRITEVERFSIZE) (\<lambda>bs.
     if length bs = NFS3_WRITEVERFSIZE then ret bs
     else fail (UnexpectedEof NFS3_WRITEVERFSIZE (length bs)))"

definition payload_has_status :: "bytes \<Rightarrow> NfsStatus \<Rightarrow> bool" where
  "payload_has_status payload expected \<longleftrightarrow>
     (if 4 \<le> length payload
      then NfsStatus_from_u32 (from_be_bytes (take 4 payload)) = expected
      else False)"

definition validate_read_result_size :: "u32 \<Rightarrow> u32 \<Rightarrow> usize \<Rightarrow> bool \<Rightarrow> unit result" where
  "validate_read_result_size requested_count returned_count data_len eof =
     (if data_len \<noteq> unat returned_count
      then Inl (Protocol ''READ returned count {} but {} data bytes''
             [FNat (unat returned_count), FNat data_len])
      else if returned_count > requested_count
      then Inl (Protocol ''READ returned {} bytes for a {} byte request''
             [FNat (unat returned_count), FNat (unat requested_count)])
      else if requested_count > 0 \<and> returned_count = 0 \<and> \<not> eof
      then Inl (Protocol ''READ returned no data before EOF'' [])
      else Inr ())"

definition validate_write_result_count :: "u32 \<Rightarrow> u32 \<Rightarrow> unit result" where
  "validate_write_result_count requested_count returned_count =
     (if returned_count > requested_count
      then Inl (Protocol ''WRITE reported {} bytes for a {} byte request''
             [FNat (unat returned_count), FNat (unat requested_count)])
      else if requested_count > 0 \<and> returned_count = 0
      then Inl (Protocol ''WRITE accepted zero bytes'' [])
      else Inr ())"

subsection \<open>Directory entries\<close>

definition decode_entry_fields :: "bool \<Rightarrow> DirectoryEntry dec" where
  "decode_entry_fields is_plus =
     bnd decode_u64 (\<lambda>fileid.
     bnd (read_string MAX_NAME_BYTES) (\<lambda>name.
     bnd decode_u64 (\<lambda>cookie.
     if is_plus then
       bnd decode_post_op_attr (\<lambda>attributes.
       bnd decode_post_op_fh (\<lambda>handle.
       ret \<lparr>de_fileid = fileid, de_name = name, de_cookie = cookie,
            de_attributes = attributes, de_handle = handle\<rparr>))
     else
       ret \<lparr>de_fileid = fileid, de_name = name, de_cookie = cookie,
            de_attributes = None, de_handle = None\<rparr>)))"

definition decode_dir_entry :: "bool \<Rightarrow> DirectoryEntry list \<Rightarrow>
    (DirectoryEntry list, DirectoryEntry list) loop_step dec" where
  "decode_dir_entry is_plus entries =
     bnd decode_bool (\<lambda>more.
     if \<not> more then ret (Break entries)
     else if length entries \<ge> MAX_DIR_ENTRIES
     then fail (LengthLimitExceeded (length entries + 1) MAX_DIR_ENTRIES)
     else bnd (decode_entry_fields is_plus) (\<lambda>entry. ret (Continue (entries @ [entry]))))"

lemma decode_bool_Inr:
  assumes "decode_bool d = (Inr b, d')"
  shows "dec_position d + 4 \<le> length (dec_input d)" "dec_position d' = dec_position d + 4"
    "dec_input d' = dec_input d"
proof -
  from assms obtain v bs where "read_bytes 4 d = (Inr bs, d')"
    by (auto simp: decode_bool_def read_bool_def read_u32_def read_byte_array_def bnd_Inr_iff
        ret_apply fail_apply split: if_splits)
  then show "dec_position d + 4 \<le> length (dec_input d)" "dec_position d' = dec_position d + 4"
    "dec_input d' = dec_input d"
    by (auto simp: read_bytes_def checked_add_usize_def split: if_splits)
qed

lemma advances_entry_fields [keeps_intros]: "keeps advances (decode_entry_fields p)"
  unfolding decode_entry_fields_def by (intro keeps_intros)

lemma decode_dir_entry_advances:
  assumes "decode_dir_entry is_plus entries d = (Inr st, d')"
  shows "length (dec_input d') - dec_position d' < length (dec_input d) - dec_position d"
proof -
  from assms obtain more d1 where 1: "decode_bool d = (Inr more, d1)"
    by (auto simp: decode_dir_entry_def bnd_Inr_iff)
  let ?rest = "if \<not> more then ret (Break entries)
     else if length entries \<ge> MAX_DIR_ENTRIES
     then fail (LengthLimitExceeded (length entries + 1) MAX_DIR_ENTRIES)
     else bnd (decode_entry_fields is_plus) (\<lambda>entry. ret (Continue (entries @ [entry])))"
  have "keeps advances ?rest" by (intro keeps_intros advances_entry_fields)
  moreover have "?rest d1 = (Inr st, d')"
    using assms 1 by (simp add: decode_dir_entry_def bnd_apply)
  ultimately have "advances d1 d'" by (rule keepsD)
  with decode_bool_Inr [OF 1] show ?thesis by (auto simp: advances_def)
qed

function decode_dir_entries_loop :: "bool \<Rightarrow> DirectoryEntry list \<Rightarrow> DirectoryEntry list dec" where
  "decode_dir_entries_loop is_plus entries d =
     (case decode_dir_entry is_plus entries d of
        (Inl e, d') \<Rightarrow> (Inl e, d')
      | (Inr (Continue entries'), d') \<Rightarrow> decode_dir_entries_loop is_plus entries' d'
      | (Inr (Break entries'), d') \<Rightarrow> (Inr entries', d'))"
  by pat_completeness auto
termination
  by (relation "measure (\<lambda>(is_plus, entries, d). length (dec_input d) - dec_position d)")
    (auto intro: decode_dir_entry_advances [OF sym])

declare decode_dir_entries_loop.simps [simp del]

interpretation del: body_loop "decode_dir_entry is_plus" "decode_dir_entries_loop is_plus"
  "\<lambda>_ d. length (dec_input d) - dec_position d" for is_plus
  by unfold_locales (rule decode_dir_entries_loop.simps, rule decode_dir_entry_advances)

definition decode_dir_entries :: "bool \<Rightarrow> DirectoryEntry list dec" where
  "decode_dir_entries is_plus = decode_dir_entries_loop is_plus []"

subsubsection \<open>Listings on the wire\<close>

definition entry_ok :: "bool \<Rightarrow> DirectoryEntry \<Rightarrow> bool" where
  "entry_ok p e \<longleftrightarrow>
     length (de_name e) \<le> MAX_NAME_BYTES \<and> utf8_valid (as_bytes (de_name e)) \<and>
     pred_option attr_ok (de_attributes e) \<and> pred_option fh_ok (de_handle e) \<and>
     (p \<or> de_attributes e = None \<and> de_handle e = None)"

definition entry_wire :: "bool \<Rightarrow> DirectoryEntry \<Rightarrow> bytes" where
  "entry_wire p e =
     u64_to_be_bytes (de_fileid e) @ opaque_wire (as_bytes (de_name e)) @
     u64_to_be_bytes (de_cookie e) @
     (if p then optional_wire attr_wire (de_attributes e) @ optional_wire fh_wire (de_handle e) else [])"

definition entries_wire :: "bool \<Rightarrow> DirectoryEntry list \<Rightarrow> bytes" where
  "entries_wire p es = concat (map (\<lambda>e. bool_wire True @ entry_wire p e) es) @ bool_wire False"

lemma decodes_entry_fields [dec_leaf]:
  assumes "entry_ok p e"
  shows "decodes (decode_entry_fields p) (entry_wire p e) e"
proof -
  have name: "decodes (read_string MAX_NAME_BYTES) (opaque_wire (as_bytes (de_name e))) (de_name e)"
    using assms by (intro decodes_read_string) (simp_all add: entry_ok_def MAX_NAME_BYTES_def)
  show ?thesis
  proof (cases p)
    case True
    show ?thesis
      unfolding decode_entry_fields_def entry_wire_def
      by (rule decodes_bnd, rule base_dec_leaf, rule decodes_bnd, rule name, rule decodes_bnd,
          rule base_dec_leaf, unfold if_P [OF True], rule decodes_bnd, rule decodes_post_op_attr)
        (use assms in \<open>auto simp: entry_ok_def intro!: decodes_bnd_ret decodes_post_op_fh\<close>)
  next
    case False
    with assms have none: "de_attributes e = None" "de_handle e = None" by (auto simp: entry_ok_def)
    show ?thesis
      unfolding decode_entry_fields_def entry_wire_def if_not_P [OF False] append_Nil2
      by (rule decodes_bnd, rule base_dec_leaf, rule decodes_bnd, rule name, rule decodes_bnd_ret,
          rule base_dec_leaf) (simp add: none)
  qed
qed

lemma decodes_dir_entry_more:
  assumes "entry_ok p e" "length acc < MAX_DIR_ENTRIES"
  shows "decodes (decode_dir_entry p acc) (bool_wire True @ entry_wire p e) (Continue (acc @ [e]))"
  unfolding decode_dir_entry_def
  by (rule decodes_bnd, rule base_dec_leaf)
    (use assms in \<open>auto intro!: decodes_bnd_ret decodes_entry_fields\<close>)

lemma decodes_dir_entry_end: "decodes (decode_dir_entry p acc) (bool_wire False) (Break acc)"
  unfolding decode_dir_entry_def
  by (rule decodes_bnd_last, rule base_dec_leaf) (simp add: decodes_ret)

lemma decodes_loop_Continue:
  assumes "decodes (decode_dir_entry p acc) bs (Continue acc')"
    "decodes (decode_dir_entries_loop p acc') cs es"
  shows "decodes (decode_dir_entries_loop p acc) (bs @ cs) es"
  unfolding decodes_def
proof (intro allI impI)
  fix pre post
  assume len: "length (pre @ (bs @ cs) @ post) \<le> usize_max"
  with decodesD [OF assms(1), of pre "cs @ post"] decodesD [OF assms(2), of "pre @ bs" post]
  show "decode_dir_entries_loop p acc (dec_at pre ((bs @ cs) @ post)) =
      (Inr es, dec_at (pre @ bs @ cs) post)"
    by (simp add: decode_dir_entries_loop.simps [of p acc])
qed

lemma decodes_loop_Break:
  assumes "decodes (decode_dir_entry p acc) bs (Break es)"
  shows "decodes (decode_dir_entries_loop p acc) bs es"
  using assms unfolding decodes_def by (simp add: decode_dir_entries_loop.simps [of p acc])

lemma decodes_dir_entries_loop:
  assumes "list_all (entry_ok p) es" "length (acc @ es) \<le> MAX_DIR_ENTRIES"
  shows "decodes (decode_dir_entries_loop p acc) (entries_wire p es) (acc @ es)"
  using assms
proof (induction es arbitrary: acc)
  case Nil
  show ?case using decodes_loop_Break [OF decodes_dir_entry_end] by (simp add: entries_wire_def)
next
  case (Cons e es)
  have "decodes (decode_dir_entries_loop p (acc @ [e])) (entries_wire p es) ((acc @ [e]) @ es)"
    using Cons.prems by (intro Cons.IH) simp_all
  moreover have "decodes (decode_dir_entry p acc) (bool_wire True @ entry_wire p e) (Continue (acc @ [e]))"
    using Cons.prems by (intro decodes_dir_entry_more) simp_all
  ultimately show ?case
    using decodes_loop_Continue by (fastforce simp: entries_wire_def)
qed

lemma decodes_dir_entries [dec_leaf]:
  assumes "list_all (entry_ok p) es" "length es \<le> MAX_DIR_ENTRIES"
  shows "decodes (decode_dir_entries p) (entries_wire p es) es"
  using decodes_dir_entries_loop [of p es "[]"] assms by (simp add: decode_dir_entries_def)

lemma decode_dir_entry_step:
  assumes "decode_dir_entry p acc d = (Inr st, d')"
  shows "st = Break acc \<or> (\<exists>e. st = Continue (acc @ [e]) \<and> length acc < MAX_DIR_ENTRIES)"
  using assms by (auto simp: decode_dir_entry_def bnd_Inr_iff ret_apply fail_apply split: if_splits)

lemma decode_dir_entries_limit:
  assumes "decode_dir_entries p d = (Inr es, d')"
  shows "length es \<le> MAX_DIR_ENTRIES"
  using assms unfolding decode_dir_entries_def
  by (rule del.loop_ok_rule [where I = "\<lambda>acc _. length acc \<le> MAX_DIR_ENTRIES"])
    (auto dest!: decode_dir_entry_step)

lemma advances_dir_entry [keeps_intros]: "keeps advances (decode_dir_entry p acc)"
  unfolding decode_dir_entry_def by (intro keeps_intros)

lemma advances_dir_entries [keeps_intros]: "keeps advances (decode_dir_entries p)"
  unfolding decode_dir_entries_def by (rule del.keeps_loop) (simp_all add: advances_dir_entry)

text \<open>C39. A directory listing is read back exactly: the sequence of entries a server encodes, plain or
  with attributes and handles, decodes to these entries and stops behind their end marker, whatever
  follows; a listing never yields more than a million entries; and decoding never leaves the input.\<close>

theorem decode_dir_entries_roundtrip:
  "(list_all (entry_ok p) es \<and> length es \<le> 1000000 \<longrightarrow>
     decodes (decode_dir_entries p) (entries_wire p es) es) \<and>
   (decode_dir_entries p (decoder_new bs) = (r, d) \<longrightarrow>
     dec_input d = bs \<and> dec_position d \<le> length bs \<and> (\<forall>es. r = Inr es \<longrightarrow> length es \<le> 1000000))"
  using decodes_dir_entries [of p es] advancesD [OF advances_dir_entries]
    decode_dir_entries_limit [of p "decoder_new bs"]
  by (auto simp: MAX_DIR_ENTRIES_def)

definition demo_entry :: DirectoryEntry where
  "demo_entry = \<lparr>de_fileid = 7, de_name = ''a.txt'', de_cookie = 1,
     de_attributes = None, de_handle = Some \<lparr>fh_data = [1, 2, 3]\<rparr>\<rparr>"

theorem decode_dir_entries_roundtrip_witness:
  "decodes (decode_dir_entries True) (entries_wire True [demo_entry]) [demo_entry] \<and>
   dec_input (snd (decode_dir_entries False (decoder_new []))) = []"
proof
  have "utf8_valid (as_bytes ''a.txt'')" by code_simp
  then have "list_all (entry_ok True) [demo_entry]"
    by (simp add: entry_ok_def demo_entry_def MAX_NAME_BYTES_def fh_ok_def)
  then show "decodes (decode_dir_entries True) (entries_wire True [demo_entry]) [demo_entry]"
    by (intro decode_dir_entries_roundtrip [THEN conjunct1, rule_format]) simp
  show "dec_input (snd (decode_dir_entries False (decoder_new []))) = []"
    using decode_dir_entries_roundtrip [THEN conjunct2, rule_format, of False "[]"
        "fst (decode_dir_entries False (decoder_new []))" "snd (decode_dir_entries False (decoder_new []))"]
    by (simp only: prod.collapse refl simp_thms)
qed

subsection \<open>Arguments on the wire\<close>

definition diropargs_ok :: "Diropargs \<Rightarrow> bool" where
  "diropargs_ok a \<longleftrightarrow> fh_ok (da_dir a) \<and> length (da_name a) \<le> MAX_NAME_BYTES"

definition diropargs_wire :: "Diropargs \<Rightarrow> bytes" where
  "diropargs_wire a = fh_wire (da_dir a) @ opaque_wire (as_bytes (da_name a))"

lemma encodes_Diropargs [enc_leaf]:
  "diropargs_ok a \<Longrightarrow> encodes (encode_Diropargs a) (diropargs_wire a)"
  unfolding encode_Diropargs_def diropargs_wire_def diropargs_ok_def
  by (intro encodes_structure fhc.enc_wire encodes_write_string) (simp_all add: MAX_NAME_BYTES_def)

lemma encodes_SetattrArgs [enc_leaf]:
  assumes "fh_ok (sta_object a)" "sattr_ok (sta_attr a)" "pred_option time_ok (sta_guard a)"
  shows "encodes (encode_SetattrArgs a)
    (fh_wire (sta_object a) @ sattr_wire (sta_attr a) @ optional_wire time_wire (sta_guard a))"
proof -
  have "encodes (case sta_guard a of Some guard \<Rightarrow> encode_NfsTime guard | None \<Rightarrow> ret ())
      (case sta_guard a of Some guard \<Rightarrow> time_wire guard | None \<Rightarrow> [])"
    using assms(3) by (cases "sta_guard a") (simp_all add: encodes_ret timec.enc_wire)
  with assms(1,2) have "encodes (encode_SetattrArgs a) (fh_wire (sta_object a) @ sattr_wire (sta_attr a) @
      bool_wire (sta_guard a \<noteq> None) @ (case sta_guard a of Some guard \<Rightarrow> time_wire guard | None \<Rightarrow> []))"
    unfolding encode_SetattrArgs_def
    by (intro encodes_structure fhc.enc_wire encodes_SetAttr encodes_write_bool)
  then show ?thesis by (cases "sta_guard a") (simp_all add: optional_wire_def)
qed

lemma encodes_simple_args [enc_leaf]:
  "fh_ok (aa_object aa) \<Longrightarrow>
     encodes (encode_AccessArgs aa) (fh_wire (aa_object aa) @ u32_to_be_bytes (aa_access aa))"
  "fh_ok (ra_file ra) \<Longrightarrow>
     encodes (encode_ReadArgs ra)
       (fh_wire (ra_file ra) @ u64_to_be_bytes (ra_offset ra) @ u32_to_be_bytes (ra_count ra))"
  "fh_ok (cma_file ca) \<Longrightarrow>
     encodes (encode_CommitArgs ca)
       (fh_wire (cma_file ca) @ u64_to_be_bytes (cma_offset ca) @ u32_to_be_bytes (cma_count ca))"
  "fh_ok (rda_dir da) \<Longrightarrow>
     encodes (encode_ReadDirArgs da)
       (fh_wire (rda_dir da) @ u64_to_be_bytes (rda_cookie da) @ opaque_pad (rda_cookieverf da) @
        u32_to_be_bytes (rda_count da))"
  "fh_ok (rpa_dir pa) \<Longrightarrow>
     encodes (encode_ReadDirPlusArgs pa)
       (fh_wire (rpa_dir pa) @ u64_to_be_bytes (rpa_cookie pa) @ opaque_pad (rpa_cookieverf pa) @
        u32_to_be_bytes (rpa_dircount pa) @ u32_to_be_bytes (rpa_maxcount pa))"
  unfolding encode_AccessArgs_def encode_ReadArgs_def encode_CommitArgs_def encode_ReadDirArgs_def
    encode_ReadDirPlusArgs_def
  by (intro encodes_structure fhc.enc_wire encodes_write_u32 encodes_write_u64
      encodes_write_fixed_opaque; assumption)+

lemma encodes_WriteArgs [enc_leaf]:
  assumes "fh_ok (wra_file a)" "length (wra_data a) \<le> MAX_IO_BYTES"
  shows "encodes (encode_WriteArgs a)
    (fh_wire (wra_file a) @ u64_to_be_bytes (wra_offset a) @ u32_to_be_bytes (wra_count a) @
     stable_wire (wra_stable a) @ opaque_wire (wra_data a))"
  unfolding encode_WriteArgs_def
  by (intro encodes_structure fhc.enc_wire encodes_write_u64 encodes_write_u32 stablec.enc_wire
      encodes_write_opaque) (use assms in \<open>simp_all add: MAX_IO_BYTES_def\<close>)

fun mknod_ok :: "MknodData \<Rightarrow> bool" where
  "mknod_ok (MkCharacterDevice a _) = sattr_ok a"
| "mknod_ok (MkBlockDevice a _) = sattr_ok a"
| "mknod_ok (MkSocket a) = sattr_ok a"
| "mknod_ok (MkFifo a) = sattr_ok a"

fun mknod_wire :: "MknodData \<Rightarrow> bytes" where
  "mknod_wire (MkCharacterDevice a s) = ftype_wire CharacterDevice @ sattr_wire a @ specdata_wire s"
| "mknod_wire (MkBlockDevice a s) = ftype_wire BlockDevice @ sattr_wire a @ specdata_wire s"
| "mknod_wire (MkSocket a) = ftype_wire Socket @ sattr_wire a"
| "mknod_wire (MkFifo a) = ftype_wire Fifo @ sattr_wire a"

lemma encodes_MknodData [enc_leaf]: "mknod_ok m \<Longrightarrow> encodes (encode_MknodData m) (mknod_wire m)"
  unfolding encode_MknodData_def
  by (cases m; simp only: MknodData.case mknod_wire.simps mknod_ok.simps)
    (intro encodes_structure ftypec.enc_wire encodes_SetAttr specc.enc_wire; (assumption | rule TrueI))+

lemma encodes_create_args [enc_leaf]:
  "diropargs_ok (cra_where ca) \<Longrightarrow> create_how_ok (cra_how ca) \<Longrightarrow>
     encodes (encode_CreateArgs ca) (diropargs_wire (cra_where ca) @ create_how_wire (cra_how ca))"
  "diropargs_ok (mka_where ma) \<Longrightarrow> sattr_ok (mka_attributes ma) \<Longrightarrow>
     encodes (encode_MkdirArgs ma) (diropargs_wire (mka_where ma) @ sattr_wire (mka_attributes ma))"
  "diropargs_ok (mna_where na) \<Longrightarrow> mknod_ok (mna_what na) \<Longrightarrow>
     encodes (encode_MknodArgs na) (diropargs_wire (mna_where na) @ mknod_wire (mna_what na))"
  "diropargs_ok (sla_where sa) \<Longrightarrow> sattr_ok (sla_attributes sa) \<Longrightarrow>
   length (sla_target sa) \<le> MAX_PATH_BYTES \<Longrightarrow>
     encodes (encode_SymlinkArgs sa) (diropargs_wire (sla_where sa) @ sattr_wire (sla_attributes sa) @
       opaque_wire (as_bytes (sla_target sa)))"
  "diropargs_ok (rna_from ra) \<Longrightarrow> diropargs_ok (rna_to ra) \<Longrightarrow>
     encodes (encode_RenameArgs ra) (diropargs_wire (rna_from ra) @ diropargs_wire (rna_to ra))"
  "fh_ok (lka_file la) \<Longrightarrow> diropargs_ok (lka_link la) \<Longrightarrow>
     encodes (encode_LinkArgs la) (fh_wire (lka_file la) @ diropargs_wire (lka_link la))"
  unfolding encode_CreateArgs_def encode_MkdirArgs_def encode_MknodArgs_def encode_SymlinkArgs_def
    encode_RenameArgs_def encode_LinkArgs_def
  by (intro encodes_structure fhc.enc_wire encodes_Diropargs encodes_CreateHow encodes_SetAttr
      encodes_MknodData encodes_write_string; simp add: MAX_PATH_BYTES_def)+

subsection \<open>What the checks accept\<close>

lemma validate_read_ok:
  "validate_read_result_size req n len eof = Inr () \<longleftrightarrow>
     len = unat n \<and> n \<le> req \<and> (req = 0 \<or> n \<noteq> 0 \<or> eof)"
  by (auto simp: validate_read_result_size_def word_neq_0_conv not_less)

lemma validate_write_ok:
  "validate_write_result_count req n = Inr () \<longleftrightarrow> n \<le> req \<and> (req = 0 \<or> n \<noteq> 0)"
  by (auto simp: validate_write_result_count_def word_neq_0_conv not_less)

lemma payload_has_status_eq:
  "payload_has_status payload NfsStatus.Jukebox \<longleftrightarrow>
     (\<exists>rest. payload = u32_to_be_bytes 10008 @ rest)"
proof -
  have inj: "NfsStatus_from_u32 v = NfsStatus.Jukebox \<longleftrightarrow> v = 10008" for v
  proof
    assume "NfsStatus_from_u32 v = NfsStatus.Jukebox"
    then have "NfsStatus_as_u32 (NfsStatus_from_u32 v) = 10008" by simp
    then show "v = 10008" using n3.as_from [of v] by (simp add: NfsStatus_from_u32_def)
  next
    assume "v = 10008"
    then show "NfsStatus_from_u32 v = NfsStatus.Jukebox"
      by (simp add: NfsStatus_from_u32_def NfsStatus_codes_def)
  qed
  show ?thesis
  proof
    assume "payload_has_status payload NfsStatus.Jukebox"
    then have len: "4 \<le> length payload" and v: "from_be_bytes (take 4 payload) = (10008 :: u32)"
      by (auto simp: payload_has_status_def inj split: if_splits)
    have "u32_to_be_bytes 10008 = take 4 payload"
      unfolding v [symmetric] using len by (intro u32_to_from_be) simp
    then show "\<exists>rest. payload = u32_to_be_bytes 10008 @ rest"
      by (intro exI [of _ "drop 4 payload"]) simp
  next
    assume "\<exists>rest. payload = u32_to_be_bytes 10008 @ rest"
    then show "payload_has_status payload NfsStatus.Jukebox"
      by (auto simp: payload_has_status_def inj)
  qed
qed

subsection \<open>Decoding a whole reply\<close>

text \<open>\<open>completes m bs x\<close>: on a decoder whose unread part is exactly \<open>bs\<close>, \<open>m\<close> returns \<open>x\<close>. This is
  the form in which the decoders that end with \<open>finish\<close> are composed.\<close>

definition completes :: "(decoder, 'e, 'a) op \<Rightarrow> bytes \<Rightarrow> 'a \<Rightarrow> bool" where
  "completes m bs x \<longleftrightarrow> (\<forall>pre. length (pre @ bs) \<le> usize_max \<longrightarrow> fst (m (dec_at pre bs)) = Inr x)"

named_theorems completes_intros "introduction rules for completes"

lemma completes_bnd [completes_intros]:
  assumes "decodes m bs x" "completes (k x) cs y"
  shows "completes (bnd m k) (bs @ cs) y"
  unfolding completes_def
proof (intro allI impI)
  fix pre
  assume len: "length (pre @ bs @ cs) \<le> usize_max"
  then have "m (dec_at pre (bs @ cs)) = (Inr x, dec_at (pre @ bs) cs)"
    by (intro decodesD assms)
  then show "fst (bnd m k (dec_at pre (bs @ cs))) = Inr y"
    using assms(2) len by (simp add: bnd_apply completes_def)
qed

lemma completes_bnd_last:
  "decodes m bs x \<Longrightarrow> completes (k x) [] y \<Longrightarrow> completes (bnd m k) bs y"
  using completes_bnd [of m bs x k "[]" y] by simp

lemma completes_decodes: "decodes m bs x \<Longrightarrow> completes m bs x"
  by (auto simp: completes_def dest: decodesD [where post = "[]"])

lemma completes_finish [completes_intros]:
  "completes (k ()) [] y \<Longrightarrow> completes (bnd (from_xdr dec_finish) k) [] y"
  by (simp add: completes_def bnd_apply from_xdr_def map_err_def dec_finish_def finish_def
      is_finished_def remaining_def dec_at_def)

lemma completes_ret [completes_intros]: "x = y \<Longrightarrow> completes (ret x) [] y"
  by (simp add: completes_def ret_apply)

lemma completes_of_result [completes_intros]:
  "r = Inr x \<Longrightarrow> completes (k x) [] y \<Longrightarrow> completes (bnd (of_result r) k) [] y"
  by (simp add: completes_def bnd_apply of_result_apply)

lemma completes_new:
  "completes m bs x \<Longrightarrow> length bs \<le> usize_max \<Longrightarrow> fst (m (decoder_new bs)) = Inr x"
  unfolding completes_def by (drule spec [of _ "[]"]) (simp add: decoder_new_def dec_at_def)

lemma decodes_status_ok: "decodes decode_status (u32_to_be_bytes 0) NfsStatus.Ok"
  unfolding decode_status_def decode_u32_def
  by (rule decodes_bnd_ret, rule decodes_read_u32)
    (simp add: NfsStatus_from_u32_def NfsStatus_codes_def)

lemma decodes_writeverf: "length v = 8 \<Longrightarrow> decodes decode_writeverf (opaque_pad v) v"
  unfolding decode_writeverf_def
  by (rule decodes_bnd_last, rule decodes_read_fixed_opaque)
    (simp_all add: NFS3_WRITEVERFSIZE_def decodes_ret)

end
