(* ===== verification/V3_Nfs3.thy ===== *)
theory V3_Nfs3
  imports V3_Messages
begin

text \<open>
  The NFSv3 protocol client (\<open>Nfs3Client\<close> in \<open>src/v3/proto.rs\<close>): the retry loop around an RPC call
  and the twenty-two procedures. Each procedure encodes its arguments, makes the call, decodes the
  status and the result of the reply, and checks that nothing is left over; \<open>decode_..._reply\<close> is the
  part behind the call. \<open>n3_slept\<close> records the arguments of \<open>thread::sleep\<close>.

  The lemmas show that the loop ends, repeats a call only after a \<open>JUKEBOX\<close> reply, at most
  \<open>max_retries\<close> times and with the delays of the policy, that the procedures inherit the contract of
  the transport, and that READ and WRITE replies are consistent with their requests.
\<close>

subsection \<open>The client\<close>

definition NFS_PROGRAM :: u32 where "NFS_PROGRAM = 100003"
definition NFS_VERSION :: u32 where "NFS_VERSION = 3"
definition NFSPROC3_NULL :: u32 where "NFSPROC3_NULL = 0"
definition NFSPROC3_GETATTR :: u32 where "NFSPROC3_GETATTR = 1"
definition NFSPROC3_SETATTR :: u32 where "NFSPROC3_SETATTR = 2"
definition NFSPROC3_LOOKUP :: u32 where "NFSPROC3_LOOKUP = 3"
definition NFSPROC3_ACCESS :: u32 where "NFSPROC3_ACCESS = 4"
definition NFSPROC3_READLINK :: u32 where "NFSPROC3_READLINK = 5"
definition NFSPROC3_READ :: u32 where "NFSPROC3_READ = 6"
definition NFSPROC3_WRITE :: u32 where "NFSPROC3_WRITE = 7"
definition NFSPROC3_CREATE :: u32 where "NFSPROC3_CREATE = 8"
definition NFSPROC3_MKDIR :: u32 where "NFSPROC3_MKDIR = 9"
definition NFSPROC3_SYMLINK :: u32 where "NFSPROC3_SYMLINK = 10"
definition NFSPROC3_MKNOD :: u32 where "NFSPROC3_MKNOD = 11"
definition NFSPROC3_REMOVE :: u32 where "NFSPROC3_REMOVE = 12"
definition NFSPROC3_RMDIR :: u32 where "NFSPROC3_RMDIR = 13"
definition NFSPROC3_RENAME :: u32 where "NFSPROC3_RENAME = 14"
definition NFSPROC3_LINK :: u32 where "NFSPROC3_LINK = 15"
definition NFSPROC3_READDIR :: u32 where "NFSPROC3_READDIR = 16"
definition NFSPROC3_READDIRPLUS :: u32 where "NFSPROC3_READDIRPLUS = 17"
definition NFSPROC3_FSSTAT :: u32 where "NFSPROC3_FSSTAT = 18"
definition NFSPROC3_FSINFO :: u32 where "NFSPROC3_FSINFO = 19"
definition NFSPROC3_PATHCONF :: u32 where "NFSPROC3_PATHCONF = 20"
definition NFSPROC3_COMMIT :: u32 where "NFSPROC3_COMMIT = 21"

record Nfs3Client =
  n3_rpc :: RpcClient
  n3_retry_policy :: RetryPolicy
  n3_slept :: "duration list"

type_synonym 'a nfs3 = "(Nfs3Client, error, 'a) op"

definition with_rpc :: "'a rpc \<Rightarrow> 'a nfs3" where
  "with_rpc m c = (case m (n3_rpc c) of (r, rpc) \<Rightarrow> (r, c\<lparr>n3_rpc := rpc\<rparr>))"

definition thread_sleep :: "duration \<Rightarrow> Nfs3Client \<Rightarrow> Nfs3Client" where
  "thread_sleep delay c = c\<lparr>n3_slept := n3_slept c @ [delay]\<rparr>"

definition Nfs3Client_connect_with_timeout :: "u32 \<Rightarrow> io_kind + 'addr list \<Rightarrow>
    (duration option \<Rightarrow> 'addr \<Rightarrow> io_kind + tcp_stream) \<Rightarrow> AuthSys \<Rightarrow> duration option \<Rightarrow>
    Nfs3Client result" where
  "Nfs3Client_connect_with_timeout stamp resolve dial auth timeout =
     bindR (connect_with_timeout stamp resolve dial (Sys auth) timeout) (\<lambda>rpc.
     Inr \<lparr>n3_rpc = rpc, n3_retry_policy = RetryPolicy_default, n3_slept = []\<rparr>)"

definition Nfs3Client_connect :: "u32 \<Rightarrow> io_kind + 'addr list \<Rightarrow>
    (duration option \<Rightarrow> 'addr \<Rightarrow> io_kind + tcp_stream) \<Rightarrow> AuthSys \<Rightarrow> Nfs3Client result" where
  "Nfs3Client_connect stamp resolve dial auth =
     Nfs3Client_connect_with_timeout stamp resolve dial auth None"

definition nfs3_set_timeout :: "duration option \<Rightarrow> unit nfs3" where
  "nfs3_set_timeout timeout = with_rpc (RpcClient_set_timeout timeout)"

definition nfs3_set_max_record_size :: "usize \<Rightarrow> unit nfs3" where
  "nfs3_set_max_record_size n = with_rpc (set_max_record_size n)"

definition nfs3_set_retry_policy :: "RetryPolicy \<Rightarrow> unit nfs3" where
  "nfs3_set_retry_policy p = modify (\<lambda>c. c\<lparr>n3_retry_policy := p\<rparr>)"

subsection \<open>The retry loop\<close>

definition nfs3_call_step :: "u32 \<Rightarrow> (encoder, xdr_error, unit) op \<Rightarrow> u32 \<Rightarrow>
    (u32, bytes) loop_step nfs3" where
  "nfs3_call_step procedure args retry =
     bnd (with_rpc (rpc_call NFS_PROGRAM NFS_VERSION procedure args)) (\<lambda>payload.
     bnd (gets n3_retry_policy) (\<lambda>policy.
     if procedure \<noteq> NFSPROC3_NULL \<and> payload_has_status payload NfsStatus.Jukebox then
       (case delay_for_retry policy retry of
          Some delay \<Rightarrow>
            bnd (modify (thread_sleep delay)) (\<lambda>_. ret (Continue (retry + 1)))
        | None \<Rightarrow> ret (Break payload))
     else ret (Break payload)))"

lemma with_rpc_policy: "with_rpc m c = (r, c') \<Longrightarrow> n3_retry_policy c' = n3_retry_policy c"
  by (auto simp: with_rpc_def split: prod.splits)

lemma nfs3_call_step_shrinks:
  assumes "nfs3_call_step procedure args retry c = (Inr (Continue retry'), c')"
  shows "unat (max_retries (n3_retry_policy c')) - unat retry' <
    unat (max_retries (n3_retry_policy c)) - unat retry"
proof -
  from assms obtain payload c1 delay where
    1: "with_rpc (rpc_call NFS_PROGRAM NFS_VERSION procedure args) c = (Inr payload, c1)"
    and 2: "delay_for_retry (n3_retry_policy c1) retry = Some delay"
    and 3: "retry' = retry + 1" "c' = thread_sleep delay c1"
    by (auto simp: nfs3_call_step_def bnd_Inr_iff gets_apply ret_apply modify_apply
        split: if_splits option.splits)
  have p: "n3_retry_policy c' = n3_retry_policy c" "n3_retry_policy c1 = n3_retry_policy c"
    using with_rpc_policy [OF 1] 3 by (simp_all add: thread_sleep_def)
  from 2 p have less: "unat retry < unat (max_retries (n3_retry_policy c))"
    by (auto simp: delay_for_retry_backoff split: if_splits)
  then have "unat retry + 1 < 2 ^ 32"
    using unat_u32_less [of "max_retries (n3_retry_policy c)"] by linarith
  then have "unat retry' = unat retry + 1" using 3(1) by (simp add: unat_word_ariths)
  with less p show ?thesis by simp
qed

function nfs3_call_loop :: "u32 \<Rightarrow> (encoder, xdr_error, unit) op \<Rightarrow> u32 \<Rightarrow> bytes nfs3" where
  "nfs3_call_loop procedure args retry c =
     (case nfs3_call_step procedure args retry c of
        (Inl e, c') \<Rightarrow> (Inl e, c')
      | (Inr (Continue retry'), c') \<Rightarrow> nfs3_call_loop procedure args retry' c'
      | (Inr (Break payload), c') \<Rightarrow> (Inr payload, c'))"
  by pat_completeness auto
termination
  by (relation "measure (\<lambda>(procedure, args, retry, c).
        unat (max_retries (n3_retry_policy c)) - unat retry)")
    (auto intro: nfs3_call_step_shrinks [OF sym])

declare nfs3_call_loop.simps [simp del]

interpretation ncl: body_loop "nfs3_call_step procedure args" "nfs3_call_loop procedure args"
  "\<lambda>retry c. unat (max_retries (n3_retry_policy c)) - unat retry" for procedure args
  by unfold_locales (rule nfs3_call_loop.simps, rule nfs3_call_step_shrinks)

definition nfs3_call :: "u32 \<Rightarrow> (encoder, xdr_error, unit) op \<Rightarrow> bytes nfs3" where
  "nfs3_call procedure args = nfs3_call_loop procedure args 0"

text \<open>Running a decoder on the payload of a reply.\<close>

definition decode_payload :: "(decoder, error, 'a) op \<Rightarrow> bytes \<Rightarrow> ('s, error, 'a) op" where
  "decode_payload m payload = of_result (fst (m (decoder_new payload)))"

subsection \<open>Procedures\<close>

definition nfs3_null :: "unit nfs3" where
  "nfs3_null =
     bnd (with_rpc (rpc_call NFS_PROGRAM NFS_VERSION NFSPROC3_NULL (encode_unit ())))
       (decode_payload (from_xdr dec_finish))"

definition decode_getattr_reply :: "(decoder, error, FileAttr) op" where
  "decode_getattr_reply =
     bnd (require_ok ''GETATTR'') (\<lambda>_.
     bnd (from_xdr decode_FileAttr) (\<lambda>attr.
     bnd (from_xdr dec_finish) (\<lambda>_. ret attr)))"

definition nfs3_getattr :: "FileHandle \<Rightarrow> FileAttr nfs3" where
  "nfs3_getattr object =
     bnd (nfs3_call NFSPROC3_GETATTR (encode_FileHandle object)) (decode_payload decode_getattr_reply)"

text \<open>The reply of SETATTR, REMOVE and RMDIR: weak cache consistency data in every case.\<close>

definition decode_wcc_reply :: "string \<Rightarrow> (decoder, error, WccData) op" where
  "decode_wcc_reply procedure_name =
     bnd (from_xdr decode_status) (\<lambda>status.
     bnd (from_xdr decode_WccData) (\<lambda>wcc.
     bnd (from_xdr dec_finish) (\<lambda>_.
     if status = NfsStatus.Ok then ret wcc else fail (Nfs procedure_name status))))"

definition nfs3_setattr :: "FileHandle \<Rightarrow> SetAttr \<Rightarrow> WccData nfs3" where
  "nfs3_setattr object attr =
     bnd (nfs3_call NFSPROC3_SETATTR
            (encode_SetattrArgs \<lparr>sta_object = object, sta_attr = attr, sta_guard = None\<rparr>))
       (decode_payload (decode_wcc_reply ''SETATTR''))"

definition decode_lookup_reply :: "(decoder, error, LookupResult) op" where
  "decode_lookup_reply =
     bnd (from_xdr decode_status) (\<lambda>status.
     if status = NfsStatus.Ok then
       bnd (from_xdr decode_FileHandle) (\<lambda>object.
       bnd (from_xdr decode_post_op_attr) (\<lambda>object_attributes.
       bnd (from_xdr decode_post_op_attr) (\<lambda>directory_attributes.
       bnd (from_xdr dec_finish) (\<lambda>_.
       ret \<lparr>lr_object = object, lr_object_attributes = object_attributes,
            lr_directory_attributes = directory_attributes\<rparr>))))
     else
       bnd (from_xdr decode_post_op_attr) (\<lambda>_.
       bnd (from_xdr dec_finish) (\<lambda>_. fail (Nfs ''LOOKUP'' status))))"

definition nfs3_lookup :: "FileHandle \<Rightarrow> string \<Rightarrow> LookupResult nfs3" where
  "nfs3_lookup dir name =
     bnd (nfs3_call NFSPROC3_LOOKUP (encode_Diropargs \<lparr>da_dir = dir, da_name = name\<rparr>))
       (decode_payload decode_lookup_reply)"

text \<open>Status and attributes first, then the rest of a successful reply.\<close>

definition decode_attr_reply :: "string \<Rightarrow> (FileAttr option \<Rightarrow> (decoder, error, 'a) op) \<Rightarrow>
    (decoder, error, 'a) op" where
  "decode_attr_reply procedure_name rest =
     bnd (from_xdr decode_status) (\<lambda>status.
     bnd (from_xdr decode_post_op_attr) (\<lambda>attributes.
     if status = NfsStatus.Ok then rest attributes
     else bnd (from_xdr dec_finish) (\<lambda>_. fail (Nfs procedure_name status))))"

definition decode_access_reply :: "(decoder, error, AccessResult) op" where
  "decode_access_reply = decode_attr_reply ''ACCESS'' (\<lambda>object_attributes.
     bnd (from_xdr decode_u32) (\<lambda>access.
     bnd (from_xdr dec_finish) (\<lambda>_.
     ret \<lparr>acr_object_attributes = object_attributes, acr_access = access\<rparr>)))"

definition nfs3_access :: "FileHandle \<Rightarrow> u32 \<Rightarrow> AccessResult nfs3" where
  "nfs3_access object access =
     bnd (nfs3_call NFSPROC3_ACCESS (encode_AccessArgs \<lparr>aa_object = object, aa_access = access\<rparr>))
       (decode_payload decode_access_reply)"

definition decode_readlink_reply :: "(decoder, error, string) op" where
  "decode_readlink_reply = decode_attr_reply ''READLINK'' (\<lambda>_.
     bnd (from_xdr (read_string MAX_PATH_BYTES)) (\<lambda>data.
     bnd (from_xdr dec_finish) (\<lambda>_. ret data)))"

definition nfs3_readlink :: "FileHandle \<Rightarrow> string nfs3" where
  "nfs3_readlink symlink =
     bnd (nfs3_call NFSPROC3_READLINK (encode_FileHandle symlink)) (decode_payload decode_readlink_reply)"

definition decode_read_reply :: "u32 \<Rightarrow> (decoder, error, ReadResult) op" where
  "decode_read_reply requested_count = decode_attr_reply ''READ'' (\<lambda>file_attributes.
     bnd (from_xdr decode_u32) (\<lambda>returned_count.
     bnd (from_xdr decode_bool) (\<lambda>eof.
     bnd (from_xdr (read_opaque_vec MAX_IO_BYTES)) (\<lambda>data.
     bnd (from_xdr dec_finish) (\<lambda>_.
     bnd (of_result (validate_read_result_size requested_count returned_count (length data) eof)) (\<lambda>_.
     ret \<lparr>rr_file_attributes = file_attributes, rr_count = returned_count, rr_eof = eof,
          rr_data = data\<rparr>))))))"

definition nfs3_read :: "FileHandle \<Rightarrow> u64 \<Rightarrow> u32 \<Rightarrow> ReadResult nfs3" where
  "nfs3_read file offset count =
     bnd (nfs3_call NFSPROC3_READ
            (encode_ReadArgs \<lparr>ra_file = file, ra_offset = offset, ra_count = count\<rparr>))
       (decode_payload (decode_read_reply count))"

definition decode_write_reply :: "u32 \<Rightarrow> (decoder, error, WriteResult) op" where
  "decode_write_reply requested_count =
     bnd (from_xdr decode_status) (\<lambda>status.
     bnd (from_xdr decode_WccData) (\<lambda>file_wcc.
     if status = NfsStatus.Ok then
       bnd (from_xdr decode_u32) (\<lambda>returned_count.
       bnd (from_xdr decode_StableHow) (\<lambda>committed.
       bnd (from_xdr decode_writeverf) (\<lambda>verifier.
       bnd (from_xdr dec_finish) (\<lambda>_.
       bnd (of_result (validate_write_result_count requested_count returned_count)) (\<lambda>_.
       ret \<lparr>wr_file_wcc = file_wcc, wr_count = returned_count, wr_committed = committed,
            wr_verifier = verifier\<rparr>)))))
     else bnd (from_xdr dec_finish) (\<lambda>_. fail (Nfs ''WRITE'' status))))"

definition nfs3_write :: "FileHandle \<Rightarrow> u64 \<Rightarrow> StableHow \<Rightarrow> bytes \<Rightarrow> WriteResult nfs3" where
  "nfs3_write file offset stability data =
     bnd (of_result (ok_or (u32_try_from (length data)) (error.LengthOutOfRange (length data))))
       (\<lambda>requested_count.
     bnd (nfs3_call NFSPROC3_WRITE
            (encode_WriteArgs \<lparr>wra_file = file, wra_offset = offset, wra_count = requested_count,
               wra_stable = stability, wra_data = data\<rparr>))
       (decode_payload (decode_write_reply requested_count)))"

definition decode_create_reply :: "string \<Rightarrow> (decoder, error, CreateResult) op" where
  "decode_create_reply procedure_name =
     bnd (from_xdr decode_status) (\<lambda>status.
     if status = NfsStatus.Ok then
       bnd (from_xdr decode_post_op_fh) (\<lambda>object.
       bnd (from_xdr decode_post_op_attr) (\<lambda>object_attributes.
       bnd (from_xdr decode_WccData) (\<lambda>directory_wcc.
       bnd (from_xdr dec_finish) (\<lambda>_.
       ret \<lparr>cr_object = object, cr_object_attributes = object_attributes,
            cr_directory_wcc = directory_wcc\<rparr>))))
     else
       bnd (from_xdr decode_WccData) (\<lambda>_.
       bnd (from_xdr dec_finish) (\<lambda>_. fail (Nfs procedure_name status))))"

definition create_like :: "u32 \<Rightarrow> string \<Rightarrow> (encoder, xdr_error, unit) op \<Rightarrow> CreateResult nfs3" where
  "create_like procedure_id procedure_name args =
     bnd (nfs3_call procedure_id args) (decode_payload (decode_create_reply procedure_name))"

definition wcc_only :: "u32 \<Rightarrow> string \<Rightarrow> (encoder, xdr_error, unit) op \<Rightarrow> WccData nfs3" where
  "wcc_only procedure_id procedure_name args =
     bnd (nfs3_call procedure_id args) (decode_payload (decode_wcc_reply procedure_name))"

definition nfs3_create :: "FileHandle \<Rightarrow> string \<Rightarrow> CreateHow \<Rightarrow> CreateResult nfs3" where
  "nfs3_create dir name how = create_like NFSPROC3_CREATE ''CREATE''
     (encode_CreateArgs \<lparr>cra_where = \<lparr>da_dir = dir, da_name = name\<rparr>, cra_how = how\<rparr>)"

definition nfs3_mkdir :: "FileHandle \<Rightarrow> string \<Rightarrow> SetAttr \<Rightarrow> CreateResult nfs3" where
  "nfs3_mkdir dir name attributes = create_like NFSPROC3_MKDIR ''MKDIR''
     (encode_MkdirArgs \<lparr>mka_where = \<lparr>da_dir = dir, da_name = name\<rparr>, mka_attributes = attributes\<rparr>)"

definition nfs3_symlink :: "FileHandle \<Rightarrow> string \<Rightarrow> string \<Rightarrow> SetAttr \<Rightarrow> CreateResult nfs3" where
  "nfs3_symlink dir name target attributes = create_like NFSPROC3_SYMLINK ''SYMLINK''
     (encode_SymlinkArgs \<lparr>sla_where = \<lparr>da_dir = dir, da_name = name\<rparr>, sla_target = target,
        sla_attributes = attributes\<rparr>)"

definition nfs3_mknod :: "FileHandle \<Rightarrow> string \<Rightarrow> MknodData \<Rightarrow> CreateResult nfs3" where
  "nfs3_mknod dir name what = create_like NFSPROC3_MKNOD ''MKNOD''
     (encode_MknodArgs \<lparr>mna_where = \<lparr>da_dir = dir, da_name = name\<rparr>, mna_what = what\<rparr>)"

definition nfs3_remove :: "FileHandle \<Rightarrow> string \<Rightarrow> WccData nfs3" where
  "nfs3_remove dir name =
     wcc_only NFSPROC3_REMOVE ''REMOVE'' (encode_Diropargs \<lparr>da_dir = dir, da_name = name\<rparr>)"

definition nfs3_rmdir :: "FileHandle \<Rightarrow> string \<Rightarrow> WccData nfs3" where
  "nfs3_rmdir dir name =
     wcc_only NFSPROC3_RMDIR ''RMDIR'' (encode_Diropargs \<lparr>da_dir = dir, da_name = name\<rparr>)"

definition decode_rename_reply :: "(decoder, error, RenameResult) op" where
  "decode_rename_reply =
     bnd (from_xdr decode_status) (\<lambda>status.
     bnd (from_xdr decode_WccData) (\<lambda>fromdir_wcc.
     bnd (from_xdr decode_WccData) (\<lambda>todir_wcc.
     bnd (from_xdr dec_finish) (\<lambda>_.
     if status = NfsStatus.Ok
     then ret \<lparr>rn_fromdir_wcc = fromdir_wcc, rn_todir_wcc = todir_wcc\<rparr>
     else fail (Nfs ''RENAME'' status)))))"

definition nfs3_rename :: "FileHandle \<Rightarrow> string \<Rightarrow> FileHandle \<Rightarrow> string \<Rightarrow> RenameResult nfs3" where
  "nfs3_rename from_dir from_name to_dir to_name =
     bnd (nfs3_call NFSPROC3_RENAME
            (encode_RenameArgs \<lparr>rna_from = \<lparr>da_dir = from_dir, da_name = from_name\<rparr>,
               rna_to = \<lparr>da_dir = to_dir, da_name = to_name\<rparr>\<rparr>))
       (decode_payload decode_rename_reply)"

definition decode_link_reply :: "(decoder, error, LinkResult) op" where
  "decode_link_reply =
     bnd (from_xdr decode_status) (\<lambda>status.
     bnd (from_xdr decode_post_op_attr) (\<lambda>file_attributes.
     bnd (from_xdr decode_WccData) (\<lambda>linkdir_wcc.
     bnd (from_xdr dec_finish) (\<lambda>_.
     if status = NfsStatus.Ok
     then ret \<lparr>lk_file_attributes = file_attributes, lk_linkdir_wcc = linkdir_wcc\<rparr>
     else fail (Nfs ''LINK'' status)))))"

definition nfs3_link :: "FileHandle \<Rightarrow> FileHandle \<Rightarrow> string \<Rightarrow> LinkResult nfs3" where
  "nfs3_link file link_dir link_name =
     bnd (nfs3_call NFSPROC3_LINK
            (encode_LinkArgs \<lparr>lka_file = file, lka_link = \<lparr>da_dir = link_dir, da_name = link_name\<rparr>\<rparr>))
       (decode_payload decode_link_reply)"

definition decode_readdir_reply :: "string \<Rightarrow> bool \<Rightarrow> (decoder, error, ReadDirResult) op" where
  "decode_readdir_reply procedure_name is_plus =
     decode_attr_reply procedure_name (\<lambda>directory_attributes.
     bnd (from_xdr decode_cookieverf) (\<lambda>cookieverf.
     bnd (from_xdr (decode_dir_entries is_plus)) (\<lambda>entries.
     bnd (from_xdr decode_bool) (\<lambda>eof.
     bnd (from_xdr dec_finish) (\<lambda>_.
     ret \<lparr>rd_directory_attributes = directory_attributes, rd_cookieverf = cookieverf,
          rd_entries = entries, rd_eof = eof\<rparr>)))))"

definition nfs3_readdir :: "FileHandle \<Rightarrow> u64 \<Rightarrow> bytes \<Rightarrow> u32 \<Rightarrow> ReadDirResult nfs3" where
  "nfs3_readdir dir cookie cookieverf count =
     bnd (nfs3_call NFSPROC3_READDIR
            (encode_ReadDirArgs \<lparr>rda_dir = dir, rda_cookie = cookie, rda_cookieverf = cookieverf,
               rda_count = count\<rparr>))
       (decode_payload (decode_readdir_reply ''READDIR'' False))"

definition nfs3_readdirplus :: "FileHandle \<Rightarrow> u64 \<Rightarrow> bytes \<Rightarrow> u32 \<Rightarrow> u32 \<Rightarrow> ReadDirResult nfs3" where
  "nfs3_readdirplus dir cookie cookieverf dircount maxcount =
     bnd (nfs3_call NFSPROC3_READDIRPLUS
            (encode_ReadDirPlusArgs \<lparr>rpa_dir = dir, rpa_cookie = cookie, rpa_cookieverf = cookieverf,
               rpa_dircount = dircount, rpa_maxcount = maxcount\<rparr>))
       (decode_payload (decode_readdir_reply ''READDIRPLUS'' True))"

definition decode_fsstat_reply :: "(decoder, error, FsStat) op" where
  "decode_fsstat_reply = decode_attr_reply ''FSSTAT'' (\<lambda>object_attributes.
     bnd (from_xdr decode_u64) (\<lambda>total_bytes.
     bnd (from_xdr decode_u64) (\<lambda>free_bytes.
     bnd (from_xdr decode_u64) (\<lambda>available_bytes.
     bnd (from_xdr decode_u64) (\<lambda>total_files.
     bnd (from_xdr decode_u64) (\<lambda>free_files.
     bnd (from_xdr decode_u64) (\<lambda>available_files.
     bnd (from_xdr decode_u32) (\<lambda>invariant_seconds.
     bnd (from_xdr dec_finish) (\<lambda>_.
     ret \<lparr>fs_object_attributes = object_attributes, fs_total_bytes = total_bytes,
          fs_free_bytes = free_bytes, fs_available_bytes = available_bytes,
          fs_total_files = total_files, fs_free_files = free_files,
          fs_available_files = available_files, fs_invariant_seconds = invariant_seconds\<rparr>)))))))))"

definition nfs3_fsstat :: "FileHandle \<Rightarrow> FsStat nfs3" where
  "nfs3_fsstat fsroot =
     bnd (nfs3_call NFSPROC3_FSSTAT (encode_FileHandle fsroot)) (decode_payload decode_fsstat_reply)"

definition decode_fsinfo_reply :: "(decoder, error, FsInfo) op" where
  "decode_fsinfo_reply = decode_attr_reply ''FSINFO'' (\<lambda>object_attributes.
     bnd (from_xdr decode_u32) (\<lambda>read_max.
     bnd (from_xdr decode_u32) (\<lambda>read_preferred.
     bnd (from_xdr decode_u32) (\<lambda>read_multiple.
     bnd (from_xdr decode_u32) (\<lambda>write_max.
     bnd (from_xdr decode_u32) (\<lambda>write_preferred.
     bnd (from_xdr decode_u32) (\<lambda>write_multiple.
     bnd (from_xdr decode_u32) (\<lambda>dir_preferred.
     bnd (from_xdr decode_u64) (\<lambda>max_file_size.
     bnd (from_xdr decode_NfsTime) (\<lambda>time_delta.
     bnd (from_xdr decode_u32) (\<lambda>properties.
     bnd (from_xdr dec_finish) (\<lambda>_.
     ret \<lparr>fi_object_attributes = object_attributes, fi_read_max = read_max,
          fi_read_preferred = read_preferred, fi_read_multiple = read_multiple,
          fi_write_max = write_max, fi_write_preferred = write_preferred,
          fi_write_multiple = write_multiple, fi_dir_preferred = dir_preferred,
          fi_max_file_size = max_file_size, fi_time_delta = time_delta,
          fi_properties = properties\<rparr>))))))))))))"

definition nfs3_fsinfo :: "FileHandle \<Rightarrow> FsInfo nfs3" where
  "nfs3_fsinfo fsroot =
     bnd (nfs3_call NFSPROC3_FSINFO (encode_FileHandle fsroot)) (decode_payload decode_fsinfo_reply)"

definition decode_pathconf_reply :: "(decoder, error, PathConf) op" where
  "decode_pathconf_reply = decode_attr_reply ''PATHCONF'' (\<lambda>object_attributes.
     bnd (from_xdr decode_u32) (\<lambda>link_max.
     bnd (from_xdr decode_u32) (\<lambda>name_max.
     bnd (from_xdr decode_bool) (\<lambda>no_trunc.
     bnd (from_xdr decode_bool) (\<lambda>chown_restricted.
     bnd (from_xdr decode_bool) (\<lambda>case_insensitive.
     bnd (from_xdr decode_bool) (\<lambda>case_preserving.
     bnd (from_xdr dec_finish) (\<lambda>_.
     ret \<lparr>pc_object_attributes = object_attributes, pc_link_max = link_max, pc_name_max = name_max,
          pc_no_trunc = no_trunc, pc_chown_restricted = chown_restricted,
          pc_case_insensitive = case_insensitive, pc_case_preserving = case_preserving\<rparr>))))))))"

definition nfs3_pathconf :: "FileHandle \<Rightarrow> PathConf nfs3" where
  "nfs3_pathconf object =
     bnd (nfs3_call NFSPROC3_PATHCONF (encode_FileHandle object)) (decode_payload decode_pathconf_reply)"

definition decode_commit_reply :: "(decoder, error, CommitResult) op" where
  "decode_commit_reply =
     bnd (from_xdr decode_status) (\<lambda>status.
     bnd (from_xdr decode_WccData) (\<lambda>file_wcc.
     bnd (if status = NfsStatus.Ok then from_xdr decode_writeverf
          else ret (replicate NFS3_WRITEVERFSIZE 0)) (\<lambda>verifier.
     bnd (from_xdr dec_finish) (\<lambda>_.
     if status = NfsStatus.Ok then ret \<lparr>ct_file_wcc = file_wcc, ct_verifier = verifier\<rparr>
     else fail (Nfs ''COMMIT'' status)))))"

definition nfs3_commit :: "FileHandle \<Rightarrow> u64 \<Rightarrow> u32 \<Rightarrow> CommitResult nfs3" where
  "nfs3_commit file offset count =
     bnd (nfs3_call NFSPROC3_COMMIT
            (encode_CommitArgs \<lparr>cma_file = file, cma_offset = offset, cma_count = count\<rparr>))
       (decode_payload decode_commit_reply)"

subsection \<open>Retries\<close>

abbreviation rpc_once :: "u32 \<Rightarrow> (encoder, xdr_error, unit) op \<Rightarrow> bytes nfs3" where
  "rpc_once procedure args \<equiv> with_rpc (rpc_call NFS_PROGRAM NFS_VERSION procedure args)"

text \<open>\<open>after_retries procedure args c n c'\<close>: from \<open>c\<close>, \<open>n\<close> calls were made, each answered with
  \<open>JUKEBOX\<close> and followed by one sleep, the \<open>i\<close>-th for the \<open>i\<close>-th delay of the policy, and nothing else.\<close>

inductive after_retries :: "u32 \<Rightarrow> (encoder, xdr_error, unit) op \<Rightarrow> Nfs3Client \<Rightarrow> nat \<Rightarrow> Nfs3Client \<Rightarrow> bool"
  for procedure args where
  None: "after_retries procedure args c 0 c"
| Retry: "after_retries procedure args c n c1 \<Longrightarrow> procedure \<noteq> NFSPROC3_NULL \<Longrightarrow>
    rpc_once procedure args c1 = (Inr payload, c2) \<Longrightarrow> payload_has_status payload NfsStatus.Jukebox \<Longrightarrow>
    after_retries procedure args c (Suc n) (thread_sleep (backoff (n3_retry_policy c) n) c2)"

text \<open>The answer after which no further call is made.\<close>

definition final_answer :: "u32 \<Rightarrow> bool \<Rightarrow> bytes result \<Rightarrow> bool" where
  "final_answer procedure exhausted r \<longleftrightarrow>
     (case r of
        Inl _ \<Rightarrow> True
      | Inr payload \<Rightarrow> procedure = NFSPROC3_NULL \<or> exhausted \<or> \<not> payload_has_status payload NfsStatus.Jukebox)"

lemma after_retries_policy:
  "after_retries procedure args c n c' \<Longrightarrow> n3_retry_policy c' = n3_retry_policy c"
  by (induction rule: after_retries.induct) (auto simp: thread_sleep_def dest: with_rpc_policy)

lemma with_rpc_slept: "with_rpc m c = (r, c') \<Longrightarrow> n3_slept c' = n3_slept c"
  by (auto simp: with_rpc_def split: prod.splits)

lemma after_retries_slept:
  "after_retries procedure args c n c' \<Longrightarrow>
   n3_slept c' = n3_slept c @ map (backoff (n3_retry_policy c)) [0..<n]"
  by (induction rule: after_retries.induct) (auto simp: thread_sleep_def dest: with_rpc_slept)

lemma nfs3_call_step_eq:
  "nfs3_call_step procedure args retry c =
     (case rpc_once procedure args c of
        (Inl e, c1) \<Rightarrow> (Inl e, c1)
      | (Inr payload, c1) \<Rightarrow>
          if procedure \<noteq> NFSPROC3_NULL \<and> payload_has_status payload NfsStatus.Jukebox \<and>
            unat retry < unat (max_retries (n3_retry_policy c))
          then (Inr (Continue (retry + 1)), thread_sleep (backoff (n3_retry_policy c) (unat retry)) c1)
          else (Inr (Break payload), c1))"
  by (auto simp: nfs3_call_step_def op_simps delay_for_retry_backoff dest: with_rpc_policy
      split: prod.splits sum.splits)

lemma loop_after_retries:
  assumes "after_retries procedure args c n c1" "n \<le> unat (max_retries (n3_retry_policy c))"
  shows "nfs3_call_loop procedure args 0 c = nfs3_call_loop procedure args (of_nat n) c1"
  using assms
proof (induction rule: after_retries.induct)
  case (Retry c n c1 payload c2)
  let ?p = "n3_retry_policy c"
  have n: "unat (of_nat n :: u32) = n"
    using Retry.prems unat_u32_less [of "max_retries ?p"] by (simp add: unat_of_nat)
  have "n3_retry_policy c1 = ?p" using Retry.hyps(1) by (rule after_retries_policy)
  with Retry n have "nfs3_call_step procedure args (of_nat n) c1 =
      (Inr (Continue (of_nat n + 1)), thread_sleep (backoff ?p n) c2)"
    by (simp add: nfs3_call_step_eq)
  then have "nfs3_call_loop procedure args (of_nat n) c1 =
      nfs3_call_loop procedure args (of_nat (Suc n)) (thread_sleep (backoff ?p n) c2)"
    by (simp add: nfs3_call_loop.simps [of procedure args "of_nat n" c1] add.commute)
  with Retry show ?case by simp
qed simp

lemma nfs3_call_ends:
  assumes "after_retries procedure args c n c1" "n \<le> unat (max_retries (n3_retry_policy c))"
    "rpc_once procedure args c1 = (r, c')" "final_answer procedure (n = unat (max_retries (n3_retry_policy c))) r"
  shows "nfs3_call procedure args c = (r, c')"
proof -
  let ?p = "n3_retry_policy c"
  have n: "unat (of_nat n :: u32) = n"
    using assms(2) unat_u32_less [of "max_retries ?p"] by (simp add: unat_of_nat)
  have "n3_retry_policy c1 = ?p" using assms(1) by (rule after_retries_policy)
  with assms n have "nfs3_call_loop procedure args (of_nat n) c1 = (r, c')"
    by (auto simp: nfs3_call_loop.simps [of procedure args "of_nat n" c1] nfs3_call_step_eq final_answer_def
        split: sum.splits)
  with loop_after_retries [OF assms(1,2)] show ?thesis by (simp add: nfs3_call_def)
qed

lemma nfs3_call_run:
  assumes "nfs3_call procedure args c = (r, c')"
  obtains n c1 where "n \<le> unat (max_retries (n3_retry_policy c))" "after_retries procedure args c n c1"
    "rpc_once procedure args c1 = (r, c')" "final_answer procedure (n = unat (max_retries (n3_retry_policy c))) r"
proof -
  let ?p = "n3_retry_policy c"
  let ?I = "\<lambda>retry c1. unat retry \<le> unat (max_retries ?p) \<and> after_retries procedure args c (unat retry) c1"
  let ?Q = "\<lambda>r c'. \<exists>n c1. n \<le> unat (max_retries ?p) \<and> after_retries procedure args c n c1 \<and>
    rpc_once procedure args c1 = (r, c') \<and> final_answer procedure (n = unat (max_retries ?p)) r"
  have "?Q r c'"
  proof (rule ncl.loop_rule [where I = ?I and Q = ?Q])
    show "?I 0 c" by (simp add: after_retries.None)
    show "nfs3_call_loop procedure args 0 c = (r, c')" using assms by (simp add: nfs3_call_def)
  next
    fix retry c1 retry' c2
    assume I: "?I retry c1" and b: "nfs3_call_step procedure args retry c1 = (Inr (Continue retry'), c2)"
    have p: "n3_retry_policy c1 = ?p" using I after_retries_policy by blast
    with b obtain payload c3 where 1: "rpc_once procedure args c1 = (Inr payload, c3)" "procedure \<noteq> NFSPROC3_NULL"
        "payload_has_status payload NfsStatus.Jukebox" "unat retry < unat (max_retries ?p)" "retry' = retry + 1"
        "c2 = thread_sleep (backoff ?p (unat retry)) c3"
      by (auto simp: nfs3_call_step_eq split: prod.splits sum.splits if_splits)
    have "unat (retry + 1) = Suc (unat retry)"
      using 1(4) unat_u32_less [of "max_retries ?p"] by (simp add: unat_word_ariths)
    with 1 I after_retries.Retry [of procedure args c "unat retry" c1 payload c3] show "?I retry' c2" by simp
  next
    fix retry c1 payload c2
    assume I: "?I retry c1" and b: "nfs3_call_step procedure args retry c1 = (Inr (Break payload), c2)"
    have p: "n3_retry_policy c1 = ?p" using I after_retries_policy by blast
    from b p have "rpc_once procedure args c1 = (Inr payload, c2)"
        "procedure = NFSPROC3_NULL \<or> \<not> payload_has_status payload NfsStatus.Jukebox \<or> \<not> unat retry < unat (max_retries ?p)"
      by (auto simp: nfs3_call_step_eq split: prod.splits sum.splits if_splits)
    with I show "?Q (Inr payload) c2" by (intro exI [of _ "unat retry"] exI [of _ c1]) (auto simp: final_answer_def)
  next
    fix retry c1 e c2
    assume I: "?I retry c1" and b: "nfs3_call_step procedure args retry c1 = (Inl e, c2)"
    from b have "rpc_once procedure args c1 = (Inl e, c2)"
      by (auto simp: nfs3_call_step_eq split: prod.splits sum.splits if_splits)
    with I show "?Q (Inl e) c2" by (intro exI [of _ "unat retry"] exI [of _ c1]) (auto simp: final_answer_def)
  qed
  with that show thesis by blast
qed

text \<open>C9. The retry loop of a procedure always ends, and exactly so: there is a number \<open>n\<close> of retries, at
  most \<open>max_retries\<close>, such that \<open>n\<close> calls were answered with \<open>JUKEBOX\<close> and each of them was followed by
  the sleep for its delay, and then one last call was made, whose outcome and whose state are those of the
  procedure. The last call is one that failed, that was answered with another status (or is the NULL
  procedure), or that used up the retries. So \<open>n + 1\<close> calls are made, never more than \<open>max_retries + 1\<close>,
  with exactly the first \<open>n\<close> delays of the policy slept in between.\<close>

theorem nfs3_call_bounded_retries:
  "(nfs3_call procedure args c = (r, c') \<longleftrightarrow>
      (\<exists>n \<le> unat (max_retries (n3_retry_policy c)). \<exists>c1. after_retries procedure args c n c1 \<and>
         with_rpc (rpc_call NFS_PROGRAM NFS_VERSION procedure args) c1 = (r, c') \<and>
         final_answer procedure (n = unat (max_retries (n3_retry_policy c))) r)) \<and>
   (after_retries procedure args c n c1 \<longrightarrow>
      n3_slept c1 = n3_slept c @ map (backoff (n3_retry_policy c)) [0..<n])"
  by (blast intro: nfs3_call_ends after_retries_slept elim: nfs3_call_run)

definition demo_nfs3 :: "rx_event list \<Rightarrow> Nfs3Client" where
  "demo_nfs3 evs =
     \<lparr>n3_rpc = demo_client evs, n3_retry_policy = RetryPolicy_default, n3_slept = []\<rparr>"

lemma demo_nfs3_simps [simp]:
  "n3_rpc (demo_nfs3 evs) = demo_client evs" "n3_retry_policy (demo_nfs3 evs) = RetryPolicy_default"
  "n3_slept (demo_nfs3 evs) = []"
  by (simp_all add: demo_nfs3_def)

subsection \<open>The transport contract of the procedures\<close>

abbreviation n3_poisoned :: "Nfs3Client \<Rightarrow> bool" where
  "n3_poisoned c \<equiv> rpc_interrupted (n3_rpc c)"

lemma with_rpc_poisoned:
  "n3_poisoned c \<Longrightarrow>
   with_rpc (rpc_call program version procedure args) c = (Inl RpcConnectionInvalid, c)"
  by (simp add: with_rpc_def rpc_call_interrupted)

lemma with_rpc_poisons:
  assumes "\<not> n3_poisoned c" "with_rpc (rpc_call program version procedure args) c = (r, c')"
  shows "n3_poisoned c' \<longleftrightarrow> (\<exists>e. r = Inl (OutcomeUnknown e))"
  using assms rpc_call_poisons [of "n3_rpc c"] by (auto simp: with_rpc_def split: prod.splits)

lemma nfs3_call_poisoned:
  "n3_poisoned c \<Longrightarrow> nfs3_call procedure args c = (Inl RpcConnectionInvalid, c)"
  by (simp add: nfs3_call_def nfs3_call_loop.simps [of procedure args 0 c] nfs3_call_step_def bnd_apply
      with_rpc_poisoned)

lemma nfs3_call_poisons:
  assumes "\<not> n3_poisoned c" "nfs3_call procedure args c = (r, c')"
  shows "n3_poisoned c' \<longleftrightarrow> (\<exists>e. r = Inl (OutcomeUnknown e))"
  using assms(2) unfolding nfs3_call_def
proof (rule ncl.loop_rule [where I = "\<lambda>_ c. \<not> n3_poisoned c", rotated])
  show "\<not> n3_poisoned c" by fact
  fix retry c1 and st :: "(u32, bytes) loop_step" and c2
  assume c1: "\<not> n3_poisoned c1"
  have ok: "\<not> n3_poisoned c2" if b: "nfs3_call_step procedure args retry c1 = (Inr st, c2)"
    for st c2 retry
  proof -
    from b obtain payload c3 where
      "with_rpc (rpc_call NFS_PROGRAM NFS_VERSION procedure args) c1 = (Inr payload, c3)"
      "n3_rpc c2 = n3_rpc c3"
      by (auto simp: nfs3_call_step_def bnd_Inr_iff gets_apply ret_apply modify_apply thread_sleep_def
          split: if_splits option.splits)
    with with_rpc_poisons [OF c1] show ?thesis by simp
  qed
  show "\<not> n3_poisoned c2" if "nfs3_call_step procedure args retry c1 = (Inr (Continue retry'), c2)"
    for retry' c2 using ok [OF that] .
  show "n3_poisoned c2 \<longleftrightarrow> (\<exists>e. Inr payload = Inl (OutcomeUnknown e))"
    if "nfs3_call_step procedure args retry c1 = (Inr (Break payload), c2)"
    for payload c2 using ok [OF that] by simp
  show "n3_poisoned c2 \<longleftrightarrow> (\<exists>e'. Inl e = Inl (OutcomeUnknown e'))"
    if b: "nfs3_call_step procedure args retry c1 = (Inl e, c2)" for e c2
  proof -
    from b have "with_rpc (rpc_call NFS_PROGRAM NFS_VERSION procedure args) c1 = (Inl e, c2)"
      by (auto simp: nfs3_call_step_def gets_apply ret_apply modify_apply
          split: if_splits option.splits elim!: bndE)
    from with_rpc_poisons [OF c1 this] show ?thesis by simp
  qed
qed

abbreviation definite :: "('s, error, 'a) op \<Rightarrow> bool" where
  "definite m \<equiv> errs (\<lambda>e. \<not> is_outcome_unknown e) m"

lemma require_ok_definite [errs_intros]: "definite (require_ok p)"
  unfolding require_ok_def by (intro errs_intros) simp_all

lemma decode_attr_reply_definite [errs_intros]:
  "(\<And>a. definite (rest a)) \<Longrightarrow> definite (decode_attr_reply p rest)"
  unfolding decode_attr_reply_def by (intro errs_intros) simp_all

lemma validate_definite:
  "validate_read_result_size a b l f = Inl e \<Longrightarrow> \<not> is_outcome_unknown e"
  "validate_write_result_count a b = Inl e \<Longrightarrow> \<not> is_outcome_unknown e"
  by (auto simp: validate_read_result_size_def validate_write_result_count_def split: if_splits)

lemma replies_definite:
  "definite (from_xdr dec_finish)" "definite decode_getattr_reply" "definite (decode_wcc_reply p)"
  "definite decode_lookup_reply" "definite decode_access_reply" "definite decode_readlink_reply"
  "definite (decode_read_reply n)" "definite (decode_write_reply n)" "definite (decode_create_reply p)"
  "definite decode_rename_reply" "definite decode_link_reply" "definite (decode_readdir_reply p b)"
  "definite decode_fsstat_reply" "definite decode_fsinfo_reply" "definite decode_pathconf_reply"
  "definite decode_commit_reply"
  unfolding decode_getattr_reply_def decode_wcc_reply_def decode_lookup_reply_def
    decode_access_reply_def decode_readlink_reply_def decode_read_reply_def decode_write_reply_def
    decode_create_reply_def decode_rename_reply_def decode_link_reply_def decode_readdir_reply_def
    decode_fsstat_reply_def decode_fsinfo_reply_def decode_pathconf_reply_def decode_commit_reply_def
  by ((intro errs_intros; (simp; fail | erule validate_definite))+)

lemma procedure_poisoned:
  "n3_poisoned c \<Longrightarrow> bnd (nfs3_call procedure args) (decode_payload m) c = (Inl RpcConnectionInvalid, c)"
  by (simp add: bnd_apply nfs3_call_poisoned)

lemma procedure_poisons:
  assumes "\<not> n3_poisoned c" "definite m" "bnd (nfs3_call procedure args) (decode_payload m) c = (r, c')"
  shows "n3_poisoned c' \<longleftrightarrow> (\<exists>e. r = Inl (OutcomeUnknown e))"
  using assms(3)
proof (cases rule: bndE)
  case (Err e)
  with nfs3_call_poisons [OF assms(1)] show ?thesis by fastforce
next
  case (Ok payload c1)
  then have "\<not> n3_poisoned c1" using nfs3_call_poisons [OF assms(1)] by blast
  moreover have "c' = c1" "r = fst (m (decoder_new payload))"
    using Ok(2) by (simp_all add: decode_payload_def of_result_apply)
  moreover have "fst (m (decoder_new payload)) \<noteq> Inl (OutcomeUnknown e)" for e
  proof
    assume "fst (m (decoder_new payload)) = Inl (OutcomeUnknown e)"
    with assms(2) have "\<not> is_outcome_unknown (OutcomeUnknown e)" unfolding errs_def by blast
    then show False by simp
  qed
  ultimately show ?thesis by auto
qed

interpretation n3t: rpc_transport "\<lambda>(procedure, args). nfs3_call procedure args" n3_poisoned
  by unfold_locales (auto simp: nfs3_call_poisoned nfs3_call_poisons)

text \<open>The READ procedure satisfies the same contract, with the decoder of its reply behind the call.\<close>

lemma nfs3_read_poisons:
  "\<not> n3_poisoned c \<Longrightarrow> nfs3_read file offset count c = (r, c') \<Longrightarrow>
   n3_poisoned c' \<longleftrightarrow> (\<exists>e. r = Inl (OutcomeUnknown e))"
  unfolding nfs3_read_def by (rule procedure_poisons [OF _ replies_definite(7)])

interpretation n3r: rpc_transport "\<lambda>(file, offset, count). nfs3_read file offset count" n3_poisoned
  by unfold_locales (auto simp: nfs3_read_def procedure_poisoned nfs3_read_poisons [unfolded nfs3_read_def])

subsection \<open>A call that the server answers\<close>

text \<open>\<open>rpc_serves rpc program version procedure args payload rest\<close>: the connection is idle, and what
  arrives on it next is a well-formed reply with that payload to the call the client is about to make,
  followed by \<open>rest\<close>.\<close>

definition rpc_serves :: "RpcClient \<Rightarrow> u32 \<Rightarrow> u32 \<Rightarrow> u32 \<Rightarrow> bytes \<Rightarrow> bytes \<Rightarrow> bytes \<Rightarrow> bool" where
  "rpc_serves rpc program version procedure args payload rest \<longleftrightarrow>
     \<not> rpc_interrupted rpc \<and> tx (rpc_stream rpc) = [] \<and> rpc_max_record_size rpc \<le> usize_max \<and>
     length (call_wire (succ_xid (rpc_xid rpc)) program version procedure (rpc_auth rpc) args) < 2 ^ 31 \<and>
     (\<exists>fs. wf_fragments fs \<and> arriving rpc = frame fs @ rest \<and>
        length (concat fs) \<le> rpc_max_record_size rpc \<and>
        reply_ok (succ_xid (rpc_xid rpc)) (concat fs) payload)"

text \<open>What such a call does to the connection.\<close>

definition after_call :: "RpcClient \<Rightarrow> u32 \<Rightarrow> u32 \<Rightarrow> u32 \<Rightarrow> bytes \<Rightarrow> bytes \<Rightarrow> RpcClient \<Rightarrow> bool" where
  "after_call rpc program version procedure args rest rpc' \<longleftrightarrow>
     \<not> rpc_interrupted rpc' \<and> arriving rpc' = rest \<and> tx (rpc_stream rpc') = [] \<and>
     sent (rpc_stream rpc') = sent (rpc_stream rpc) @
       frame [call_wire (succ_xid (rpc_xid rpc)) program version procedure (rpc_auth rpc) args] \<and>
     rpc_xid rpc' = succ_xid (rpc_xid rpc) \<and> rpc_auth rpc' = rpc_auth rpc \<and>
     rpc_max_record_size rpc' = rpc_max_record_size rpc"

lemma reply_ok_payload_length: "reply_ok xid reply payload \<Longrightarrow> length payload \<le> length reply"
  by (auto simp: reply_ok_def)

lemma encode_call_wire:
  "encodes args bs \<Longrightarrow> encode_call xid program version procedure auth args =
     Inr (call_wire xid program version procedure auth bs)"
  by (simp add: encode_call_eq encodesD into_bytes_def extend_from_slice_def encoder_new_def
      call_wire_def)

lemma rpc_call_served:
  assumes "rpc_serves rpc program version procedure bs payload rest" "encodes args bs"
  shows "\<exists>rpc'. rpc_call program version procedure args rpc = (Inr payload, rpc') \<and>
    after_call rpc program version procedure bs rest rpc' \<and> length payload \<le> usize_max"
proof -
  let ?x = "succ_xid (rpc_xid rpc)"
  from assms(1) obtain fs where idle: "\<not> rpc_interrupted rpc" "tx (rpc_stream rpc) = []"
      "rpc_max_record_size rpc \<le> usize_max"
      "length (call_wire ?x program version procedure (rpc_auth rpc) bs) < 2 ^ 31"
    and fs: "wf_fragments fs" "arriving rpc = frame fs @ rest"
      "length (concat fs) \<le> rpc_max_record_size rpc" "reply_ok ?x (concat fs) payload"
    unfolding rpc_serves_def by blast
  have "length payload \<le> usize_max"
    using reply_ok_payload_length [OF fs(4)] fs(3) idle(3) by linarith
  with rpc_call_exchange [OF idle(1-3) encode_call_wire [OF assms(2)] idle(4) fs]
  show ?thesis unfolding after_call_def by blast
qed

abbreviation n3_serves :: "Nfs3Client \<Rightarrow> u32 \<Rightarrow> bytes \<Rightarrow> bytes \<Rightarrow> bytes \<Rightarrow> bool" where
  "n3_serves c \<equiv> rpc_serves (n3_rpc c) NFS_PROGRAM NFS_VERSION"

abbreviation n3_after :: "Nfs3Client \<Rightarrow> u32 \<Rightarrow> bytes \<Rightarrow> bytes \<Rightarrow> Nfs3Client \<Rightarrow> bool" where
  "n3_after c procedure args rest c' \<equiv>
     after_call (n3_rpc c) NFS_PROGRAM NFS_VERSION procedure args rest (n3_rpc c') \<and>
     n3_slept c' = n3_slept c \<and> n3_retry_policy c' = n3_retry_policy c"

lemma nfs3_call_served:
  assumes serves: "n3_serves c procedure bs payload rest" and args: "encodes args bs"
    and final: "\<not> payload_has_status payload NfsStatus.Jukebox"
  shows "\<exists>c'. nfs3_call procedure args c = (Inr payload, c') \<and> n3_after c procedure bs rest c' \<and>
    length payload \<le> usize_max"
proof -
  from rpc_call_served [OF serves args] obtain r where
    r: "rpc_call NFS_PROGRAM NFS_VERSION procedure args (n3_rpc c) = (Inr payload, r)"
      "after_call (n3_rpc c) NFS_PROGRAM NFS_VERSION procedure bs rest r" "length payload \<le> usize_max"
    by blast
  have "nfs3_call procedure args c = (Inr payload, c\<lparr>n3_rpc := r\<rparr>)"
    using final r(1) unfolding nfs3_call_def nfs3_call_loop.simps [of procedure args 0 c]
    by (simp add: nfs3_call_step_def with_rpc_def bnd_apply gets_apply ret_apply)
  with r(2,3) show ?thesis by auto
qed

lemma not_jukebox_ok: "\<not> payload_has_status (u32_to_be_bytes 0 @ bs) NfsStatus.Jukebox"
  by (simp add: payload_has_status_def NfsStatus_from_u32_def NfsStatus_codes_def)

lemma procedure_served:
  assumes "n3_serves c procedure bs (u32_to_be_bytes 0 @ body) rest" "encodes args bs"
    and m: "completes m (u32_to_be_bytes 0 @ body) x"
  shows "\<exists>c'. bnd (nfs3_call procedure args) (decode_payload m) c = (Inr x, c') \<and>
    n3_after c procedure bs rest c'"
proof -
  from nfs3_call_served [OF assms(1,2) not_jukebox_ok] obtain c' where
    c': "nfs3_call procedure args c = (Inr (u32_to_be_bytes 0 @ body), c')"
      "n3_after c procedure bs rest c'" "length (u32_to_be_bytes 0 @ body) \<le> usize_max"
    by blast
  from completes_new [OF m c'(3)] c'(1,2) show ?thesis
    by (intro exI [of _ c']) (simp add: bnd_apply decode_payload_def of_result_apply)
qed

lemma completes_attr_reply:
  assumes "pred_option attr_ok a" "completes (rest a) bs x"
  shows "completes (decode_attr_reply p rest) (u32_to_be_bytes 0 @ optional_wire attr_wire a @ bs) x"
  unfolding decode_attr_reply_def using assms
  by (intro completes_bnd [OF decodes_from_xdr [OF decodes_status_ok]]
      completes_bnd [OF decodes_from_xdr [OF decodes_post_op_attr]]) simp_all

text \<open>The successful READ reply of RFC 1813, section 3.3.6.\<close>

definition read_reply_wire :: "ReadResult \<Rightarrow> bytes" where
  "read_reply_wire r = u32_to_be_bytes 0 @ optional_wire attr_wire (rr_file_attributes r) @
     u32_to_be_bytes (rr_count r) @ bool_wire (rr_eof r) @ opaque_wire (rr_data r)"

definition read_result_ok :: "u32 \<Rightarrow> ReadResult \<Rightarrow> bool" where
  "read_result_ok requested r \<longleftrightarrow>
     length (rr_data r) = unat (rr_count r) \<and> rr_count r \<le> requested \<and>
     (requested = 0 \<or> rr_count r \<noteq> 0 \<or> rr_eof r)"

lemma completes_read_reply:
  assumes "pred_option attr_ok (rr_file_attributes r)" "read_result_ok requested r"
    "length (rr_data r) \<le> MAX_IO_BYTES"
  shows "completes (decode_read_reply requested) (read_reply_wire r) r"
proof -
  have "length (rr_data r) < 2 ^ 32" using assms(3) by (simp add: MAX_IO_BYTES_def)
  then have data: "decodes (read_opaque_vec MAX_IO_BYTES) (opaque_wire (rr_data r)) (rr_data r)"
    using assms(3) by (intro decodes_read_opaque_vec)
  have valid: "validate_read_result_size requested (rr_count r) (length (rr_data r)) (rr_eof r) = Inr ()"
    using assms(2) by (simp add: validate_read_ok read_result_ok_def)
  show ?thesis
    unfolding decode_read_reply_def read_reply_wire_def decode_u32_def decode_bool_def
    by (rule completes_attr_reply [OF assms(1)], rule completes_bnd,
        rule decodes_from_xdr [OF decodes_read_u32], rule completes_bnd,
        rule decodes_from_xdr [OF decodes_read_bool], rule completes_bnd_last,
        rule decodes_from_xdr [OF data], rule completes_finish,
        rule completes_of_result [OF valid], rule completes_ret) simp
qed

lemma nfs3_read_served:
  assumes "n3_serves c NFSPROC3_READ (fh_wire file @ u64_to_be_bytes offset @ u32_to_be_bytes count)
      (read_reply_wire r) rest"
    and "fh_ok file" "pred_option attr_ok (rr_file_attributes r)" "read_result_ok count r"
      "length (rr_data r) \<le> MAX_IO_BYTES"
  shows "\<exists>c'. nfs3_read file offset count c = (Inr r, c') \<and>
    n3_after c NFSPROC3_READ (fh_wire file @ u64_to_be_bytes offset @ u32_to_be_bytes count) rest c'"
  unfolding nfs3_read_def
proof (rule procedure_served)
  show "n3_serves c NFSPROC3_READ (fh_wire file @ u64_to_be_bytes offset @ u32_to_be_bytes count)
      (u32_to_be_bytes 0 @ drop 4 (read_reply_wire r)) rest"
    using assms(1) by (simp add: read_reply_wire_def)
  show "encodes (encode_ReadArgs \<lparr>ra_file = file, ra_offset = offset, ra_count = count\<rparr>)
      (fh_wire file @ u64_to_be_bytes offset @ u32_to_be_bytes count)"
    using assms(2) encodes_simple_args(2) [of "\<lparr>ra_file = file, ra_offset = offset, ra_count = count\<rparr>"]
    by simp
  show "completes (decode_read_reply count) (u32_to_be_bytes 0 @ drop 4 (read_reply_wire r)) r"
    using completes_read_reply [OF assms(3,4,5)] by (simp add: read_reply_wire_def)
qed

text \<open>C7. READ end to end: when the server's next reply carries the wire form of a result that is
  consistent with the request, \<open>Nfs3Client::read\<close> returns exactly that result, sends exactly one
  call record and leaves the connection usable, with everything behind the reply unread.\<close>

theorem nfs3_read_roundtrip:
  assumes "n3_serves c NFSPROC3_READ (fh_wire file @ u64_to_be_bytes offset @ u32_to_be_bytes count)
      (read_reply_wire r) rest"
    and "fh_ok file" "pred_option attr_ok (rr_file_attributes r)" "read_result_ok count r"
      "length (rr_data r) \<le> MAX_IO_BYTES"
  shows "\<exists>c'. nfs3_read file offset count c = (Inr r, c') \<and> \<not> n3_poisoned c' \<and>
    arriving (n3_rpc c') = rest \<and>
    sent (rpc_stream (n3_rpc c')) = sent (rpc_stream (n3_rpc c)) @
      frame [call_wire (succ_xid (rpc_xid (n3_rpc c))) NFS_PROGRAM NFS_VERSION NFSPROC3_READ
        (rpc_auth (n3_rpc c)) (fh_wire file @ u64_to_be_bytes offset @ u32_to_be_bytes count)]"
  using nfs3_read_served [OF assms] unfolding after_call_def by blast

text \<open>An accepted reply without verifier, as the witnesses use it.\<close>

definition accepted_reply :: "u32 \<Rightarrow> bytes \<Rightarrow> bytes" where
  "accepted_reply xid payload = u32_to_be_bytes xid @ u32_to_be_bytes MSG_REPLY @
     u32_to_be_bytes REPLY_ACCEPTED @ u32_to_be_bytes 0 @ u32_to_be_bytes 0 @
     u32_to_be_bytes ACCEPT_SUCCESS @ payload"

lemma accepted_reply_ok: "reply_ok xid (accepted_reply xid payload) payload"
  unfolding reply_ok_def accepted_reply_def
  by (rule exI [of _ 0], rule exI [of _ "[]"], rule exI [of _ "[]"]) simp

lemma length_accepted_reply [simp]: "length (accepted_reply xid payload) = 24 + length payload"
  by (simp add: accepted_reply_def)

lemma demo_nfs3_serves:
  assumes "length (call_wire 5 NFS_PROGRAM NFS_VERSION procedure AuthNone args) < 2 ^ 31"
    "length payload < 1000"
  shows "n3_serves (demo_nfs3 [RxData (frame [accepted_reply 5 payload] @ rest)]) procedure args payload rest"
  unfolding rpc_serves_def
  using assms
  by (intro conjI exI [of _ "[accepted_reply 5 payload]"])
    (simp_all add: succ_xid_def accepted_reply_ok DEFAULT_MAX_RECORD_SIZE_def usize_max_def)

definition jukebox_payload :: bytes where
  "jukebox_payload = u32_to_be_bytes 10008"

text \<open>A server that answers the first call with \<open>JUKEBOX\<close> and the second with success.\<close>

theorem nfs3_call_bounded_retries_witness:
  "\<exists>c'. nfs3_call 1 (encode_u32 7) (demo_nfs3 [RxData (frame [accepted_reply 5 jukebox_payload] @
      frame [accepted_reply 6 (u32_to_be_bytes 0)])]) = (Inr (u32_to_be_bytes 0), c') \<and>
     n3_slept c' = [backoff RetryPolicy_default 0]"
proof -
  let ?c = "demo_nfs3 [RxData (frame [accepted_reply 5 jukebox_payload] @ frame [accepted_reply 6 (u32_to_be_bytes 0)])]"
  let ?args = "encode_u32 7" and ?wire = "u32_to_be_bytes 7"
  have wire: "encodes ?args ?wire" by (simp add: encode_u32_def encodes_write_u32)
  have call: "length (call_wire xid NFS_PROGRAM NFS_VERSION 1 AuthNone ?wire) < 2 ^ 31" for xid
    by (simp add: call_wire_def auth_wire_def opaque_wire_def opaque_pad_def padding_len_def)
  have "n3_serves ?c 1 ?wire jukebox_payload (frame [accepted_reply 6 (u32_to_be_bytes 0)])"
    by (rule demo_nfs3_serves) (use call in \<open>simp_all add: jukebox_payload_def\<close>)
  from rpc_call_served [OF this wire] obtain rpc1 where
    rpc1: "rpc_call NFS_PROGRAM NFS_VERSION 1 ?args (n3_rpc ?c) = (Inr jukebox_payload, rpc1)"
      "after_call (n3_rpc ?c) NFS_PROGRAM NFS_VERSION 1 ?wire (frame [accepted_reply 6 (u32_to_be_bytes 0)]) rpc1"
    by blast
  have "rpc_serves rpc1 NFS_PROGRAM NFS_VERSION 1 ?wire (u32_to_be_bytes 0) []"
    using rpc1(2) call unfolding rpc_serves_def after_call_def
    by (intro conjI exI [of _ "[accepted_reply 6 (u32_to_be_bytes 0)]"])
      (simp_all add: succ_xid_def accepted_reply_ok DEFAULT_MAX_RECORD_SIZE_def usize_max_def)
  from rpc_call_served [OF this wire] obtain rpc2 where
    rpc2: "rpc_call NFS_PROGRAM NFS_VERSION 1 ?args rpc1 = (Inr (u32_to_be_bytes 0), rpc2)" by blast
  have juke: "payload_has_status jukebox_payload NfsStatus.Jukebox"
    by (simp add: jukebox_payload_def) code_simp
  let ?c1 = "thread_sleep (backoff RetryPolicy_default 0) (?c\<lparr>n3_rpc := rpc1\<rparr>)"
  have "after_retries 1 ?args ?c (Suc 0) ?c1"
    using after_retries.Retry [OF after_retries.None [of 1 ?args ?c], of jukebox_payload "?c\<lparr>n3_rpc := rpc1\<rparr>"] rpc1(1) juke
    by (simp add: with_rpc_def NFSPROC3_NULL_def)
  moreover have "with_rpc (rpc_call NFS_PROGRAM NFS_VERSION 1 ?args) ?c1 = (Inr (u32_to_be_bytes 0), ?c1\<lparr>n3_rpc := rpc2\<rparr>)"
    using rpc2 by (simp add: with_rpc_def thread_sleep_def)
  moreover have "final_answer 1 False (Inr (u32_to_be_bytes 0))"
    using not_jukebox_ok [of "[]"] by (simp add: final_answer_def)
  moreover have "unat (max_retries (n3_retry_policy ?c)) = 3" by (simp add: RetryPolicy_default_def)
  ultimately have "\<exists>n \<le> unat (max_retries (n3_retry_policy ?c)). \<exists>c1. after_retries 1 ?args ?c n c1 \<and>
      with_rpc (rpc_call NFS_PROGRAM NFS_VERSION 1 ?args) c1 = (Inr (u32_to_be_bytes 0), ?c1\<lparr>n3_rpc := rpc2\<rparr>) \<and>
      final_answer 1 (n = unat (max_retries (n3_retry_policy ?c))) (Inr (u32_to_be_bytes 0))"
    by (intro exI [of _ "Suc 0"] exI [of _ ?c1] conjI) simp_all
  then have "nfs3_call 1 ?args ?c = (Inr (u32_to_be_bytes 0), ?c1\<lparr>n3_rpc := rpc2\<rparr>)"
    by (rule nfs3_call_bounded_retries [THEN conjunct1, THEN iffD2])
  then show ?thesis by (simp add: thread_sleep_def)
qed

theorem nfs3_read_roundtrip_witness:
  "\<exists>c'. nfs3_read \<lparr>fh_data = [9]\<rparr> 4096 8
     (demo_nfs3 [RxData (frame [accepted_reply 5 (read_reply_wire
        \<lparr>rr_file_attributes = None, rr_count = 3, rr_eof = True, rr_data = [1, 2, 3]\<rparr>)])]) =
     (Inr \<lparr>rr_file_attributes = None, rr_count = 3, rr_eof = True, rr_data = [1, 2, 3]\<rparr>, c') \<and>
     \<not> n3_poisoned c'"
proof -
  let ?r = "\<lparr>rr_file_attributes = None, rr_count = 3, rr_eof = True, rr_data = [1, 2, 3]\<rparr>"
  let ?fh = "\<lparr>fh_data = [9]\<rparr>"
  have "length (read_reply_wire ?r) < 1000"
    by (simp add: read_reply_wire_def optional_wire_def opaque_wire_def opaque_pad_def bool_wire_def
        padding_len_def)
  moreover have "length (call_wire 5 NFS_PROGRAM NFS_VERSION NFSPROC3_READ AuthNone
      (fh_wire ?fh @ u64_to_be_bytes 4096 @ u32_to_be_bytes 8)) < 2 ^ 31"
    by (simp add: call_wire_def auth_wire_def fh_wire_def opaque_wire_def opaque_pad_def
        padding_len_def)
  ultimately have "n3_serves (demo_nfs3 [RxData (frame [accepted_reply 5 (read_reply_wire ?r)])])
      NFSPROC3_READ (fh_wire ?fh @ u64_to_be_bytes 4096 @ u32_to_be_bytes 8) (read_reply_wire ?r) []"
    using demo_nfs3_serves [where rest = "[]"] by simp
  from nfs3_read_roundtrip [OF this] show ?thesis
    by (auto simp: fh_ok_def NFS3_FHSIZE_def read_result_ok_def MAX_IO_BYTES_def)
qed

subsection \<open>Consistency of accepted READ and WRITE results\<close>

lemma procedure_Inr:
  assumes "bnd (nfs3_call procedure args) (decode_payload m) c = (Inr x, c')"
  obtains d d' where "m d = (Inr x, d')"
  using assms
  by (auto simp: bnd_Inr_iff decode_payload_def of_result_apply) (metis prod.collapse)

lemma decode_attr_reply_Inr:
  assumes "decode_attr_reply p rest d = (Inr x, d')"
  obtains a d1 where "rest a d1 = (Inr x, d')"
  using assms by (auto simp: decode_attr_reply_def bnd_Inr_iff fail_apply split: if_splits)

lemma nfs3_read_ok:
  assumes "nfs3_read file offset count c = (Inr r, c')"
  shows "read_result_ok count r"
proof -
  from assms obtain d d' where "decode_read_reply count d = (Inr r, d')"
    unfolding nfs3_read_def by (rule procedure_Inr)
  then show ?thesis
    unfolding decode_read_reply_def
    by (elim decode_attr_reply_Inr)
      (auto simp: bnd_Inr_iff of_result_apply ret_apply read_result_ok_def validate_read_ok)
qed

lemma nfs3_write_ok:
  assumes "nfs3_write file offset stability data c = (Inr w, c')"
  shows "unat (wr_count w) \<le> length data" "data = [] \<or> wr_count w \<noteq> 0" "length (wr_verifier w) = 8"
proof -
  from assms obtain n where n: "u32_try_from (length data) = Some n"
      and ok: "bnd (nfs3_call NFSPROC3_WRITE (encode_WriteArgs \<lparr>wra_file = file, wra_offset = offset,
        wra_count = n, wra_stable = stability, wra_data = data\<rparr>)) (decode_payload (decode_write_reply n)) c =
        (Inr w, c')"
    unfolding nfs3_write_def
    by (subst (asm) bnd_Inr_iff) (auto simp: of_result_apply ok_or_def split: option.splits)
  from ok obtain d d' where "decode_write_reply n d = (Inr w, d')" by (rule procedure_Inr)
  then have "wr_count w \<le> n" "n = 0 \<or> wr_count w \<noteq> 0" "length (wr_verifier w) = 8"
    by (auto simp: decode_write_reply_def bnd_Inr_iff of_result_apply ret_apply fail_apply
        validate_write_ok decode_writeverf_def from_xdr_def map_err_Inr_iff NFS3_WRITEVERFSIZE_def
        split: if_splits)
  moreover have "unat n = length data" using n by (rule u32_try_from_Some)
  ultimately show "unat (wr_count w) \<le> length data" "data = [] \<or> wr_count w \<noteq> 0"
    "length (wr_verifier w) = 8"
    by (auto simp: word_le_nat_alt)
qed

text \<open>C8. Whatever bytes the server sends: a READ that succeeds returns as many bytes as its count says,
  never more than requested, and an empty result of a nonempty request only at the end of the file; a
  WRITE that succeeds reports between one and all of the bytes of a nonempty request, with an
  eight-byte verifier.\<close>

theorem nfs3_read_write_consistent:
  "(nfs3_read file offset count c = (Inr r, c') \<longrightarrow> read_result_ok count r) \<and>
   (nfs3_write file offset stability data c = (Inr w, c') \<longrightarrow>
      unat (wr_count w) \<le> length data \<and> (data = [] \<or> wr_count w \<noteq> 0) \<and> length (wr_verifier w) = 8)"
  by (intro conjI impI; erule nfs3_read_ok nfs3_write_ok)

text \<open>A successful WRITE reply, and the call it answers.\<close>

definition write_reply_wire :: "WriteResult \<Rightarrow> bytes" where
  "write_reply_wire w = u32_to_be_bytes 0 @ wcc_wire (wr_file_wcc w) @ u32_to_be_bytes (wr_count w) @
     stable_wire (wr_committed w) @ opaque_pad (wr_verifier w)"

lemma completes_write_reply:
  assumes "wcc_ok (wr_file_wcc w)" "length (wr_verifier w) = 8"
    "wr_count w \<le> requested" "requested = 0 \<or> wr_count w \<noteq> 0"
  shows "completes (decode_write_reply requested) (write_reply_wire w) w"
proof -
  have valid: "validate_write_result_count requested (wr_count w) = Inr ()"
    using assms(3,4) by (simp add: validate_write_ok)
  show ?thesis
    unfolding decode_write_reply_def write_reply_wire_def decode_u32_def
    by (rule completes_bnd [OF decodes_from_xdr [OF decodes_status_ok]],
        rule completes_bnd [OF decodes_from_xdr [OF decodes_WccData [OF assms(1)]]],
        unfold if_P [OF refl], rule completes_bnd [OF decodes_from_xdr [OF decodes_read_u32]],
        rule completes_bnd [OF decodes_from_xdr [OF stablec.dec_wire]], simp,
        rule completes_bnd_last [OF decodes_from_xdr [OF decodes_writeverf [OF assms(2)]]],
        rule completes_finish, rule completes_of_result [OF valid], rule completes_ret) simp
qed

lemma nfs3_write_served:
  assumes "n3_serves c NFSPROC3_WRITE (fh_wire file @ u64_to_be_bytes offset @
      u32_to_be_bytes (of_nat (length data)) @ stable_wire stability @ opaque_wire data)
      (write_reply_wire w) rest"
    and "fh_ok file" "length data \<le> MAX_IO_BYTES" "wcc_ok (wr_file_wcc w)" "length (wr_verifier w) = 8"
      "unat (wr_count w) \<le> length data" "data = [] \<or> wr_count w \<noteq> 0"
  shows "\<exists>c'. nfs3_write file offset stability data c = (Inr w, c') \<and>
    n3_after c NFSPROC3_WRITE (fh_wire file @ u64_to_be_bytes offset @
      u32_to_be_bytes (of_nat (length data)) @ stable_wire stability @ opaque_wire data) rest c'"
proof -
  let ?n = "of_nat (length data) :: u32"
  let ?a = "\<lparr>wra_file = file, wra_offset = offset, wra_count = ?n, wra_stable = stability, wra_data = data\<rparr>"
  have n: "unat ?n = length data" using assms(3) by (simp add: MAX_IO_BYTES_def unat_of_nat)
  have args: "encodes (encode_WriteArgs ?a) (fh_wire file @ u64_to_be_bytes offset @
      u32_to_be_bytes ?n @ stable_wire stability @ opaque_wire data)"
    using encodes_WriteArgs [of ?a] assms(2,3) by simp
  have "wr_count w \<le> ?n" using assms(6) n by (simp add: word_le_nat_alt)
  moreover have "?n = 0 \<or> wr_count w \<noteq> 0" using assms(7) by auto
  ultimately have m: "completes (decode_write_reply ?n) (u32_to_be_bytes 0 @ drop 4 (write_reply_wire w)) w"
    using completes_write_reply [OF assms(4,5), of ?n] by (simp add: write_reply_wire_def)
  have serves: "n3_serves c NFSPROC3_WRITE (fh_wire file @ u64_to_be_bytes offset @
      u32_to_be_bytes ?n @ stable_wire stability @ opaque_wire data)
      (u32_to_be_bytes 0 @ drop 4 (write_reply_wire w)) rest"
    using assms(1) by (simp add: write_reply_wire_def)
  from procedure_served [OF serves args m]
  have "\<exists>c'. bnd (nfs3_call NFSPROC3_WRITE (encode_WriteArgs ?a)) (decode_payload (decode_write_reply ?n)) c =
      (Inr w, c') \<and> n3_after c NFSPROC3_WRITE (fh_wire file @ u64_to_be_bytes offset @
        u32_to_be_bytes ?n @ stable_wire stability @ opaque_wire data) rest c'"
    .
  moreover have "length data < 2 ^ 32" using assms(3) by (simp add: MAX_IO_BYTES_def)
  ultimately show ?thesis
    by (simp add: nfs3_write_def bnd_apply [of "of_result _"] of_result_apply ok_or_def)
qed

lemma small_wires:
  "length (wcc_wire \<lparr>wcc_before = None, wcc_after = None\<rparr>) = 8"
  "length (fh_wire \<lparr>fh_data = [9]\<rparr>) = 8" "length (stable_wire s) = 4"
  "length (call_wire x program version procedure AuthNone args) = 40 + length args"
  by (simp_all add: wcc_wire_def optional_wire_def bool_wire_def fh_wire_def opaque_wire_def
      opaque_pad_def padding_len_def stable_wire_def call_wire_def auth_wire_def)

theorem nfs3_read_write_consistent_witness:
  "\<exists>c1 r c1' c2 w c2'.
     nfs3_read \<lparr>fh_data = [9]\<rparr> 0 8 c1 = (Inr r, c1') \<and> rr_data r = [1, 2] \<and> read_result_ok 8 r \<and>
     nfs3_write \<lparr>fh_data = [9]\<rparr> 0 FileSync [5, 6] c2 = (Inr w, c2') \<and> wr_count w = 1 \<and>
     unat (wr_count w) \<le> length [5, 6 :: u8] \<and> length (wr_verifier w) = 8"
proof -
  let ?fh = "\<lparr>fh_data = [9]\<rparr>"
  let ?r = "\<lparr>rr_file_attributes = None, rr_count = 2, rr_eof = False, rr_data = [1, 2]\<rparr>"
  let ?w = "\<lparr>wr_file_wcc = \<lparr>wcc_before = None, wcc_after = None\<rparr>, wr_count = 1,
    wr_committed = FileSync, wr_verifier = replicate 8 7\<rparr>"
  let ?c1 = "demo_nfs3 [RxData (frame [accepted_reply 5 (read_reply_wire ?r)] @ [])]"
  let ?c2 = "demo_nfs3 [RxData (frame [accepted_reply 5 (write_reply_wire ?w)] @ [])]"
  note wires = small_wires read_reply_wire_def write_reply_wire_def optional_wire_def opaque_wire_def
    opaque_pad_def bool_wire_def padding_len_def
  note oks = fh_ok_def NFS3_FHSIZE_def read_result_ok_def MAX_IO_BYTES_def wcc_ok_def
  obtain c1' where 1: "nfs3_read ?fh 0 8 ?c1 = (Inr ?r, c1')"
  proof -
    have "n3_serves ?c1 NFSPROC3_READ (fh_wire ?fh @ u64_to_be_bytes 0 @ u32_to_be_bytes 8)
        (read_reply_wire ?r) []"
      by (rule demo_nfs3_serves) (simp_all add: wires)
    from nfs3_read_served [OF this] that show ?thesis by (auto simp: oks)
  qed
  obtain c2' where 2: "nfs3_write ?fh 0 FileSync [5, 6] ?c2 = (Inr ?w, c2')"
  proof -
    have "n3_serves ?c2 NFSPROC3_WRITE (fh_wire ?fh @ u64_to_be_bytes 0 @
        u32_to_be_bytes (of_nat (length [5, 6 :: u8])) @ stable_wire FileSync @ opaque_wire [5, 6])
        (write_reply_wire ?w) []"
      by (rule demo_nfs3_serves) (simp_all add: wires)
    from nfs3_write_served [OF this] that show ?thesis by (auto simp: oks)
  qed
  from nfs3_read_write_consistent [THEN conjunct1, rule_format, OF 1]
    nfs3_read_write_consistent [THEN conjunct2, rule_format, OF 2] 1 2
  show ?thesis by (intro exI conjI) (assumption | simp)+
qed

end
