(* ===== verification/V3_Mount.thy ===== *)
theory V3_Mount
  imports V3_Nfs3
begin

text \<open>
  The two services an NFSv3 client asks before it can talk to the NFS server: the portmapper
  (\<open>src/v3/portmap.rs\<close>), which maps a program to a TCP port, and the MOUNT service
  (\<open>src/v3/mount.rs\<close>), which returns the root handle of an export and lists exports and mounts.

  The lists of the MOUNT protocol are chains of optional entries. Their contract (locale
  \<open>chain_decoder\<close>) is proved once for any decoder of the entries and instantiated for group names,
  mount entries and exports, whose entries contain a chain themselves.
\<close>

subsection \<open>Where a connection attempt leads\<close>

text \<open>What the rest of the world contributes to one connection attempt: the stamp the client draws, the
  outcome of name resolution for a host and a port, and the outcome of dialling an address.\<close>

record 'addr net_env =
  ne_stamp :: u32
  ne_resolve :: "string \<Rightarrow> u16 \<Rightarrow> io_kind + 'addr list"
  ne_dial :: "duration option \<Rightarrow> 'addr \<Rightarrow> io_kind + tcp_stream"

definition rpc_connect :: "'addr net_env \<Rightarrow> string \<Rightarrow> u16 \<Rightarrow> Auth \<Rightarrow> duration option \<Rightarrow>
    RpcClient result" where
  "rpc_connect env host port auth timeout =
     connect_with_timeout (ne_stamp env) (ne_resolve env host port) (ne_dial env) auth timeout"

definition run_op :: "('s, 'e, 'a) op \<Rightarrow> 's \<Rightarrow> 'e + ('a \<times> 's)" where
  "run_op m s = (case m s of (Inl e, _) \<Rightarrow> Inl e | (Inr x, s') \<Rightarrow> Inr (x, s'))"

subsection \<open>The portmapper\<close>

definition PMAP_PROGRAM :: u32 where "PMAP_PROGRAM = 100000"
definition PMAP_VERSION :: u32 where "PMAP_VERSION = 2"
definition PMAP_PORT :: u16 where "PMAP_PORT = 111"
definition IPPROTO_TCP :: u32 where "IPPROTO_TCP = 6"
definition PMAPPROC_GETPORT :: u32 where "PMAPPROC_GETPORT = 3"

record Mapping =
  pm_program :: u32
  pm_version :: u32
  pm_protocol :: u32
  pm_port :: u32

definition Mapping_tcp :: "u32 \<Rightarrow> u32 \<Rightarrow> Mapping" where
  "Mapping_tcp program version =
     \<lparr>pm_program = program, pm_version = version, pm_protocol = IPPROTO_TCP, pm_port = 0\<rparr>"

definition encode_Mapping :: "Mapping enc" where
  "encode_Mapping m = seq_ops [write_u32 (pm_program m), write_u32 (pm_version m),
     write_u32 (pm_protocol m), write_u32 (pm_port m)]"

record PortmapperClient =
  pmc_rpc :: RpcClient

definition pmap_rpc :: "'a rpc \<Rightarrow> (PortmapperClient, error, 'a) op" where
  "pmap_rpc m c = (case m (pmc_rpc c) of (r, rpc) \<Rightarrow> (r, c\<lparr>pmc_rpc := rpc\<rparr>))"

definition PortmapperClient_connect_with_timeout :: "'addr net_env \<Rightarrow> string \<Rightarrow> u16 \<Rightarrow>
    duration option \<Rightarrow> PortmapperClient result" where
  "PortmapperClient_connect_with_timeout env host port timeout =
     bindR (rpc_connect env host port AuthNone timeout) (\<lambda>rpc. Inr \<lparr>pmc_rpc = rpc\<rparr>)"

definition PortmapperClient_connect :: "'addr net_env \<Rightarrow> string \<Rightarrow> u16 \<Rightarrow> PortmapperClient result" where
  "PortmapperClient_connect env host port = PortmapperClient_connect_with_timeout env host port None"

definition pmap_set_timeout :: "duration option \<Rightarrow> (PortmapperClient, error, unit) op" where
  "pmap_set_timeout timeout = pmap_rpc (RpcClient_set_timeout timeout)"

definition decode_port_reply :: "Mapping \<Rightarrow> (decoder, error, u16) op" where
  "decode_port_reply mapping =
     bnd (from_xdr decode_u32) (\<lambda>port.
     bnd (from_xdr dec_finish) (\<lambda>_.
     if unat port < 2 ^ 16 then ret (ucast port)
     else fail (Protocol ''portmapper returned out-of-range port {} for program {} version {}''
       [FNat (unat port), FNat (unat (pm_program mapping)), FNat (unat (pm_version mapping))])))"

definition get_port :: "Mapping \<Rightarrow> (PortmapperClient, error, u16) op" where
  "get_port mapping =
     bnd (pmap_rpc (rpc_call PMAP_PROGRAM PMAP_VERSION PMAPPROC_GETPORT (encode_Mapping mapping)))
       (decode_payload (decode_port_reply mapping))"

definition get_tcp_port_with_timeout :: "'addr net_env \<Rightarrow> string \<Rightarrow> u32 \<Rightarrow> u32 \<Rightarrow> duration option \<Rightarrow>
    u16 result" where
  "get_tcp_port_with_timeout env host program version timeout =
     bindR (PortmapperClient_connect_with_timeout env host PMAP_PORT timeout) (\<lambda>client.
     bindR (run_op (get_port (Mapping_tcp program version)) client) (\<lambda>(port, _).
     if port = 0 then Inl (PortUnavailable program version) else Inr port))"

definition get_tcp_port :: "'addr net_env \<Rightarrow> string \<Rightarrow> u32 \<Rightarrow> u32 \<Rightarrow> u16 result" where
  "get_tcp_port env host program version = get_tcp_port_with_timeout env host program version None"

subsection \<open>The MOUNT service\<close>

definition MOUNT_PROGRAM :: u32 where "MOUNT_PROGRAM = 100005"
definition MOUNT_VERSION :: u32 where "MOUNT_VERSION = 3"
definition MNTPATHLEN :: usize where "MNTPATHLEN = 1024"
definition MNTNAMLEN :: usize where "MNTNAMLEN = 255"
definition MOUNTPROC3_MNT :: u32 where "MOUNTPROC3_MNT = 1"
definition MOUNTPROC3_DUMP :: u32 where "MOUNTPROC3_DUMP = 2"
definition MOUNTPROC3_UMNT :: u32 where "MOUNTPROC3_UMNT = 3"
definition MOUNTPROC3_UMNTALL :: u32 where "MOUNTPROC3_UMNTALL = 4"
definition MOUNTPROC3_EXPORT :: u32 where "MOUNTPROC3_EXPORT = 5"
definition MOUNT_MAX_LIST_ENTRIES :: usize where "MOUNT_MAX_LIST_ENTRIES = 4096"

record MountInfo =
  mi_file_handle :: FileHandle
  mi_auth_flavors :: "u32 list"

record MountEntry =
  me_host :: string
  me_directory :: string

record Export =
  ex_directory :: string
  ex_groups :: "string list"

definition encode_DirPath :: "string enc" where
  "encode_DirPath path = write_string path MNTPATHLEN"

text \<open>The loop of \<open>decode_linked_list\<close>. The first argument is how many entries may still follow,
  \<open>MOUNT_MAX_LIST_ENTRIES - entries.len()\<close>: the source stops at the entry that finds it zero.\<close>

primrec decode_linked_list_loop :: "'a dec \<Rightarrow> nat \<Rightarrow> 'a list \<Rightarrow> 'a list dec" where
  "decode_linked_list_loop decode_entry 0 entries =
     bnd read_bool (\<lambda>more.
     if more then fail (LengthLimitExceeded (MOUNT_MAX_LIST_ENTRIES + 1) MOUNT_MAX_LIST_ENTRIES)
     else ret entries)"
| "decode_linked_list_loop decode_entry (Suc n) entries =
     bnd read_bool (\<lambda>more.
     if more then bnd decode_entry (\<lambda>entry. decode_linked_list_loop decode_entry n (entries @ [entry]))
     else ret entries)"

definition decode_linked_list :: "'a dec \<Rightarrow> 'a list dec" where
  "decode_linked_list decode_entry = decode_linked_list_loop decode_entry MOUNT_MAX_LIST_ENTRIES []"

definition decode_group_list :: "string list dec" where
  "decode_group_list = decode_linked_list (read_string MNTNAMLEN)"

definition decode_MountEntry :: "MountEntry dec" where
  "decode_MountEntry =
     bnd (read_string MNTNAMLEN) (\<lambda>host.
     bnd (read_string MNTPATHLEN) (\<lambda>directory.
     ret \<lparr>me_host = host, me_directory = directory\<rparr>))"

definition decode_mount_list :: "MountEntry list dec" where
  "decode_mount_list = decode_linked_list decode_MountEntry"

definition decode_Export :: "Export dec" where
  "decode_Export =
     bnd (read_string MNTPATHLEN) (\<lambda>directory.
     bnd decode_group_list (\<lambda>groups.
     ret \<lparr>ex_directory = directory, ex_groups = groups\<rparr>))"

definition decode_export_list :: "Export list dec" where
  "decode_export_list = decode_linked_list decode_Export"

record MountClient =
  mc_rpc :: RpcClient

type_synonym 'a mnt = "(MountClient, error, 'a) op"

definition mnt_rpc :: "'a rpc \<Rightarrow> 'a mnt" where
  "mnt_rpc m c = (case m (mc_rpc c) of (r, rpc) \<Rightarrow> (r, c\<lparr>mc_rpc := rpc\<rparr>))"

definition mnt_call :: "u32 \<Rightarrow> (encoder, xdr_error, unit) op \<Rightarrow> bytes mnt" where
  "mnt_call procedure args = mnt_rpc (rpc_call MOUNT_PROGRAM MOUNT_VERSION procedure args)"

definition MountClient_connect_with_timeout :: "'addr net_env \<Rightarrow> string \<Rightarrow> u16 \<Rightarrow> AuthSys \<Rightarrow>
    duration option \<Rightarrow> MountClient result" where
  "MountClient_connect_with_timeout env host port auth timeout =
     bindR (rpc_connect env host port (Sys auth) timeout) (\<lambda>rpc. Inr \<lparr>mc_rpc = rpc\<rparr>)"

definition MountClient_connect :: "'addr net_env \<Rightarrow> string \<Rightarrow> u16 \<Rightarrow> AuthSys \<Rightarrow> MountClient result" where
  "MountClient_connect env host port auth = MountClient_connect_with_timeout env host port auth None"

definition mnt_set_timeout :: "duration option \<Rightarrow> unit mnt" where
  "mnt_set_timeout timeout = mnt_rpc (RpcClient_set_timeout timeout)"

definition decode_mount_reply :: "(decoder, error, MountInfo) op" where
  "decode_mount_reply =
     bnd (from_xdr decode_u32) (\<lambda>v.
     if MountStatus_from_u32 v \<noteq> MountStatus.Ok
     then bnd (from_xdr dec_finish) (\<lambda>_. fail (Mount (MountStatus_from_u32 v)))
     else
       bnd (from_xdr decode_FileHandle) (\<lambda>file_handle.
       bnd (from_xdr (read_array decode_u32 128)) (\<lambda>auth_flavors.
       bnd (from_xdr dec_finish) (\<lambda>_.
       ret \<lparr>mi_file_handle = file_handle, mi_auth_flavors = auth_flavors\<rparr>))))"

definition mnt_mount :: "string \<Rightarrow> MountInfo mnt" where
  "mnt_mount export_path =
     bnd (mnt_call MOUNTPROC3_MNT (encode_DirPath export_path)) (decode_payload decode_mount_reply)"

definition mnt_dump :: "MountEntry list mnt" where
  "mnt_dump =
     bnd (mnt_call MOUNTPROC3_DUMP (encode_unit ())) (decode_payload
       (bnd (from_xdr decode_mount_list) (\<lambda>mounts. bnd (from_xdr dec_finish) (\<lambda>_. ret mounts))))"

definition mnt_unmount :: "string \<Rightarrow> unit mnt" where
  "mnt_unmount export_path =
     bnd (mnt_call MOUNTPROC3_UMNT (encode_DirPath export_path)) (decode_payload (from_xdr dec_finish))"

definition mnt_unmount_all :: "unit mnt" where
  "mnt_unmount_all =
     bnd (mnt_call MOUNTPROC3_UMNTALL (encode_unit ())) (decode_payload (from_xdr dec_finish))"

definition mnt_exports :: "Export list mnt" where
  "mnt_exports =
     bnd (mnt_call MOUNTPROC3_EXPORT (encode_unit ())) (decode_payload
       (bnd (from_xdr decode_export_list) (\<lambda>exports. bnd (from_xdr dec_finish) (\<lambda>_. ret exports))))"

subsection \<open>Chains of optional entries\<close>

definition chain_wire :: "('a \<Rightarrow> bytes) \<Rightarrow> 'a list \<Rightarrow> bytes" where
  "chain_wire wire xs = concat (map (\<lambda>x. bool_wire True @ wire x) xs) @ bool_wire False"

lemma chain_wire_simps [simp]:
  "chain_wire wire [] = bool_wire False"
  "chain_wire wire (x # xs) = bool_wire True @ wire x @ chain_wire wire xs"
  by (simp_all add: chain_wire_def)

lemma linked_list_loop_length:
  "decode_linked_list_loop dec n acc d = (Inr xs, d') \<Longrightarrow> length xs \<le> length acc + n"
  by (induction n arbitrary: acc d)
    (fastforce simp: bnd_Inr_iff ret_apply fail_apply split: if_splits)+

lemma advances_linked_list_loop:
  "keeps advances dec \<Longrightarrow> keeps advances (decode_linked_list_loop dec n acc)"
  by (induction n arbitrary: acc) (auto intro!: keeps_intros)

lemma advances_linked_list [keeps_intros]:
  "keeps advances dec \<Longrightarrow> keeps advances (decode_linked_list dec)"
  by (simp add: decode_linked_list_def advances_linked_list_loop)

locale chain_decoder =
  fixes dec :: "'a dec" and wire :: "'a \<Rightarrow> bytes" and valid :: "'a \<Rightarrow> bool"
  assumes entry: "valid x \<Longrightarrow> decodes dec (wire x) x"
begin

lemma chain_loop:
  "list_all valid xs \<Longrightarrow> length xs \<le> n \<Longrightarrow>
   decodes (decode_linked_list_loop dec n acc) (chain_wire wire xs) (acc @ xs)"
proof (induction xs arbitrary: n acc)
  case Nil
  have end_marker: "decodes (bnd read_bool (\<lambda>more. if more then k else ret acc)) (bool_wire False) acc"
    for k :: "'a list dec"
    by (rule decodes_bnd_last, rule decodes_read_bool) (simp add: decodes_ret)
  then show ?case by (cases n) simp_all
next
  case (Cons x xs)
  then obtain m where n: "n = Suc m" and m: "length xs \<le> m" by (cases n) auto
  have "decodes (decode_linked_list_loop dec m (acc @ [x])) (chain_wire wire xs) (acc @ x # xs)"
    using Cons.IH [OF _ m, of "acc @ [x]"] Cons.prems by simp
  then show ?case
    unfolding n decode_linked_list_loop.simps chain_wire_simps
    using Cons.prems
    by (intro decodes_bnd [OF decodes_read_bool], unfold if_P [OF TrueI], intro decodes_bnd [OF entry])
      simp_all
qed

lemma chain_decodes:
  "list_all valid xs \<Longrightarrow> length xs \<le> MOUNT_MAX_LIST_ENTRIES \<Longrightarrow>
   decodes (decode_linked_list dec) (chain_wire wire xs) xs"
  using chain_loop [of xs MOUNT_MAX_LIST_ENTRIES "[]"] by (simp add: decode_linked_list_def)

lemma chain_too_long:
  "list_all valid xs \<Longrightarrow> n < length xs \<Longrightarrow> length (pre @ chain_wire wire xs @ post) \<le> usize_max \<Longrightarrow>
   fst (decode_linked_list_loop dec n acc (dec_at pre (chain_wire wire xs @ post))) =
     Inl (LengthLimitExceeded (MOUNT_MAX_LIST_ENTRIES + 1) MOUNT_MAX_LIST_ENTRIES)"
proof (induction xs arbitrary: n acc pre)
  case (Cons x xs)
  have b: "read_bool (dec_at pre (bool_wire True @ wire x @ chain_wire wire xs @ post)) =
      (Inr True, dec_at (pre @ bool_wire True) (wire x @ chain_wire wire xs @ post))"
    using Cons.prems(3) by (intro decodesD [OF decodes_read_bool]) simp
  show ?case
  proof (cases n)
    case 0
    then show ?thesis using b by (simp add: bnd_apply fail_apply)
  next
    case (Suc m)
    have e: "dec (dec_at (pre @ bool_wire True) (wire x @ chain_wire wire xs @ post)) =
        (Inr x, dec_at ((pre @ bool_wire True) @ wire x) (chain_wire wire xs @ post))"
      using Cons.prems(1,3) by (intro decodesD [OF entry]) simp_all
    have "fst (decode_linked_list_loop dec m (acc @ [x])
        (dec_at ((pre @ bool_wire True) @ wire x) (chain_wire wire xs @ post))) =
        Inl (LengthLimitExceeded (MOUNT_MAX_LIST_ENTRIES + 1) MOUNT_MAX_LIST_ENTRIES)"
      using Cons.prems Suc by (intro Cons.IH) simp_all
    with b e Suc show ?thesis by (simp add: bnd_apply)
  qed
qed simp

end

definition mount_name_ok :: "usize \<Rightarrow> string \<Rightarrow> bool" where
  "mount_name_ok limit v \<longleftrightarrow> length v \<le> limit \<and> utf8_valid (as_bytes v)"

definition name_wire :: "string \<Rightarrow> bytes" where
  "name_wire v = opaque_wire (as_bytes v)"

lemma decodes_mount_name:
  "mount_name_ok limit v \<Longrightarrow> limit < 2 ^ 32 \<Longrightarrow> decodes (read_string limit) (name_wire v) v"
  unfolding name_wire_def by (rule decodes_read_string) (auto simp: mount_name_ok_def)

interpretation groupl: chain_decoder "read_string MNTNAMLEN" name_wire "mount_name_ok MNTNAMLEN"
  by unfold_locales (simp add: decodes_mount_name MNTNAMLEN_def)

definition mount_entry_ok :: "MountEntry \<Rightarrow> bool" where
  "mount_entry_ok e \<longleftrightarrow> mount_name_ok MNTNAMLEN (me_host e) \<and> mount_name_ok MNTPATHLEN (me_directory e)"

definition mount_entry_wire :: "MountEntry \<Rightarrow> bytes" where
  "mount_entry_wire e = name_wire (me_host e) @ name_wire (me_directory e)"

lemma decodes_MountEntry: "mount_entry_ok e \<Longrightarrow> decodes decode_MountEntry (mount_entry_wire e) e"
  unfolding decode_MountEntry_def mount_entry_wire_def
  by (rule decodes_bnd, rule decodes_mount_name, simp add: mount_entry_ok_def, simp add: MNTNAMLEN_def,
      rule decodes_bnd_ret, rule decodes_mount_name)
    (simp_all add: mount_entry_ok_def MNTPATHLEN_def)

interpretation mountl: chain_decoder decode_MountEntry mount_entry_wire mount_entry_ok
  by unfold_locales (rule decodes_MountEntry)

definition export_ok :: "Export \<Rightarrow> bool" where
  "export_ok e \<longleftrightarrow> mount_name_ok MNTPATHLEN (ex_directory e) \<and>
     list_all (mount_name_ok MNTNAMLEN) (ex_groups e) \<and> length (ex_groups e) \<le> MOUNT_MAX_LIST_ENTRIES"

definition export_wire :: "Export \<Rightarrow> bytes" where
  "export_wire e = name_wire (ex_directory e) @ chain_wire name_wire (ex_groups e)"

lemma decodes_Export: "export_ok e \<Longrightarrow> decodes decode_Export (export_wire e) e"
  unfolding decode_Export_def export_wire_def decode_group_list_def
  by (rule decodes_bnd, rule decodes_mount_name, simp add: export_ok_def, simp add: MNTPATHLEN_def,
      rule decodes_bnd_ret, rule groupl.chain_decodes)
    (simp_all add: export_ok_def)

interpretation exportl: chain_decoder decode_Export export_wire export_ok
  by unfold_locales (rule decodes_Export)

lemma advances_mount_lists:
  "keeps advances decode_mount_list" "keeps advances decode_export_list"
  unfolding decode_mount_list_def decode_MountEntry_def decode_export_list_def decode_Export_def
    decode_group_list_def
  by (intro keeps_intros)+

text \<open>C37. The MOUNT lists: an export list of up to 4096 entries, each with up to 4096 group names, and a
  list of mounts of up to 4096 entries are read back exactly, and a longer one of either kind is refused
  with the length limit error; no list that decodes has more than 4096 entries, and the decoders never
  move outside the message.\<close>

theorem mount_lists_roundtrip:
  "(list_all export_ok es \<longrightarrow> length es \<le> 4096 \<longrightarrow>
      decodes decode_export_list (chain_wire export_wire es) es) \<and>
   (list_all export_ok es \<longrightarrow> 4096 < length es \<longrightarrow> length (chain_wire export_wire es) \<le> usize_max \<longrightarrow>
      fst (decode_export_list (decoder_new (chain_wire export_wire es))) =
        Inl (LengthLimitExceeded 4097 4096)) \<and>
   (decode_export_list d = (Inr es, d') \<longrightarrow> length es \<le> 4096 \<and> advances d d') \<and>
   (list_all mount_entry_ok ms \<longrightarrow> length ms \<le> 4096 \<longrightarrow>
      decodes decode_mount_list (chain_wire mount_entry_wire ms) ms) \<and>
   (list_all mount_entry_ok ms \<longrightarrow> 4096 < length ms \<longrightarrow> length (chain_wire mount_entry_wire ms) \<le> usize_max \<longrightarrow>
      fst (decode_mount_list (decoder_new (chain_wire mount_entry_wire ms))) =
        Inl (LengthLimitExceeded 4097 4096)) \<and>
   (decode_mount_list d = (Inr ms, d') \<longrightarrow> length ms \<le> 4096 \<and> advances d d')"
proof (intro conjI impI)
  show "decodes decode_export_list (chain_wire export_wire es) es"
    if "list_all export_ok es" "length es \<le> 4096"
    using that exportl.chain_decodes by (simp add: decode_export_list_def MOUNT_MAX_LIST_ENTRIES_def)
  show "decodes decode_mount_list (chain_wire mount_entry_wire ms) ms"
    if "list_all mount_entry_ok ms" "length ms \<le> 4096"
    using that mountl.chain_decodes by (simp add: decode_mount_list_def MOUNT_MAX_LIST_ENTRIES_def)
  show "fst (decode_export_list (decoder_new (chain_wire export_wire es))) =
      Inl (LengthLimitExceeded 4097 4096)"
    if "list_all export_ok es" "4096 < length es" "length (chain_wire export_wire es) \<le> usize_max"
    using exportl.chain_too_long [of es MOUNT_MAX_LIST_ENTRIES "[]" "[]" "[]"] that
    by (simp add: decode_export_list_def decode_linked_list_def MOUNT_MAX_LIST_ENTRIES_def
        decoder_new_def dec_at_def)
  show "fst (decode_mount_list (decoder_new (chain_wire mount_entry_wire ms))) =
      Inl (LengthLimitExceeded 4097 4096)"
    if "list_all mount_entry_ok ms" "4096 < length ms" "length (chain_wire mount_entry_wire ms) \<le> usize_max"
    using mountl.chain_too_long [of ms MOUNT_MAX_LIST_ENTRIES "[]" "[]" "[]"] that
    by (simp add: decode_mount_list_def decode_linked_list_def MOUNT_MAX_LIST_ENTRIES_def
        decoder_new_def dec_at_def)
  show "length es \<le> 4096" if "decode_export_list d = (Inr es, d')"
    using linked_list_loop_length [of decode_Export MOUNT_MAX_LIST_ENTRIES "[]" d es d'] that
    by (simp add: decode_export_list_def decode_linked_list_def MOUNT_MAX_LIST_ENTRIES_def)
  show "length ms \<le> 4096" if "decode_mount_list d = (Inr ms, d')"
    using linked_list_loop_length [of decode_MountEntry MOUNT_MAX_LIST_ENTRIES "[]" d ms d'] that
    by (simp add: decode_mount_list_def decode_linked_list_def MOUNT_MAX_LIST_ENTRIES_def)
  show "advances d d'" if "decode_export_list d = (Inr es, d')"
    using advances_mount_lists(2) that by (rule keepsD)
  show "advances d d'" if "decode_mount_list d = (Inr ms, d')"
    using advances_mount_lists(1) that by (rule keepsD)
qed

theorem mount_lists_roundtrip_witness:
  "decodes decode_export_list
     (chain_wire export_wire [\<lparr>ex_directory = ''/a'', ex_groups = [''g'']\<rparr>, \<lparr>ex_directory = ''/b'', ex_groups = []\<rparr>])
     [\<lparr>ex_directory = ''/a'', ex_groups = [''g'']\<rparr>, \<lparr>ex_directory = ''/b'', ex_groups = []\<rparr>] \<and>
   fst (decode_mount_list (decoder_new
     (chain_wire mount_entry_wire (replicate 4097 \<lparr>me_host = ''h'', me_directory = ''/a''\<rparr>)))) =
     Inl (LengthLimitExceeded 4097 4096)"
proof (rule conjI)
  let ?es = "[\<lparr>ex_directory = ''/a'', ex_groups = [''g'']\<rparr>, \<lparr>ex_directory = ''/b'', ex_groups = []\<rparr>]"
  have "list_all export_ok ?es"
    by (simp add: export_ok_def mount_name_ok_def MNTPATHLEN_def MNTNAMLEN_def MOUNT_MAX_LIST_ENTRIES_def)
      code_simp
  then show "decodes decode_export_list (chain_wire export_wire ?es) ?es"
    using mount_lists_roundtrip [of ?es] by simp
next
  let ?m = "\<lparr>me_host = ''h'', me_directory = ''/a''\<rparr>"
  have "mount_entry_ok ?m"
    by (simp add: mount_entry_ok_def mount_name_ok_def MNTPATHLEN_def MNTNAMLEN_def) code_simp
  then have ok: "list_all mount_entry_ok (replicate 4097 ?m)" by (simp add: list_all_iff)
  have "length (chain_wire mount_entry_wire (replicate n ?m)) = 20 * n + 4" for n
    by (induction n) (simp_all add: mount_entry_wire_def name_wire_def opaque_wire_def opaque_pad_def padding_len_def
        bool_wire_def)
  then have "length (chain_wire mount_entry_wire (replicate 4097 ?m)) \<le> usize_max"
    by (simp add: usize_max_def)
  with ok show "fst (decode_mount_list (decoder_new (chain_wire mount_entry_wire (replicate 4097 ?m)))) =
      Inl (LengthLimitExceeded 4097 4096)"
    using mount_lists_roundtrip [where ms = "replicate 4097 ?m"] by simp
qed

subsection \<open>Ports\<close>

definition mapping_wire :: "Mapping \<Rightarrow> bytes" where
  "mapping_wire m = u32_to_be_bytes (pm_program m) @ u32_to_be_bytes (pm_version m) @
     u32_to_be_bytes (pm_protocol m) @ u32_to_be_bytes (pm_port m)"

lemma encodes_Mapping: "encodes (encode_Mapping m) (mapping_wire m)"
  unfolding encode_Mapping_def mapping_wire_def by (intro encodes_structure enc_leaf)

lemma decode_port_reply_word:
  "fst (decode_port_reply mapping (decoder_new (u32_to_be_bytes v))) =
     (if unat v < 65536 then Inr (ucast v)
      else Inl (Protocol ''portmapper returned out-of-range port {} for program {} version {}''
        [FNat (unat v), FNat (unat (pm_program mapping)), FNat (unat (pm_version mapping))]))"
proof -
  have "from_xdr decode_u32 (dec_at [] (u32_to_be_bytes v @ [])) =
      (Inr v, dec_at ([] @ u32_to_be_bytes v) [])"
    unfolding decode_u32_def
    by (rule decodesD [OF decodes_from_xdr [OF decodes_read_u32]]) (simp add: usize_max_def)
  then show ?thesis
    by (simp add: decode_port_reply_def bnd_apply decoder_new_def dec_at_def from_xdr_def map_err_def
        dec_finish_def finish_def is_finished_def remaining_def ret_apply fail_apply)
qed

lemma decode_port_reply_Inr:
  assumes "decode_port_reply mapping (decoder_new payload) = (Inr port, d)"
  obtains v where "payload = u32_to_be_bytes v" "unat port = unat v"
proof -
  have new: "decoder_new payload = dec_at [] payload" by (simp add: decoder_new_def dec_at_def)
  from assms obtain v d1 where v: "read_u32 (decoder_new payload) = (Inr v, d1)" "finish d1 = Inr ()"
      "unat v < 2 ^ 16" "port = ucast v"
    by (auto simp: decode_port_reply_def bnd_Inr_iff from_xdr_def map_err_Inr_iff dec_finish_def decode_u32_def
        ret_apply fail_apply split: if_splits)
  from v(4,3) have "unat port = unat v" by (simp add: unsigned_ucast_eq take_bit_nat_eq_self)
  moreover have "payload = u32_to_be_bytes v"
    by (rule parsesE [OF parses_read_u32 v(1) [unfolded new]])
      (use v(2) in \<open>simp add: finish_def is_finished_def remaining_def dec_at_def split: if_splits\<close>)
  ultimately show thesis using that by blast
qed


lemma get_port_served:
  assumes "rpc_serves (pmc_rpc client) PMAP_PROGRAM PMAP_VERSION PMAPPROC_GETPORT (mapping_wire m) (u32_to_be_bytes v) rest"
  shows "fst (get_port m client) = fst (decode_port_reply m (decoder_new (u32_to_be_bytes v)))"
  using rpc_call_served [OF assms encodes_Mapping]
  by (auto simp: get_port_def pmap_rpc_def bnd_apply decode_payload_def of_result_apply)

lemma get_port_Inr:
  assumes "get_port m client = (Inr port, client')"
  obtains v where "rpc_call PMAP_PROGRAM PMAP_VERSION PMAPPROC_GETPORT (encode_Mapping m) (pmc_rpc client) =
      (Inr (u32_to_be_bytes v), pmc_rpc client')" "unat port = unat v"
proof -
  from assms obtain payload d where
    "rpc_call PMAP_PROGRAM PMAP_VERSION PMAPPROC_GETPORT (encode_Mapping m) (pmc_rpc client) = (Inr payload, pmc_rpc client')"
    "decode_port_reply m (decoder_new payload) = (Inr port, d)"
    by (auto simp: get_port_def pmap_rpc_def bnd_Inr_iff decode_payload_def of_result_apply split: prod.splits)
      (metis prod.collapse)
  then show thesis using that decode_port_reply_Inr by metis
qed

text \<open>C38. The port of a program is what the portmapper answers, or an error. \<open>get_tcp_port_with_timeout\<close>
  connects to port 111 of the host and sends the mapping it asks for; when the answer is the number
  \<open>v\<close>, it returns the port \<open>v\<close>, or \<open>PortUnavailable\<close> for zero, or a protocol error above 65535. A
  failure to connect is passed on. Whenever it returns a port, that port is the number of a reply to
  this very request, not a truncation of it, and not zero.\<close>

theorem get_tcp_port_sound:
  "(rpc_connect env host 111 AuthNone timeout = Inl e \<longrightarrow>
      get_tcp_port_with_timeout env host program version timeout = Inl e) \<and>
   (rpc_connect env host 111 AuthNone timeout = Inr rpc \<and>
    rpc_serves rpc 100000 2 3 (mapping_wire (Mapping_tcp program version)) (u32_to_be_bytes v) rest \<longrightarrow>
      get_tcp_port_with_timeout env host program version timeout =
        (if v = 0 then Inl (PortUnavailable program version)
         else if unat v < 65536 then Inr (ucast v)
         else Inl (Protocol ''portmapper returned out-of-range port {} for program {} version {}''
           [FNat (unat v), FNat (unat program), FNat (unat version)]))) \<and>
   (get_tcp_port_with_timeout env host program version timeout = Inr port \<longrightarrow>
      (\<exists>rpc rpc' v. rpc_connect env host 111 AuthNone timeout = Inr rpc \<and>
         rpc_call 100000 2 3 (encode_Mapping (Mapping_tcp program version)) rpc = (Inr (u32_to_be_bytes v), rpc') \<and>
         unat port = unat v \<and> v \<noteq> 0))"
proof (intro conjI impI)
  assume "rpc_connect env host 111 AuthNone timeout = Inl e"
  then show "get_tcp_port_with_timeout env host program version timeout = Inl e"
    by (simp add: get_tcp_port_with_timeout_def PortmapperClient_connect_with_timeout_def PMAP_PORT_def bindR_def)
next
  assume a: "rpc_connect env host 111 AuthNone timeout = Inr rpc \<and>
    rpc_serves rpc 100000 2 3 (mapping_wire (Mapping_tcp program version)) (u32_to_be_bytes v) rest"
  let ?m = "Mapping_tcp program version"
  have port: "fst (get_port ?m \<lparr>pmc_rpc = rpc\<rparr>) = fst (decode_port_reply ?m (decoder_new (u32_to_be_bytes v)))"
    using a by (intro get_port_served [where rest = rest]) (simp add: PMAP_PROGRAM_def PMAP_VERSION_def PMAPPROC_GETPORT_def)
  have zero: "(ucast v :: u16) = 0 \<longleftrightarrow> v = 0" if "unat v < 65536"
    using that by (simp add: unat_eq_zero [symmetric] unsigned_ucast_eq take_bit_nat_eq_self del: unat_eq_zero unat_eq_0)
  have m: "pm_program ?m = program" "pm_version ?m = version" by (simp_all add: Mapping_tcp_def)
  obtain r c where r: "get_port ?m \<lparr>pmc_rpc = rpc\<rparr> = (r, c)" by fastforce
  with port have "r = fst (decode_port_reply ?m (decoder_new (u32_to_be_bytes v)))" by simp
  with r a zero show "get_tcp_port_with_timeout env host program version timeout =
        (if v = 0 then Inl (PortUnavailable program version)
         else if unat v < 65536 then Inr (ucast v)
         else Inl (Protocol ''portmapper returned out-of-range port {} for program {} version {}''
           [FNat (unat v), FNat (unat program), FNat (unat version)]))"
    by (auto simp: get_tcp_port_with_timeout_def PortmapperClient_connect_with_timeout_def PMAP_PORT_def bindR_def run_op_def
        decode_port_reply_word m)
next
  assume a: "get_tcp_port_with_timeout env host program version timeout = Inr port"
  let ?m = "Mapping_tcp program version"
  note defs = get_tcp_port_with_timeout_def PortmapperClient_connect_with_timeout_def PMAP_PORT_def bindR_def run_op_def
  from a obtain rpc where rpc: "rpc_connect env host 111 AuthNone timeout = Inr rpc"
    by (cases "rpc_connect env host 111 AuthNone timeout") (simp_all add: defs)
  obtain r client' where r: "get_port ?m \<lparr>pmc_rpc = rpc\<rparr> = (r, client')" by fastforce
  with a rpc have "r = Inr port" and nz: "port \<noteq> 0" by (cases r; auto simp: defs split: if_splits)+
  with r have get: "get_port ?m \<lparr>pmc_rpc = rpc\<rparr> = (Inr port, client')" by simp
  from get obtain v where v: "rpc_call 100000 2 3 (encode_Mapping ?m) rpc = (Inr (u32_to_be_bytes v), pmc_rpc client')"
      "unat port = unat v"
    by (rule get_port_Inr) (simp add: PMAP_PROGRAM_def PMAP_VERSION_def PMAPPROC_GETPORT_def)
  moreover have "v \<noteq> 0" using nz v(2) by (auto simp: unat_eq_zero)
  ultimately show "\<exists>rpc rpc' v. rpc_connect env host 111 AuthNone timeout = Inr rpc \<and>
         rpc_call 100000 2 3 (encode_Mapping ?m) rpc = (Inr (u32_to_be_bytes v), rpc') \<and> unat port = unat v \<and> v \<noteq> 0"
    using rpc by blast
qed

text \<open>A portmapper that answers one question, with the number \<open>v\<close>.\<close>

definition demo_portmapper :: "u32 \<Rightarrow> unit net_env" where
  "demo_portmapper v = \<lparr>ne_stamp = 4, ne_resolve = (\<lambda>_ _. Inr [()]),
     ne_dial = (\<lambda>_ _. Inr (demo_stream [RxData (frame [accepted_reply 5 (u32_to_be_bytes v)])]))\<rparr>"

theorem get_tcp_port_sound_witness:
  "get_tcp_port_with_timeout (demo_portmapper 20048) ''h'' 100005 3 None = Inr 20048 \<and>
   get_tcp_port_with_timeout (demo_portmapper 0) ''h'' 100005 3 None = Inl (PortUnavailable 100005 3)"
proof -
  let ?rpc = "\<lambda>v. demo_client [RxData (frame [accepted_reply 5 (u32_to_be_bytes v)])]"
  have connect: "rpc_connect (demo_portmapper v) ''h'' 111 AuthNone None = Inr (?rpc v)" for v
    by (simp add: rpc_connect_def demo_portmapper_def connect_with_timeout_def connect_tcp_stream_def tcp_connect_def
        RpcClient_new_def RpcClient_set_timeout_def with_stream_def set_nodelay_def set_read_timeout_def
        set_write_timeout_def bnd_apply ret_apply demo_stream_def demo_client_def bindR_def)
  have "rpc_serves (?rpc v) 100000 2 3 (mapping_wire (Mapping_tcp 100005 3)) (u32_to_be_bytes v) []" for v
    unfolding rpc_serves_def
    by (intro conjI exI [of _ "[accepted_reply 5 (u32_to_be_bytes v)]"])
      (simp_all add: succ_xid_def accepted_reply_ok DEFAULT_MAX_RECORD_SIZE_def usize_max_def mapping_wire_def
        call_wire_def auth_wire_def opaque_wire_def opaque_pad_def padding_len_def)
  with get_tcp_port_sound [THEN conjunct2, THEN conjunct1, rule_format, OF conjI, OF connect]
  have "get_tcp_port_with_timeout (demo_portmapper v) ''h'' 100005 3 None =
        (if v = 0 then Inl (PortUnavailable 100005 3)
         else if unat v < 65536 then Inr (ucast v)
         else Inl (Protocol ''portmapper returned out-of-range port {} for program {} version {}''
           [FNat (unat v), FNat (unat (100005::u32)), FNat (unat (3::u32))]))" for v
    by blast
  then show ?thesis by simp
qed

end
