(* ===== verification/Rust_Str.thy ===== *)
theory Rust_Str
  imports Nfs_Prelude
begin

text \<open>
  What the path and target functions use of \<open>str\<close> in the standard library: \<open>split\<close>, \<open>split_once\<close>
  and \<open>strip_prefix\<close> for an ASCII character, \<open>trim_end_matches\<close>, \<open>trim().is_empty()\<close> and the decimal
  rendering of integers in \<open>format!\<close>. A string is the list of its UTF-8 bytes, so an ASCII character
  never occurs inside the encoding of another one.
\<close>

fun split_on :: "char \<Rightarrow> string \<Rightarrow> string list" where
  "split_on c [] = [[]]"
| "split_on c (x # xs) =
     (if x = c then [] # split_on c xs
      else case split_on c xs of [] \<Rightarrow> [[x]] | y # ys \<Rightarrow> (x # y) # ys)"

fun split_once :: "char \<Rightarrow> string \<Rightarrow> (string \<times> string) option" where
  "split_once c [] = None"
| "split_once c (x # xs) =
     (if x = c then Some ([], xs)
      else case split_once c xs of None \<Rightarrow> None | Some (a, b) \<Rightarrow> Some (x # a, b))"

definition strip_prefix :: "char \<Rightarrow> string \<Rightarrow> string option" where
  "strip_prefix c s = (case s of [] \<Rightarrow> None | x # xs \<Rightarrow> if x = c then Some xs else None)"

definition starts_with :: "char \<Rightarrow> string \<Rightarrow> bool" where
  "starts_with c s = (case s of [] \<Rightarrow> False | x # _ \<Rightarrow> x = c)"

definition trim_end_matches :: "char \<Rightarrow> string \<Rightarrow> string" where
  "trim_end_matches c s = rev (dropWhile (\<lambda>x. x = c) (rev s))"

text \<open>The length of the encoding of the first character when it has the property \<open>White_Space\<close>: U+0009
  to U+000D, U+0020, U+0085, U+00A0, U+1680, U+2000 to U+200A, U+2028, U+2029, U+202F, U+205F, U+3000.\<close>

definition white_space_len :: "nat list \<Rightarrow> nat option" where
  "white_space_len bs =
     (case bs of
        [] \<Rightarrow> None
      | a # rest \<Rightarrow>
          if 9 \<le> a \<and> a \<le> 13 \<or> a = 32 then Some 1
          else case rest of
            [] \<Rightarrow> None
          | b # rest' \<Rightarrow>
              if a = 194 \<and> (b = 133 \<or> b = 160) then Some 2
              else case rest' of
                [] \<Rightarrow> None
              | c # _ \<Rightarrow>
                  if a = 225 \<and> b = 154 \<and> c = 128 \<or>
                     a = 226 \<and> b = 128 \<and> (128 \<le> c \<and> c \<le> 138 \<or> c = 168 \<or> c = 169 \<or> c = 175) \<or>
                     a = 226 \<and> b = 129 \<and> c = 159 \<or>
                     a = 227 \<and> b = 128 \<and> c = 128
                  then Some 3 else None)"

lemma white_space_len_pos: "white_space_len bs = Some n \<Longrightarrow> 0 < n \<and> n \<le> length bs"
  by (auto simp: white_space_len_def split: list.splits if_splits)

function is_blank :: "string \<Rightarrow> bool" where
  "is_blank s =
     (if s = [] then True
      else case white_space_len (map of_char s) of None \<Rightarrow> False | Some n \<Rightarrow> is_blank (drop n s))"
  by pat_completeness auto
termination
  by (relation "measure length") (auto dest: white_space_len_pos)

declare is_blank.simps [simp del]

text \<open>\<open>s.trim().is_empty()\<close>: the string consists of white space.\<close>

definition trim_is_empty :: "string \<Rightarrow> bool" where
  "trim_is_empty s = is_blank s"

function show_nat :: "nat \<Rightarrow> string" where
  "show_nat n = (if n < 10 then [char_of (48 + n)] else show_nat (n div 10) @ [char_of (48 + n mod 10)])"
  by pat_completeness auto
termination
  by (relation "measure id") auto

declare show_nat.simps [simp del]

subsection \<open>Splitting\<close>

lemma split_on_nonempty [simp]: "split_on c s \<noteq> []"
  by (induction s) (auto split: list.splits)

lemma split_on_no_sep: "x \<in> set (split_on c s) \<Longrightarrow> c \<notin> set x"
  by (induction s arbitrary: x) (fastforce split: if_splits list.splits)+

lemma split_on_single: "c \<notin> set s \<Longrightarrow> split_on c s = [s]"
  by (induction s) auto

lemma split_on_append: "split_on c (s @ c # t) = split_on c s @ split_on c t"
  by (induction s) (auto split: list.splits)

lemma split_on_bytes: "x \<in> set (split_on c s) \<Longrightarrow> set x \<subseteq> set s"
  by (induction s arbitrary: x) (fastforce split: if_splits list.splits)+

lemma split_once_Some_iff: "split_once c s = Some (a, b) \<longleftrightarrow> s = a @ c # b \<and> c \<notin> set a"
proof (induction s arbitrary: a)
  case step: (Cons x xs)
  show ?case
  proof (cases "x = c")
    case True
    then show ?thesis by (cases a) auto
  next
    case False
    show ?thesis
    proof (cases a)
      case Nil
      with False show ?thesis by (auto split: option.splits)
    next
      case (Cons y a')
      have "split_once c (x # xs) = Some (a, b) \<longleftrightarrow> y = x \<and> split_once c xs = Some (a', b)"
        using False Cons by (auto split: option.splits)
      with step.IH [of a'] Cons False show ?thesis by auto
    qed
  qed
qed simp

lemma split_once_None_iff: "split_once c s = None \<longleftrightarrow> c \<notin> set s"
  by (induction s) (auto split: option.splits)

lemma strip_prefix_simps [simp]:
  "strip_prefix c [] = None" "strip_prefix c (x # xs) = (if x = c then Some xs else None)"
  by (simp_all add: strip_prefix_def)

lemma starts_with_simps [simp]: "starts_with c [] = False" "starts_with c (x # xs) \<longleftrightarrow> x = c"
  by (simp_all add: starts_with_def)

subsection \<open>Trimming\<close>

lemma trim_end_snoc [simp]:
  "trim_end_matches c (s @ [c]) = trim_end_matches c s"
  "x \<noteq> c \<Longrightarrow> trim_end_matches c (s @ [x]) = s @ [x]"
  by (simp_all add: trim_end_matches_def)

lemma trim_end_Nil [simp]: "trim_end_matches c [] = []"
  by (simp add: trim_end_matches_def)

lemma trim_end_decompose: "\<exists>n. s = trim_end_matches c s @ replicate n c"
proof (induction s rule: rev_induct)
  case (snoc x s)
  show ?case
  proof (cases "x = c")
    case True
    from snoc obtain n where "s = trim_end_matches c s @ replicate n c" by blast
    then have "s @ [c] = trim_end_matches c s @ replicate (Suc n) c"
      by (metis append_assoc replicate_Suc replicate_append_same)
    with True show ?thesis by (metis trim_end_snoc(1))
  qed (intro exI [of _ 0], simp)
qed simp

lemma split_on_trim:
  "filter (\<lambda>x. x \<noteq> []) (split_on c (trim_end_matches c s)) = filter (\<lambda>x. x \<noteq> []) (split_on c s)"
proof -
  have "filter (\<lambda>x. x \<noteq> []) (split_on c (t @ replicate n c)) = filter (\<lambda>x. x \<noteq> []) (split_on c t)" for t n
  proof (induction n)
    case (Suc n)
    have "t @ replicate (Suc n) c = (t @ replicate n c) @ c # []" by (simp add: replicate_append_same)
    then show ?case using Suc by (simp only: split_on_append) simp
  qed simp
  then show ?thesis by (metis trim_end_decompose)
qed

subsection \<open>Decimal numbers\<close>

definition is_digit :: "char \<Rightarrow> bool" where
  "is_digit x \<longleftrightarrow> 48 \<le> (of_char x :: nat) \<and> (of_char x :: nat) \<le> 57"

lemma is_digit_char_of: "n < 10 \<Longrightarrow> is_digit (char_of (48 + n :: nat))"
  by (simp add: is_digit_def)

lemma show_nat_digits: "x \<in> set (show_nat n) \<Longrightarrow> is_digit x"
proof (induction n arbitrary: x rule: show_nat.induct)
  case (1 n)
  show ?case
    using 1 by (cases "n < 10") (auto simp: show_nat.simps [of n] is_digit_char_of)
qed

lemma show_nat_length: "n < 10 ^ k \<Longrightarrow> 0 < k \<Longrightarrow> length (show_nat n) \<le> k"
proof (induction n arbitrary: k rule: show_nat.induct)
  case (1 n)
  show ?case
  proof (cases "n < 10")
    case True
    with 1 show ?thesis by (simp add: show_nat.simps [of n])
  next
    case False
    then obtain j where k: "k = Suc j" "0 < j"
      using 1(2,3) by (cases k; cases "k - 1") auto
    have "n div 10 < 10 ^ j" using 1(2) k by (simp add: less_mult_imp_div_less)
    with 1(1) [OF False _ k(2)] k False show ?thesis by (simp add: show_nat.simps [of n])
  qed
qed

end
