(* ===== verification/V3_Path.thy ===== *)
theory V3_Path
  imports V3_Nfs3 Rust_Str
begin

text \<open>
  The pure logic shared by the NFSv3 clients (\<open>src/v3/client.rs\<close>): targets of the form
  \<open>host:/export\<close>, paths relative to the export, directory pages and their cursors, transfer sizes and
  the combination of an error with the error of its cleanup.

  The lemmas give the grammar that \<open>parse\<close> accepts, the exact result of \<open>normalize_path\<close>, that joining
  and normalising paths are inverse, that a temporary sibling stays in the directory of the path, and
  the bounds of the sizes a client negotiates.
\<close>

subsection \<open>Targets\<close>

record RemoteTarget =
  rt_host :: string
  rt_export :: string

definition validate_remote_target :: "RemoteTarget \<Rightarrow> unit result" where
  "validate_remote_target target =
     (if trim_is_empty (rt_host target) \<or> rt_export target = [] \<or> \<not> starts_with CHR ''/'' (rt_export target)
      then Inl (InvalidTarget (rt_host target @ '':'' @ rt_export target))
      else Inr ())"

definition split_target :: "string \<Rightarrow> (string \<times> string) result" where
  "split_target target =
     (case strip_prefix CHR ''['' target of
        Some rest \<Rightarrow>
          bindR (ok_or (split_once CHR '']'' rest) (InvalidTarget target)) (\<lambda>(host, rest).
          bindR (ok_or (strip_prefix CHR '':'' rest) (InvalidTarget target)) (\<lambda>export.
          Inr (host, export)))
      | None \<Rightarrow> ok_or (split_once CHR '':'' target) (InvalidTarget target))"

definition RemoteTarget_parse :: "string \<Rightarrow> RemoteTarget result" where
  "RemoteTarget_parse target =
     bindR (split_target target) (\<lambda>(host, export).
     let parsed = \<lparr>rt_host = host, rt_export = export\<rparr> in
     case validate_remote_target parsed of
       Inl _ \<Rightarrow> Inl (InvalidTarget target)
     | Inr _ \<Rightarrow> Inr parsed)"

definition validate_host :: "string \<Rightarrow> unit result" where
  "validate_host host = (if trim_is_empty host then Inl (InvalidTarget host) else Inr ())"

definition validate_port :: "string \<Rightarrow> u16 \<Rightarrow> unit result" where
  "validate_port name port =
     (if port = 0 then Inl (Protocol ''{} must be non-zero'' [FStr name]) else Inr ())"

subsection \<open>Directory pages\<close>

record DirEntry =
  den_name :: string
  den_fileid :: u64
  den_attributes :: "FileAttr option"

record DirPageCursor =
  dpc_cookie :: u64
  dpc_cookieverf :: bytes

definition DirPageCursor_default :: DirPageCursor where
  "DirPageCursor_default = \<lparr>dpc_cookie = 0, dpc_cookieverf = replicate 8 0\<rparr>"

record DirPage =
  dp_entries :: "DirEntry list"
  dp_next_cursor :: "DirPageCursor option"

definition DirPage_is_eof :: "DirPage \<Rightarrow> bool" where
  "DirPage_is_eof page \<longleftrightarrow> dp_next_cursor page = None"

definition advance_offset :: "u64 \<Rightarrow> usize \<Rightarrow> string \<Rightarrow> u64 result" where
  "advance_offset offset amount operation =
     bindR (ok_or (u64_try_from amount) (error.LengthOutOfRange amount)) (\<lambda>amount.
     ok_or (checked_add_u64 offset amount) (Protocol ''{} offset overflow'' [FStr operation]))"

subsection \<open>Paths\<close>

fun normalize_components :: "string \<Rightarrow> string list \<Rightarrow> string list \<Rightarrow> string list result" where
  "normalize_components path components [] = Inr components"
| "normalize_components path components (component # rest) =
     (if component = [] \<or> component = ''.'' then normalize_components path components rest
      else if component = ''..'' then Inl (InvalidPath path)
      else if length component > MAX_NAME_BYTES then Inl (NameTooLong component MAX_NAME_BYTES)
      else normalize_components path (components @ [component]) rest)"

definition normalize_path :: "string \<Rightarrow> string list result" where
  "normalize_path path =
     (if path = [] then Inl (InvalidPath path)
      else normalize_components path [] (split_on CHR ''/'' path))"

definition join_path :: "string \<Rightarrow> string \<Rightarrow> string" where
  "join_path parent name =
     (if parent = ''/'' then ''/'' @ name
      else if parent = [] then name
      else trim_end_matches CHR ''/'' parent @ ''/'' @ name)"

text \<open>The process id, the clock and the process-wide counter are arguments.\<close>

definition temporary_name :: "u32 \<Rightarrow> nat \<Rightarrow> u64 \<Rightarrow> string" where
  "temporary_name pid nanos counter =
     ''.nfs-rs-tmp-'' @ show_nat (unat pid) @ ''-'' @ show_nat nanos @ ''-'' @ show_nat (unat counter)"

definition temporary_sibling_path :: "string \<Rightarrow> string \<Rightarrow> string result" where
  "temporary_sibling_path temp_name path =
     bindR (normalize_path path) (\<lambda>components.
     if components = [] then Inl (InvalidPath path)
     else Inr (join_path (foldl join_path ''/'' (butlast components)) temp_name))"

subsection \<open>Batches of entries\<close>

definition dir_entry_of :: "DirectoryEntry \<Rightarrow> DirEntry" where
  "dir_entry_of entry =
     \<lparr>den_name = de_name entry, den_fileid = de_fileid entry, den_attributes = de_attributes entry\<rparr>"

definition append_dir_entries :: "DirEntry list \<Rightarrow> ReadDirResult \<Rightarrow> usize \<Rightarrow> DirEntry list result" where
  "append_dir_entries out batch max_dir_entries =
     (if saturating_add_usize (length out) (length (rd_entries batch)) > max_dir_entries
      then Inl (Protocol ''READDIR exceeded configured limit of {} entries'' [FNat max_dir_entries])
      else Inr (out @ map dir_entry_of (rd_entries batch)))"

definition next_dir_cursor :: "ReadDirResult \<Rightarrow> u64 \<Rightarrow> DirPageCursor option result" where
  "next_dir_cursor batch previous_cookie =
     (if rd_eof batch then Inr None
      else if rd_entries batch = [] then Inl (Protocol ''READDIR returned no entries before EOF'' [])
      else if de_cookie (last (rd_entries batch)) = previous_cookie
      then Inl (Protocol ''READDIR did not advance directory cookie {}'' [FNat (unat previous_cookie)])
      else Inr (Some \<lparr>dpc_cookie = de_cookie (last (rd_entries batch)),
        dpc_cookieverf = rd_cookieverf batch\<rparr>))"

definition dir_page_from_batch :: "ReadDirResult \<Rightarrow> u64 \<Rightarrow> usize \<Rightarrow> DirPage result" where
  "dir_page_from_batch batch previous_cookie max_entries =
     bindR (append_dir_entries [] batch max_entries) (\<lambda>entries.
     bindR (next_dir_cursor batch previous_cookie) (\<lambda>next_cursor.
     Inr \<lparr>dp_entries = entries, dp_next_cursor = next_cursor\<rparr>))"

subsection \<open>Sizes and limits\<close>

definition validate_transfer_size :: "string \<Rightarrow> u32 \<Rightarrow> u32 result" where
  "validate_transfer_size name n =
     (if n = 0 \<or> unat n > MAX_IO_BYTES
      then Inl (Protocol ''{} must be in 1..={} bytes'' [FStr name, FNat MAX_IO_BYTES])
      else Inr n)"

definition validate_max_dir_entries :: "usize \<Rightarrow> unit result" where
  "validate_max_dir_entries max_dir_entries =
     (if max_dir_entries = 0 then Inl (Protocol ''max_dir_entries must be greater than zero'' [])
      else Inr ())"

text \<open>\<open>Ord::clamp\<close>, which panics when the lower bound is above the upper one; every caller passes a
  validated limit, which is at least one.\<close>

definition clamp_u32 :: "u32 \<Rightarrow> u32 \<Rightarrow> u32 \<Rightarrow> u32" where
  "clamp_u32 v lo hi = (if v < lo then lo else if v > hi then hi else v)"

definition clamp_io_size :: "u32 \<Rightarrow> u32 \<Rightarrow> u32 \<Rightarrow> u32" where
  "clamp_io_size preferred maximum limit =
     (let n = (if preferred = 0 then maximum else preferred);
          n = (if maximum = 0 then n else min n maximum)
      in clamp_u32 n 1 limit)"

definition clamp_dir_size :: "u32 \<Rightarrow> u32 \<Rightarrow> u32" where
  "clamp_dir_size preferred limit =
     (if preferred = 0 then limit else clamp_u32 preferred 1 limit)"

definition ensure_distinct_copy_handles :: "FileHandle \<Rightarrow> FileHandle \<Rightarrow> unit result" where
  "ensure_distinct_copy_handles source target =
     (if source = target
      then Inl (Protocol ''copy source and destination refer to the same file handle'' [])
      else Inr ())"

definition cleanup_error :: "error \<Rightarrow> string \<Rightarrow> unit result \<Rightarrow> error" where
  "cleanup_error err cleanup_context cleanup_result =
     (case cleanup_result of
        Inr _ \<Rightarrow> err
      | Inl cleanup_err \<Rightarrow> error_cleanup cleanup_context err cleanup_err)"

subsection \<open>Facts about paths\<close>

definition real_component :: "string \<Rightarrow> bool" where
  "real_component x \<longleftrightarrow> x \<noteq> [] \<and> x \<noteq> ''.''"

definition good_component :: "string \<Rightarrow> bool" where
  "good_component x \<longleftrightarrow> real_component x \<and> x \<noteq> ''..'' \<and> length x \<le> MAX_NAME_BYTES"

lemma normalize_components_iff:
  "normalize_components path acc xs = Inr cs \<longleftrightarrow>
     list_all good_component (filter real_component xs) \<and> cs = acc @ filter real_component xs"
  by (induction path acc xs rule: normalize_components.induct)
    (auto simp: real_component_def good_component_def)

lemma normalize_path_iff:
  "normalize_path path = Inr cs \<longleftrightarrow>
     path \<noteq> [] \<and> cs = filter real_component (split_on CHR ''/'' path) \<and> list_all good_component cs"
  by (auto simp: normalize_path_def normalize_components_iff)

lemma normalize_components_error:
  "normalize_components path acc xs = Inl e \<Longrightarrow>
     e = InvalidPath path \<and> ''..'' \<in> set xs \<or>
     (\<exists>x \<in> set xs. e = NameTooLong x MAX_NAME_BYTES \<and> length x > MAX_NAME_BYTES)"
  by (induction path acc xs rule: normalize_components.induct) (auto split: if_splits)

text \<open>A path component as the server will see it.\<close>

definition plain_name :: "string \<Rightarrow> bool" where
  "plain_name x \<longleftrightarrow> good_component x \<and> CHR ''/'' \<notin> set x"

lemma normalize_path_plain:
  "normalize_path path = Inr cs \<Longrightarrow> list_all plain_name cs"
  by (auto simp: normalize_path_iff plain_name_def list_all_iff dest: split_on_no_sep)

lemma filter_real_trim:
  "filter real_component (split_on c (trim_end_matches c s)) = filter real_component (split_on c s)"
proof -
  have "filter real_component xs = filter (\<lambda>x. x \<noteq> ''.'') (filter (\<lambda>x. x \<noteq> []) xs)" for xs
    by (auto simp: real_component_def conj_commute intro!: filter_cong)
  then show ?thesis by (simp only: split_on_trim)
qed

lemma split_join:
  assumes "plain_name name"
  shows "filter real_component (split_on CHR ''/'' (join_path parent name)) =
    filter real_component (split_on CHR ''/'' parent) @ [name]"
proof -
  have name: "split_on CHR ''/'' name = [name]" "real_component name"
    using assms by (auto simp: plain_name_def good_component_def intro: split_on_single)
  have nil: "\<not> real_component []" by (simp add: real_component_def)
  show ?thesis
    using name nil split_on_append [of "CHR ''/''" "trim_end_matches CHR ''/'' parent" name]
    by (auto simp: join_path_def filter_real_trim)
qed

lemma join_path_nonempty: "plain_name name \<Longrightarrow> join_path parent name \<noteq> []"
  by (auto simp: join_path_def plain_name_def good_component_def real_component_def)

lemma normalize_join:
  assumes "plain_name name" "normalize_path parent = Inr cs"
  shows "normalize_path (join_path parent name) = Inr (cs @ [name])"
  using assms join_path_nonempty [OF assms(1)]
  by (auto simp: normalize_path_iff split_join plain_name_def)

lemma normalize_root: "normalize_path ''/'' = Inr []"
  by (simp add: normalize_path_iff real_component_def)

lemma normalize_fold_join:
  assumes "list_all plain_name cs"
  shows "normalize_path (foldl join_path ''/'' cs) = Inr cs"
  using assms
proof (induction cs rule: rev_induct)
  case (snoc x xs)
  then show ?case by (simp add: normalize_join)
qed (simp add: normalize_root)

text \<open>C35. \<open>normalize_path\<close>: it succeeds exactly for nonempty paths whose components, empty ones and
  single dots aside, are neither a parent reference nor longer than 2^20 bytes, and returns these
  components, so no lookup ever leaves the export; otherwise the error says which rule was broken.\<close>

theorem normalize_path_spec:
  "(normalize_path path = Inr cs \<longleftrightarrow>
      path \<noteq> [] \<and> cs = filter (\<lambda>x. x \<noteq> [] \<and> x \<noteq> ''.'') (split_on CHR ''/'' path) \<and>
      (\<forall>x \<in> set cs. x \<noteq> ''..'' \<and> length x \<le> 1048576)) \<and>
   (normalize_path path = Inr cs \<longrightarrow> (\<forall>x \<in> set cs. x \<noteq> [] \<and> CHR ''/'' \<notin> set x \<and> set x \<subseteq> set path)) \<and>
   (normalize_path path = Inl e \<longrightarrow>
      e = InvalidPath path \<and> (path = [] \<or> ''..'' \<in> set (split_on CHR ''/'' path)) \<or>
      (\<exists>x. x \<in> set (split_on CHR ''/'' path) \<and> e = NameTooLong x 1048576 \<and> 1048576 < length x))"
proof (intro conjI impI)
  have real: "filter (\<lambda>x. x \<noteq> [] \<and> x \<noteq> ''.'') xs = filter real_component xs" for xs
    by (simp add: real_component_def [abs_def])
  show "normalize_path path = Inr cs \<longleftrightarrow>
      path \<noteq> [] \<and> cs = filter (\<lambda>x. x \<noteq> [] \<and> x \<noteq> ''.'') (split_on CHR ''/'' path) \<and>
      (\<forall>x \<in> set cs. x \<noteq> ''..'' \<and> length x \<le> 1048576)"
    unfolding normalize_path_iff real by (auto simp: list_all_iff good_component_def MAX_NAME_BYTES_def)
  show "\<forall>x \<in> set cs. x \<noteq> [] \<and> CHR ''/'' \<notin> set x \<and> set x \<subseteq> set path"
    if p: "normalize_path path = Inr cs"
  proof
    fix x
    assume x: "x \<in> set cs"
    with p have "x \<in> set (split_on CHR ''/'' path)" by (simp add: normalize_path_iff)
    moreover have "plain_name x" using normalize_path_plain [OF p] x by (simp add: list_all_iff)
    ultimately show "x \<noteq> [] \<and> CHR ''/'' \<notin> set x \<and> set x \<subseteq> set path"
      by (simp add: split_on_bytes plain_name_def good_component_def real_component_def)
  qed
  show "e = InvalidPath path \<and> (path = [] \<or> ''..'' \<in> set (split_on CHR ''/'' path)) \<or>
      (\<exists>x. x \<in> set (split_on CHR ''/'' path) \<and> e = NameTooLong x 1048576 \<and> 1048576 < length x)"
    if "normalize_path path = Inl e"
    using that normalize_components_error [of path "[]" "split_on CHR ''/'' path" e]
    by (auto simp: normalize_path_def MAX_NAME_BYTES_def split: if_splits)
qed

theorem normalize_path_spec_witness:
  "normalize_path ''/a/./b//'' = Inr [''a'', ''b''] \<and> CHR ''/'' \<notin> set ''b'' \<and>
   (\<exists>e. normalize_path ''/a/../b'' = Inl e \<and> e = InvalidPath ''/a/../b'')"
proof -
  have 1: "normalize_path ''/a/./b//'' = Inr [''a'', ''b'']"
    using normalize_path_spec [THEN conjunct1, of "''/a/./b//''" "[''a'', ''b'']"] by simp
  have 2: "normalize_path ''/a/../b'' = Inl (InvalidPath ''/a/../b'')"
    by (simp add: normalize_path_def MAX_NAME_BYTES_def)
  from normalize_path_spec [THEN conjunct2, THEN conjunct1, rule_format, OF 1, of "''b''"] 1
    normalize_path_spec [THEN conjunct2, THEN conjunct2, rule_format, OF 2] 2
  show ?thesis by auto
qed

subsection \<open>Temporary names\<close>

lemma temporary_name_plain:
  assumes "nanos < 10 ^ 39"
  shows "plain_name (temporary_name pid nanos counter)"
    "length (temporary_name pid nanos counter) \<le> 255"
proof -
  have "length (show_nat (unat pid)) \<le> 10"
    using unsigned_less [of pid, where ?'a = nat] by (intro show_nat_length) simp_all
  moreover have "length (show_nat (unat counter)) \<le> 20"
    using unsigned_less [of counter, where ?'a = nat] by (intro show_nat_length) simp_all
  moreover have "length (show_nat nanos) \<le> 39" using assms by (intro show_nat_length) simp_all
  moreover have "\<not> is_digit CHR ''/''" by (simp add: is_digit_def)
  then have "CHR ''/'' \<notin> set (show_nat n)" for n using show_nat_digits by blast
  ultimately show "plain_name (temporary_name pid nanos counter)"
    "length (temporary_name pid nanos counter) \<le> 255"
    by (auto simp: plain_name_def good_component_def real_component_def temporary_name_def
        MAX_NAME_BYTES_def)
qed

text \<open>Path composition: joining a plain name to a path appends it to the components, whatever slashes
  the parent ends with, and the temporary sibling of a path is an absolute path to a name of at most
  255 bytes in the same directory as the path itself; only paths that name the root have none.\<close>

lemma temporary_sibling_same_directory:
  assumes "nanos < 10 ^ 39"
  shows "(plain_name name \<longrightarrow> normalize_path parent = Inr cs \<longrightarrow>
      normalize_path (join_path parent name) = Inr (cs @ [name])) \<and>
    (normalize_path path = Inr (cs @ [name]) \<longrightarrow>
      (\<exists>t. temporary_sibling_path (temporary_name pid nanos counter) path = Inr t \<and>
         normalize_path t = Inr (cs @ [temporary_name pid nanos counter]) \<and>
         length (temporary_name pid nanos counter) \<le> 255)) \<and>
    (normalize_path path = Inr [] \<longrightarrow>
      temporary_sibling_path (temporary_name pid nanos counter) path = Inl (InvalidPath path))"
proof (intro conjI impI)
  let ?temp = "temporary_name pid nanos counter"
  show "normalize_path (join_path parent name) = Inr (cs @ [name])"
    if "plain_name name" "normalize_path parent = Inr cs" using that by (rule normalize_join)
  show "temporary_sibling_path ?temp path = Inl (InvalidPath path)" if "normalize_path path = Inr []"
    using that by (simp add: temporary_sibling_path_def)
  show "\<exists>t. temporary_sibling_path ?temp path = Inr t \<and> normalize_path t = Inr (cs @ [?temp]) \<and>
      length ?temp \<le> 255"
    if path: "normalize_path path = Inr (cs @ [name])"
  proof -
    have "list_all plain_name cs" using normalize_path_plain [OF path] by simp
    then have "normalize_path (join_path (foldl join_path ''/'' cs) ?temp) = Inr (cs @ [?temp])"
      by (intro normalize_join temporary_name_plain(1) assms normalize_fold_join)
    moreover have "length ?temp \<le> 255"
      using temporary_name_plain(2) [OF assms] .
    ultimately show ?thesis using path by (simp add: temporary_sibling_path_def)
  qed
qed

lemma temporary_sibling_same_directory_example:
  "\<exists>t. temporary_sibling_path (temporary_name 7 1000 2) ''/a/b/file'' = Inr t \<and>
     normalize_path t = Inr [''a'', ''b'', temporary_name 7 1000 2]"
proof -
  have "normalize_path ''/a/b/file'' = Inr ([''a'', ''b''] @ [''file''])"
    by (simp add: normalize_path_def MAX_NAME_BYTES_def)
  from temporary_sibling_same_directory [of 1000, THEN conjunct2, THEN conjunct1, rule_format, OF _ this]
  show ?thesis by auto
qed

subsection \<open>Target syntax\<close>

lemma ok_or_Inr_iff: "ok_or x e = Inr y \<longleftrightarrow> x = Some y"
  by (cases x) auto

lemma strip_prefix_Some_iff: "strip_prefix c s = Some t \<longleftrightarrow> s = c # t"
  by (cases s) auto

lemma split_target_iff:
  "split_target target = Inr (host, export) \<longleftrightarrow>
     target = ''['' @ host @ '']:'' @ export \<and> CHR '']'' \<notin> set host \<or>
     target = host @ '':'' @ export \<and> CHR '':'' \<notin> set host \<and> \<not> starts_with CHR ''['' target"
proof (cases "strip_prefix CHR ''['' target")
  case None
  then have "\<not> starts_with CHR ''['' target" "target \<noteq> ''['' @ xs" for xs
    by (auto simp: strip_prefix_def split: list.splits)
  with None show ?thesis by (simp add: split_target_def ok_or_Inr_iff split_once_Some_iff)
next
  case (Some rest)
  then have target: "target = CHR ''['' # rest" by (simp add: strip_prefix_Some_iff)
  have "split_target target = Inr (host, export) \<longleftrightarrow> split_once CHR '']'' rest = Some (host, '':'' @ export)"
    using Some by (auto simp: split_target_def bindR_Inr_iff ok_or_Inr_iff strip_prefix_Some_iff)
  also have "\<dots> \<longleftrightarrow> rest = host @ '']:'' @ export \<and> CHR '']'' \<notin> set host"
    by (simp add: split_once_Some_iff)
  finally show ?thesis by (simp add: target)
qed

text \<open>C36. Target syntax: a target parses exactly when it is \<open>host:/path\<close> or \<open>[host]:/path\<close> with a host
  that is not blank, the host part ending at the first colon or closing bracket; every other target is
  refused as a whole. In particular every valid target is read back from its rendering.\<close>

theorem RemoteTarget_parse_iff:
  "(RemoteTarget_parse target = Inr t \<longleftrightarrow>
      (target = ''['' @ rt_host t @ '']:'' @ rt_export t \<and> CHR '']'' \<notin> set (rt_host t) \<or>
       target = rt_host t @ '':'' @ rt_export t \<and> CHR '':'' \<notin> set (rt_host t) \<and>
         \<not> starts_with CHR ''['' target) \<and>
      \<not> trim_is_empty (rt_host t) \<and> starts_with CHR ''/'' (rt_export t)) \<and>
   (RemoteTarget_parse target = Inl e \<longrightarrow> e = InvalidTarget target)"
proof
  have "RemoteTarget_parse target = Inr t \<longleftrightarrow>
      split_target target = Inr (rt_host t, rt_export t) \<and>
      \<not> trim_is_empty (rt_host t) \<and> starts_with CHR ''/'' (rt_export t)"
  proof (cases "split_target target")
    case (Inr p)
    then show ?thesis
      by (cases p; cases t) (auto simp: RemoteTarget_parse_def Let_def validate_remote_target_def)
  qed (simp add: RemoteTarget_parse_def)
  then show "RemoteTarget_parse target = Inr t \<longleftrightarrow>
      (target = ''['' @ rt_host t @ '']:'' @ rt_export t \<and> CHR '']'' \<notin> set (rt_host t) \<or>
       target = rt_host t @ '':'' @ rt_export t \<and> CHR '':'' \<notin> set (rt_host t) \<and>
         \<not> starts_with CHR ''['' target) \<and>
      \<not> trim_is_empty (rt_host t) \<and> starts_with CHR ''/'' (rt_export t)"
    unfolding split_target_iff .
  show "RemoteTarget_parse target = Inl e \<longrightarrow> e = InvalidTarget target"
    by (auto simp: RemoteTarget_parse_def split_target_def bindR_def ok_or_def Let_def
        split: sum.splits option.splits prod.splits)
qed

theorem RemoteTarget_parse_iff_witness:
  "RemoteTarget_parse ''[::1]:/export'' = Inr \<lparr>rt_host = ''::1'', rt_export = ''/export''\<rparr> \<and>
   (\<exists>e. RemoteTarget_parse ''host:relative'' = Inl e \<and> e = InvalidTarget ''host:relative'')"
proof -
  have "\<not> trim_is_empty ''::1''"
    by (simp add: trim_is_empty_def is_blank.simps white_space_len_def)
  then have 1: "RemoteTarget_parse ''[::1]:/export'' = Inr \<lparr>rt_host = ''::1'', rt_export = ''/export''\<rparr>"
    using RemoteTarget_parse_iff [THEN conjunct1, of "''[::1]:/export''"
        "\<lparr>rt_host = ''::1'', rt_export = ''/export''\<rparr>"]
    by simp
  have "RemoteTarget_parse ''host:relative'' = Inl (InvalidTarget ''host:relative'')"
    by (simp add: RemoteTarget_parse_def split_target_def validate_remote_target_def)
  with RemoteTarget_parse_iff [THEN conjunct2, rule_format, OF this] 1 show ?thesis by blast
qed

subsection \<open>Negotiated sizes\<close>

text \<open>Transfer sizes: from a validated limit, the negotiated size is at least one byte, at most the
  limit and at most what the server can take, and it is the server's preference whenever that is
  within both bounds; a limit passes validation exactly between one byte and 64 MiB.\<close>

lemma clamp_io_size_bounds:
  "(validate_transfer_size name limit = Inr limit' \<longleftrightarrow>
      limit' = limit \<and> 1 \<le> unat limit \<and> unat limit \<le> 64 * 1024 * 1024) \<and>
   (validate_transfer_size name limit = Inr limit' \<longrightarrow>
      1 \<le> clamp_io_size preferred maximum limit' \<and> clamp_io_size preferred maximum limit' \<le> limit' \<and>
      (maximum \<noteq> 0 \<longrightarrow> clamp_io_size preferred maximum limit' \<le> maximum) \<and>
      (preferred \<noteq> 0 \<longrightarrow> preferred \<le> limit' \<longrightarrow> maximum = 0 \<or> preferred \<le> maximum \<longrightarrow>
         clamp_io_size preferred maximum limit' = preferred) \<and>
      1 \<le> clamp_dir_size preferred limit' \<and> clamp_dir_size preferred limit' \<le> limit')"
proof (intro conjI impI)
  have pos: "1 \<le> unat n \<longleftrightarrow> n \<noteq> 0" for n :: u32 by (simp add: Suc_le_eq unat_gt_0)
  show "validate_transfer_size name limit = Inr limit' \<longleftrightarrow>
      limit' = limit \<and> 1 \<le> unat limit \<and> unat limit \<le> 64 * 1024 * 1024"
    unfolding pos by (auto simp: validate_transfer_size_def MAX_IO_BYTES_def)
  assume "validate_transfer_size name limit = Inr limit'"
  then have "limit' \<noteq> 0" by (auto simp: validate_transfer_size_def split: if_splits)
  have one: "n < 1 \<longleftrightarrow> n = 0" "1 \<le> n \<longleftrightarrow> n \<noteq> 0" for n :: u32
    by (simp_all add: word_less_1 linorder_not_less [symmetric])
  note lim = \<open>limit' \<noteq> 0\<close>
  note defs = clamp_io_size_def clamp_dir_size_def clamp_u32_def Let_def min_def one
  show "1 \<le> clamp_io_size preferred maximum limit'" "clamp_io_size preferred maximum limit' \<le> limit'"
    "1 \<le> clamp_dir_size preferred limit'" "clamp_dir_size preferred limit' \<le> limit'"
    using lim by (auto simp: defs)
  show "clamp_io_size preferred maximum limit' \<le> maximum" if "maximum \<noteq> 0"
    using that lim by (auto simp: defs not_le not_less)
  show "clamp_io_size preferred maximum limit' = preferred"
    if "preferred \<noteq> 0" "preferred \<le> limit'" "maximum = 0 \<or> preferred \<le> maximum"
    using that by (auto simp: defs)
qed

lemma clamp_io_size_bounds_witness:
  "validate_transfer_size ''read_size'' 131072 = Inr 131072 \<and>
   1 \<le> clamp_io_size 1048576 2097152 131072 \<and> clamp_io_size 1048576 2097152 131072 \<le> 131072"
proof -
  have "validate_transfer_size ''read_size'' 131072 = Inr 131072"
    by (simp add: clamp_io_size_bounds [THEN conjunct1])
  with clamp_io_size_bounds [THEN conjunct2, rule_format, OF this, of 1048576 2097152]
  show ?thesis by blast
qed

end
