(* ===== verification/V3_Client.thy ===== *)
theory V3_Client
  imports V3_Mount V3_Path
begin

text \<open>
  The blocking NFSv3 client (\<open>src/v3/blocking.rs\<close>): the builder, connecting through portmapper and
  MOUNT service, and the operations that resolve a path and make one request. The state is the record
  \<open>Client\<close>; \<open>net k\<close> is what the world contributes to the \<open>k\<close>-th connection attempt of an operation.

  \<open>connect_with_builder\<close> also returns the MOUNT connection as it is when it is dropped, because the
  MOUNT service remembers the client until it is told otherwise: the lemmas show that a failed connect
  always sends the UMNT request once the MNT request has succeeded.
\<close>

definition NFS_PORT :: u16 where "NFS_PORT = 2049"
definition DEFAULT_IO_SIZE :: u32 where "DEFAULT_IO_SIZE = 128 * 1024"
definition DEFAULT_DIR_SIZE :: u32 where "DEFAULT_DIR_SIZE = 128 * 1024"

definition secs :: "nat \<Rightarrow> duration" where
  "secs n = n * 1000000000"

subsection \<open>MOUNT queries\<close>

definition resolve_port :: "'addr net_env \<Rightarrow> string \<Rightarrow> u16 option \<Rightarrow> duration option \<Rightarrow> u16 result" where
  "resolve_port env host mount_port timeout =
     (case mount_port of
        Some port \<Rightarrow> bindR (validate_port ''mount_port'' port) (\<lambda>_. Inr port)
      | None \<Rightarrow> get_tcp_port_with_timeout env host MOUNT_PROGRAM MOUNT_VERSION timeout)"

definition connect_mount_client :: "(nat \<Rightarrow> 'addr net_env) \<Rightarrow> AuthSys \<Rightarrow> string \<Rightarrow> u16 option \<Rightarrow>
    duration option \<Rightarrow> MountClient result" where
  "connect_mount_client net current host mount_port timeout =
     bindR (validate_host host) (\<lambda>_.
     bindR (resolve_port (net 0) host mount_port timeout) (\<lambda>mount_port.
     bindR (MountClient_connect_with_timeout (net 1) host mount_port current timeout) (\<lambda>mount.
     bindR (run_op (mnt_set_timeout timeout) mount) (\<lambda>(_, mount).
     Inr mount))))"

definition mount_query :: "(nat \<Rightarrow> 'addr net_env) \<Rightarrow> AuthSys \<Rightarrow> string \<Rightarrow> u16 option \<Rightarrow>
    duration option \<Rightarrow> 'a mnt \<Rightarrow> 'a result" where
  "mount_query net current host mount_port timeout m =
     bindR (connect_mount_client net current host mount_port timeout) (\<lambda>mount.
     bindR (run_op m mount) (\<lambda>(x, _). Inr x))"

definition list_exports_with_optional_mount_port :: "(nat \<Rightarrow> 'addr net_env) \<Rightarrow> AuthSys \<Rightarrow> string \<Rightarrow>
    u16 option \<Rightarrow> duration option \<Rightarrow> Export list result" where
  "list_exports_with_optional_mount_port net current host mount_port timeout =
     mount_query net current host mount_port timeout mnt_exports"

definition list_exports_with_timeout :: "(nat \<Rightarrow> 'addr net_env) \<Rightarrow> AuthSys \<Rightarrow> string \<Rightarrow>
    duration option \<Rightarrow> Export list result" where
  "list_exports_with_timeout net current host timeout =
     list_exports_with_optional_mount_port net current host None timeout"

definition list_exports :: "(nat \<Rightarrow> 'addr net_env) \<Rightarrow> AuthSys \<Rightarrow> string \<Rightarrow> Export list result" where
  "list_exports net current host = list_exports_with_timeout net current host (Some (secs 30))"

definition list_exports_with_mount_port :: "(nat \<Rightarrow> 'addr net_env) \<Rightarrow> AuthSys \<Rightarrow> string \<Rightarrow> u16 \<Rightarrow>
    duration option \<Rightarrow> Export list result" where
  "list_exports_with_mount_port net current host mount_port timeout =
     mount_query net current host (Some mount_port) timeout mnt_exports"

definition list_mounts_with_optional_mount_port :: "(nat \<Rightarrow> 'addr net_env) \<Rightarrow> AuthSys \<Rightarrow> string \<Rightarrow>
    u16 option \<Rightarrow> duration option \<Rightarrow> MountEntry list result" where
  "list_mounts_with_optional_mount_port net current host mount_port timeout =
     mount_query net current host mount_port timeout mnt_dump"

definition list_mounts_with_timeout :: "(nat \<Rightarrow> 'addr net_env) \<Rightarrow> AuthSys \<Rightarrow> string \<Rightarrow>
    duration option \<Rightarrow> MountEntry list result" where
  "list_mounts_with_timeout net current host timeout =
     list_mounts_with_optional_mount_port net current host None timeout"

definition list_mounts :: "(nat \<Rightarrow> 'addr net_env) \<Rightarrow> AuthSys \<Rightarrow> string \<Rightarrow> MountEntry list result" where
  "list_mounts net current host = list_mounts_with_timeout net current host (Some (secs 30))"

definition list_mounts_with_mount_port :: "(nat \<Rightarrow> 'addr net_env) \<Rightarrow> AuthSys \<Rightarrow> string \<Rightarrow> u16 \<Rightarrow>
    duration option \<Rightarrow> MountEntry list result" where
  "list_mounts_with_mount_port net current host mount_port timeout =
     mount_query net current host (Some mount_port) timeout mnt_dump"

definition unmount_with_optional_mount_port :: "(nat \<Rightarrow> 'addr net_env) \<Rightarrow> AuthSys \<Rightarrow> string \<Rightarrow>
    u16 option \<Rightarrow> duration option \<Rightarrow> unit result" where
  "unmount_with_optional_mount_port net current target mount_port timeout =
     bindR (RemoteTarget_parse target) (\<lambda>target.
     mount_query net current (rt_host target) mount_port timeout (mnt_unmount (rt_export target)))"

definition unmount_with_timeout :: "(nat \<Rightarrow> 'addr net_env) \<Rightarrow> AuthSys \<Rightarrow> string \<Rightarrow> duration option \<Rightarrow>
    unit result" where
  "unmount_with_timeout net current target timeout =
     unmount_with_optional_mount_port net current target None timeout"

definition unmount :: "(nat \<Rightarrow> 'addr net_env) \<Rightarrow> AuthSys \<Rightarrow> string \<Rightarrow> unit result" where
  "unmount net current target = unmount_with_timeout net current target (Some (secs 30))"

definition unmount_with_mount_port :: "(nat \<Rightarrow> 'addr net_env) \<Rightarrow> AuthSys \<Rightarrow> string \<Rightarrow> u16 \<Rightarrow>
    duration option \<Rightarrow> unit result" where
  "unmount_with_mount_port net current target mount_port timeout =
     unmount_with_optional_mount_port net current target (Some mount_port) timeout"

definition unmount_all_with_optional_mount_port :: "(nat \<Rightarrow> 'addr net_env) \<Rightarrow> AuthSys \<Rightarrow> string \<Rightarrow>
    u16 option \<Rightarrow> duration option \<Rightarrow> unit result" where
  "unmount_all_with_optional_mount_port net current host mount_port timeout =
     mount_query net current host mount_port timeout mnt_unmount_all"

definition unmount_all_with_timeout :: "(nat \<Rightarrow> 'addr net_env) \<Rightarrow> AuthSys \<Rightarrow> string \<Rightarrow>
    duration option \<Rightarrow> unit result" where
  "unmount_all_with_timeout net current host timeout =
     unmount_all_with_optional_mount_port net current host None timeout"

definition unmount_all :: "(nat \<Rightarrow> 'addr net_env) \<Rightarrow> AuthSys \<Rightarrow> string \<Rightarrow> unit result" where
  "unmount_all net current host = unmount_all_with_timeout net current host (Some (secs 30))"

definition unmount_all_with_mount_port :: "(nat \<Rightarrow> 'addr net_env) \<Rightarrow> AuthSys \<Rightarrow> string \<Rightarrow> u16 \<Rightarrow>
    duration option \<Rightarrow> unit result" where
  "unmount_all_with_mount_port net current host mount_port timeout =
     unmount_all_with_optional_mount_port net current host (Some mount_port) timeout"

subsection \<open>The builder\<close>

record ClientBuilder =
  cb_target :: RemoteTarget
  cb_auth :: AuthSys
  cb_timeout :: "duration option"
  cb_mount_port :: "u16 option"
  cb_nfs_port :: "u16 option"
  cb_read_size_limit :: u32
  cb_write_size_limit :: u32
  cb_dir_size_limit :: u32
  cb_max_dir_entries :: usize
  cb_retry_policy :: RetryPolicy

definition ClientBuilder_of_target :: "AuthSys \<Rightarrow> RemoteTarget \<Rightarrow> ClientBuilder" where
  "ClientBuilder_of_target current target =
     \<lparr>cb_target = target, cb_auth = current, cb_timeout = Some (secs 30), cb_mount_port = None,
      cb_nfs_port = None, cb_read_size_limit = DEFAULT_IO_SIZE, cb_write_size_limit = DEFAULT_IO_SIZE,
      cb_dir_size_limit = DEFAULT_DIR_SIZE, cb_max_dir_entries = MAX_DIR_ENTRIES,
      cb_retry_policy = RetryPolicy_default\<rparr>"

definition ClientBuilder_new :: "AuthSys \<Rightarrow> string \<Rightarrow> string \<Rightarrow> ClientBuilder" where
  "ClientBuilder_new current host export =
     ClientBuilder_of_target current \<lparr>rt_host = host, rt_export = export\<rparr>"

definition ClientBuilder_from_target :: "AuthSys \<Rightarrow> string \<Rightarrow> ClientBuilder result" where
  "ClientBuilder_from_target current target =
     bindR (RemoteTarget_parse target) (\<lambda>target. Inr (ClientBuilder_of_target current target))"

definition builder_auth_sys :: "AuthSys \<Rightarrow> ClientBuilder \<Rightarrow> ClientBuilder" where
  "builder_auth_sys auth b = b\<lparr>cb_auth := auth\<rparr>"

definition builder_timeout :: "duration option \<Rightarrow> ClientBuilder \<Rightarrow> ClientBuilder" where
  "builder_timeout timeout b = b\<lparr>cb_timeout := timeout\<rparr>"

definition builder_mount_port :: "u16 \<Rightarrow> ClientBuilder \<Rightarrow> ClientBuilder" where
  "builder_mount_port port b = b\<lparr>cb_mount_port := Some port\<rparr>"

definition builder_nfs_port :: "u16 \<Rightarrow> ClientBuilder \<Rightarrow> ClientBuilder" where
  "builder_nfs_port port b = b\<lparr>cb_nfs_port := Some port\<rparr>"

definition builder_io_size :: "u32 \<Rightarrow> ClientBuilder \<Rightarrow> ClientBuilder" where
  "builder_io_size n b = b\<lparr>cb_read_size_limit := n, cb_write_size_limit := n\<rparr>"

definition builder_read_size :: "u32 \<Rightarrow> ClientBuilder \<Rightarrow> ClientBuilder" where
  "builder_read_size n b = b\<lparr>cb_read_size_limit := n\<rparr>"

definition builder_write_size :: "u32 \<Rightarrow> ClientBuilder \<Rightarrow> ClientBuilder" where
  "builder_write_size n b = b\<lparr>cb_write_size_limit := n\<rparr>"

definition builder_dir_size :: "u32 \<Rightarrow> ClientBuilder \<Rightarrow> ClientBuilder" where
  "builder_dir_size n b = b\<lparr>cb_dir_size_limit := n\<rparr>"

definition builder_max_dir_entries :: "usize \<Rightarrow> ClientBuilder \<Rightarrow> ClientBuilder" where
  "builder_max_dir_entries n b = b\<lparr>cb_max_dir_entries := n\<rparr>"

definition builder_retry_policy :: "RetryPolicy \<Rightarrow> ClientBuilder \<Rightarrow> ClientBuilder" where
  "builder_retry_policy p b = b\<lparr>cb_retry_policy := p\<rparr>"

subsection \<open>The client and connecting\<close>

record Client =
  cl_builder :: ClientBuilder
  cl_target :: RemoteTarget
  cl_auth :: AuthSys
  cl_mount_port :: u16
  cl_root :: FileHandle
  cl_nfs :: Nfs3Client
  cl_fsinfo :: "FsInfo option"
  cl_read_size :: u32
  cl_write_size :: u32
  cl_dir_size :: u32
  cl_max_dir_entries :: usize

type_synonym 'a cl = "(Client, error, 'a) op"

definition cleanup_mount_context :: string where
  "cleanup_mount_context = ''cleanup UMOUNT after failed NFSv3 connect''"

text \<open>The error branch after a successful MNT: unmount, and report both errors if that fails, too.\<close>

definition or_unmount :: "string \<Rightarrow> 'a result \<Rightarrow> 'a mnt" where
  "or_unmount export r mount =
     (case r of
        Inr x \<Rightarrow> (Inr x, mount)
      | Inl err \<Rightarrow>
          (case mnt_unmount export mount of
             (cleanup_result, mount') \<Rightarrow>
               (Inl (cleanup_error err cleanup_mount_context cleanup_result), mount')))"

definition choose_nfs_port :: "'addr net_env \<Rightarrow> ClientBuilder \<Rightarrow> u16 result" where
  "choose_nfs_port env builder =
     (case cb_nfs_port builder of
        Some port \<Rightarrow> bindR (validate_port ''nfs_port'' port) (\<lambda>_. Inr port)
      | None \<Rightarrow>
          Inr (case get_tcp_port_with_timeout env (rt_host (cb_target builder)) NFS_PROGRAM NFS_VERSION
                 (cb_timeout builder) of
                 Inr port \<Rightarrow> port
               | Inl _ \<Rightarrow> NFS_PORT))"

definition connect_nfs :: "'addr net_env \<Rightarrow> ClientBuilder \<Rightarrow> u16 \<Rightarrow> Nfs3Client result" where
  "connect_nfs env builder nfs_port =
     Nfs3Client_connect_with_timeout (ne_stamp env) (ne_resolve env (rt_host (cb_target builder)) nfs_port)
       (ne_dial env) (cb_auth builder) (cb_timeout builder)"

definition connect_mounted :: "(nat \<Rightarrow> 'addr net_env) \<Rightarrow> ClientBuilder \<Rightarrow> u32 \<Rightarrow> u32 \<Rightarrow> u32 \<Rightarrow> u16 \<Rightarrow>
    FileHandle \<Rightarrow> Client mnt" where
  "connect_mounted net builder read_size_limit write_size_limit dir_size_limit mount_port root =
     (let export = rt_export (cb_target builder) in
      bnd (or_unmount export (choose_nfs_port (net 2) builder)) (\<lambda>nfs_port.
      bnd (or_unmount export (connect_nfs (net 3) builder nfs_port)) (\<lambda>nfs.
      bnd (or_unmount export (run_op (nfs3_set_timeout (cb_timeout builder)) nfs)) (\<lambda>(_, nfs).
      let nfs = nfs\<lparr>n3_retry_policy := cb_retry_policy builder\<rparr> in
      bnd (or_unmount export (run_op (nfs3_fsinfo root) nfs)) (\<lambda>(fsinfo, nfs).
      let read_size = clamp_io_size (fi_read_preferred fsinfo) (fi_read_max fsinfo) read_size_limit;
          write_size = clamp_io_size (fi_write_preferred fsinfo) (fi_write_max fsinfo) write_size_limit;
          dir_size = clamp_dir_size (fi_dir_preferred fsinfo) dir_size_limit
      in bnd (or_unmount export
           (run_op (nfs3_set_max_record_size
             (max_record_size_for_payloads [read_size, write_size, dir_size])) nfs)) (\<lambda>(_, nfs).
         ret \<lparr>cl_builder = builder, cl_target = cb_target builder, cl_auth = cb_auth builder,
              cl_mount_port = mount_port, cl_root = root, cl_nfs = nfs, cl_fsinfo = Some fsinfo,
              cl_read_size = read_size, cl_write_size = write_size, cl_dir_size = dir_size,
              cl_max_dir_entries = cb_max_dir_entries builder\<rparr>))))))"

definition connect_export :: "(nat \<Rightarrow> 'addr net_env) \<Rightarrow> ClientBuilder \<Rightarrow> u32 \<Rightarrow> u32 \<Rightarrow> u32 \<Rightarrow> u16 \<Rightarrow>
    Client mnt" where
  "connect_export net builder read_size_limit write_size_limit dir_size_limit mount_port =
     bnd (mnt_set_timeout (cb_timeout builder)) (\<lambda>_.
     bnd (mnt_mount (rt_export (cb_target builder))) (\<lambda>mount_info.
     connect_mounted net builder read_size_limit write_size_limit dir_size_limit mount_port
       (mi_file_handle mount_info)))"

definition validate_builder :: "ClientBuilder \<Rightarrow> (u32 \<times> u32 \<times> u32) result" where
  "validate_builder builder =
     bindR (validate_remote_target (cb_target builder)) (\<lambda>_.
     bindR (validate_transfer_size ''read_size'' (cb_read_size_limit builder)) (\<lambda>read_size_limit.
     bindR (validate_transfer_size ''write_size'' (cb_write_size_limit builder)) (\<lambda>write_size_limit.
     bindR (validate_transfer_size ''dir_size'' (cb_dir_size_limit builder)) (\<lambda>dir_size_limit.
     bindR (validate_max_dir_entries (cb_max_dir_entries builder)) (\<lambda>_.
     Inr (read_size_limit, write_size_limit, dir_size_limit))))))"

definition open_mount :: "(nat \<Rightarrow> 'addr net_env) \<Rightarrow> ClientBuilder \<Rightarrow>
    (u32 \<times> u32 \<times> u32 \<times> u16 \<times> MountClient) result" where
  "open_mount net builder =
     bindR (validate_builder builder) (\<lambda>(read_size_limit, write_size_limit, dir_size_limit).
     bindR (resolve_port (net 0) (rt_host (cb_target builder)) (cb_mount_port builder)
       (cb_timeout builder)) (\<lambda>mount_port.
     bindR (MountClient_connect_with_timeout (net 1) (rt_host (cb_target builder)) mount_port
       (cb_auth builder) (cb_timeout builder)) (\<lambda>mount.
     Inr (read_size_limit, write_size_limit, dir_size_limit, mount_port, mount))))"

definition connect_with_builder :: "(nat \<Rightarrow> 'addr net_env) \<Rightarrow> ClientBuilder \<Rightarrow>
    Client result \<times> MountClient option" where
  "connect_with_builder net builder =
     (case open_mount net builder of
        Inl e \<Rightarrow> (Inl e, None)
      | Inr (read_size_limit, write_size_limit, dir_size_limit, mount_port, mount) \<Rightarrow>
          map_prod id Some (connect_export net builder read_size_limit write_size_limit dir_size_limit
            mount_port mount))"

definition Client_connect :: "(nat \<Rightarrow> 'addr net_env) \<Rightarrow> AuthSys \<Rightarrow> string \<Rightarrow> Client result" where
  "Client_connect net current target =
     bindR (ClientBuilder_from_target current target) (\<lambda>b. fst (connect_with_builder net b))"

definition reconnect :: "(nat \<Rightarrow> 'addr net_env) \<Rightarrow> unit cl" where
  "reconnect net c =
     (case fst (connect_with_builder net (cl_builder c)) of
        Inl e \<Rightarrow> (Inl e, c)
      | Inr c' \<Rightarrow> (Inr (), c'))"

definition Client_unmount :: "(nat \<Rightarrow> 'addr net_env) \<Rightarrow> Client \<Rightarrow> unit result" where
  "Client_unmount net c =
     bindR (MountClient_connect_with_timeout (net 0) (rt_host (cl_target c)) (cl_mount_port c)
       (cl_auth c) (cb_timeout (cl_builder c))) (\<lambda>mount.
     bindR (run_op (mnt_set_timeout (cb_timeout (cl_builder c))) mount) (\<lambda>(_, mount).
     bindR (run_op (mnt_unmount (rt_export (cl_target c))) mount) (\<lambda>(x, _). Inr x)))"

subsection \<open>Connecting cleans up after itself\<close>

definition client_sizes_ok :: "Client \<Rightarrow> bool" where
  "client_sizes_ok c \<longleftrightarrow>
     1 \<le> cl_read_size c \<and> unat (cl_read_size c) \<le> MAX_IO_BYTES \<and>
     1 \<le> cl_write_size c \<and> unat (cl_write_size c) \<le> MAX_IO_BYTES \<and>
     1 \<le> cl_dir_size c \<and> unat (cl_dir_size c) \<le> MAX_IO_BYTES \<and> 0 < cl_max_dir_entries c"

lemma or_unmount_cases:
  assumes "bnd (or_unmount export r) k mount = (res, mount')"
  obtains (Ok) x where "r = Inr x" "k x mount = (res, mount')"
  | (Cleanup) err cleanup where "r = Inl err" "mnt_unmount export mount = (cleanup, mount')"
      "res = Inl (cleanup_error err cleanup_mount_context cleanup)"
  using assms by (cases r) (auto simp: bnd_apply or_unmount_def split: prod.splits)

lemma clamp_word_bounds:
  assumes "validate_transfer_size name limit = Inr limit'"
  shows "1 \<le> clamp_io_size p m limit' \<and> unat (clamp_io_size p m limit') \<le> MAX_IO_BYTES"
    "1 \<le> clamp_dir_size p limit' \<and> unat (clamp_dir_size p limit') \<le> MAX_IO_BYTES"
proof -
  have lim: "unat limit' \<le> MAX_IO_BYTES" "limit' \<noteq> 0"
    using assms by (auto simp: validate_transfer_size_def split: if_splits)
  have one: "n < 1 \<longleftrightarrow> n = 0" "1 \<le> n \<longleftrightarrow> n \<noteq> 0" for n :: u32
    by (simp_all add: word_less_1 linorder_not_less [symmetric])
  have "clamp_io_size p m limit' \<noteq> 0 \<and> clamp_io_size p m limit' \<le> limit'"
    "clamp_dir_size p limit' \<noteq> 0 \<and> clamp_dir_size p limit' \<le> limit'"
    using lim(2) by (auto simp: clamp_io_size_def clamp_dir_size_def clamp_u32_def Let_def min_def one)
  with lim(1) show "1 \<le> clamp_io_size p m limit' \<and> unat (clamp_io_size p m limit') \<le> MAX_IO_BYTES"
    "1 \<le> clamp_dir_size p limit' \<and> unat (clamp_dir_size p limit') \<le> MAX_IO_BYTES"
    by (auto simp: word_le_nat_alt Suc_le_eq unat_gt_0)
qed

lemma validate_builder_ok:
  assumes "validate_builder b = Inr (rl, wl, dl)"
  shows "validate_transfer_size ''read_size'' (cb_read_size_limit b) = Inr rl"
    "validate_transfer_size ''write_size'' (cb_write_size_limit b) = Inr wl"
    "validate_transfer_size ''dir_size'' (cb_dir_size_limit b) = Inr dl" "0 < cb_max_dir_entries b"
  using assms
  by (auto simp: validate_builder_def bindR_Inr_iff validate_max_dir_entries_def split: if_splits)

lemma connect_mounted_cases:
  assumes "connect_mounted net b rl wl dl port root mount = (res, mount')" "validate_builder b = Inr (rl, wl, dl)"
  shows "(\<exists>c. res = Inr c \<and> mount' = mount \<and> cl_builder c = b \<and> cl_root c = root \<and> client_sizes_ok c) \<or>
    (\<exists>err cleanup. mnt_unmount (rt_export (cb_target b)) mount = (cleanup, mount') \<and>
       res = Inl (cleanup_error err cleanup_mount_context cleanup))"
proof -
  note v = validate_builder_ok [OF assms(2)]
  from assms(1) show ?thesis
    unfolding connect_mounted_def Let_def
    by (auto elim!: or_unmount_cases simp: ret_apply client_sizes_ok_def v(4)
        clamp_word_bounds [OF v(1)] clamp_word_bounds [OF v(2)] clamp_word_bounds [OF v(3)])
qed

text \<open>C10. A connect never leaks a mount: once the MNT request has succeeded, either connecting succeeds,
  with the handle the server returned as root, transfer sizes within the validated limits and no further
  request on the MOUNT connection, or it sends UMNT for the export exactly once, as its last action on
  that connection, and reports the error that stopped it, together with that of the UMNT if it failed.\<close>

theorem connect_with_builder_unmounts:
  assumes "open_mount net b = Inr (rl, wl, dl, port, mount0)"
    and "mnt_set_timeout (cb_timeout b) mount0 = (Inr u, mount1)"
    and "mnt_mount (rt_export (cb_target b)) mount1 = (Inr info, mount2)"
  shows "(\<exists>c. connect_with_builder net b = (Inr c, Some mount2) \<and> cl_builder c = b \<and>
      cl_root c = mi_file_handle info \<and> client_sizes_ok c) \<or>
    (\<exists>err cleanup mount3. mnt_unmount (rt_export (cb_target b)) mount2 = (cleanup, mount3) \<and>
      connect_with_builder net b = (Inl (cleanup_error err cleanup_mount_context cleanup), Some mount3))"
proof -
  obtain res mount' where m: "connect_mounted net b rl wl dl port (mi_file_handle info) mount2 = (res, mount')"
    by fastforce
  have v: "validate_builder b = Inr (rl, wl, dl)"
    using assms(1) by (auto simp: open_mount_def bindR_Inr_iff)
  have "connect_export net b rl wl dl port mount0 = (res, mount')"
    using assms(2,3) m by (simp add: connect_export_def bnd_apply)
  then have "connect_with_builder net b = (res, Some mount')"
    using assms(1) by (simp add: connect_with_builder_def)
  with connect_mounted_cases [OF m v] show ?thesis by auto
qed

text \<open>The reply of a successful MNT without authentication flavours.\<close>

definition mount_reply_wire :: "FileHandle \<Rightarrow> bytes" where
  "mount_reply_wire fh = u32_to_be_bytes 0 @ fh_wire fh @ u32_to_be_bytes 0"

lemma completes_mount_reply:
  assumes "fh_ok fh"
  shows "completes decode_mount_reply (mount_reply_wire fh) \<lparr>mi_file_handle = fh, mi_auth_flavors = []\<rparr>"
proof -
  have flavors: "decodes (read_array decode_u32 128) (u32_to_be_bytes 0) []"
    unfolding read_array_def
    using decodes_bnd_last [where k = "\<lambda>len. read_n len decode_u32", OF decodes_read_len [of 0 128]]
    by (simp add: decodes_ret)
  have ok: "MountStatus_from_u32 0 = MountStatus.Ok"
    by (simp add: MountStatus_from_u32_def MountStatus_codes_def)
  show ?thesis
    unfolding decode_mount_reply_def mount_reply_wire_def
    by (rule completes_bnd [OF decodes_from_xdr [OF u32c.dec_wire [OF TrueI]]],
        unfold ok, simp only: simp_thms if_False,
        rule completes_bnd [OF decodes_from_xdr [OF fhc.dec_wire [OF assms]]],
        rule completes_bnd_last [OF decodes_from_xdr [OF flavors]],
        rule completes_finish, rule completes_ret) simp
qed

lemma mnt_mount_served:
  assumes "rpc_serves (mc_rpc c) MOUNT_PROGRAM MOUNT_VERSION MOUNTPROC3_MNT (name_wire path)
      (mount_reply_wire fh) rest"
    and "length path \<le> MNTPATHLEN" "fh_ok fh"
  shows "\<exists>c'. mnt_mount path c = (Inr \<lparr>mi_file_handle = fh, mi_auth_flavors = []\<rparr>, c')"
proof -
  have "encodes (encode_DirPath path) (name_wire path)"
    unfolding encode_DirPath_def name_wire_def
    using assms(2) by (intro encodes_write_string) (simp_all add: MNTPATHLEN_def)
  from rpc_call_served [OF assms(1) this] obtain rpc' where
    r: "rpc_call MOUNT_PROGRAM MOUNT_VERSION MOUNTPROC3_MNT (encode_DirPath path) (mc_rpc c) =
      (Inr (mount_reply_wire fh), rpc')" "length (mount_reply_wire fh) \<le> usize_max"
    by blast
  with completes_new [OF completes_mount_reply [OF assms(3)]] show ?thesis
    by (simp add: mnt_mount_def mnt_call_def mnt_rpc_def bnd_apply decode_payload_def of_result_apply)
qed

definition demo_auth :: AuthSys where
  "demo_auth = \<lparr>auth_stamp = 1, auth_machine_name = ''m'', auth_uid = 0, auth_gid = 0, auth_gids = []\<rparr>"

definition demo_builder :: ClientBuilder where
  "demo_builder = builder_nfs_port 0 (builder_mount_port 635 (builder_timeout None
     (ClientBuilder_new demo_auth ''h'' ''/e'')))"

definition demo_net :: "nat \<Rightarrow> unit net_env" where
  "demo_net k = \<lparr>ne_stamp = 4, ne_resolve = (\<lambda>_ _. Inr [()]),
     ne_dial = (\<lambda>_ _. Inr (demo_stream [RxData (frame [accepted_reply 5 (mount_reply_wire \<lparr>fh_data = [9]\<rparr>)])]))\<rparr>"

definition demo_mount :: MountClient where
  "demo_mount = \<lparr>mc_rpc = (demo_client [RxData (frame [accepted_reply 5 (mount_reply_wire \<lparr>fh_data = [9]\<rparr>)])])
     \<lparr>rpc_auth := Sys demo_auth\<rparr>\<rparr>"

lemmas demo_connect_defs = connect_with_timeout_def connect_tcp_stream_eq tcp_connect_def
  RpcClient_new_def RpcClient_set_timeout_def bnd_apply ret_apply with_stream_def set_nodelay_def
  set_read_timeout_def set_write_timeout_def

lemma demo_open_mount:
  "open_mount demo_net demo_builder =
     Inr (DEFAULT_IO_SIZE, DEFAULT_IO_SIZE, DEFAULT_DIR_SIZE, 635, demo_mount)"
proof -
  have host: "\<not> trim_is_empty ''h''"
    by (simp add: trim_is_empty_def is_blank.simps white_space_len_def)
  have "validate_builder demo_builder = Inr (DEFAULT_IO_SIZE, DEFAULT_IO_SIZE, DEFAULT_DIR_SIZE)"
    using host
    by (simp add: validate_builder_def demo_builder_def ClientBuilder_new_def ClientBuilder_of_target_def
        builder_nfs_port_def builder_mount_port_def builder_timeout_def validate_remote_target_def
        validate_transfer_size_def validate_max_dir_entries_def DEFAULT_IO_SIZE_def DEFAULT_DIR_SIZE_def
        MAX_IO_BYTES_def MAX_DIR_ENTRIES_def)
  then show ?thesis
    by (simp add: open_mount_def resolve_port_def validate_port_def demo_builder_def ClientBuilder_new_def
        ClientBuilder_of_target_def builder_nfs_port_def builder_mount_port_def builder_timeout_def
        MountClient_connect_with_timeout_def rpc_connect_def demo_net_def demo_connect_defs
        demo_mount_def demo_client_def demo_stream_def)
qed

lemma demo_mount_ok:
  "\<exists>u mount1. mnt_set_timeout None demo_mount = (Inr u, mount1) \<and> mount1 = demo_mount"
  by (simp add: mnt_set_timeout_def mnt_rpc_def demo_mount_def demo_connect_defs demo_client_def
      demo_stream_def)

lemma demo_mounted:
  "\<exists>mount2. mnt_mount ''/e'' demo_mount = (Inr \<lparr>mi_file_handle = \<lparr>fh_data = [9]\<rparr>, mi_auth_flavors = []\<rparr>, mount2)"
proof (rule mnt_mount_served)
  have len: "length (mount_reply_wire \<lparr>fh_data = [9]\<rparr>) = 16"
    by (simp add: mount_reply_wire_def small_wires)
  have "length (auth_wire (Sys demo_auth)) \<le> 500"
    using length_auth_sys_wire [of demo_auth]
    by (simp add: auth_wire_def opaque_wire_def opaque_pad_def padding_len_def)
  then have "length (call_wire 5 MOUNT_PROGRAM MOUNT_VERSION MOUNTPROC3_MNT (Sys demo_auth) (name_wire ''/e''))
      < 2 ^ 31"
    by (simp add: call_wire_def auth_wire_def [of AuthNone] name_wire_def opaque_wire_def opaque_pad_def
        padding_len_def)
  then show "rpc_serves (mc_rpc demo_mount) MOUNT_PROGRAM MOUNT_VERSION MOUNTPROC3_MNT (name_wire ''/e'')
      (mount_reply_wire \<lparr>fh_data = [9]\<rparr>) []"
    unfolding rpc_serves_def
    by (intro conjI exI [of _ "[accepted_reply 5 (mount_reply_wire \<lparr>fh_data = [9]\<rparr>)]"])
      (simp_all add: demo_mount_def succ_xid_def accepted_reply_ok DEFAULT_MAX_RECORD_SIZE_def
        usize_max_def len arriving_def demo_stream_def)
qed (simp_all add: MNTPATHLEN_def fh_ok_def NFS3_FHSIZE_def)

text \<open>With the port of the NFS service given as zero, connecting fails after the MNT.\<close>

theorem connect_with_builder_unmounts_witness:
  "\<exists>m2 err cleanup m3. mnt_unmount ''/e'' m2 = (cleanup, m3) \<and>
     connect_with_builder demo_net demo_builder =
       (Inl (cleanup_error err cleanup_mount_context cleanup), Some m3)"
proof -
  have b: "cb_timeout demo_builder = None" "rt_export (cb_target demo_builder) = ''/e''"
      "cb_nfs_port demo_builder = Some 0"
    by (simp_all add: demo_builder_def ClientBuilder_new_def ClientBuilder_of_target_def
        builder_nfs_port_def builder_mount_port_def builder_timeout_def)
  from demo_mount_ok obtain u where 1: "mnt_set_timeout (cb_timeout demo_builder) demo_mount = (Inr u, demo_mount)"
    unfolding b by blast
  from demo_mounted obtain m2 where 2: "mnt_mount (rt_export (cb_target demo_builder)) demo_mount =
      (Inr \<lparr>mi_file_handle = \<lparr>fh_data = [9]\<rparr>, mi_auth_flavors = []\<rparr>, m2)"
    unfolding b by blast
  have "fst (connect_with_builder demo_net demo_builder) \<noteq> Inr c" for c
    using 1 2 b(3)
    by (simp add: connect_with_builder_def demo_open_mount connect_export_def bnd_apply connect_mounted_def
        or_unmount_def choose_nfs_port_def validate_port_def Let_def split: prod.splits)
  with connect_with_builder_unmounts [OF demo_open_mount 1 2] show ?thesis
    unfolding b by (metis fst_conv)
qed

end
