(* ===== verification/V3_Io.thy ===== *)
theory V3_Io
  imports V3_Client
begin

text \<open>
  Moving data with the blocking client (\<open>src/v3/blocking.rs\<close>): path resolution and the loops that read a
  file to its end, read a range into a local writer, write a buffer, write from a local reader and copy
  between two handles. Each loop is its body, a step that continues with new loop variables or breaks with
  a result, and the iteration of the body; the measure of the iteration shows that it ends: an offset that
  only grows below \<open>2^64\<close>, a remaining count, the data that is left.

  A local \<open>Read\<close> is the list of the outcomes of its coming reads, a local \<open>Write\<close> the list of the
  outcomes of its coming writes together with what it has taken so far.
\<close>

subsection \<open>Lifting operations\<close>

definition with_nfs :: "'a nfs3 \<Rightarrow> 'a cl" where
  "with_nfs m c = (case m (cl_nfs c) of (r, nfs) \<Rightarrow> (r, c\<lparr>cl_nfs := nfs\<rparr>))"

definition on_fst :: "('s, 'e, 'a) op \<Rightarrow> ('s \<times> 't, 'e, 'a) op" where
  "on_fst m = (\<lambda>(s, t). case m s of (r, s') \<Rightarrow> (r, (s', t)))"

definition on_snd :: "('t, 'e, 'a) op \<Rightarrow> ('s \<times> 't, 'e, 'a) op" where
  "on_snd m = (\<lambda>(s, t). case m t of (r, t') \<Rightarrow> (r, (s, t')))"

definition run_fst :: "'t \<Rightarrow> ('s \<times> 't, 'e, 'a) op \<Rightarrow> ('s, 'e, 'a \<times> 't) op" where
  "run_fst t m s = (case m (s, t) of (Inl e, (s', _)) \<Rightarrow> (Inl e, s') | (Inr x, (s', t')) \<Rightarrow> (Inr (x, t'), s'))"

lemma on_fst_Inr: "on_fst m (s, t) = (Inr x, st) \<longleftrightarrow> (\<exists>s'. m s = (Inr x, s') \<and> st = (s', t))"
  by (auto simp: on_fst_def split: prod.splits)

lemma on_snd_Inr: "on_snd m (s, t) = (Inr x, st) \<longleftrightarrow> (\<exists>t'. m t = (Inr x, t') \<and> st = (s, t'))"
  by (auto simp: on_snd_def split: prod.splits)

lemma with_nfs_Inr: "with_nfs m c = (Inr x, c') \<longleftrightarrow> (\<exists>n. m (cl_nfs c) = (Inr x, n) \<and> c' = c\<lparr>cl_nfs := n\<rparr>)"
  by (auto simp: with_nfs_def split: prod.splits)

type_synonym local_reader = "rx_event list"
type_synonym local_writer = "tx_event list \<times> bytes"

definition reader_read :: "nat \<Rightarrow> (local_reader, error, bytes) op" where
  "reader_read n evs =
     (case evs of
        [] \<Rightarrow> (Inr [], [])
      | RxErr k # rest \<Rightarrow> (Inl (Io k), rest)
      | RxData bs # rest \<Rightarrow>
          if length bs \<le> n then (Inr bs, rest) else (Inr (take n bs), RxData (drop n bs) # rest))"

definition writer_write_all :: "bytes \<Rightarrow> (local_writer, error, unit) op" where
  "writer_write_all bs w =
     (case write_all_tx bs (fst w) of
        (Inl k, evs, out) \<Rightarrow> (Inl (Io k), (evs, snd w @ out))
      | (Inr _, evs, out) \<Rightarrow> (Inr (), (evs, snd w @ out)))"

subsection \<open>Resolving paths\<close>

fun lookup_components :: "FileHandle \<Rightarrow> string list \<Rightarrow> FileHandle cl" where
  "lookup_components current [] = ret current"
| "lookup_components current (component # rest) =
     bnd (with_nfs (nfs3_lookup current component)) (\<lambda>r. lookup_components (lr_object r) rest)"

definition resolve :: "string \<Rightarrow> FileHandle cl" where
  "resolve path =
     bnd (of_result (normalize_path path)) (\<lambda>components.
     bnd (gets cl_root) (\<lambda>root. lookup_components root components))"

definition resolve_parent :: "string \<Rightarrow> (FileHandle \<times> string) cl" where
  "resolve_parent path =
     bnd (of_result (normalize_path path)) (\<lambda>components.
     if components = [] then fail (InvalidPath path)
     else bnd (gets cl_root) (\<lambda>root.
       bnd (lookup_components root (butlast components)) (\<lambda>current. ret (current, last components))))"

subsection \<open>Reading\<close>

text \<open>The checks on a chunk that every reading loop makes: too long, or empty before the end of the
  file. The result is \<open>None\<close> when the loop is to return what it has.\<close>

definition check_chunk :: "u32 \<Rightarrow> ReadResult \<Rightarrow> bytes option result" where
  "check_chunk request chunk =
     (if length (rr_data chunk) > unat request
      then Inl (Protocol ''READ returned {} bytes for a {} byte request''
        [FNat (length (rr_data chunk)), FNat (unat request)])
      else if rr_data chunk = [] then
        if rr_eof chunk then Inr None else Inl (Protocol ''READ returned no data before EOF'' [])
      else Inr (Some (rr_data chunk)))"

definition read_to_end_step :: "FileHandle \<Rightarrow> u64 \<times> bytes \<Rightarrow> (u64 \<times> bytes, bytes) loop_step cl" where
  "read_to_end_step handle = (\<lambda>(offset, out).
     bnd (gets cl_read_size) (\<lambda>read_size.
     bnd (with_nfs (nfs3_read handle offset read_size)) (\<lambda>chunk.
     bnd (of_result (check_chunk read_size chunk)) (\<lambda>data.
     case data of
       None \<Rightarrow> ret (Break out)
     | Some data \<Rightarrow>
         bnd (of_result (advance_offset offset (length data) ''READ'')) (\<lambda>offset.
         ret (if rr_eof chunk then Break (out @ data) else Continue (offset, out @ data)))))))"

lemma check_chunk_Some:
  "check_chunk n chunk = Inr (Some data) \<longleftrightarrow> data = rr_data chunk \<and> data \<noteq> [] \<and> length data \<le> unat n"
  by (auto simp: check_chunk_def)

lemma check_chunk_None:
  "check_chunk n chunk = Inr None \<longleftrightarrow> rr_data chunk = [] \<and> rr_eof chunk"
  by (auto simp: check_chunk_def)

lemma advance_offset_Inr:
  "advance_offset offset n operation = Inr offset' \<longleftrightarrow>
     unat offset + n < 2 ^ 64 \<and> unat offset' = unat offset + n"
proof -
  have "unat offset' = unat offset + n \<longleftrightarrow> offset' = offset + of_nat n" if "unat offset + n < 2 ^ 64"
    using that by (auto simp: word_unat_eq_iff unat_word_ariths unat_of_nat)
  then show ?thesis
    by (auto simp: advance_offset_def bindR_Inr_iff u64_try_from_def checked_add_u64_def ok_or_def unat_of_nat
        split: if_splits option.splits)
qed

text \<open>How far an offset is from the end of the range of \<open>u64\<close>.\<close>

definition room :: "u64 \<Rightarrow> nat" where
  "room offset = 2 ^ 64 - unat offset"

lemma advance_offset_less:
  assumes "advance_offset offset n operation = Inr offset'" "0 < n"
  shows "room offset' < room offset"
  using assms unfolding advance_offset_Inr room_def by linarith

lemma read_to_end_step_Inr:
  assumes "read_to_end_step handle (offset, out) c = (Inr st, c')"
  obtains chunk where
    "with_nfs (nfs3_read handle offset (cl_read_size c)) c = (Inr chunk, c')"
    "rr_data chunk = []" "rr_eof chunk" "st = Break out"
  | chunk offset' where
    "with_nfs (nfs3_read handle offset (cl_read_size c)) c = (Inr chunk, c')"
    "rr_data chunk \<noteq> []" "advance_offset offset (length (rr_data chunk)) ''READ'' = Inr offset'"
    "st = (if rr_eof chunk then Break (out @ rr_data chunk) else Continue (offset', out @ rr_data chunk))"
proof -
  from assms obtain chunk data c1 where
    1: "with_nfs (nfs3_read handle offset (cl_read_size c)) c = (Inr chunk, c1)"
      "check_chunk (cl_read_size c) chunk = Inr data"
    and 2: "(case data of
       None \<Rightarrow> ret (Break out)
     | Some data \<Rightarrow>
         bnd (of_result (advance_offset offset (length data) ''READ'')) (\<lambda>offset.
         ret (if rr_eof chunk then Break (out @ data) else Continue (offset, out @ data)))) c1 = (Inr st, c')"
    by (auto simp: read_to_end_step_def bnd_Inr_iff gets_apply of_result_apply)
  show thesis
  proof (cases data)
    case None
    with 1 2 that(1) show ?thesis by (simp add: check_chunk_None ret_apply)
  next
    case (Some bs)
    with 1 2 that(2) show ?thesis
      by (auto simp: check_chunk_Some bnd_Inr_iff of_result_apply ret_apply)
  qed
qed

lemma read_to_end_shrinks:
  assumes "read_to_end_step handle (offset, out) c = (Inr (Continue (offset', out')), c')"
  shows "room offset' < room offset"
  using assms
  by (cases rule: read_to_end_step_Inr) (auto split: if_splits intro: advance_offset_less)

function read_to_end_loop :: "FileHandle \<Rightarrow> u64 \<times> bytes \<Rightarrow> bytes cl" where
  "read_to_end_loop handle v c =
     (case read_to_end_step handle v c of
        (Inl e, c') \<Rightarrow> (Inl e, c')
      | (Inr (Continue v'), c') \<Rightarrow> read_to_end_loop handle v' c'
      | (Inr (Break out), c') \<Rightarrow> (Inr out, c'))"
  by pat_completeness auto
termination
  by (relation "measure (\<lambda>(handle, v, c). room (fst v))")
    (auto intro: read_to_end_shrinks [OF sym])

declare read_to_end_loop.simps [simp del]

interpretation rtel: body_loop "read_to_end_step handle" "read_to_end_loop handle"
  "\<lambda>v _. room (fst v)" for handle
  by unfold_locales (rule read_to_end_loop.simps, auto intro: read_to_end_shrinks)

definition read_handle_to_end :: "FileHandle \<Rightarrow> bytes cl" where
  "read_handle_to_end handle = read_to_end_loop handle (0, [])"

subsubsection \<open>Into a writer\<close>

definition read_to_writer_step :: "FileHandle \<Rightarrow> u64 \<times> u64 \<Rightarrow>
    (Client \<times> local_writer, error, (u64 \<times> u64, u64) loop_step) op" where
  "read_to_writer_step handle = (\<lambda>(offset, total).
     bnd (on_fst (gets cl_read_size)) (\<lambda>read_size.
     bnd (on_fst (with_nfs (nfs3_read handle offset read_size))) (\<lambda>chunk.
     bnd (of_result (check_chunk read_size chunk)) (\<lambda>data.
     case data of
       None \<Rightarrow> ret (Break total)
     | Some data \<Rightarrow>
         bnd (on_snd (writer_write_all data)) (\<lambda>_.
         bnd (of_result (advance_offset offset (length data) ''READ'')) (\<lambda>offset.
         bnd (of_result (advance_offset total (length data) ''READ total'')) (\<lambda>total.
         ret (if rr_eof chunk then Break total else Continue (offset, total)))))))))"

lemma read_to_writer_shrinks:
  assumes "read_to_writer_step handle (offset, n) s = (Inr (Continue (offset', n')), s')"
  shows "room offset' < room offset"
proof -
  from assms have "\<exists>chunk :: ReadResult. rr_data chunk \<noteq> [] \<and>
      advance_offset offset (length (rr_data chunk)) ''READ'' = Inr offset'"
    by (cases s)
      (auto simp: read_to_writer_step_def bnd_Inr_iff on_fst_Inr on_snd_Inr gets_apply of_result_apply
        ret_apply check_chunk_Some split: option.splits if_splits)
  then show ?thesis by (auto intro: advance_offset_less)
qed

function read_to_writer_loop :: "FileHandle \<Rightarrow> u64 \<times> u64 \<Rightarrow> (Client \<times> local_writer, error, u64) op" where
  "read_to_writer_loop handle v s =
     (case read_to_writer_step handle v s of
        (Inl e, s') \<Rightarrow> (Inl e, s')
      | (Inr (Continue v'), s') \<Rightarrow> read_to_writer_loop handle v' s'
      | (Inr (Break n), s') \<Rightarrow> (Inr n, s'))"
  by pat_completeness auto
termination
  by (relation "measure (\<lambda>(handle, v, s). room (fst v))")
    (auto intro: read_to_writer_shrinks [OF sym])

declare read_to_writer_loop.simps [simp del]

interpretation rtwl: body_loop "read_to_writer_step handle" "read_to_writer_loop handle"
  "\<lambda>v _. room (fst v)" for handle
  by unfold_locales (rule read_to_writer_loop.simps, auto intro: read_to_writer_shrinks)

definition read_handle_to_writer :: "FileHandle \<Rightarrow> (Client \<times> local_writer, error, u64) op" where
  "read_handle_to_writer handle = read_to_writer_loop handle (0, 0)"

subsubsection \<open>A range\<close>

text \<open>\<open>remaining -= chunk.data.len() as u64\<close> cannot underflow: the chunk is at most the request, which
  is at most \<open>remaining\<close>.\<close>

definition read_range_step :: "FileHandle \<Rightarrow> u64 \<times> u64 \<times> u64 \<Rightarrow>
    (Client \<times> local_writer, error, (u64 \<times> u64 \<times> u64, u64) loop_step) op" where
  "read_range_step handle = (\<lambda>(offset, remaining, total).
     if remaining = 0 then ret (Break total)
     else
       bnd (on_fst (gets cl_read_size)) (\<lambda>read_size.
       let request = ucast (min (ucast read_size) remaining) in
       bnd (on_fst (with_nfs (nfs3_read handle offset request))) (\<lambda>chunk.
       bnd (of_result (check_chunk request chunk)) (\<lambda>data.
       case data of
         None \<Rightarrow> ret (Break total)
       | Some data \<Rightarrow>
           bnd (on_snd (writer_write_all data)) (\<lambda>_.
           bnd (of_result (advance_offset offset (length data) ''READ'')) (\<lambda>offset.
           bnd (of_result (advance_offset total (length data) ''READ total'')) (\<lambda>total.
           ret (if rr_eof chunk then Break total
                else Continue (offset, remaining - of_nat (length data), total)))))))))"

lemma unat_request:
  "unat (ucast (min (ucast n) remaining) :: u32) = min (unat n) (unat remaining)"
  for n :: u32 and remaining :: u64
proof -
  have n: "unat (ucast n :: u64) = unat n"
    using unat_u32_less [of n] by (simp add: unsigned_ucast_eq take_bit_nat_eq_self)
  then have m: "unat (min (ucast n) remaining) = min (unat n) (unat remaining)"
    by (simp add: min_def word_le_nat_alt)
  have "unat (ucast (min (ucast n) remaining) :: u32) = unat (min (ucast n) remaining)"
    using unat_u32_less [of n] m by (simp add: unsigned_ucast_eq take_bit_nat_eq_self)
  with m show ?thesis by simp
qed

lemma unat_sub_len:
  fixes remaining :: u64
  assumes "n \<le> unat remaining"
  shows "unat (remaining - of_nat n) = unat remaining - n"
proof -
  have "unat (of_nat n :: u64) = n"
    using assms unsigned_less [of remaining, where ?'a = nat] by (simp add: unat_of_nat)
  with assms show ?thesis by (simp add: unat_sub word_le_nat_alt)
qed

lemma read_range_shrinks:
  assumes "read_range_step handle (offset, left, n) s =
      (Inr (Continue (offset', left', n')), s')"
  shows "unat left' < unat left"
proof -
  obtain c w where s: "s = (c, w)" by (cases s) auto
  let ?request = "ucast (min (ucast (cl_read_size c)) left) :: u32"
  from assms s have "\<exists>chunk :: ReadResult. rr_data chunk \<noteq> [] \<and> length (rr_data chunk) \<le> unat ?request \<and>
      left' = left - of_nat (length (rr_data chunk))"
    by (auto simp: read_range_step_def bnd_Inr_iff on_fst_Inr on_snd_Inr gets_apply of_result_apply
        ret_apply check_chunk_Some Let_def split: option.splits if_splits)
  then obtain data :: bytes where data: "data \<noteq> []" "length data \<le> unat ?request"
      "left' = left - of_nat (length data)"
    by blast
  then have len: "length data \<le> unat left" by (simp add: unat_request)
  have "0 < length data" using data(1) by simp
  with len show ?thesis unfolding data(3) unat_sub_len [OF len] by linarith
qed

function read_range_loop :: "FileHandle \<Rightarrow> u64 \<times> u64 \<times> u64 \<Rightarrow> (Client \<times> local_writer, error, u64) op" where
  "read_range_loop handle v s =
     (case read_range_step handle v s of
        (Inl e, s') \<Rightarrow> (Inl e, s')
      | (Inr (Continue v'), s') \<Rightarrow> read_range_loop handle v' s'
      | (Inr (Break n), s') \<Rightarrow> (Inr n, s'))"
  by pat_completeness auto
termination
  by (relation "measure (\<lambda>(handle, v, s). unat (fst (snd v)))")
    (auto intro: read_range_shrinks [OF sym])

declare read_range_loop.simps [simp del]

interpretation rrgl: body_loop "read_range_step handle" "read_range_loop handle"
  "\<lambda>v _. unat (fst (snd v))" for handle
  by unfold_locales (rule read_range_loop.simps, auto intro: read_range_shrinks)

definition read_handle_range_to_writer :: "FileHandle \<Rightarrow> u64 \<Rightarrow> u64 \<Rightarrow>
    (Client \<times> local_writer, error, u64) op" where
  "read_handle_range_to_writer handle offset count = read_range_loop handle (offset, count, 0)"

text \<open>A \<open>Vec\<close> as writer takes everything.\<close>

definition read_handle_range :: "FileHandle \<Rightarrow> u64 \<Rightarrow> u64 \<Rightarrow> bytes cl" where
  "read_handle_range handle offset count =
     bnd (run_fst ([], []) (read_handle_range_to_writer handle offset count)) (\<lambda>(_, (_, out)). ret out)"

definition read_handle_at :: "FileHandle \<Rightarrow> u64 \<Rightarrow> u32 \<Rightarrow> bytes cl" where
  "read_handle_at handle offset count = read_handle_range handle offset (ucast count)"

subsection \<open>Writing\<close>

definition commit_chunk :: "FileHandle \<Rightarrow> u64 \<Rightarrow> StableHow \<Rightarrow> WriteResult \<Rightarrow> unit cl" where
  "commit_chunk handle offset stability r =
     (if \<not> satisfies (wr_committed r) stability then
        bnd (with_nfs (nfs3_commit handle offset (wr_count r))) (\<lambda>commit.
        if ct_verifier commit \<noteq> wr_verifier r
        then fail (Protocol ''COMMIT verifier changed after unstable WRITE'' [])
        else ret ())
      else ret ())"

definition write_all_step :: "FileHandle \<Rightarrow> StableHow \<Rightarrow> u64 \<times> bytes \<Rightarrow>
    (u64 \<times> bytes, unit) loop_step cl" where
  "write_all_step handle stability = (\<lambda>(offset, data).
     if data = [] then ret (Break ())
     else
       bnd (gets cl_write_size) (\<lambda>write_size.
       let chunk_len = min (length data) (unat write_size) in
       bnd (with_nfs (nfs3_write handle offset stability (take chunk_len data))) (\<lambda>r.
       if wr_count r = 0 then fail (Protocol ''WRITE accepted zero bytes'' [])
       else
         let written = unat (wr_count r) in
         if written > chunk_len
         then fail (Protocol ''WRITE reported {} bytes for a {} byte request''
           [FNat written, FNat chunk_len])
         else
           bnd (commit_chunk handle offset stability r) (\<lambda>_.
           bnd (of_result (advance_offset offset written ''WRITE'')) (\<lambda>offset.
           ret (Continue (offset, drop written data)))))))"

lemma write_all_step_Continue:
  assumes "write_all_step handle stability (offset, data) c = (Inr (Continue (offset', data')), c')"
  obtains r :: WriteResult and c1 where "data \<noteq> []"
    "with_nfs (nfs3_write handle offset stability (take (min (length data) (unat (cl_write_size c))) data)) c =
      (Inr r, c1)"
    "commit_chunk handle offset stability r c1 = (Inr (), c')"
    "wr_count r \<noteq> 0" "unat (wr_count r) \<le> min (length data) (unat (cl_write_size c))"
    "data' = drop (unat (wr_count r)) data" "unat offset + unat (wr_count r) < 2 ^ 64"
    "unat offset' = unat offset + unat (wr_count r)"
  using assms
  by (auto simp: write_all_step_def bnd_Inr_iff gets_apply of_result_apply ret_apply fail_apply Let_def
      not_less advance_offset_Inr split: if_splits)

lemma write_all_step_Break:
  "write_all_step handle stability (offset, data) c = (Inr (Break u), c') \<longleftrightarrow> data = [] \<and> c' = c"
  by (auto simp: write_all_step_def bnd_Inr_iff gets_apply of_result_apply ret_apply fail_apply Let_def
      split: if_splits)

lemma write_all_shrinks:
  assumes "write_all_step handle stability (offset, data) c = (Inr (Continue (offset', data')), c')"
  shows "length data' < length data"
  using assms by (rule write_all_step_Continue) (simp add: unat_gt_0)

function write_all_loop :: "FileHandle \<Rightarrow> StableHow \<Rightarrow> u64 \<times> bytes \<Rightarrow> unit cl" where
  "write_all_loop handle stability v c =
     (case write_all_step handle stability v c of
        (Inl e, c') \<Rightarrow> (Inl e, c')
      | (Inr (Continue v'), c') \<Rightarrow> write_all_loop handle stability v' c'
      | (Inr (Break u), c') \<Rightarrow> (Inr u, c'))"
  by pat_completeness auto
termination
  by (relation "measure (\<lambda>(handle, stability, v, c). length (snd v))")
    (auto intro: write_all_shrinks [OF sym])

declare write_all_loop.simps [simp del]

interpretation wal: body_loop "write_all_step handle stability" "write_all_loop handle stability"
  "\<lambda>v _. length (snd v)" for handle stability
  by unfold_locales (rule write_all_loop.simps, auto intro: write_all_shrinks)

definition write_handle_all :: "FileHandle \<Rightarrow> u64 \<Rightarrow> bytes \<Rightarrow> StableHow \<Rightarrow> unit cl" where
  "write_handle_all handle offset data stability = write_all_loop handle stability (offset, data)"

subsubsection \<open>From a reader\<close>

definition write_reader_step :: "FileHandle \<Rightarrow> StableHow \<Rightarrow> u64 \<times> u64 \<Rightarrow>
    (Client \<times> local_reader, error, (u64 \<times> u64, u64) loop_step) op" where
  "write_reader_step handle stability = (\<lambda>(offset, written).
     bnd (on_fst (gets cl_write_size)) (\<lambda>write_size.
     bnd (on_snd (reader_read (unat write_size))) (\<lambda>buffer.
     if buffer = [] then ret (Break written)
     else
       bnd (on_fst (write_handle_all handle offset buffer stability)) (\<lambda>_.
       bnd (of_result (advance_offset offset (length buffer) ''WRITE reader'')) (\<lambda>offset.
       bnd (of_result (advance_offset written (length buffer) ''WRITE reader total'')) (\<lambda>written.
       ret (Continue (offset, written))))))))"

lemma write_reader_step_Continue:
  assumes "write_reader_step handle stability (offset, written) (c, rd) = (Inr (Continue (offset', written')), (c', rd'))"
  obtains buffer where "reader_read (unat (cl_write_size c)) rd = (Inr buffer, rd')" "buffer \<noteq> []"
    "write_handle_all handle offset buffer stability c = (Inr (), c')"
    "advance_offset offset (length buffer) ''WRITE reader'' = Inr offset'"
    "advance_offset written (length buffer) ''WRITE reader total'' = Inr written'"
  using assms
  by (auto simp: write_reader_step_def bnd_Inr_iff on_fst_Inr on_snd_Inr gets_apply of_result_apply ret_apply
      split: if_splits)

lemma write_reader_shrinks:
  assumes "write_reader_step handle stability (offset, written) s = (Inr (Continue (offset', written')), s')"
  shows "room offset' < room offset"
proof (cases s; cases s')
  fix c rd c' rd'
  assume "s = (c, rd)" "s' = (c', rd')"
  with assms show ?thesis
    by (auto elim!: write_reader_step_Continue intro: advance_offset_less)
qed

function write_reader_loop :: "FileHandle \<Rightarrow> StableHow \<Rightarrow> u64 \<times> u64 \<Rightarrow>
    (Client \<times> local_reader, error, u64) op" where
  "write_reader_loop handle stability v s =
     (case write_reader_step handle stability v s of
        (Inl e, s') \<Rightarrow> (Inl e, s')
      | (Inr (Continue v'), s') \<Rightarrow> write_reader_loop handle stability v' s'
      | (Inr (Break n), s') \<Rightarrow> (Inr n, s'))"
  by pat_completeness auto
termination
  by (relation "measure (\<lambda>(handle, stability, v, s). room (fst v))")
    (auto intro: write_reader_shrinks [OF sym])

declare write_reader_loop.simps [simp del]

interpretation wrl: body_loop "write_reader_step handle stability" "write_reader_loop handle stability"
  "\<lambda>v _. room (fst v)" for handle stability
  by unfold_locales (rule write_reader_loop.simps, auto intro: write_reader_shrinks)

definition write_handle_from_reader_at :: "FileHandle \<Rightarrow> u64 \<Rightarrow> StableHow \<Rightarrow>
    (Client \<times> local_reader, error, u64) op" where
  "write_handle_from_reader_at handle offset stability = write_reader_loop handle stability (offset, 0)"

definition write_handle_from_reader :: "FileHandle \<Rightarrow> StableHow \<Rightarrow>
    (Client \<times> local_reader, error, u64) op" where
  "write_handle_from_reader handle stability = write_handle_from_reader_at handle 0 stability"

subsection \<open>Copying\<close>

definition copy_step :: "FileHandle \<Rightarrow> FileHandle \<Rightarrow> StableHow \<Rightarrow> u64 \<Rightarrow> (u64, u64) loop_step cl" where
  "copy_step source target stability offset =
     bnd (gets cl_read_size) (\<lambda>read_size.
     bnd (with_nfs (nfs3_read source offset read_size)) (\<lambda>chunk.
     bnd (of_result (check_chunk read_size chunk)) (\<lambda>data.
     case data of
       None \<Rightarrow> ret (Break offset)
     | Some data \<Rightarrow>
         bnd (write_handle_all target offset data stability) (\<lambda>_.
         bnd (of_result (advance_offset offset (length data) ''COPY'')) (\<lambda>offset.
         ret (if rr_eof chunk then Break offset else Continue offset))))))"

lemma copy_step_Inr:
  assumes "copy_step source target stability offset c = (Inr st, c')"
  obtains chunk where
    "with_nfs (nfs3_read source offset (cl_read_size c)) c = (Inr chunk, c')"
    "rr_data chunk = []" "rr_eof chunk" "st = Break offset"
  | chunk c1 offset' where
    "with_nfs (nfs3_read source offset (cl_read_size c)) c = (Inr chunk, c1)" "rr_data chunk \<noteq> []"
    "write_handle_all target offset (rr_data chunk) stability c1 = (Inr (), c')"
    "advance_offset offset (length (rr_data chunk)) ''COPY'' = Inr offset'"
    "st = (if rr_eof chunk then Break offset' else Continue offset')"
proof -
  from assms obtain chunk data c1 where
    1: "with_nfs (nfs3_read source offset (cl_read_size c)) c = (Inr chunk, c1)"
      "check_chunk (cl_read_size c) chunk = Inr data"
    and 2: "(case data of
       None \<Rightarrow> ret (Break offset)
     | Some data \<Rightarrow>
         bnd (write_handle_all target offset data stability) (\<lambda>_.
         bnd (of_result (advance_offset offset (length data) ''COPY'')) (\<lambda>offset.
         ret (if rr_eof chunk then Break offset else Continue offset)))) c1 = (Inr st, c')"
    by (auto simp: copy_step_def bnd_Inr_iff gets_apply of_result_apply)
  show thesis
  proof (cases data)
    case None
    with 1 2 that(1) show ?thesis by (simp add: check_chunk_None ret_apply)
  next
    case (Some bs)
    with 1 2 that(2) show ?thesis
      by (auto simp: check_chunk_Some bnd_Inr_iff of_result_apply ret_apply)
  qed
qed

lemma copy_shrinks:
  assumes "copy_step source target stability offset c = (Inr (Continue offset'), c')"
  shows "room offset' < room offset"
  using assms
  by (cases rule: copy_step_Inr) (auto split: if_splits intro: advance_offset_less)

function copy_loop :: "FileHandle \<Rightarrow> FileHandle \<Rightarrow> StableHow \<Rightarrow> u64 \<Rightarrow> u64 cl" where
  "copy_loop source target stability offset c =
     (case copy_step source target stability offset c of
        (Inl e, c') \<Rightarrow> (Inl e, c')
      | (Inr (Continue offset'), c') \<Rightarrow> copy_loop source target stability offset' c'
      | (Inr (Break n), c') \<Rightarrow> (Inr n, c'))"
  by pat_completeness auto
termination
  by (relation "measure (\<lambda>(source, target, stability, offset, c). room offset)")
    (auto intro: copy_shrinks [OF sym])

declare copy_loop.simps [simp del]

interpretation cpl: body_loop "copy_step source target stability" "copy_loop source target stability"
  "\<lambda>offset _. room offset" for source target stability
  by unfold_locales (rule copy_loop.simps, rule copy_shrinks)

definition copy_handles :: "FileHandle \<Rightarrow> FileHandle \<Rightarrow> StableHow \<Rightarrow> u64 cl" where
  "copy_handles source target stability = copy_loop source target stability 0"

end
