(* ===== verification/V3_Evolve.thy ===== *)
theory V3_Evolve
  imports V3_Io
begin

text \<open>
  What every operation of the NFSv3 client does to the client: the configuration stays as it is, nothing
  sent is taken back, the peer's data is only consumed, and a client whose connection is unusable is not
  touched at all. \<open>rpc_evolves\<close> says so of one connection and \<open>evolves\<close> of the client; both are
  proved along the structure of the operations. A successful request consumes at least four bytes of
  what arrives, which is the measure of the loops that a server could otherwise keep running.
\<close>

subsection \<open>One connection\<close>

definition rpc_left :: "RpcClient \<Rightarrow> nat" where
  "rpc_left c = rx_size (rx (rpc_stream c))"

definition rpc_evolves :: "RpcClient \<Rightarrow> RpcClient \<Rightarrow> bool" where
  "rpc_evolves c c' \<longleftrightarrow>
     rpc_auth c' = rpc_auth c \<and> rpc_max_record_size c' = rpc_max_record_size c \<and>
     (\<exists>more. sent (rpc_stream c') = sent (rpc_stream c) @ more) \<and> rpc_left c' \<le> rpc_left c"

lemma reflp_rpc_evolves [keeps_intros]: "reflp rpc_evolves"
  by (auto simp: reflp_def rpc_evolves_def)

lemma transp_rpc_evolves [keeps_intros]: "transp rpc_evolves"
  by (rule transpI) (auto simp: rpc_evolves_def)

lemma rpc_evolves_read_exact [keeps_intros]: "keeps rpc_evolves (with_stream (read_exact n))"
proof (rule keepsI)
  fix c r c'
  assume a: "with_stream (read_exact n) c = (r, c')"
  obtain q evs where q: "read_exact_rx n (rx (rpc_stream c)) = (q, evs)" by fastforce
  have "c' = c\<lparr>rpc_stream := (rpc_stream c)\<lparr>rx := evs\<rparr>\<rparr>"
    using a q by (auto simp: with_stream_def read_exact_def split: sum.splits)
  then show "rpc_evolves c c'"
    using read_exact_rx_size [OF q] by (simp add: rpc_evolves_def rpc_left_def)
qed

lemma rpc_evolves_read_fragment: "keeps rpc_evolves (read_fragment buf)"
  unfolding read_fragment_def Let_def by (intro keeps_intros)

lemma rpc_evolves_read_record [keeps_intros]: "keeps rpc_evolves read_record"
  unfolding read_record_def
  by (rule rrl.keeps_loop) (simp_all add: rpc_evolves_read_fragment reflp_rpc_evolves transp_rpc_evolves)

lemma rpc_evolves_write_record [keeps_intros]: "keeps rpc_evolves (write_record payload)"
  by (rule keepsI, elim write_record_sends_prefix) (simp add: rpc_evolves_def send_def rpc_left_def)

lemma rpc_evolves_flags [keeps_intros]:
  "rpc_evolves c (c\<lparr>rpc_interrupted := b\<rparr>)" "rpc_evolves c (c\<lparr>rpc_xid := x\<rparr>)"
  by (simp_all add: rpc_evolves_def rpc_left_def)

lemma rpc_evolves_call [keeps_intros]: "keeps rpc_evolves (rpc_call program version procedure args)"
proof -
  have "keeps rpc_evolves next_xid"
    by (rule keepsI) (simp add: next_xid_eq rpc_evolves_def rpc_left_def)
  moreover have "keeps rpc_evolves (case decode_reply xid reply of
         Inr payload \<Rightarrow> bnd (modify (\<lambda>c. c\<lparr>rpc_interrupted := False\<rparr>)) (\<lambda>_. ret payload)
       | Inl err \<Rightarrow>
           (case err of
              RpcDenied _ _ \<Rightarrow> bnd (modify (\<lambda>c. c\<lparr>rpc_interrupted := False\<rparr>)) (\<lambda>_. fail err)
            | RpcAcceptedError _ \<Rightarrow>
                bnd (modify (\<lambda>c. c\<lparr>rpc_interrupted := False\<rparr>)) (\<lambda>_. fail err)
            | RpcProgramMismatch _ _ \<Rightarrow>
                bnd (modify (\<lambda>c. c\<lparr>rpc_interrupted := False\<rparr>)) (\<lambda>_. fail err)
            | _ \<Rightarrow> fail (OutcomeUnknown err)))" for xid reply
    by (auto split: sum.split error.split intro!: keeps_intros)
  ultimately show ?thesis
    unfolding rpc_call_def by (intro keeps_intros) auto
qed

lemma rpc_call_consumes:
  assumes "rpc_call program version procedure args c = (Inr payload, c')"
  shows "rpc_left c' < rpc_left c"
proof -
  have i: "\<not> rpc_interrupted c" using assms rpc_call_interrupted by (metis prod.inject sum.distinct(1))
  from assms obtain request c1 reply c2 where
    w: "write_record request (c\<lparr>rpc_xid := succ_xid (rpc_xid c), rpc_interrupted := True\<rparr>) = (Inr (), c1)"
    and r: "read_record c1 = (Inr reply, c2)" and c': "c' = c2\<lparr>rpc_interrupted := False\<rparr>"
    unfolding rpc_call_eq [OF i] by (auto simp: Let_def split: sum.splits prod.splits if_splits)
  have "rpc_left c2 < rpc_left c1"
  proof -
    obtain st d where b: "read_fragment [] c1 = (st, d)" by fastforce
    from r b show ?thesis
      unfolding read_record_def read_record_loop.simps [of "[]" c1]
      using read_fragment_shrinks [of "[]" c1]
      by (auto simp: rpc_left_def rpc_evolves_def split: sum.splits loop_step.splits
          dest!: keepsD [OF rrl.keeps_loop [OF reflp_rpc_evolves transp_rpc_evolves rpc_evolves_read_fragment]])
  qed
  moreover have "rpc_left c1 \<le> rpc_left c"
    using keepsD [OF rpc_evolves_write_record w] by (simp add: rpc_evolves_def rpc_left_def)
  ultimately show ?thesis by (simp add: c' rpc_left_def)
qed

subsection \<open>The protocol client\<close>

definition n3_evolves :: "Nfs3Client \<Rightarrow> Nfs3Client \<Rightarrow> bool" where
  "n3_evolves c c' \<longleftrightarrow>
     n3_retry_policy c' = n3_retry_policy c \<and> rpc_evolves (n3_rpc c) (n3_rpc c') \<and>
     (n3_poisoned c \<longrightarrow> c' = c)"

lemma reflp_n3_evolves [keeps_intros]: "reflp n3_evolves"
  using reflp_rpc_evolves by (auto simp: reflp_def n3_evolves_def)

lemma transp_n3_evolves [keeps_intros]: "transp n3_evolves"
  using transp_rpc_evolves by (intro transpI) (auto simp: n3_evolves_def dest: transpD)

lemma n3_evolves_rpc_call [keeps_intros]:
  "keeps n3_evolves (with_rpc (rpc_call program version procedure args))"
proof (rule keepsI)
  fix c r c'
  assume a: "with_rpc (rpc_call program version procedure args) c = (r, c')"
  then have "n3_retry_policy c' = n3_retry_policy c" "rpc_evolves (n3_rpc c) (n3_rpc c')"
    by (auto simp: with_rpc_def split: prod.splits dest: keepsD [OF rpc_evolves_call])
  with a with_rpc_poisoned [of c program version procedure args] show "n3_evolves c c'"
    by (auto simp: n3_evolves_def)
qed

lemma n3_evolves_call [keeps_intros]: "keeps n3_evolves (nfs3_call procedure args)"
proof (rule keepsI)
  fix c r c'
  assume a: "nfs3_call procedure args c = (r, c')"
  define R :: "Nfs3Client \<Rightarrow> Nfs3Client \<Rightarrow> bool" where
    "R = (\<lambda>c c'. n3_retry_policy c' = n3_retry_policy c \<and> rpc_evolves (n3_rpc c) (n3_rpc c'))"
  have R: "reflp R" "transp R"
    using reflp_rpc_evolves transp_rpc_evolves
    by (auto simp: R_def reflp_def intro!: transpI dest: transpD)
  have "keeps R (with_rpc (rpc_call NFS_PROGRAM NFS_VERSION procedure args))"
    by (rule keepsI)
      (auto simp: with_rpc_def R_def split: prod.splits dest: keepsD [OF rpc_evolves_call])
  moreover have "R c (thread_sleep d c)" for c d
    using reflp_rpc_evolves by (simp add: R_def thread_sleep_def reflp_def)
  ultimately have "keeps R (nfs3_call_step procedure args retry)" for retry
    unfolding nfs3_call_step_def by (intro keeps_intros R) simp_all
  then have "keeps R (nfs3_call procedure args)"
    unfolding nfs3_call_def by (intro ncl.keeps_loop R)
  from keepsD [OF this a] nfs3_call_poisoned [of c] a show "n3_evolves c c'"
    by (auto simp: n3_evolves_def R_def)
qed

lemma n3_evolves_decode [keeps_intros]: "reflp R \<Longrightarrow> keeps R (decode_payload m payload)"
  unfolding decode_payload_def by (rule keeps_of_result)

lemmas nfs3_procedure_defs =
  nfs3_null_def nfs3_getattr_def nfs3_setattr_def nfs3_lookup_def nfs3_access_def nfs3_readlink_def
  nfs3_read_def nfs3_write_def nfs3_create_def nfs3_mkdir_def nfs3_symlink_def nfs3_mknod_def
  nfs3_remove_def nfs3_rmdir_def nfs3_rename_def nfs3_link_def nfs3_readdir_def nfs3_readdirplus_def
  nfs3_fsstat_def nfs3_fsinfo_def nfs3_pathconf_def nfs3_commit_def create_like_def wcc_only_def

lemma n3_evolves_procedures [keeps_intros]:
  "keeps n3_evolves nfs3_null" "keeps n3_evolves (nfs3_getattr fh)" "keeps n3_evolves (nfs3_setattr fh sa)"
  "keeps n3_evolves (nfs3_lookup fh name)" "keeps n3_evolves (nfs3_access fh acc)"
  "keeps n3_evolves (nfs3_readlink fh)" "keeps n3_evolves (nfs3_read fh off count)"
  "keeps n3_evolves (nfs3_write fh off st data)" "keeps n3_evolves (nfs3_create fh name how)"
  "keeps n3_evolves (nfs3_mkdir fh name sa)" "keeps n3_evolves (nfs3_symlink fh name tgt sa)"
  "keeps n3_evolves (nfs3_mknod fh name what)" "keeps n3_evolves (nfs3_remove fh name)"
  "keeps n3_evolves (nfs3_rmdir fh name)" "keeps n3_evolves (nfs3_rename fh name fh2 name2)"
  "keeps n3_evolves (nfs3_link fh fh2 name)" "keeps n3_evolves (nfs3_readdir fh cookie verf n)"
  "keeps n3_evolves (nfs3_readdirplus fh cookie verf n m)" "keeps n3_evolves (nfs3_fsstat fh)"
  "keeps n3_evolves (nfs3_fsinfo fh)" "keeps n3_evolves (nfs3_pathconf fh)"
  "keeps n3_evolves (nfs3_commit fh off count)"
  unfolding nfs3_procedure_defs by (intro keeps_intros)+

lemma nfs3_call_step_consumes:
  assumes "nfs3_call_step procedure args retry c = (Inr st, c')"
  shows "rpc_left (n3_rpc c') < rpc_left (n3_rpc c)"
proof -
  from assms obtain payload c1 where
    "with_rpc (rpc_call NFS_PROGRAM NFS_VERSION procedure args) c = (Inr payload, c1)"
    "n3_rpc c' = n3_rpc c1"
    by (auto simp: nfs3_call_step_def bnd_Inr_iff gets_apply ret_apply modify_apply thread_sleep_def
        split: if_splits option.splits)
  with rpc_call_consumes show ?thesis by (auto simp: with_rpc_def split: prod.splits)
qed

lemma nfs3_call_consumes:
  assumes "nfs3_call procedure args c = (Inr payload, c')"
  shows "rpc_left (n3_rpc c') < rpc_left (n3_rpc c)"
  using assms unfolding nfs3_call_def
  by (rule ncl.loop_ok_rule [where I = "\<lambda>_ d. rpc_left (n3_rpc d) \<le> rpc_left (n3_rpc c)"])
    (auto dest!: nfs3_call_step_consumes)

lemma procedure_consumes:
  assumes "bnd (nfs3_call procedure args) (decode_payload m) c = (Inr x, c')"
  shows "rpc_left (n3_rpc c') < rpc_left (n3_rpc c)"
  using assms
  by (auto simp: bnd_Inr_iff decode_payload_def of_result_apply dest: nfs3_call_consumes)

subsection \<open>The path client\<close>

definition evolves :: "Client \<Rightarrow> Client \<Rightarrow> bool" where
  "evolves c c' \<longleftrightarrow> n3_evolves (cl_nfs c) (cl_nfs c') \<and> c'\<lparr>cl_nfs := cl_nfs c\<rparr> = c"

lemma reflp_evolves [keeps_intros]: "reflp evolves"
  using reflp_n3_evolves by (auto simp: reflp_def evolves_def)

lemma evolves_trans:
  assumes "evolves c d" "evolves d e"
  shows "evolves c e"
proof -
  have "n3_evolves (cl_nfs c) (cl_nfs e)"
    using assms transp_n3_evolves by (auto simp: evolves_def dest: transpD)
  moreover have "e\<lparr>cl_nfs := cl_nfs c\<rparr> = d\<lparr>cl_nfs := cl_nfs c\<rparr>"
    using assms(2) by (cases d; cases e) (simp add: evolves_def)
  ultimately show ?thesis using assms(1) by (simp add: evolves_def)
qed

lemma transp_evolves [keeps_intros]: "transp evolves"
  by (rule transpI) (rule evolves_trans)

lemma evolves_with_nfs [keeps_intros]: "keeps n3_evolves m \<Longrightarrow> keeps evolves (with_nfs m)"
  by (rule keepsI) (auto simp: with_nfs_def evolves_def split: prod.splits dest: keepsD)

abbreviation evolves1 :: "Client \<times> 't \<Rightarrow> Client \<times> 't \<Rightarrow> bool" where
  "evolves1 s s' \<equiv> evolves (fst s) (fst s')"

lemma reflp_evolves1 [keeps_intros]: "reflp evolves1"
  using reflp_evolves by (auto simp: reflp_def)

lemma transp_evolves1 [keeps_intros]: "transp evolves1"
  by (rule transpI) (rule evolves_trans)

lemma evolves_on_fst [keeps_intros]: "keeps evolves m \<Longrightarrow> keeps evolves1 (on_fst m)"
  by (rule keepsI) (auto simp: on_fst_def split: prod.splits dest: keepsD)

lemma evolves_on_snd [keeps_intros]: "keeps evolves1 (on_snd m)"
  using reflp_evolves by (intro keepsI) (auto simp: on_snd_def reflp_def split: prod.splits)

lemma evolves_run_fst [keeps_intros]: "keeps evolves1 m \<Longrightarrow> keeps evolves (run_fst t m)"
  by (rule keepsI) (auto simp: run_fst_def split: prod.splits sum.splits dest!: keepsD)

lemma evolves_lookup_components [keeps_intros]: "keeps evolves (lookup_components fh cs)"
  by (induction fh cs rule: lookup_components.induct) (auto intro!: keeps_intros)

lemma evolves_resolve [keeps_intros]: "keeps evolves (resolve path)" "keeps evolves (resolve_parent path)"
  unfolding resolve_def resolve_parent_def by (intro keeps_intros)+

lemma evolves_read_to_end [keeps_intros]: "keeps evolves (read_handle_to_end fh)"
proof -
  have "keeps evolves (read_to_end_step fh v)" for v
    unfolding read_to_end_step_def by (intro keeps_intros)
  then show ?thesis
    unfolding read_handle_to_end_def by (intro rtel.keeps_loop keeps_intros)
qed

lemma evolves_read_to_writer [keeps_intros]: "keeps evolves1 (read_handle_to_writer fh)"
proof -
  have "keeps evolves1 (read_to_writer_step fh v)" for v
    unfolding read_to_writer_step_def by (intro keeps_intros)
  then show ?thesis
    unfolding read_handle_to_writer_def by (intro rtwl.keeps_loop keeps_intros)
qed

lemma evolves_read_range [keeps_intros]:
  "keeps evolves1 (read_handle_range_to_writer fh off n)" "keeps evolves (read_handle_range fh off n)"
  "keeps evolves (read_handle_at fh off k)"
proof -
  have "keeps evolves1 (read_range_step fh v)" for v
    unfolding read_range_step_def Let_def by (intro keeps_intros)
  then show 1: "keeps evolves1 (read_handle_range_to_writer fh off n)" for off n
    unfolding read_handle_range_to_writer_def by (intro rrgl.keeps_loop keeps_intros)
  show 2: "keeps evolves (read_handle_range fh off n)" for off n
    unfolding read_handle_range_def by (intro keeps_intros 1)
  show "keeps evolves (read_handle_at fh off k)"
    unfolding read_handle_at_def by (rule 2)
qed

lemma evolves_write_all [keeps_intros]: "keeps evolves (write_handle_all fh off data st)"
proof -
  have "keeps evolves (write_all_step fh st v)" for v
    unfolding write_all_step_def commit_chunk_def Let_def by (intro keeps_intros)
  then show ?thesis
    unfolding write_handle_all_def by (intro wal.keeps_loop keeps_intros)
qed

lemma evolves_write_reader [keeps_intros]:
  "keeps evolves1 (write_handle_from_reader_at fh off st)" "keeps evolves1 (write_handle_from_reader fh st)"
proof -
  have "keeps evolves1 (write_reader_step fh st v)" for v
    unfolding write_reader_step_def by (intro keeps_intros)
  then show 1: "keeps evolves1 (write_handle_from_reader_at fh off st)" for off
    unfolding write_handle_from_reader_at_def by (intro wrl.keeps_loop keeps_intros)
  show "keeps evolves1 (write_handle_from_reader fh st)"
    unfolding write_handle_from_reader_def by (rule 1)
qed

lemma evolves_copy [keeps_intros]: "keeps evolves (copy_handles src tgt st)"
proof -
  have "keeps evolves (copy_step src tgt st off)" for off
    unfolding copy_step_def by (intro keeps_intros)
  then show ?thesis
    unfolding copy_handles_def by (intro cpl.keeps_loop keeps_intros)
qed

end
