(* ===== verification/V3_Ops.thy ===== *)
theory V3_Ops
  imports V3_Evolve
begin

text \<open>
  The operations of the blocking NFSv3 client on paths (\<open>src/v3/blocking.rs\<close>): queries, attribute changes,
  whole-file and ranged transfers, creation, the atomic writes through a temporary sibling, links, removal
  and renaming. Local readers and writers are threaded explicitly; \<open>temp_name\<close> is what
  \<open>temporary_name()\<close> returns. The octal modes \<open>0o644\<close> and \<open>0o7777\<close> of the source are \<open>0x1A4\<close> and
  \<open>0xFFF\<close>.
\<close>

subsection \<open>Queries\<close>

definition on_resolved :: "string \<Rightarrow> (FileHandle \<Rightarrow> 'a nfs3) \<Rightarrow> 'a cl" where
  "on_resolved path m = bnd (resolve path) (\<lambda>handle. with_nfs (m handle))"

definition path_fsinfo :: "string \<Rightarrow> FsInfo cl" where
  "path_fsinfo path = on_resolved path nfs3_fsinfo"

definition Client_fsstat :: "string \<Rightarrow> FsStat cl" where
  "Client_fsstat path = on_resolved path nfs3_fsstat"

definition Client_pathconf :: "string \<Rightarrow> PathConf cl" where
  "Client_pathconf path = on_resolved path nfs3_pathconf"

definition file_handle :: "string \<Rightarrow> FileHandle cl" where
  "file_handle path = resolve path"

definition parent_file_handle :: "string \<Rightarrow> FileHandle cl" where
  "parent_file_handle path = bnd (resolve_parent path) (\<lambda>(handle, _). ret handle)"

definition Client_getattr :: "string \<Rightarrow> FileAttr cl" where
  "Client_getattr path = on_resolved path nfs3_getattr"

definition metadata :: "string \<Rightarrow> FileAttr cl" where
  "metadata path = Client_getattr path"

definition parent_getattr :: "string \<Rightarrow> FileAttr cl" where
  "parent_getattr path = bnd (parent_file_handle path) (\<lambda>handle. with_nfs (nfs3_getattr handle))"

definition parent_metadata :: "string \<Rightarrow> FileAttr cl" where
  "parent_metadata path = parent_getattr path"

definition Client_file_type :: "string \<Rightarrow> FileType cl" where
  "Client_file_type path = bnd (metadata path) (\<lambda>attr. ret (fa_file_type attr))"

definition is_file :: "string \<Rightarrow> bool cl" where
  "is_file path = bnd (Client_file_type path) (\<lambda>t. ret (FileType_is_file t))"

definition is_dir :: "string \<Rightarrow> bool cl" where
  "is_dir path = bnd (Client_file_type path) (\<lambda>t. ret (FileType_is_dir t))"

definition is_symlink :: "string \<Rightarrow> bool cl" where
  "is_symlink path = bnd (Client_file_type path) (\<lambda>t. ret (FileType_is_symlink t))"

definition Client_access :: "string \<Rightarrow> u32 \<Rightarrow> AccessResult cl" where
  "Client_access path access = on_resolved path (\<lambda>handle. nfs3_access handle access)"

definition Client_lookup :: "string \<Rightarrow> unit cl" where
  "Client_lookup path = bnd (resolve path) (\<lambda>_. ret ())"

definition is_nfs_status :: "NfsStatus \<Rightarrow> error \<Rightarrow> bool" where
  "is_nfs_status status e \<longleftrightarrow> (case e of Nfs _ s \<Rightarrow> s = status | _ \<Rightarrow> False)"

definition exists :: "string \<Rightarrow> bool cl" where
  "exists path =
     match_result (resolve path) (\<lambda>_. ret True)
       (\<lambda>e. if is_nfs_status NfsStatus.NoEnt e then ret False else fail e)"

subsection \<open>Reading\<close>

definition read_file :: "string \<Rightarrow> bytes cl" where
  "read_file path = bnd (resolve path) read_handle_to_end"

definition read_to_writer :: "string \<Rightarrow> (Client \<times> local_writer, error, u64) op" where
  "read_to_writer path = bnd (on_fst (resolve path)) read_handle_to_writer"

definition read_range_to_writer :: "string \<Rightarrow> u64 \<Rightarrow> u64 \<Rightarrow> (Client \<times> local_writer, error, u64) op" where
  "read_range_to_writer path offset count =
     bnd (on_fst (resolve path)) (\<lambda>handle. read_handle_range_to_writer handle offset count)"

definition read_range :: "string \<Rightarrow> u64 \<Rightarrow> u64 \<Rightarrow> bytes cl" where
  "read_range path offset count = bnd (resolve path) (\<lambda>handle. read_handle_range handle offset count)"

definition read_at :: "string \<Rightarrow> u64 \<Rightarrow> u32 \<Rightarrow> bytes cl" where
  "read_at path offset count = bnd (resolve path) (\<lambda>handle. read_handle_at handle offset count)"

definition read_exact_at :: "string \<Rightarrow> u64 \<Rightarrow> u32 \<Rightarrow> bytes cl" where
  "read_exact_at path offset count =
     bnd (read_at path offset count) (\<lambda>data.
     if length data \<noteq> unat count
     then fail (Protocol ''READ returned {} bytes before EOF; expected {}''
       [FNat (length data), FNat (unat count)])
     else ret data)"

definition read_link :: "string \<Rightarrow> string cl" where
  "read_link path = on_resolved path nfs3_readlink"

unbundle bit_operations_syntax

subsection \<open>Creating\<close>

definition handle_from_create_result :: "FileHandle \<Rightarrow> string \<Rightarrow> CreateResult \<Rightarrow> FileHandle cl" where
  "handle_from_create_result parent name r =
     (case cr_object r of
        Some handle \<Rightarrow> ret handle
      | None \<Rightarrow> bnd (with_nfs (nfs3_lookup parent name)) (\<lambda>l. ret (lr_object l)))"

definition create_handle_with_how :: "string \<Rightarrow> CreateHow \<Rightarrow> FileHandle cl" where
  "create_handle_with_how path how =
     bnd (resolve_parent path) (\<lambda>(parent, name).
     bnd (with_nfs (nfs3_create parent name how)) (handle_from_create_result parent name))"

text \<open>The second component of the state is the caller's flag \<open>created\<close>.\<close>

definition create_guarded_handle :: "string \<Rightarrow> u32 \<Rightarrow> (Client \<times> bool, error, FileHandle) op" where
  "create_guarded_handle path mode =
     bnd (on_fst (resolve_parent path)) (\<lambda>(parent, name).
     bnd (on_fst (with_nfs (nfs3_create parent name (Guarded (SetAttr_mode mode))))) (\<lambda>r.
     bnd (on_snd (modify (\<lambda>_. True))) (\<lambda>_.
     on_fst (handle_from_create_result parent name r))))"

definition create_handle_new :: "string \<Rightarrow> u32 \<Rightarrow> FileHandle cl" where
  "create_handle_new path mode =
     bnd (run_fst False (create_guarded_handle path mode)) (\<lambda>(handle, _). ret handle)"

definition create_new :: "string \<Rightarrow> u32 \<Rightarrow> unit cl" where
  "create_new path mode = bnd (create_handle_new path mode) (\<lambda>_. ret ())"

definition create_file :: "string \<Rightarrow> u32 \<Rightarrow> unit cl" where
  "create_file path mode = create_new path mode"

definition create_unchecked :: "string \<Rightarrow> u32 \<Rightarrow> unit cl" where
  "create_unchecked path mode =
     bnd (create_handle_with_how path (Unchecked (SetAttr_default\<lparr>sa_mode := Some mode\<rparr>))) (\<lambda>_. ret ())"

text \<open>Open a path for writing, creating it with the given mode when there is no such file.\<close>

definition resolve_or_create :: "string \<Rightarrow> u32 \<Rightarrow> FileHandle cl" where
  "resolve_or_create path mode =
     match_result (resolve path) ret
       (\<lambda>e. if is_nfs_status NfsStatus.NoEnt e
            then create_handle_with_how path (Unchecked (SetAttr_default\<lparr>sa_mode := Some mode\<rparr>))
            else fail e)"

subsection \<open>Names\<close>

definition Client_mkdir :: "string \<Rightarrow> u32 \<Rightarrow> unit cl" where
  "Client_mkdir path mode =
     bnd (resolve_parent path) (\<lambda>(parent, name).
     bnd (with_nfs (nfs3_mkdir parent name (SetAttr_mode mode))) (\<lambda>_. ret ()))"

definition Client_symlink :: "string \<Rightarrow> string \<Rightarrow> unit cl" where
  "Client_symlink path target =
     bnd (resolve_parent path) (\<lambda>(parent, name).
     bnd (with_nfs (nfs3_symlink parent name target SetAttr_default)) (\<lambda>_. ret ()))"

definition Client_mknod :: "string \<Rightarrow> MknodData \<Rightarrow> unit cl" where
  "Client_mknod path what =
     bnd (resolve_parent path) (\<lambda>(parent, name).
     bnd (with_nfs (nfs3_mknod parent name what)) (\<lambda>_. ret ()))"

definition create_fifo :: "string \<Rightarrow> u32 \<Rightarrow> unit cl" where
  "create_fifo path mode = Client_mknod path (MkFifo (SetAttr_mode mode))"

definition create_socket :: "string \<Rightarrow> u32 \<Rightarrow> unit cl" where
  "create_socket path mode = Client_mknod path (MkSocket (SetAttr_mode mode))"

definition create_block_device :: "string \<Rightarrow> u32 \<Rightarrow> u32 \<Rightarrow> u32 \<Rightarrow> unit cl" where
  "create_block_device path major minor mode =
     Client_mknod path (MkBlockDevice (SetAttr_mode mode) \<lparr>specdata1 = major, specdata2 = minor\<rparr>)"

definition create_character_device :: "string \<Rightarrow> u32 \<Rightarrow> u32 \<Rightarrow> u32 \<Rightarrow> unit cl" where
  "create_character_device path major minor mode =
     Client_mknod path (MkCharacterDevice (SetAttr_mode mode) \<lparr>specdata1 = major, specdata2 = minor\<rparr>)"

definition hard_link :: "string \<Rightarrow> string \<Rightarrow> unit cl" where
  "hard_link existing link =
     bnd (resolve existing) (\<lambda>file.
     bnd (resolve_parent link) (\<lambda>(link_dir, link_name).
     bnd (with_nfs (nfs3_link file link_dir link_name)) (\<lambda>_. ret ())))"

definition remove :: "string \<Rightarrow> unit cl" where
  "remove path =
     bnd (resolve_parent path) (\<lambda>(parent, name).
     bnd (with_nfs (nfs3_remove parent name)) (\<lambda>_. ret ()))"

definition rmdir :: "string \<Rightarrow> unit cl" where
  "rmdir path =
     bnd (resolve_parent path) (\<lambda>(parent, name).
     bnd (with_nfs (nfs3_rmdir parent name)) (\<lambda>_. ret ()))"

definition if_exists :: "unit cl \<Rightarrow> bool cl" where
  "if_exists m = match_result m (\<lambda>_. ret True) (\<lambda>e. if is_not_found e then ret False else fail e)"

definition remove_if_exists :: "string \<Rightarrow> bool cl" where
  "remove_if_exists path = if_exists (remove path)"

definition rmdir_if_exists :: "string \<Rightarrow> bool cl" where
  "rmdir_if_exists path = if_exists (rmdir path)"

definition rename :: "string \<Rightarrow> string \<Rightarrow> unit cl" where
  "rename from to =
     bnd (resolve_parent from) (\<lambda>(from_parent, from_name).
     bnd (resolve_parent to) (\<lambda>(to_parent, to_name).
     bnd (with_nfs (nfs3_rename from_parent from_name to_parent to_name)) (\<lambda>_. ret ())))"

subsection \<open>Attributes\<close>

definition Client_setattr :: "string \<Rightarrow> SetAttr \<Rightarrow> unit cl" where
  "Client_setattr path attr =
     bnd (resolve path) (\<lambda>handle. bnd (with_nfs (nfs3_setattr handle attr)) (\<lambda>_. ret ()))"

definition truncate :: "string \<Rightarrow> u64 \<Rightarrow> unit cl" where
  "truncate path n =
     bnd (resolve path) (\<lambda>handle. bnd (with_nfs (nfs3_setattr handle (SetAttr_size n))) (\<lambda>_. ret ()))"

definition set_mode :: "string \<Rightarrow> u32 \<Rightarrow> unit cl" where
  "set_mode path mode = Client_setattr path (SetAttr_mode mode)"

definition set_uid :: "string \<Rightarrow> u32 \<Rightarrow> unit cl" where
  "set_uid path uid = Client_setattr path (SetAttr_uid uid)"

definition set_gid :: "string \<Rightarrow> u32 \<Rightarrow> unit cl" where
  "set_gid path gid = Client_setattr path (SetAttr_gid gid)"

definition set_ownership :: "string \<Rightarrow> u32 \<Rightarrow> u32 \<Rightarrow> unit cl" where
  "set_ownership path uid gid = Client_setattr path (SetAttr_ownership uid gid)"

definition set_times :: "string \<Rightarrow> NfsTime option \<Rightarrow> NfsTime option \<Rightarrow> unit cl" where
  "set_times path atime mtime = Client_setattr path (SetAttr_times atime mtime)"

definition touch :: "string \<Rightarrow> unit cl" where
  "touch path = Client_setattr path SetAttr_touch"

definition Client_commit :: "string \<Rightarrow> u64 \<Rightarrow> u32 \<Rightarrow> CommitResult cl" where
  "Client_commit path offset count = on_resolved path (\<lambda>handle. nfs3_commit handle offset count)"

subsection \<open>Writing\<close>

definition write_with_stability :: "string \<Rightarrow> bytes \<Rightarrow> StableHow \<Rightarrow> unit cl" where
  "write_with_stability path data stability =
     bnd (resolve_or_create path 0x1A4) (\<lambda>handle.
     bnd (with_nfs (nfs3_setattr handle (SetAttr_size 0))) (\<lambda>_.
     write_handle_all handle 0 data stability))"

definition write_file :: "string \<Rightarrow> bytes \<Rightarrow> unit cl" where
  "write_file path data = write_with_stability path data FileSync"

definition write_from_reader_with_stability :: "string \<Rightarrow> StableHow \<Rightarrow>
    (Client \<times> local_reader, error, u64) op" where
  "write_from_reader_with_stability path stability =
     bnd (on_fst (resolve_or_create path 0x1A4)) (\<lambda>handle.
     bnd (on_fst (with_nfs (nfs3_setattr handle (SetAttr_size 0)))) (\<lambda>_.
     write_handle_from_reader handle stability))"

definition write_from_reader :: "string \<Rightarrow> (Client \<times> local_reader, error, u64) op" where
  "write_from_reader path = write_from_reader_with_stability path FileSync"

definition append_with_stability :: "string \<Rightarrow> bytes \<Rightarrow> StableHow \<Rightarrow> u64 cl" where
  "append_with_stability path data stability =
     bnd (resolve path) (\<lambda>handle.
     bnd (with_nfs (nfs3_getattr handle)) (\<lambda>attr.
     bnd (write_handle_all handle (fa_size attr) data stability) (\<lambda>_.
     of_result (advance_offset 0 (length data) ''APPEND''))))"

definition append_file :: "string \<Rightarrow> bytes \<Rightarrow> u64 cl" where
  "append_file path data = append_with_stability path data FileSync"

definition append_from_reader_with_stability :: "string \<Rightarrow> StableHow \<Rightarrow>
    (Client \<times> local_reader, error, u64) op" where
  "append_from_reader_with_stability path stability =
     bnd (on_fst (resolve path)) (\<lambda>handle.
     bnd (on_fst (with_nfs (nfs3_getattr handle))) (\<lambda>attr.
     write_handle_from_reader_at handle (fa_size attr) stability))"

definition append_from_reader :: "string \<Rightarrow> (Client \<times> local_reader, error, u64) op" where
  "append_from_reader path = append_from_reader_with_stability path FileSync"

definition write_at_with_stability :: "string \<Rightarrow> u64 \<Rightarrow> bytes \<Rightarrow> StableHow \<Rightarrow> unit cl" where
  "write_at_with_stability path offset data stability =
     bnd (resolve path) (\<lambda>handle. write_handle_all handle offset data stability)"

definition write_at :: "string \<Rightarrow> u64 \<Rightarrow> bytes \<Rightarrow> unit cl" where
  "write_at path offset data = write_at_with_stability path offset data FileSync"

subsection \<open>Atomic replacement\<close>

definition finish_with_temp_cleanup :: "'a result \<Rightarrow> bool \<Rightarrow> string \<Rightarrow> string \<Rightarrow> 'a cl" where
  "finish_with_temp_cleanup r created temp cleanup_context c =
     (case r of
        Inr x \<Rightarrow> (Inr x, c)
      | Inl err \<Rightarrow>
          if created
          then (case remove temp c of
                  (cleanup_result, c') \<Rightarrow> (Inl (cleanup_error err cleanup_context cleanup_result), c'))
          else (Inl err, c))"

text \<open>The closure that fills the temporary file, run with \<open>created\<close> false, and the cleanup behind it.
  \<open>'t\<close> is the local reader, if there is one.\<close>

definition through_temporary :: "string \<Rightarrow> string \<Rightarrow> ((Client \<times> 't) \<times> bool, error, 'a) op \<Rightarrow>
    (Client \<times> 't, error, 'a) op" where
  "through_temporary temp cleanup_context body s =
     (case body (s, False) of
        (r, ((c, t), created)) \<Rightarrow>
          (case finish_with_temp_cleanup r created temp cleanup_context c of (r', c') \<Rightarrow> (r', (c', t))))"

definition lift_created :: "(Client \<times> bool, error, 'a) op \<Rightarrow> ((Client \<times> 't) \<times> bool, error, 'a) op" where
  "lift_created m = (\<lambda>((c, t), created). case m (c, created) of (r, (c', created')) \<Rightarrow> (r, ((c', t), created')))"

definition write_atomic_with_mode_and_stability :: "string \<Rightarrow> string \<Rightarrow> bytes \<Rightarrow> u32 \<Rightarrow> StableHow \<Rightarrow>
    unit cl" where
  "write_atomic_with_mode_and_stability temp_name path data mode stability =
     bnd (of_result (temporary_sibling_path temp_name path)) (\<lambda>temp.
     bnd (run_fst () (through_temporary temp ''cleanup REMOVE after failed atomic write''
       (bnd (lift_created (create_guarded_handle temp mode)) (\<lambda>handle.
        bnd (on_fst (on_fst (write_handle_all handle 0 data stability))) (\<lambda>_.
        on_fst (on_fst (rename temp path))))))) (\<lambda>(u, _). ret u))"

definition write_atomic :: "string \<Rightarrow> string \<Rightarrow> bytes \<Rightarrow> unit cl" where
  "write_atomic temp_name path data =
     write_atomic_with_mode_and_stability temp_name path data 0x1A4 FileSync"

definition write_atomic_with_mode :: "string \<Rightarrow> string \<Rightarrow> bytes \<Rightarrow> u32 \<Rightarrow> unit cl" where
  "write_atomic_with_mode temp_name path data mode =
     write_atomic_with_mode_and_stability temp_name path data mode FileSync"

definition write_atomic_with_stability :: "string \<Rightarrow> string \<Rightarrow> bytes \<Rightarrow> StableHow \<Rightarrow> unit cl" where
  "write_atomic_with_stability temp_name path data stability =
     write_atomic_with_mode_and_stability temp_name path data 0x1A4 stability"

definition write_atomic_from_reader_with_mode_and_stability :: "string \<Rightarrow> string \<Rightarrow> u32 \<Rightarrow> StableHow \<Rightarrow>
    (Client \<times> local_reader, error, u64) op" where
  "write_atomic_from_reader_with_mode_and_stability temp_name path mode stability =
     bnd (of_result (temporary_sibling_path temp_name path)) (\<lambda>temp.
     through_temporary temp ''cleanup REMOVE after failed atomic reader write''
       (bnd (lift_created (create_guarded_handle temp mode)) (\<lambda>handle.
        bnd (on_fst (write_handle_from_reader handle stability)) (\<lambda>written.
        bnd (on_fst (on_fst (rename temp path))) (\<lambda>_. ret written)))))"

definition write_atomic_from_reader :: "string \<Rightarrow> string \<Rightarrow> (Client \<times> local_reader, error, u64) op" where
  "write_atomic_from_reader temp_name path =
     write_atomic_from_reader_with_mode_and_stability temp_name path 0x1A4 FileSync"

definition write_atomic_from_reader_with_mode :: "string \<Rightarrow> string \<Rightarrow> u32 \<Rightarrow>
    (Client \<times> local_reader, error, u64) op" where
  "write_atomic_from_reader_with_mode temp_name path mode =
     write_atomic_from_reader_with_mode_and_stability temp_name path mode FileSync"

definition write_atomic_from_reader_with_stability :: "string \<Rightarrow> string \<Rightarrow> StableHow \<Rightarrow>
    (Client \<times> local_reader, error, u64) op" where
  "write_atomic_from_reader_with_stability temp_name path stability =
     write_atomic_from_reader_with_mode_and_stability temp_name path 0x1A4 stability"

subsection \<open>Copying\<close>

definition ensure_distinct_paths :: "string \<Rightarrow> string \<Rightarrow> unit result" where
  "ensure_distinct_paths from to =
     bindR (normalize_path from) (\<lambda>a. bindR (normalize_path to) (\<lambda>b.
     if a = b then Inl (Protocol ''copy source and destination must differ'' []) else Inr ()))"

definition copy_with_stability :: "string \<Rightarrow> string \<Rightarrow> StableHow \<Rightarrow> u64 cl" where
  "copy_with_stability from to stability =
     bnd (of_result (ensure_distinct_paths from to)) (\<lambda>_.
     bnd (resolve from) (\<lambda>source.
     bnd (with_nfs (nfs3_getattr source)) (\<lambda>source_attr.
     bnd (resolve_or_create to (fa_mode source_attr AND 0xFFF)) (\<lambda>target.
     bnd (of_result (ensure_distinct_copy_handles source target)) (\<lambda>_.
     bnd (with_nfs (nfs3_setattr target (SetAttr_size 0))) (\<lambda>_.
     copy_handles source target stability))))))"

definition copy :: "string \<Rightarrow> string \<Rightarrow> u64 cl" where
  "copy from to = copy_with_stability from to FileSync"

definition copy_atomic_with_stability :: "string \<Rightarrow> string \<Rightarrow> string \<Rightarrow> StableHow \<Rightarrow> u64 cl" where
  "copy_atomic_with_stability temp_name from to stability =
     bnd (of_result (ensure_distinct_paths from to)) (\<lambda>_.
     bnd (resolve from) (\<lambda>source.
     bnd (with_nfs (nfs3_getattr source)) (\<lambda>source_attr.
     bnd (of_result (temporary_sibling_path temp_name to)) (\<lambda>temp.
     bnd (run_fst () (through_temporary temp ''cleanup REMOVE after failed atomic copy''
       (bnd (lift_created (create_guarded_handle temp (fa_mode source_attr AND 0xFFF))) (\<lambda>target.
        bnd (on_fst (on_fst (copy_handles source target stability))) (\<lambda>copied.
        bnd (on_fst (on_fst (rename temp to))) (\<lambda>_. ret copied)))))) (\<lambda>(copied, _). ret copied)))))"

definition copy_atomic :: "string \<Rightarrow> string \<Rightarrow> string \<Rightarrow> u64 cl" where
  "copy_atomic temp_name from to = copy_atomic_with_stability temp_name from to FileSync"

end
