(* ===== verification/V3_Tree.thy ===== *)
theory V3_Tree
  imports V3_Ops
begin

text \<open>
  Directories of the blocking NFSv3 client (\<open>src/v3/blocking.rs\<close>): listing with READDIRPLUS and its
  fallback READDIR, pages of a listing, \<open>create_dir_all\<close> and the recursive \<open>remove_all\<close>.

  The listing loop ends because every batch but the last brings entries and their number is limited. The
  removal loop works on an explicit stack and could be kept busy by a server that invents new entries;
  every turn consumes a reply, so it ends with whatever the server sends.
\<close>

subsection \<open>Listing\<close>

definition read_batch :: "FileHandle \<Rightarrow> u64 \<Rightarrow> bytes \<Rightarrow> ReadDirResult cl" where
  "read_batch dir cookie cookieverf =
     bnd (gets cl_dir_size) (\<lambda>dir_size.
     match_result (with_nfs (nfs3_readdirplus dir cookie cookieverf dir_size dir_size)) ret
       (\<lambda>e. if is_nfs_status NfsStatus.NotSupported e
            then with_nfs (nfs3_readdir dir cookie cookieverf dir_size)
            else fail e))"

definition read_dir_step :: "FileHandle \<Rightarrow> usize \<Rightarrow> DirEntry list \<times> u64 \<times> bytes \<Rightarrow>
    (DirEntry list \<times> u64 \<times> bytes, DirEntry list) loop_step cl" where
  "read_dir_step dir max_entries = (\<lambda>(entries, cookie, cookieverf).
     bnd (read_batch dir cookie cookieverf) (\<lambda>batch.
     bnd (of_result (append_dir_entries entries batch max_entries)) (\<lambda>entries.
     bnd (of_result (next_dir_cursor batch cookie)) (\<lambda>next_cursor.
     ret (case next_cursor of
            Some next \<Rightarrow> Continue (entries, dpc_cookie next, dpc_cookieverf next)
          | None \<Rightarrow> Break entries)))))"

lemma append_dir_entries_Inr:
  assumes "append_dir_entries out batch n = Inr out'" "n < usize_max"
  shows "out' = out @ map dir_entry_of (rd_entries batch)" "length out' \<le> n"
  using assms by (auto simp: append_dir_entries_def saturating_add_usize_def split: if_splits)

lemma next_dir_cursor_Some:
  "next_dir_cursor batch cookie = Inr (Some cur) \<Longrightarrow>
     rd_entries batch \<noteq> [] \<and> \<not> rd_eof batch \<and> dpc_cookie cur \<noteq> cookie \<and>
     dpc_cookie cur = de_cookie (last (rd_entries batch)) \<and> dpc_cookieverf cur = rd_cookieverf batch"
  by (auto simp: next_dir_cursor_def split: if_splits)

lemma next_dir_cursor_None: "next_dir_cursor batch cookie = Inr None \<longleftrightarrow> rd_eof batch"
  by (auto simp: next_dir_cursor_def)

lemma read_dir_step_Inr:
  assumes "read_dir_step dir n (entries, cookie, verf) c = (Inr st, c')"
  obtains batch entries' next_cursor where "read_batch dir cookie verf c = (Inr batch, c')"
    "append_dir_entries entries batch n = Inr entries'" "next_dir_cursor batch cookie = Inr next_cursor"
    "st = (case next_cursor of
       Some next \<Rightarrow> Continue (entries', dpc_cookie next, dpc_cookieverf next) | None \<Rightarrow> Break entries')"
  using assms by (auto simp: read_dir_step_def bnd_Inr_iff of_result_apply ret_apply)

text \<open>The bytes that still arrive are the measure of the loops here.\<close>

definition cl_left :: "Client \<Rightarrow> nat" where
  "cl_left c = rpc_left (n3_rpc (cl_nfs c))"

lemma evolves_left: "keeps evolves m \<Longrightarrow> m c = (r, c') \<Longrightarrow> cl_left c' \<le> cl_left c"
  by (drule (1) keepsD) (simp add: evolves_def n3_evolves_def rpc_evolves_def cl_left_def)

definition consumes :: "'a cl \<Rightarrow> bool" where
  "consumes m \<longleftrightarrow> (\<forall>c x c'. m c = (Inr x, c') \<longrightarrow> cl_left c' < cl_left c)"

lemma consumesD: "consumes m \<Longrightarrow> m c = (Inr x, c') \<Longrightarrow> cl_left c' < cl_left c"
  by (auto simp: consumes_def)

named_theorems consumes_intros "introduction rules for consumes"

lemma consumes_procedure [consumes_intros]:
  "consumes (with_nfs (bnd (nfs3_call procedure args) (decode_payload m)))"
  by (auto simp: consumes_def with_nfs_Inr cl_left_def dest: procedure_consumes)

lemma consumes_bnd1: "consumes m \<Longrightarrow> (\<And>x. keeps evolves (k x)) \<Longrightarrow> consumes (bnd m k)"
  unfolding consumes_def bnd_Inr_iff by (meson evolves_left le_less_trans less_le_trans)

lemma consumes_bnd2: "keeps evolves m \<Longrightarrow> (\<And>x. consumes (k x)) \<Longrightarrow> consumes (bnd m k)"
  unfolding consumes_def bnd_Inr_iff by (meson evolves_left less_le_trans)

lemma consumes_nfs [consumes_intros]:
  "consumes (with_nfs (nfs3_readdirplus fh cookie verf n m))" "consumes (with_nfs (nfs3_readdir fh cookie verf n))"
  "consumes (with_nfs (nfs3_remove fh name))" "consumes (with_nfs (nfs3_rmdir fh name))"
  "consumes (with_nfs (nfs3_getattr fh))" "consumes (with_nfs (nfs3_lookup fh name))"
  unfolding nfs3_readdirplus_def nfs3_readdir_def nfs3_remove_def nfs3_rmdir_def nfs3_getattr_def
    nfs3_lookup_def wcc_only_def
  by (rule consumes_procedure)+

lemma consumes_match_result:
  assumes "consumes m" "keeps evolves m" "\<And>x. keeps evolves (k x)" "\<And>e. consumes (h e)"
  shows "consumes (match_result m k h)"
  unfolding consumes_def
proof (intro allI impI)
  fix c y c'
  assume a: "match_result m k h c = (Inr y, c')"
  obtain q c1 where q: "m c = (q, c1)" by fastforce
  show "cl_left c' < cl_left c"
  proof (cases q)
    case (Inl e)
    with a q have "h e c1 = (Inr y, c')" by (simp add: match_result_def)
    with consumesD [OF assms(4)] evolves_left [OF assms(2) q] show ?thesis by fastforce
  next
    case (Inr x)
    with a q have "k x c1 = (Inr y, c')" by (simp add: match_result_def)
    with evolves_left [OF assms(3)] consumesD [OF assms(1) q [unfolded Inr]] show ?thesis by fastforce
  qed
qed

lemma consumes_if [consumes_intros]: "(b \<Longrightarrow> consumes m) \<Longrightarrow> (\<not> b \<Longrightarrow> consumes n) \<Longrightarrow> consumes (if b then m else n)"
  by simp

lemma consumes_fail [consumes_intros]: "consumes (fail e)"
  by (simp add: consumes_def fail_apply)

lemma evolves_read_batch [keeps_intros]: "keeps evolves (read_batch dir cookie verf)"
  unfolding read_batch_def by (intro keeps_intros)

lemma consumes_read_batch: "consumes (read_batch dir cookie verf)"
  unfolding read_batch_def
  by (intro consumes_bnd2 consumes_match_result consumes_intros keeps_intros)

lemma read_dir_shrinks:
  assumes "read_dir_step dir n v c = (Inr st, c')"
  shows "cl_left c' < cl_left c"
  using assms by (cases v) (auto elim!: read_dir_step_Inr dest: consumesD [OF consumes_read_batch])

function read_dir_loop :: "FileHandle \<Rightarrow> usize \<Rightarrow> DirEntry list \<times> u64 \<times> bytes \<Rightarrow> DirEntry list cl" where
  "read_dir_loop dir max_entries v c =
     (case read_dir_step dir max_entries v c of
        (Inl e, c') \<Rightarrow> (Inl e, c')
      | (Inr (Continue v'), c') \<Rightarrow> read_dir_loop dir max_entries v' c'
      | (Inr (Break entries), c') \<Rightarrow> (Inr entries, c'))"
  by pat_completeness auto
termination
  by (relation "measure (\<lambda>(dir, max_entries, v, c). cl_left c)") (auto intro: read_dir_shrinks [OF sym])

declare read_dir_loop.simps [simp del]

interpretation rdl: body_loop "read_dir_step dir max_entries" "read_dir_loop dir max_entries"
  "\<lambda>_ c. cl_left c" for dir max_entries
  by unfold_locales (rule read_dir_loop.simps, rule read_dir_shrinks)

definition read_dir_with_limit :: "string \<Rightarrow> usize \<Rightarrow> DirEntry list cl" where
  "read_dir_with_limit path max_entries =
     bnd (resolve path) (\<lambda>dir. read_dir_loop dir max_entries ([], 0, replicate 8 0))"

definition read_dir :: "string \<Rightarrow> DirEntry list cl" where
  "read_dir path = bnd (gets cl_max_dir_entries) (read_dir_with_limit path)"

definition read_dir_limited :: "string \<Rightarrow> usize \<Rightarrow> DirEntry list cl" where
  "read_dir_limited path max_entries =
     bnd (of_result (validate_max_dir_entries max_entries)) (\<lambda>_.
     bnd (gets cl_max_dir_entries) (\<lambda>limit. read_dir_with_limit path (min max_entries limit)))"

definition read_dir_page_limited :: "string \<Rightarrow> DirPageCursor option \<Rightarrow> usize \<Rightarrow> DirPage cl" where
  "read_dir_page_limited path cursor max_entries =
     bnd (of_result (validate_max_dir_entries max_entries)) (\<lambda>_.
     bnd (gets cl_max_dir_entries) (\<lambda>limit.
     bnd (resolve path) (\<lambda>dir.
     let cursor = (case cursor of None \<Rightarrow> DirPageCursor_default | Some cur \<Rightarrow> cur) in
     bnd (read_batch dir (dpc_cookie cursor) (dpc_cookieverf cursor)) (\<lambda>batch.
     of_result (dir_page_from_batch batch (dpc_cookie cursor) (min max_entries limit))))))"

definition read_dir_page :: "string \<Rightarrow> DirPageCursor option \<Rightarrow> DirPage cl" where
  "read_dir_page path cursor =
     bnd (gets cl_max_dir_entries) (\<lambda>limit. read_dir_page_limited path cursor limit)"

subsection \<open>Creating directories\<close>

definition ensure_directory :: "string \<Rightarrow> FileHandle \<Rightarrow> FileAttr option \<Rightarrow> unit cl" where
  "ensure_directory path handle attr =
     bnd (case attr of Some attr \<Rightarrow> ret attr | None \<Rightarrow> with_nfs (nfs3_getattr handle)) (\<lambda>attr.
     if fa_file_type attr = Directory then ret ()
     else fail (Protocol ''{} exists but is not a directory'' [FStr path]))"

definition enter_directory :: "FileHandle \<Rightarrow> string \<Rightarrow> string \<Rightarrow> LookupResult \<Rightarrow> FileHandle cl" where
  "enter_directory current current_path component l =
     bnd (ensure_directory current_path (lr_object l) (lr_object_attributes l)) (\<lambda>_. ret (lr_object l))"

definition make_component :: "u32 \<Rightarrow> FileHandle \<Rightarrow> string \<Rightarrow> string \<Rightarrow> FileHandle cl" where
  "make_component mode current current_path component =
     match_result (with_nfs (nfs3_lookup current component))
       (enter_directory current current_path component)
       (\<lambda>e. if is_nfs_status NfsStatus.NoEnt e then
              match_result (with_nfs (nfs3_mkdir current component (SetAttr_mode mode)))
                (\<lambda>created.
                   case cr_object created of
                     Some handle \<Rightarrow> ret handle
                   | None \<Rightarrow> bnd (with_nfs (nfs3_lookup current component)) (\<lambda>l. ret (lr_object l)))
                (\<lambda>e. if is_nfs_status NfsStatus.Exist e
                     then bnd (with_nfs (nfs3_lookup current component))
                       (enter_directory current current_path component)
                     else fail e)
            else fail e)"

fun make_components :: "u32 \<Rightarrow> FileHandle \<Rightarrow> string \<Rightarrow> string list \<Rightarrow> unit cl" where
  "make_components mode current current_path [] = ret ()"
| "make_components mode current current_path (component # rest) =
     (let current_path = join_path current_path component in
      bnd (make_component mode current current_path component) (\<lambda>current.
      make_components mode current current_path rest))"

definition create_dir_all :: "string \<Rightarrow> u32 \<Rightarrow> unit cl" where
  "create_dir_all path mode =
     bnd (of_result (normalize_path path)) (\<lambda>components.
     bnd (gets cl_root) (\<lambda>root. make_components mode root ''/'' components))"

subsection \<open>Removing trees\<close>

datatype RemoveTask = Visit string "FileType option" | RemoveDir string

text \<open>The stack is a list whose head is the end of the vector. The children of a directory are pushed in
  reverse, so the first of them is visited first.\<close>

definition child_task :: "string \<Rightarrow> DirEntry \<Rightarrow> RemoveTask" where
  "child_task path entry =
     Visit (join_path path (den_name entry)) (map_option fa_file_type (den_attributes entry))"

definition child_tasks :: "string \<Rightarrow> DirEntry list \<Rightarrow> RemoveTask list" where
  "child_tasks path entries =
     map (child_task path) (filter (\<lambda>e. den_name e \<noteq> ''.'' \<and> den_name e \<noteq> ''..'') entries)"

definition remove_task :: "RemoveTask \<Rightarrow> RemoveTask list \<Rightarrow> RemoveTask list cl" where
  "remove_task task stack =
     (case task of
        Visit path file_type \<Rightarrow>
          bnd (case file_type of
                 Some file_type \<Rightarrow> ret file_type
               | None \<Rightarrow> bnd (metadata path) (\<lambda>attr. ret (fa_file_type attr))) (\<lambda>file_type.
          if file_type = Directory
          then bnd (read_dir path) (\<lambda>entries. ret (child_tasks path entries @ RemoveDir path # stack))
          else bnd (remove path) (\<lambda>_. ret stack))
      | RemoveDir path \<Rightarrow> bnd (rmdir path) (\<lambda>_. ret stack))"

definition remove_step :: "RemoveTask list \<Rightarrow> (RemoveTask list, unit) loop_step cl" where
  "remove_step stack =
     (case stack of
        [] \<Rightarrow> ret (Break ())
      | task # stack \<Rightarrow> bnd (remove_task task stack) (\<lambda>stack. ret (Continue stack)))"

lemma evolves_read_dir [keeps_intros]:
  "keeps evolves (read_dir_with_limit path n)" "keeps evolves (read_dir path)"
  "keeps evolves (read_dir_limited path n)" "keeps evolves (read_dir_page_limited path cur n)"
  "keeps evolves (read_dir_page path cur)"
proof -
  have "keeps evolves (read_dir_step dir n v)" for dir n v
    unfolding read_dir_step_def by (intro keeps_intros)
  then have "keeps evolves (read_dir_loop dir n v)" for dir n v
    by (intro rdl.keeps_loop keeps_intros)
  then show 1: "keeps evolves (read_dir_with_limit path n)" for n
    unfolding read_dir_with_limit_def by (intro keeps_intros)
  show "keeps evolves (read_dir path)" "keeps evolves (read_dir_limited path n)"
    unfolding read_dir_def read_dir_limited_def by (intro keeps_intros 1)+
  show 2: "keeps evolves (read_dir_page_limited path cur n)" for n
    unfolding read_dir_page_limited_def Let_def by (intro keeps_intros)
  show "keeps evolves (read_dir_page path cur)"
    unfolding read_dir_page_def by (intro keeps_intros 2)
qed

lemma evolves_queries [keeps_intros]:
  "keeps evolves (metadata path)" "keeps evolves (remove path)" "keeps evolves (rmdir path)"
  unfolding metadata_def Client_getattr_def on_resolved_def remove_def rmdir_def
  by (intro keeps_intros)+

lemma consumes_read_dir: "consumes (read_dir path)"
proof -
  have "consumes (read_dir_loop dir n v)" for dir n v
    unfolding consumes_def
  proof (intro allI impI)
    fix c es c'
    assume "read_dir_loop dir n v c = (Inr es, c')"
    then show "cl_left c' < cl_left c"
      by (rule rdl.loop_ok_rule [where I = "\<lambda>_ d. cl_left d \<le> cl_left c"])
        (auto dest!: read_dir_shrinks)
  qed
  then show ?thesis
    unfolding read_dir_def read_dir_with_limit_def by (intro consumes_bnd2 keeps_intros)
qed

lemma consumes_removal: "consumes (remove path)" "consumes (rmdir path)"
  unfolding remove_def rmdir_def
  by (intro consumes_bnd2 keeps_intros; (split prod.split, intro allI impI consumes_bnd1 consumes_intros
      keeps_intros))+

lemma evolves_remove_task [keeps_intros]: "keeps evolves (remove_task task stack)"
  unfolding remove_task_def by (cases task) (auto intro!: keeps_intros)

lemma consumes_remove_task: "consumes (remove_task task stack)"
proof (cases task)
  case (Visit path file_type)
  show ?thesis
    unfolding remove_task_def Visit RemoveTask.case
    by (intro consumes_bnd2 consumes_if consumes_bnd1 consumes_read_dir consumes_removal keeps_intros)
next
  case (RemoveDir path)
  show ?thesis
    unfolding remove_task_def RemoveDir RemoveTask.case
    by (intro consumes_bnd1 consumes_removal keeps_intros)
qed

lemma remove_shrinks:
  assumes "remove_step stack c = (Inr (Continue stack'), c')"
  shows "cl_left c' < cl_left c"
  using assms
  by (auto simp: remove_step_def bnd_Inr_iff ret_apply split: list.splits
      dest: consumesD [OF consumes_remove_task])

function remove_loop :: "RemoveTask list \<Rightarrow> unit cl" where
  "remove_loop stack c =
     (case remove_step stack c of
        (Inl e, c') \<Rightarrow> (Inl e, c')
      | (Inr (Continue stack'), c') \<Rightarrow> remove_loop stack' c'
      | (Inr (Break u), c') \<Rightarrow> (Inr u, c'))"
  by pat_completeness auto
termination
  by (relation "measure (\<lambda>(stack, c). cl_left c)") (auto intro: remove_shrinks [OF sym])

declare remove_loop.simps [simp del]

interpretation rml: body_loop remove_step remove_loop "\<lambda>_ c. cl_left c"
  by unfold_locales (rule remove_loop.simps, rule remove_shrinks)

definition remove_all :: "string \<Rightarrow> unit cl" where
  "remove_all path =
     bnd (of_result (normalize_path path)) (\<lambda>components.
     if components = [] then fail (InvalidPath path)
     else
       bnd (metadata path) (\<lambda>attr. remove_loop [Visit path (Some (fa_file_type attr))]))"

definition remove_all_if_exists :: "string \<Rightarrow> bool cl" where
  "remove_all_if_exists path = if_exists (remove_all path)"

end
