(* ===== verification/V3_Refine.thy ===== *)
theory V3_Refine
  imports V3_Tree
begin

text \<open>
  What the loops of the NFSv3 client promise, over abstract files. \<open>read_run\<close>, \<open>write_run\<close>, \<open>copy_run\<close>
  and \<open>list_run\<close> are the runs of requests that the server acknowledged, one rule per request; the loops
  succeed exactly along such runs. A file is its bytes, and \<open>splice\<close> is the effect of an acknowledged
  write on it, with zeros in a hole; the acknowledged writes of a successful transfer have together the
  effect of one write of the whole data.
\<close>

subsection \<open>Successful loops\<close>

context body_loop
begin

lemma loop_Inr_iff:
  "loop l s = (Inr a, s') \<longleftrightarrow>
     body l s = (Inr (Break a), s') \<or>
     (\<exists>l1 s1. body l s = (Inr (Continue l1), s1) \<and> loop l1 s1 = (Inr a, s'))"
  unfolding loop_unfold [of l s] by (auto split: prod.splits sum.splits loop_step.splits)

lemma loop_run_iff:
  assumes "\<And>l s. run l s a s' \<longleftrightarrow>
      body l s = (Inr (Break a), s') \<or> (\<exists>l1 s1. body l s = (Inr (Continue l1), s1) \<and> run l1 s1 a s')"
  shows "loop l s = (Inr a, s') \<longleftrightarrow> run l s a s'"
proof (induction l s rule: loop_induct)
  case (1 l s)
  then show ?case unfolding loop_Inr_iff [of l s] assms [of l s] by blast
qed

end

subsection \<open>Files\<close>

type_synonym contents = bytes

definition pad_to :: "nat \<Rightarrow> contents \<Rightarrow> contents" where
  "pad_to n f = f @ replicate (n - length f) 0"

definition splice :: "nat \<Rightarrow> bytes \<Rightarrow> contents \<Rightarrow> contents" where
  "splice off data f =
     (if data = [] then f else take off (pad_to off f) @ data @ drop (off + length data) f)"

lemma length_pad_to [simp]: "length (pad_to n f) = max n (length f)"
  by (simp add: pad_to_def max_def)

lemma splice_Nil [simp]: "splice off [] f = f"
  by (simp add: splice_def)

lemma take_pad_to: "length (take n (pad_to n f)) = n"
  by simp

lemma pad_to_enough: "n \<le> length f \<Longrightarrow> pad_to n f = f"
  by (simp add: pad_to_def)

text \<open>Two adjacent writes are one write.\<close>

lemma splice_append:
  "splice (off + length a) b (splice off a f) = splice off (a @ b) f"
proof (cases "a = [] \<or> b = []")
  case True
  then show ?thesis by auto
next
  case False
  let ?g = "take off (pad_to off f) @ a @ drop (off + length a) f"
  have "off + length a \<le> length ?g" by simp
  then have "take (off + length a) (pad_to (off + length a) ?g) = take off (pad_to off f) @ a"
    by (simp add: pad_to_enough)
  moreover have "drop (off + length a + length b) ?g = drop (off + length (a @ b)) f"
    by (simp add: ac_simps)
  ultimately show ?thesis using False by (simp add: splice_def add.assoc)
qed

lemma splice_contents: "take (length data) (drop off (splice off data f)) = data"
  by (simp add: splice_def)

lemma splice_whole: "splice 0 data [] = data"
  by (simp add: splice_def pad_to_def)

definition apply_writes :: "(nat \<times> bytes) list \<Rightarrow> contents \<Rightarrow> contents" where
  "apply_writes ws f = foldl (\<lambda>f (off, data). splice off data f) f ws"

lemma apply_writes_simps [simp]:
  "apply_writes [] f = f" "apply_writes ((off, data) # ws) f = apply_writes ws (splice off data f)"
  "apply_writes (us @ ws) f = apply_writes ws (apply_writes us f)"
  by (simp_all add: apply_writes_def)

subsection \<open>Writing\<close>

text \<open>One acknowledged WRITE: the server took the first \<open>n\<close> bytes of the chunk it was offered, and they
  are as stable as asked for, or a COMMIT of them answered with the same verifier.\<close>

definition acked_write :: "FileHandle \<Rightarrow> StableHow \<Rightarrow> u64 \<Rightarrow> bytes \<Rightarrow> nat \<Rightarrow> Client \<Rightarrow> Client \<Rightarrow> bool" where
  "acked_write handle stability offset data n c c' \<longleftrightarrow>
     (\<exists>r c1.
        with_nfs (nfs3_write handle offset stability (take (min (length data) (unat (cl_write_size c))) data)) c =
          (Inr r, c1) \<and>
        n = unat (wr_count r) \<and> 0 < n \<and> n \<le> length data \<and>
        (if satisfies (wr_committed r) stability then c' = c1
         else \<exists>k. with_nfs (nfs3_commit handle offset (wr_count r)) c1 = (Inr k, c') \<and>
           ct_verifier k = wr_verifier r))"

inductive write_run :: "FileHandle \<Rightarrow> StableHow \<Rightarrow> u64 \<Rightarrow> bytes \<Rightarrow> Client \<Rightarrow> (nat \<times> bytes) list \<Rightarrow> Client \<Rightarrow> bool"
  for handle stability where
  finished: "write_run handle stability offset [] c [] c"
| acked: "acked_write handle stability offset data n c c1 \<Longrightarrow> unat offset + n < 2 ^ 64 \<Longrightarrow>
    write_run handle stability (offset + of_nat n) (drop n data) c1 ws c' \<Longrightarrow>
    write_run handle stability offset data c ((unat offset, take n data) # ws) c'"

inductive_simps write_run_unfold: "write_run handle stability offset data c ws c'"

lemma acked_write_length: "acked_write handle stability offset data n c c' \<Longrightarrow> 0 < n \<and> n \<le> length data"
  by (auto simp: acked_write_def)

lemma write_run_Nil_iff: "write_run handle stability offset [] c ws c' \<longleftrightarrow> ws = [] \<and> c' = c"
  by (subst write_run_unfold) (auto dest!: acked_write_length)

lemma unat_offset_add: "unat offset + n < 2 ^ 64 \<Longrightarrow> unat (offset + of_nat n) = unat offset + n"
  for offset :: u64
  by (simp add: unat_word_ariths unat_of_nat)

lemma write_run_splice:
  "write_run handle stability offset data c ws c' \<Longrightarrow> apply_writes ws f = splice (unat offset) data f"
proof (induction arbitrary: f rule: write_run.induct)
  case (acked offset data n c c1 ws c')
  have n: "n \<le> length data" using acked.hyps(1) by (auto simp: acked_write_def)
  have "apply_writes ((unat offset, take n data) # ws) f =
      splice (unat offset + n) (drop n data) (splice (unat offset) (take n data) f)"
    using acked.IH acked.hyps(2) by (simp add: unat_offset_add)
  also have "\<dots> = splice (unat offset) data f"
    using splice_append [of "unat offset" "take n data" "drop n data" f] n by simp
  finally show ?case .
qed simp

lemma write_run_data: "write_run handle stability offset data c ws c' \<Longrightarrow> concat (map snd ws) = data"
  by (induction rule: write_run.induct) simp_all

lemma satisfies_commit:
  "commit_chunk handle offset stability r c1 = (Inr u, c') \<longleftrightarrow>
     (if satisfies (wr_committed r) stability then c' = c1
      else \<exists>k. with_nfs (nfs3_commit handle offset (wr_count r)) c1 = (Inr k, c') \<and> ct_verifier k = wr_verifier r)"
  by (auto simp: commit_chunk_def bnd_Inr_iff ret_apply fail_apply split: if_splits)

lemma with_nfs_write_count:
  assumes "with_nfs (nfs3_write handle offset stability chunk) c = (Inr r, c1)"
  shows "unat (wr_count r) \<le> length chunk"
  using assms nfs3_write_ok(1) by (auto simp: with_nfs_Inr)

lemma write_all_step_acked:
  "write_all_step handle stability (offset, data) c = (Inr (Continue v), c') \<longleftrightarrow>
     (\<exists>n. acked_write handle stability offset data n c c' \<and> unat offset + n < 2 ^ 64 \<and>
        v = (offset + of_nat n, drop n data))"
proof
  assume a: "write_all_step handle stability (offset, data) c = (Inr (Continue v), c')"
  obtain offset' data' where v: "v = (offset', data')" by fastforce
  from a v obtain r c1 where
    r: "with_nfs (nfs3_write handle offset stability (take (min (length data) (unat (cl_write_size c))) data)) c =
      (Inr r, c1)" "commit_chunk handle offset stability r c1 = (Inr (), c')" "wr_count r \<noteq> 0"
    "unat (wr_count r) \<le> min (length data) (unat (cl_write_size c))" "data' = drop (unat (wr_count r)) data"
    "unat offset + unat (wr_count r) < 2 ^ 64" "unat offset' = unat offset + unat (wr_count r)"
    by (auto elim: write_all_step_Continue)
  from r(7) have "offset' = offset + of_nat (unat (wr_count r))"
    using unat_offset_add [OF r(6)] by (simp add: word_unat_eq_iff)
  with r v show "\<exists>n. acked_write handle stability offset data n c c' \<and> unat offset + n < 2 ^ 64 \<and>
        v = (offset + of_nat n, drop n data)"
    unfolding acked_write_def satisfies_commit
    by (intro exI [of _ "unat (wr_count r)"] conjI exI [of _ r] exI [of _ c1]) (auto simp: unat_gt_0)
next
  assume "\<exists>n. acked_write handle stability offset data n c c' \<and> unat offset + n < 2 ^ 64 \<and>
        v = (offset + of_nat n, drop n data)"
  then obtain n r c1 where
    r: "with_nfs (nfs3_write handle offset stability (take (min (length data) (unat (cl_write_size c))) data)) c =
      (Inr r, c1)" "n = unat (wr_count r)" "0 < n" "n \<le> length data"
      "commit_chunk handle offset stability r c1 = (Inr (), c')"
    and v: "unat offset + n < 2 ^ 64" "v = (offset + of_nat n, drop n data)"
    unfolding acked_write_def satisfies_commit by blast
  have "n \<le> min (length data) (unat (cl_write_size c))"
    using with_nfs_write_count [OF r(1)] r(2) by simp
  moreover have "advance_offset offset n ''WRITE'' = Inr (offset + of_nat n)"
    using v(1) by (simp add: advance_offset_Inr unat_offset_add)
  ultimately show "write_all_step handle stability (offset, data) c = (Inr (Continue v), c')"
    using r v by (auto simp: write_all_step_def bnd_apply gets_apply of_result_apply ret_apply Let_def)
qed

lemma write_all_loop_run:
  "write_all_loop handle stability v c = (Inr u, c') \<longleftrightarrow>
     (\<exists>ws. write_run handle stability (fst v) (snd v) c ws c')"
proof (rule wal.loop_run_iff)
  fix v :: "u64 \<times> bytes" and c
  obtain offset data where v: "v = (offset, data)" by fastforce
  show "(\<exists>ws. write_run handle stability (fst v) (snd v) c ws c') \<longleftrightarrow>
      write_all_step handle stability v c = (Inr (Break u), c') \<or>
      (\<exists>v1 c1. write_all_step handle stability v c = (Inr (Continue v1), c1) \<and>
         (\<exists>ws. write_run handle stability (fst v1) (snd v1) c1 ws c'))"
    unfolding v write_all_step_acked write_all_step_Break fst_conv snd_conv
    by (subst write_run_unfold) auto
qed

lemma write_handle_all_run:
  "write_handle_all handle offset data stability c = (Inr (), c') \<longleftrightarrow>
     (\<exists>ws. write_run handle stability offset data c ws c')"
  using write_all_loop_run [of handle stability "(offset, data)" c "()" c'] by (simp add: write_handle_all_def)

subsection \<open>Reading\<close>

text \<open>The READs of a transfer, each with its offset: every one but the last brings data before the end of
  the file, the last is at the end, and it may be empty.\<close>

inductive read_run :: "FileHandle \<Rightarrow> u64 \<Rightarrow> Client \<Rightarrow> (nat \<times> ReadResult) list \<Rightarrow> Client \<Rightarrow> bool"
  for handle where
  at_end: "with_nfs (nfs3_read handle offset (cl_read_size c)) c = (Inr r, c') \<Longrightarrow> rr_eof r \<Longrightarrow>
    unat offset + length (rr_data r) < 2 ^ 64 \<Longrightarrow> read_run handle offset c [(unat offset, r)] c'"
| more: "with_nfs (nfs3_read handle offset (cl_read_size c)) c = (Inr r, c1) \<Longrightarrow> \<not> rr_eof r \<Longrightarrow>
    rr_data r \<noteq> [] \<Longrightarrow> unat offset + length (rr_data r) < 2 ^ 64 \<Longrightarrow>
    read_run handle (offset + of_nat (length (rr_data r))) c1 rs c' \<Longrightarrow>
    read_run handle offset c ((unat offset, r) # rs) c'"

inductive_simps read_run_unfold: "read_run handle offset c rs c'"

definition run_data :: "(nat \<times> ReadResult) list \<Rightarrow> bytes" where
  "run_data rs = concat (map (rr_data \<circ> snd) rs)"

lemma run_data_simps [simp]:
  "run_data [] = []" "run_data ((off, r) # rs) = rr_data r @ run_data rs"
  by (simp_all add: run_data_def)

text \<open>A READ at \<open>off\<close> that a server with the file \<open>f\<close> can have answered.\<close>

definition honest :: "contents \<Rightarrow> nat \<times> ReadResult \<Rightarrow> bool" where
  "honest f = (\<lambda>(off, r).
     rr_data r = take (length (rr_data r)) (drop off f) \<and>
     (rr_eof r \<longrightarrow> length f \<le> off + length (rr_data r)))"

lemma honest_at_end:
  assumes "honest f (off, r)" "rr_eof r"
  shows "rr_data r = drop off f"
proof -
  from assms have "rr_data r = take (length (rr_data r)) (drop off f)" "length f - off \<le> length (rr_data r)"
    by (auto simp: honest_def)
  then show ?thesis by simp
qed

lemma honest_append:
  assumes "honest f (off, r)"
  shows "rr_data r @ drop (off + length (rr_data r)) f = drop off f"
proof -
  from assms have "rr_data r = take (length (rr_data r)) (drop off f)" by (simp add: honest_def)
  with append_take_drop_id [of "length (rr_data r)" "drop off f"] show ?thesis
    by (simp add: add.commute)
qed

lemma read_run_honest:
  "read_run handle offset c rs c' \<Longrightarrow> list_all (honest f) rs \<Longrightarrow> run_data rs = drop (unat offset) f"
  by (induction rule: read_run.induct) (simp_all add: honest_at_end honest_append unat_offset_add)

lemma with_nfs_read_length:
  assumes "with_nfs (nfs3_read handle offset n) c = (Inr r, c')"
  shows "length (rr_data r) \<le> unat n"
  using assms nfs3_read_ok by (auto simp: with_nfs_Inr read_result_ok_def word_le_nat_alt)

lemma advance_offset_eq:
  "advance_offset offset n operation = Inr offset' \<longleftrightarrow> unat offset + n < 2 ^ 64 \<and> offset' = offset + of_nat n"
  using unat_offset_add by (auto simp: advance_offset_Inr word_unat_eq_iff)

lemma read_to_end_step_eq:
  "read_to_end_step handle (offset, out) c = (Inr st, c') \<longleftrightarrow>
     (\<exists>r. with_nfs (nfs3_read handle offset (cl_read_size c)) c = (Inr r, c') \<and>
        unat offset + length (rr_data r) < 2 ^ 64 \<and> (rr_data r = [] \<longrightarrow> rr_eof r) \<and>
        st = (if rr_eof r then Break (out @ rr_data r)
              else Continue (offset + of_nat (length (rr_data r)), out @ rr_data r)))"
  (is "?l \<longleftrightarrow> ?r")
proof
  assume ?l
  then show ?r
    using unat_u64_less [of offset]
    by (cases rule: read_to_end_step_Inr) (auto simp: advance_offset_eq)
next
  assume ?r
  then obtain r where r: "with_nfs (nfs3_read handle offset (cl_read_size c)) c = (Inr r, c')"
      "unat offset + length (rr_data r) < 2 ^ 64" "rr_data r = [] \<longrightarrow> rr_eof r"
      "st = (if rr_eof r then Break (out @ rr_data r)
              else Continue (offset + of_nat (length (rr_data r)), out @ rr_data r))"
    by blast
  show ?l
  proof (cases "rr_data r = []")
    case True
    with r show ?thesis
      by (simp add: read_to_end_step_def bnd_apply gets_apply of_result_apply ret_apply check_chunk_def)
  next
    case False
    then have "check_chunk (cl_read_size c) r = Inr (Some (rr_data r))"
      using with_nfs_read_length [OF r(1)] by (simp add: check_chunk_Some)
    moreover have "advance_offset offset (length (rr_data r)) ''READ'' =
        Inr (offset + of_nat (length (rr_data r)))"
      using r(2) by (simp add: advance_offset_eq)
    ultimately show ?thesis using r(1,4)
      by (simp add: read_to_end_step_def bnd_apply gets_apply of_result_apply ret_apply)
  qed
qed

lemma read_to_end_step_Break:
  "read_to_end_step handle (offset, out) c = (Inr (Break res), c') \<longleftrightarrow>
     (\<exists>r. with_nfs (nfs3_read handle offset (cl_read_size c)) c = (Inr r, c') \<and> rr_eof r \<and>
        unat offset + length (rr_data r) < 2 ^ 64 \<and> res = out @ rr_data r)"
  unfolding read_to_end_step_eq by (auto split: if_splits)

lemma read_to_end_step_Continue:
  "read_to_end_step handle (offset, out) c = (Inr (Continue v), c') \<longleftrightarrow>
     (\<exists>r. with_nfs (nfs3_read handle offset (cl_read_size c)) c = (Inr r, c') \<and> \<not> rr_eof r \<and>
        rr_data r \<noteq> [] \<and> unat offset + length (rr_data r) < 2 ^ 64 \<and>
        v = (offset + of_nat (length (rr_data r)), out @ rr_data r))"
  unfolding read_to_end_step_eq by (auto split: if_splits)

lemma read_to_end_loop_run:
  "read_to_end_loop handle v c = (Inr out, c') \<longleftrightarrow>
     (\<exists>rs. read_run handle (fst v) c rs c' \<and> out = snd v @ run_data rs)"
proof (rule rtel.loop_run_iff)
  fix v :: "u64 \<times> bytes" and c
  obtain offset acc where v: "v = (offset, acc)" by fastforce
  show "(\<exists>rs. read_run handle (fst v) c rs c' \<and> out = snd v @ run_data rs) \<longleftrightarrow>
      read_to_end_step handle v c = (Inr (Break out), c') \<or>
      (\<exists>v1 c1. read_to_end_step handle v c = (Inr (Continue v1), c1) \<and>
         (\<exists>rs. read_run handle (fst v1) c1 rs c' \<and> out = snd v1 @ run_data rs))"
    unfolding v read_to_end_step_Break read_to_end_step_Continue fst_conv snd_conv
    by (subst read_run_unfold) (auto, metis run_data_simps(2))
qed

lemma read_handle_to_end_run:
  "read_handle_to_end handle c = (Inr out, c') \<longleftrightarrow> (\<exists>rs. read_run handle 0 c rs c' \<and> out = run_data rs)"
  using read_to_end_loop_run [of handle "(0, [])" c out c'] by (simp add: read_handle_to_end_def)

text \<open>The file that a transfer reads and the data it returns.\<close>

lemma read_run_whole:
  "read_run handle 0 c rs c' \<Longrightarrow> list_all (honest f) rs \<Longrightarrow> run_data rs = f"
  using read_run_honest [of handle 0 c rs c' f] by simp

subsection \<open>Reading a range\<close>

text \<open>The READs of a range, each for what is left of it or for the read size, until nothing is left or the
  file ends.\<close>

definition range_request :: "u64 \<Rightarrow> Client \<Rightarrow> u32" where
  "range_request left c = ucast (min (ucast (cl_read_size c)) left)"

inductive range_run :: "FileHandle \<Rightarrow> u64 \<Rightarrow> u64 \<Rightarrow> Client \<Rightarrow> (nat \<times> ReadResult) list \<Rightarrow> Client \<Rightarrow> bool"
  for handle where
  nothing_left: "range_run handle offset 0 c [] c"
| at_end: "with_nfs (nfs3_read handle offset (range_request left c)) c = (Inr r, c') \<Longrightarrow> rr_eof r \<Longrightarrow>
    length (rr_data r) \<le> unat left \<Longrightarrow> range_run handle offset left c [(unat offset, r)] c'"
| more: "with_nfs (nfs3_read handle offset (range_request left c)) c = (Inr r, c1) \<Longrightarrow> \<not> rr_eof r \<Longrightarrow>
    length (rr_data r) \<le> unat left \<Longrightarrow> unat offset + length (rr_data r) < 2 ^ 64 \<Longrightarrow>
    range_run handle (offset + of_nat (length (rr_data r))) (left - of_nat (length (rr_data r))) c1 rs c' \<Longrightarrow>
    range_run handle offset left c ((unat offset, r) # rs) c'"

lemma range_run_length: "range_run handle offset left c rs c' \<Longrightarrow> length (run_data rs) \<le> unat left"
  by (induction rule: range_run.induct) (simp_all add: unat_sub_len)

lemma range_run_honest:
  "range_run handle offset left c rs c' \<Longrightarrow> list_all (honest f) rs \<Longrightarrow>
     run_data rs = take (unat left) (drop (unat offset) f)"
proof (induction rule: range_run.induct)
  case (at_end offset left c r c')
  then have "rr_data r = drop (unat offset) f" by (simp add: honest_at_end)
  with at_end.hyps(3) show ?case by simp
next
  case (more offset left c r c1 rs c')
  have h: "rr_data r @ drop (unat offset + length (rr_data r)) f = drop (unat offset) f"
    using more.prems by (simp add: honest_append)
  have "run_data rs = take (unat left - length (rr_data r)) (drop (unat offset + length (rr_data r)) f)"
    using more.IH more.prems more.hyps(3,4) by (simp add: unat_sub_len unat_offset_add)
  then show ?case using more.hyps(3) unfolding h [symmetric] by simp
qed simp

lemma read_range_step_Inr:
  assumes "read_range_step handle (offset, left, n) (c, w) = (Inr st, s')" "left \<noteq> 0"
  obtains (None) r where "with_nfs (nfs3_read handle offset (range_request left c)) c = (Inr r, fst s')" "rr_eof r"
      "rr_data r = []" "snd s' = w" "st = Break n"
  | (Some) r where "with_nfs (nfs3_read handle offset (range_request left c)) c = (Inr r, fst s')"
      "length (rr_data r) \<le> unat left" "writer_write_all (rr_data r) w = (Inr (), snd s')"
      "unat offset + length (rr_data r) < 2 ^ 64" "unat n + length (rr_data r) < 2 ^ 64"
      "st = (if rr_eof r then Break (n + of_nat (length (rr_data r)))
        else Continue (offset + of_nat (length (rr_data r)), left - of_nat (length (rr_data r)),
          n + of_nat (length (rr_data r))))"
proof -
  from assms obtain r data c1 where
    1: "with_nfs (nfs3_read handle offset (range_request left c)) c = (Inr r, c1)"
      "check_chunk (range_request left c) r = Inr data"
    and 2: "(case data of
         None \<Rightarrow> ret (Break n)
       | Some data \<Rightarrow>
           bnd (on_snd (writer_write_all data)) (\<lambda>_.
           bnd (of_result (advance_offset offset (length data) ''READ'')) (\<lambda>offset.
           bnd (of_result (advance_offset n (length data) ''READ total'')) (\<lambda>total.
           ret (if rr_eof r then Break total
                else Continue (offset, left - of_nat (length data), total)))))) (c1, w) = (Inr st, s')"
    by (auto simp: read_range_step_def bnd_Inr_iff gets_apply of_result_apply on_fst_Inr Let_def
        range_request_def)
  show thesis
  proof (cases data)
    case None
    with 1 2 show ?thesis by (intro that(1) [of r]) (auto simp: check_chunk_None ret_apply)
  next
    case (Some bs)
    with 1 2 have b: "bs = rr_data r" "length bs \<le> unat (range_request left c)"
        "writer_write_all bs w = (Inr (), snd s')" "fst s' = c1" "unat offset + length bs < 2 ^ 64"
        "unat n + length bs < 2 ^ 64"
        "st = (if rr_eof r then Break (n + of_nat (length bs))
          else Continue (offset + of_nat (length bs), left - of_nat (length bs), n + of_nat (length bs)))"
      by (auto simp: check_chunk_Some bnd_Inr_iff of_result_apply ret_apply on_snd_Inr advance_offset_eq)
    then have "length bs \<le> unat left" by (simp add: range_request_def unat_request)
    with b 1 show ?thesis by (intro that(2) [of r]) simp_all
  qed
qed

lemma writer_write_all_Inr: "writer_write_all bs w = (Inr (), w') \<Longrightarrow> snd w' = snd w @ bs"
  by (auto simp: writer_write_all_def dest: write_all_tx_Inr split: prod.splits sum.splits)

text \<open>What a run from some loop variables on brings to the writer and to the total.\<close>

definition range_brings :: "FileHandle \<Rightarrow> u64 \<times> u64 \<times> u64 \<Rightarrow> Client \<times> local_writer \<Rightarrow> u64 \<Rightarrow>
    Client \<times> local_writer \<Rightarrow> bool" where
  "range_brings handle = (\<lambda>(offset, left, n) (c, w) n' (c', w').
     \<exists>rs. range_run handle offset left c rs c' \<and> snd w' = snd w @ run_data rs \<and>
       unat n' = unat n + length (run_data rs))"

lemma range_brings_Break:
  assumes "read_range_step handle v s = (Inr (Break n'), s')"
  shows "range_brings handle v s n' s'"
proof -
  obtain offset left n c w c' w' where v: "v = (offset, left, n)" "s = (c, w)" "s' = (c', w')"
    by (metis prod.exhaust)
  show ?thesis
  proof (cases "left = 0")
    case True
    with assms have "n' = n" "c' = c" "w' = w" by (auto simp: v read_range_step_def ret_apply)
    with True show ?thesis
      unfolding range_brings_def v by (auto intro!: exI [of _ "[]"] range_run.nothing_left)
  next
    case False
    from assms [unfolded v] this show ?thesis
      unfolding range_brings_def v prod.case
      by (cases rule: read_range_step_Inr; intro exI [of _ "[(unat offset, _)]"])
        (auto simp: unat_offset_add writer_write_all_Inr split: if_splits intro: range_run.at_end)
  qed
qed

lemma range_brings_Continue:
  assumes "read_range_step handle v s = (Inr (Continue v1), s1)" "range_brings handle v1 s1 n' s'"
  shows "range_brings handle v s n' s'"
proof -
  obtain offset left n c w c' w' where v: "v = (offset, left, n)" "s = (c, w)" "s' = (c', w')"
    by (metis prod.exhaust)
  have "left \<noteq> 0" using assms(1) by (auto simp: v read_range_step_def ret_apply)
  from assms(1) [unfolded v] this show ?thesis
  proof (cases rule: read_range_step_Inr)
    case (Some r)
    with assms(2) obtain rs where
      "range_run handle (offset + of_nat (length (rr_data r))) (left - of_nat (length (rr_data r))) (fst s1) rs c'"
      "snd w' = snd (snd s1) @ run_data rs"
      "unat n' = unat (n + of_nat (length (rr_data r))) + length (run_data rs)"
      by (cases s1) (auto simp: range_brings_def v split: if_splits)
    with Some range_run.more [of handle offset left c r "fst s1" rs c'] show ?thesis
      unfolding range_brings_def v prod.case
      by (intro exI [of _ "(unat offset, r) # rs"])
        (auto simp: unat_offset_add writer_write_all_Inr split: if_splits)
  qed simp
qed

lemma read_range_loop_run: "read_range_loop handle v s = (Inr n', s') \<Longrightarrow> range_brings handle v s n' s'"
proof (induction v s rule: rrgl.loop_induct [of handle])
  case (1 v s)
  then show ?case
    unfolding rrgl.loop_Inr_iff [of handle v s] by (blast intro: range_brings_Break range_brings_Continue)
qed

subsection \<open>Copying\<close>

text \<open>A READ of the source, then the WRITEs that bring its data to the same offset of the target.\<close>

inductive copy_run :: "FileHandle \<Rightarrow> FileHandle \<Rightarrow> StableHow \<Rightarrow> u64 \<Rightarrow> Client \<Rightarrow> (nat \<times> ReadResult) list \<Rightarrow>
    (nat \<times> bytes) list \<Rightarrow> Client \<Rightarrow> bool"
  for source target stability where
  at_end: "with_nfs (nfs3_read source offset (cl_read_size c)) c = (Inr r, c1) \<Longrightarrow> rr_eof r \<Longrightarrow>
    unat offset + length (rr_data r) < 2 ^ 64 \<Longrightarrow> write_run target stability offset (rr_data r) c1 ws c' \<Longrightarrow>
    copy_run source target stability offset c [(unat offset, r)] ws c'"
| more: "with_nfs (nfs3_read source offset (cl_read_size c)) c = (Inr r, c1) \<Longrightarrow> \<not> rr_eof r \<Longrightarrow>
    rr_data r \<noteq> [] \<Longrightarrow> unat offset + length (rr_data r) < 2 ^ 64 \<Longrightarrow>
    write_run target stability offset (rr_data r) c1 ws c2 \<Longrightarrow>
    copy_run source target stability (offset + of_nat (length (rr_data r))) c2 rs ws' c' \<Longrightarrow>
    copy_run source target stability offset c ((unat offset, r) # rs) (ws @ ws') c'"

inductive_simps copy_run_unfold: "copy_run source target stability offset c rs ws c'"

text \<open>What was read is what a single write at the starting offset would have written, whatever the target
  held before.\<close>

lemma copy_run_splice:
  "copy_run source target stability offset c rs ws c' \<Longrightarrow>
     apply_writes ws f = splice (unat offset) (run_data rs) f"
proof (induction arbitrary: f rule: copy_run.induct)
  case (at_end offset c r c1 ws c')
  then show ?case by (simp add: write_run_splice)
next
  case (more offset c r c1 ws c2 rs ws' c')
  then have "apply_writes (ws @ ws') f =
      splice (unat offset + length (rr_data r)) (run_data rs) (splice (unat offset) (rr_data r) f)"
    by (simp add: write_run_splice unat_offset_add)
  then show ?case by (simp add: splice_append)
qed

lemma copy_run_honest:
  "copy_run source target stability offset c rs ws c' \<Longrightarrow> list_all (honest f) rs \<Longrightarrow>
     run_data rs = drop (unat offset) f"
  by (induction rule: copy_run.induct) (simp_all add: honest_at_end honest_append unat_offset_add)

lemma copy_run_whole:
  "copy_run source target stability 0 c rs ws c' \<Longrightarrow> list_all (honest f) rs \<Longrightarrow> run_data rs = f"
  "copy_run source target stability 0 c rs ws c' \<Longrightarrow> apply_writes ws f = splice 0 (run_data rs) f"
  using copy_run_honest [of source target stability 0 c rs ws c' f]
    copy_run_splice [of source target stability 0 c rs ws c' f] by simp_all

lemma copy_run_length:
  "copy_run source target stability offset c rs ws c' \<Longrightarrow> unat offset + length (run_data rs) < 2 ^ 64"
  by (induction rule: copy_run.induct) (simp_all add: unat_offset_add)

lemma copy_step_eq:
  "copy_step source target stability offset c = (Inr st, c') \<longleftrightarrow>
     (\<exists>r c1 ws. with_nfs (nfs3_read source offset (cl_read_size c)) c = (Inr r, c1) \<and>
        write_run target stability offset (rr_data r) c1 ws c' \<and>
        unat offset + length (rr_data r) < 2 ^ 64 \<and> (rr_data r = [] \<longrightarrow> rr_eof r) \<and>
        st = (if rr_eof r then Break else Continue) (offset + of_nat (length (rr_data r))))"
  (is "?l \<longleftrightarrow> ?r")
proof
  assume ?l
  then show ?r
  proof (cases rule: copy_step_Inr)
    case (1 r)
    with unat_u64_less [of offset] show ?thesis
      by (intro exI [of _ r] exI [of _ c'] exI [of _ "[]"]) (simp add: write_run_Nil_iff)
  next
    case (2 r c1 offset')
    then obtain ws where "write_run target stability offset (rr_data r) c1 ws c'"
      by (auto simp: write_handle_all_run)
    with 2 show ?thesis
      by (intro exI [of _ r] exI [of _ c1] exI [of _ ws]) (simp add: advance_offset_eq)
  qed
next
  assume ?r
  then obtain r c1 ws where r: "with_nfs (nfs3_read source offset (cl_read_size c)) c = (Inr r, c1)"
      "write_run target stability offset (rr_data r) c1 ws c'"
      "unat offset + length (rr_data r) < 2 ^ 64" "rr_data r = [] \<longrightarrow> rr_eof r"
      "st = (if rr_eof r then Break else Continue) (offset + of_nat (length (rr_data r)))"
    by blast
  show ?l
  proof (cases "rr_data r = []")
    case True
    with r show ?thesis
      by (simp add: copy_step_def bnd_apply gets_apply of_result_apply ret_apply check_chunk_def
          write_run_Nil_iff)
  next
    case False
    then have "check_chunk (cl_read_size c) r = Inr (Some (rr_data r))"
      using with_nfs_read_length [OF r(1)] by (simp add: check_chunk_Some)
    moreover have "write_handle_all target offset (rr_data r) stability c1 = (Inr (), c')"
      using r(2) by (auto simp: write_handle_all_run)
    moreover have "advance_offset offset (length (rr_data r)) ''COPY'' =
        Inr (offset + of_nat (length (rr_data r)))"
      using r(3) by (simp add: advance_offset_eq)
    ultimately show ?thesis using r(1,5)
      by (simp add: copy_step_def bnd_apply gets_apply of_result_apply ret_apply)
  qed
qed

text \<open>The returned count is the length of the data read.\<close>

lemma copy_loop_run:
  "copy_loop source target stability offset c = (Inr n, c') \<longleftrightarrow>
     (\<exists>rs ws. copy_run source target stability offset c rs ws c' \<and>
        n = offset + of_nat (length (run_data rs)))"
proof (rule cpl.loop_run_iff)
  fix offset c
  show "(\<exists>rs ws. copy_run source target stability offset c rs ws c' \<and>
        n = offset + of_nat (length (run_data rs))) \<longleftrightarrow>
      copy_step source target stability offset c = (Inr (Break n), c') \<or>
      (\<exists>l1 c1. copy_step source target stability offset c = (Inr (Continue l1), c1) \<and>
        (\<exists>rs ws. copy_run source target stability l1 c1 rs ws c' \<and>
          n = l1 + of_nat (length (run_data rs))))" (is "?run \<longleftrightarrow> ?b \<or> ?m")
  proof (intro iffI; (elim disjE)?)
    assume ?run
    then obtain rs ws where "copy_run source target stability offset c rs ws c'"
        "n = offset + of_nat (length (run_data rs))" by blast
    then show "?b \<or> ?m"
      by (cases rule: copy_run.cases) (auto simp: copy_step_eq add.assoc)
  next
    assume ?b
    then obtain r c1 ws where r: "with_nfs (nfs3_read source offset (cl_read_size c)) c = (Inr r, c1)"
        "rr_eof r" "unat offset + length (rr_data r) < 2 ^ 64"
        "write_run target stability offset (rr_data r) c1 ws c'" "n = offset + of_nat (length (rr_data r))"
      unfolding copy_step_eq by (auto split: if_splits)
    from copy_run.at_end [OF r(1-4)] r(5) show ?run
      by (intro exI [of _ "[(unat offset, r)]"] exI [of _ ws]) simp
  next
    assume ?m
    then obtain r c1 ws c2 rs ws' where
      r: "with_nfs (nfs3_read source offset (cl_read_size c)) c = (Inr r, c1)"
        "\<not> rr_eof r" "rr_data r \<noteq> []" "unat offset + length (rr_data r) < 2 ^ 64"
        "write_run target stability offset (rr_data r) c1 ws c2"
        "copy_run source target stability (offset + of_nat (length (rr_data r))) c2 rs ws' c'"
        "n = offset + of_nat (length (rr_data r)) + of_nat (length (run_data rs))"
      unfolding copy_step_eq by (auto split: if_splits)
    from copy_run.more [OF r(1-6)] r(7) show ?run
      by (intro exI [of _ "(unat offset, r) # rs"] exI [of _ "ws @ ws'"]) (simp add: add.assoc)
  qed
qed

lemma copy_handles_run:
  "copy_handles source target stability c = (Inr n, c') \<longleftrightarrow>
     (\<exists>rs ws. copy_run source target stability 0 c rs ws c' \<and> unat n = length (run_data rs))"
proof -
  have "n = of_nat (length (run_data rs)) \<longleftrightarrow> unat n = length (run_data rs)"
    if "copy_run source target stability 0 c rs ws c'" for rs ws
    using copy_run_length [OF that] by (auto simp: word_unat_eq_iff unat_of_nat)
  then show ?thesis unfolding copy_handles_def copy_loop_run by auto
qed

subsection \<open>A server that answers\<close>

text \<open>The replies of a server that sends a file in the given pieces, to the calls that follow the
  transaction id \<open>xid\<close>: one record per READ, the last one marked as the end of the file.\<close>

definition piece :: "bytes \<Rightarrow> bool \<Rightarrow> ReadResult" where
  "piece data eof =
     \<lparr>rr_file_attributes = None, rr_count = of_nat (length data), rr_eof = eof, rr_data = data\<rparr>"

fun file_replies :: "u32 \<Rightarrow> bytes list \<Rightarrow> bytes" where
  "file_replies xid [] = []"
| "file_replies xid (data # pieces) =
     frame [accepted_reply (succ_xid xid) (read_reply_wire (piece data (pieces = [])))] @
     file_replies (succ_xid xid) pieces"

definition idle :: "RpcClient \<Rightarrow> bool" where
  "idle rpc \<longleftrightarrow> \<not> rpc_interrupted rpc \<and> tx (rpc_stream rpc) = [] \<and>
     rpc_max_record_size rpc \<le> usize_max \<and> length (auth_wire (rpc_auth rpc)) < 2 ^ 30"

text \<open>A piece that fits the requests and the limits of the client.\<close>

definition piece_fits :: "Client \<Rightarrow> bytes \<Rightarrow> bool" where
  "piece_fits c data \<longleftrightarrow> data \<noteq> [] \<and> length data \<le> unat (cl_read_size c) \<and> length data \<le> MAX_IO_BYTES \<and>
     length data + 64 \<le> rpc_max_record_size (n3_rpc (cl_nfs c))"

lemma length_read_reply_wire: "length (read_reply_wire (piece data eof)) \<le> 23 + length data"
  by (simp add: read_reply_wire_def piece_def optional_wire_def opaque_wire_def opaque_pad_def bool_wire_def
      padding_len_def)

lemma length_fh_wire: "fh_ok handle \<Longrightarrow> length (fh_wire handle) \<le> 71"
  by (simp add: fh_ok_def fh_wire_def opaque_wire_def opaque_pad_def padding_len_def)

lemma piece_serves:
  assumes "idle (n3_rpc n)" "fh_ok handle" "length data \<le> MAX_IO_BYTES"
    "length data + 64 \<le> rpc_max_record_size (n3_rpc n)"
    "arriving (n3_rpc n) = frame [accepted_reply (succ_xid (rpc_xid (n3_rpc n)))
       (read_reply_wire (piece data eof))] @ rest"
  shows "n3_serves n NFSPROC3_READ (fh_wire handle @ u64_to_be_bytes offset @ u32_to_be_bytes count)
    (read_reply_wire (piece data eof)) rest"
proof -
  have "length (call_wire (succ_xid (rpc_xid (n3_rpc n))) NFS_PROGRAM NFS_VERSION NFSPROC3_READ
      (rpc_auth (n3_rpc n)) (fh_wire handle @ u64_to_be_bytes offset @ u32_to_be_bytes count)) < 2 ^ 31"
    using assms(1) length_fh_wire [OF assms(2)]
    by (simp add: call_wire_def auth_wire_def [of AuthNone] opaque_wire_def opaque_pad_def padding_len_def
        idle_def)
  moreover have "length (accepted_reply (succ_xid (rpc_xid (n3_rpc n))) (read_reply_wire (piece data eof)))
      \<le> rpc_max_record_size (n3_rpc n)"
    using length_read_reply_wire [of data eof] assms(4) by simp
  moreover have "length (accepted_reply (succ_xid (rpc_xid (n3_rpc n))) (read_reply_wire (piece data eof)))
      < 2 ^ 31"
    using length_read_reply_wire [of data eof] assms(3) by (simp add: MAX_IO_BYTES_def)
  ultimately show ?thesis
    unfolding rpc_serves_def
    using assms(1,5) accepted_reply_ok
    by (intro conjI exI [of _ "[accepted_reply (succ_xid (rpc_xid (n3_rpc n)))
      (read_reply_wire (piece data eof))]"]) (simp_all add: idle_def)
qed

lemma piece_ok:
  assumes "data \<noteq> []" "length data \<le> unat count"
  shows "read_result_ok count (piece data eof)"
proof -
  have "unat (of_nat (length data) :: u32) = length data"
    using assms(2) unat_u32_less [of count] by (simp add: unat_of_nat)
  then show ?thesis using assms
    by (auto simp: read_result_ok_def piece_def word_le_nat_alt word_unat_eq_iff)
qed

lemma piece_read:
  assumes "idle (n3_rpc (cl_nfs c))" "fh_ok handle" "piece_fits c data"
    "arriving (n3_rpc (cl_nfs c)) = frame [accepted_reply (succ_xid (rpc_xid (n3_rpc (cl_nfs c))))
       (read_reply_wire (piece data eof))] @ rest"
  obtains n where "with_nfs (nfs3_read handle offset (cl_read_size c)) c = (Inr (piece data eof), c\<lparr>cl_nfs := n\<rparr>)"
    "idle (n3_rpc n)" "arriving (n3_rpc n) = rest" "rpc_xid (n3_rpc n) = succ_xid (rpc_xid (n3_rpc (cl_nfs c)))"
    "rpc_max_record_size (n3_rpc n) = rpc_max_record_size (n3_rpc (cl_nfs c))"
proof -
  have fits: "data \<noteq> []" "length data \<le> unat (cl_read_size c)" "length data \<le> MAX_IO_BYTES"
    "length data + 64 \<le> rpc_max_record_size (n3_rpc (cl_nfs c))"
    using assms(3) by (simp_all add: piece_fits_def)
  have "pred_option attr_ok (rr_file_attributes (piece data eof))" "length (rr_data (piece data eof)) \<le> MAX_IO_BYTES"
    using fits by (simp_all add: piece_def)
  from nfs3_read_served [OF piece_serves [OF assms(1,2) fits(3,4) assms(4), of offset "cl_read_size c"]
      assms(2) this(1) piece_ok [OF fits(1,2)] this(2)]
  obtain n where n: "nfs3_read handle offset (cl_read_size c) (cl_nfs c) = (Inr (piece data eof), n)"
      "n3_after (cl_nfs c) NFSPROC3_READ
        (fh_wire handle @ u64_to_be_bytes offset @ u32_to_be_bytes (cl_read_size c)) rest n"
    by blast
  show thesis
    by (rule that [of n]) (use n assms(1) in \<open>auto simp: with_nfs_def after_call_def idle_def\<close>)
qed

lemma file_replies_run:
  assumes "pieces \<noteq> []" "idle (n3_rpc (cl_nfs c))" "fh_ok handle" "list_all (piece_fits c) pieces"
    "arriving (n3_rpc (cl_nfs c)) = file_replies (rpc_xid (n3_rpc (cl_nfs c))) pieces @ rest"
    "unat offset + length (concat pieces) < 2 ^ 64"
  shows "\<exists>rs c'. read_run handle offset c rs c' \<and> run_data rs = concat pieces \<and>
    idle (n3_rpc (cl_nfs c')) \<and> arriving (n3_rpc (cl_nfs c')) = rest"
  using assms
proof (induction pieces arbitrary: c offset)
  case (Cons data pieces)
  from Cons.prems have fits: "piece_fits c data" by simp
  from Cons.prems(5) have arr: "arriving (n3_rpc (cl_nfs c)) =
      frame [accepted_reply (succ_xid (rpc_xid (n3_rpc (cl_nfs c)))) (read_reply_wire (piece data (pieces = [])))] @
      file_replies (succ_xid (rpc_xid (n3_rpc (cl_nfs c)))) pieces @ rest" by simp
  from piece_read [OF Cons.prems(2,3) fits arr] obtain n where
    n: "with_nfs (nfs3_read handle offset (cl_read_size c)) c = (Inr (piece data (pieces = [])), c\<lparr>cl_nfs := n\<rparr>)"
      "idle (n3_rpc n)" "arriving (n3_rpc n) = file_replies (succ_xid (rpc_xid (n3_rpc (cl_nfs c)))) pieces @ rest"
      "rpc_xid (n3_rpc n) = succ_xid (rpc_xid (n3_rpc (cl_nfs c)))"
      "rpc_max_record_size (n3_rpc n) = rpc_max_record_size (n3_rpc (cl_nfs c))" by blast
  have data: "rr_data (piece data eof) = data" "rr_eof (piece data eof) = eof" for eof
    by (simp_all add: piece_def)
  have len: "unat offset + length (rr_data (piece data (pieces = []))) < 2 ^ 64"
    using Cons.prems(6) by (simp add: data)
  show ?case
  proof (cases "pieces = []")
    case True
    then show ?thesis
      using read_run.at_end [OF n(1) _ len] n by (intro exI conjI) (auto simp: data)
  next
    case False
    let ?c1 = "c\<lparr>cl_nfs := n\<rparr>"
    let ?off = "offset + of_nat (length (rr_data (piece data (pieces = []))))"
    have "list_all (piece_fits ?c1) pieces"
      using Cons.prems(4) n(5) by (simp add: piece_fits_def [abs_def])
    moreover have "unat ?off + length (concat pieces) < 2 ^ 64"
      using Cons.prems(6) unat_offset_add [OF len] by (simp add: data)
    ultimately obtain rs c' where "read_run handle ?off ?c1 rs c'" "run_data rs = concat pieces"
        "idle (n3_rpc (cl_nfs c'))" "arriving (n3_rpc (cl_nfs c')) = rest"
      using Cons.IH [of ?c1 ?off] False Cons.prems(3) n by auto
    with read_run.more [OF n(1) _ _ len] False fits show ?thesis
      by (intro exI [of _ "(unat offset, piece data (pieces = [])) # rs"] exI [of _ c'])
        (simp add: data piece_fits_def)
  qed
qed simp

subsection \<open>What the transfers promise\<close>

text \<open>C24. Writing refines the abstract file: \<open>write_handle_all\<close> succeeds exactly along a run of WRITEs
  that the server acknowledged, each as stable as asked for or committed under the same verifier; and
  these writes together have on any file the effect of a single write of all the data at the offset.\<close>

theorem write_handle_all_refines:
  "write_handle_all handle offset data stability c = (Inr (), c') \<longleftrightarrow>
     (\<exists>ws. write_run handle stability offset data c ws c' \<and> concat (map snd ws) = data \<and>
        (\<forall>f. apply_writes ws f = splice (unat offset) data f))"
  unfolding write_handle_all_run by (auto dest: write_run_data write_run_splice)

text \<open>C25. Reading refines the abstract file: \<open>read_handle_to_end\<close> succeeds exactly along a run of READs at
  consecutive offsets from 0 whose last one is marked as the end of the file, and returns their data. The
  only file that all these answers are consistent with is the data returned.\<close>

theorem read_handle_to_end_refines:
  "read_handle_to_end handle c = (Inr out, c') \<longleftrightarrow>
     (\<exists>rs. read_run handle 0 c rs c' \<and> out = run_data rs \<and> {f. list_all (honest f) rs} \<subseteq> {out})"
  unfolding read_handle_to_end_run by (auto dest: read_run_whole)

text \<open>C26. Copying refines the abstract files: \<open>copy_handles\<close> succeeds exactly along a run that reads the
  source to its end and writes every piece to the same offset of the target. It returns the number of
  bytes read, the only source that the READs are consistent with is the data read, and the writes have on
  any target the effect of a single write of that data at its start.\<close>

theorem copy_handles_refines:
  "copy_handles source target stability c = (Inr n, c') \<longleftrightarrow>
     (\<exists>rs ws. copy_run source target stability 0 c rs ws c' \<and> unat n = length (run_data rs) \<and>
        {f. list_all (honest f) rs} \<subseteq> {run_data rs} \<and>
        (\<forall>g. apply_writes ws g = splice 0 (run_data rs) g))"
  unfolding copy_handles_run by (auto dest: copy_run_whole)

text \<open>C27. A file is read: when the server answers the READs with the pieces of a file, none empty, each within
  the requests and the limits of the client, and marks the last one as the end, then
  \<open>read_handle_to_end\<close> returns the whole file, the connection stays usable, and what arrives behind the
  last reply is left unread.\<close>

theorem read_handle_to_end_live:
  assumes "pieces \<noteq> []" "idle (n3_rpc (cl_nfs c))" "fh_ok handle" "list_all (piece_fits c) pieces"
    "arriving (n3_rpc (cl_nfs c)) = file_replies (rpc_xid (n3_rpc (cl_nfs c))) pieces @ rest"
    "length (concat pieces) < 2 ^ 64"
  shows "\<exists>c'. read_handle_to_end handle c = (Inr (concat pieces), c') \<and> idle (n3_rpc (cl_nfs c')) \<and>
    arriving (n3_rpc (cl_nfs c')) = rest"
  using file_replies_run [OF assms(1-5), of 0] assms(6) unfolding read_handle_to_end_run
  by (auto simp: eq_commute [of "concat pieces"])

definition demo_cl :: "rx_event list \<Rightarrow> Client" where
  "demo_cl evs =
     \<lparr>cl_builder = demo_builder, cl_target = cb_target demo_builder, cl_auth = demo_auth, cl_mount_port = 1,
      cl_root = \<lparr>fh_data = [9]\<rparr>, cl_nfs = demo_nfs3 evs, cl_fsinfo = None, cl_read_size = 4,
      cl_write_size = 4, cl_dir_size = 512, cl_max_dir_entries = 10\<rparr>"

theorem read_handle_to_end_live_witness:
  "\<exists>c'. read_handle_to_end \<lparr>fh_data = [9]\<rparr> (demo_cl [RxData (file_replies 4 [[1, 2, 3], [4]])]) =
     (Inr [1, 2, 3, 4], c')"
proof -
  let ?c = "demo_cl [RxData (file_replies 4 [[1, 2, 3], [4]])]"
  have "idle (n3_rpc (cl_nfs ?c))" "fh_ok \<lparr>fh_data = [9]\<rparr>"
    by (simp_all add: idle_def demo_cl_def auth_wire_def opaque_wire_def opaque_pad_def padding_len_def
        fh_ok_def DEFAULT_MAX_RECORD_SIZE_def usize_max_def)
  moreover have "list_all (piece_fits ?c) [[1, 2, 3], [4]]"
    by (simp add: piece_fits_def demo_cl_def MAX_IO_BYTES_def DEFAULT_MAX_RECORD_SIZE_def)
  moreover have "arriving (n3_rpc (cl_nfs ?c)) =
      file_replies (rpc_xid (n3_rpc (cl_nfs ?c))) [[1, 2, 3], [4]] @ []"
    by (simp add: demo_cl_def del: file_replies.simps)
  ultimately show ?thesis
    using read_handle_to_end_live [of "[[1, 2, 3], [4]]" ?c "\<lparr>fh_data = [9]\<rparr>" "[]"]
    by (auto simp del: file_replies.simps)
qed

text \<open>C28. A range is read within its bounds: a successful \<open>read_handle_range_to_writer\<close> has given the local
  writer exactly the data of READs that start at the offset, follow each other and stay within the range,
  and returns their length, at most the count. When the answers are those of a server with the
  file \<open>f\<close>, this is the part of \<open>f\<close> in the range.\<close>

theorem read_range_within_bounds:
  assumes "read_handle_range_to_writer handle offset count (c, w) = (Inr n, (c', w'))"
  shows "\<exists>rs. range_run handle offset count c rs c' \<and> snd w' = snd w @ run_data rs \<and>
    unat n = length (run_data rs) \<and> unat n \<le> unat count \<and>
    (\<forall>f. list_all (honest f) rs \<longrightarrow> run_data rs = take (unat count) (drop (unat offset) f))"
proof -
  from assms have "range_brings handle (offset, count, 0) (c, w) n (c', w')"
    unfolding read_handle_range_to_writer_def by (rule read_range_loop_run)
  then obtain rs where "range_run handle offset count c rs c'" "snd w' = snd w @ run_data rs"
      "unat n = length (run_data rs)" by (auto simp: range_brings_def)
  with range_run_length range_run_honest show ?thesis by (intro exI [of _ rs]) auto
qed

lemma demo_piece:
  obtains n where "with_nfs (nfs3_read \<lparr>fh_data = [9]\<rparr> offset 4) (demo_cl [RxData (file_replies 4 [[1, 2, 3]])]) =
    (Inr (piece [1, 2, 3] True), (demo_cl [RxData (file_replies 4 [[1, 2, 3]])])\<lparr>cl_nfs := n\<rparr>)"
proof -
  let ?c = "demo_cl [RxData (file_replies 4 [[1, 2, 3]])]"
  have "idle (n3_rpc (cl_nfs ?c))" "fh_ok \<lparr>fh_data = [9]\<rparr>"
    by (simp_all add: idle_def demo_cl_def auth_wire_def opaque_wire_def opaque_pad_def padding_len_def
        fh_ok_def DEFAULT_MAX_RECORD_SIZE_def usize_max_def)
  moreover have "piece_fits ?c [1, 2, 3]"
    by (simp add: piece_fits_def demo_cl_def MAX_IO_BYTES_def DEFAULT_MAX_RECORD_SIZE_def)
  moreover have "arriving (n3_rpc (cl_nfs ?c)) = frame [accepted_reply (succ_xid (rpc_xid (n3_rpc (cl_nfs ?c))))
      (read_reply_wire (piece [1, 2, 3] True))] @ []"
    by (simp add: demo_cl_def)
  ultimately obtain n where "with_nfs (nfs3_read \<lparr>fh_data = [9]\<rparr> offset (cl_read_size ?c)) ?c =
      (Inr (piece [1, 2, 3] True), ?c\<lparr>cl_nfs := n\<rparr>)"
    by (rule piece_read)
  with that show thesis by (simp add: demo_cl_def)
qed

theorem read_range_within_bounds_witness:
  "\<exists>c' w' rs. read_handle_range_to_writer \<lparr>fh_data = [9]\<rparr> 0 8
       (demo_cl [RxData (file_replies 4 [[1, 2, 3]])], ([], [7])) = (Inr 3, (c', w')) \<and>
     snd w' = [7] @ run_data rs \<and> length (run_data rs) = 3"
proof -
  let ?c = "demo_cl [RxData (file_replies 4 [[1, 2, 3]])]"
  obtain n where n: "with_nfs (nfs3_read \<lparr>fh_data = [9]\<rparr> 0 4) ?c = (Inr (piece [1, 2, 3] True), ?c\<lparr>cl_nfs := n\<rparr>)"
    by (rule demo_piece)
  have size: "cl_read_size ?c = 4" by (simp add: demo_cl_def)
  have step: "read_range_step \<lparr>fh_data = [9]\<rparr> (0, 8, 0) (?c, ([], [7])) =
      (Inr (Break 3), (?c\<lparr>cl_nfs := n\<rparr>, ([], [7, 1, 2, 3])))"
    using n
    by (simp add: read_range_step_def bnd_apply on_fst_def on_snd_def gets_apply of_result_apply ret_apply
        size check_chunk_def piece_def writer_write_all_def advance_offset_def bindR_def u64_try_from_def
        checked_add_u64_def ok_or_def del: file_replies.simps)
  then have "read_handle_range_to_writer \<lparr>fh_data = [9]\<rparr> 0 8 (?c, ([], [7])) =
      (Inr 3, (?c\<lparr>cl_nfs := n\<rparr>, ([], [7, 1, 2, 3])))"
    unfolding read_handle_range_to_writer_def read_range_loop.simps [of _ "(0, 8, 0)"] by simp
  from read_range_within_bounds [OF this] this show ?thesis by force
qed

end
