(* ===== verification/V3_Contracts.thy ===== *)
theory V3_Contracts
  imports V3_Refine
begin

text \<open>
  What the path operations of the NFSv3 client promise. Every operation keeps the configuration of the
  client and only ever appends to what was sent; the handles it works with are well-formed; an atomic
  write or copy replaces its target as a whole or removes its temporary file; a listing is the
  concatenation of the batches of the server, within its limit; a recursive removal stays inside the tree
  it was given.
\<close>

subsection \<open>Every operation\<close>

lemma evolves_on_resolved [keeps_intros]:
  "(\<And>h. keeps n3_evolves (m h)) \<Longrightarrow> keeps evolves (on_resolved path m)"
  unfolding on_resolved_def by (intro keeps_intros)

lemma evolves_handle_from_create_result [keeps_intros]:
  "keeps evolves (handle_from_create_result parent name r)"
  unfolding handle_from_create_result_def by (intro keeps_intros)

lemma evolves_create [keeps_intros]:
  "keeps evolves (create_handle_with_how path how)" "keeps evolves (resolve_or_create path mode)"
  "keeps evolves1 (create_guarded_handle path mode)"
  unfolding create_handle_with_how_def resolve_or_create_def create_guarded_handle_def
  by (intro keeps_intros)+

lemma evolves_new [keeps_intros]:
  "keeps evolves (create_handle_new path mode)" "keeps evolves (create_new path mode)"
  "keeps evolves (create_file path mode)" "keeps evolves (create_unchecked path mode)"
  unfolding create_file_def create_new_def create_handle_new_def create_unchecked_def
  by (intro keeps_intros)+

lemma evolves_setattr [keeps_intros]: "keeps evolves (Client_setattr path attr)"
  unfolding Client_setattr_def by (intro keeps_intros)

lemma evolves_rename [keeps_intros]: "keeps evolves (rename from to)"
  unfolding rename_def by (intro keeps_intros)

lemma evolves_if_exists [keeps_intros]: "keeps evolves m \<Longrightarrow> keeps evolves (if_exists m)"
  unfolding if_exists_def by (intro keeps_intros)

text \<open>The cleanup of a temporary file, with the local reader beside the client.\<close>

lemma evolves_finish [keeps_intros]: "keeps evolves (finish_with_temp_cleanup r created temp context)"
proof (rule keepsI)
  fix c q c'
  assume a: "finish_with_temp_cleanup r created temp context c = (q, c')"
  have "keeps evolves (remove temp)" by (intro keeps_intros)
  with a reflpD [OF reflp_evolves, of c] show "evolves c c'"
    by (auto simp: finish_with_temp_cleanup_def split: sum.splits if_splits prod.splits dest: keepsD)
qed

abbreviation evolves11 :: "(Client \<times> 't) \<times> 'u \<Rightarrow> (Client \<times> 't) \<times> 'u \<Rightarrow> bool" where
  "evolves11 s s' \<equiv> evolves (fst (fst s)) (fst (fst s'))"

lemma reflp_evolves11 [keeps_intros]: "reflp evolves11"
  using reflp_evolves by (simp add: reflp_def)

lemma transp_evolves11 [keeps_intros]: "transp evolves11"
  by (rule transpI) (rule evolves_trans)

lemma evolves11_on_fst [keeps_intros]: "keeps evolves1 m \<Longrightarrow> keeps evolves11 (on_fst m)"
  by (simp add: keeps_def on_fst_def case_prod_unfold)

lemma evolves11_lift_created [keeps_intros]: "keeps evolves1 m \<Longrightarrow> keeps evolves11 (lift_created m)"
  by (simp add: keeps_def lift_created_def case_prod_unfold)

lemma evolves_through_temporary [keeps_intros]:
  assumes "keeps evolves11 body"
  shows "keeps evolves1 (through_temporary temp context body)"
proof (rule keepsI)
  fix s q s'
  assume a: "through_temporary temp context body s = (q, s')"
  obtain r c t created where b: "body (s, False) = (r, ((c, t), created))"
    by (cases "body (s, False)") auto
  from keepsD [OF assms b] have 1: "evolves (fst s) c" by simp
  from a b have "evolves c (fst s')"
    by (auto simp: through_temporary_def split: prod.splits dest: keepsD [OF evolves_finish])
  with 1 show "evolves (fst s) (fst s')" by (rule evolves_trans)
qed

lemma evolves_atomic [keeps_intros]:
  "keeps evolves (write_atomic_with_mode_and_stability temp_name path data mode stability)"
  "keeps evolves1 (write_atomic_from_reader_with_mode_and_stability temp_name path mode stability)"
  "keeps evolves (copy_atomic_with_stability temp_name from to stability)"
  unfolding write_atomic_with_mode_and_stability_def write_atomic_from_reader_with_mode_and_stability_def
    copy_atomic_with_stability_def
  by (intro keeps_intros)+

lemma evolves_reading [keeps_intros]:
  "keeps evolves (Client_lookup path)" "keeps evolves (exists path)"
  "keeps evolves (Client_access path bits)" "keeps evolves (Client_file_type path)"
  "keeps evolves (read_file path)" "keeps evolves1 (read_to_writer path)"
  "keeps evolves1 (read_range_to_writer path offset count)" "keeps evolves (read_range path offset count)"
  "keeps evolves (read_at path offset n)" "keeps evolves (read_link path)"
  unfolding Client_lookup_def exists_def Client_access_def Client_file_type_def read_file_def read_to_writer_def
    read_range_to_writer_def read_range_def read_at_def read_link_def
  by (intro keeps_intros)+

lemma evolves_read_exact_at [keeps_intros]: "keeps evolves (read_exact_at path offset n)"
  unfolding read_exact_at_def by (intro keeps_intros)

lemma evolves_statistics [keeps_intros]:
  "keeps evolves (path_fsinfo path)" "keeps evolves (Client_fsstat path)" "keeps evolves (Client_pathconf path)"
  "keeps evolves (Client_commit path offset n)"
  unfolding path_fsinfo_def Client_fsstat_def Client_pathconf_def Client_commit_def
  by (intro keeps_intros)+

lemma evolves_naming [keeps_intros]:
  "keeps evolves (Client_mkdir path mode)" "keeps evolves (Client_symlink path target)"
  "keeps evolves (Client_mknod path what)" "keeps evolves (hard_link path link)"
  "keeps evolves (truncate path len)"
  unfolding Client_mkdir_def Client_symlink_def Client_mknod_def hard_link_def truncate_def
  by (intro keeps_intros)+

lemma evolves_writing [keeps_intros]:
  "keeps evolves (write_with_stability path data stability)"
  "keeps evolves1 (write_from_reader_with_stability path stability)"
  "keeps evolves (append_with_stability path data stability)"
  "keeps evolves1 (append_from_reader_with_stability path stability)"
  "keeps evolves (write_at_with_stability path offset data stability)"
  "keeps evolves (copy_with_stability path target stability)"
  unfolding write_with_stability_def write_from_reader_with_stability_def append_with_stability_def
    append_from_reader_with_stability_def write_at_with_stability_def copy_with_stability_def
  by (intro keeps_intros)+

lemma evolves_make_component [keeps_intros]: "keeps evolves (make_component mode fh path name)"
  unfolding make_component_def enter_directory_def ensure_directory_def by (intro keeps_intros)

lemma evolves_make_components [keeps_intros]: "keeps evolves (make_components mode fh path names)"
  by (induction names arbitrary: fh path) (auto simp: Let_def intro!: keeps_intros)

lemma evolves_create_dir_all [keeps_intros]: "keeps evolves (create_dir_all path mode)"
  unfolding create_dir_all_def by (intro keeps_intros)

lemma evolves_remove_loop [keeps_intros]: "keeps evolves (remove_loop stack)"
proof (rule rml.keeps_loop)
  show "keeps evolves (remove_step stack)" for stack
    unfolding remove_step_def by (cases stack) (auto intro!: keeps_intros)
qed (intro keeps_intros)+

lemma evolves_remove_all [keeps_intros]:
  "keeps evolves (remove_all path)"
  unfolding remove_all_def by (intro keeps_intros)

text \<open>C33. Whatever an operation on paths does and however it ends, the client keeps its configuration
  (root handle, sizes, limits, credential, ports) and its retry policy, what it has sent is only appended
  to, what arrives is only consumed, and once the outcome of a call is unknown nothing changes any
  more: a poisoned client sends nothing. This is \<open>evolves\<close>, and every operation on paths keeps it.
  (\<open>reconnect\<close> replaces the client by a new one, and unmounting uses a connection of its own.)\<close>

theorem operations_evolve:
  "keeps evolves (resolve path) \<and> keeps evolves (resolve_parent path) \<and> keeps evolves (metadata path) \<and>
   keeps evolves (Client_access path bits) \<and> keeps evolves (exists path) \<and> keeps evolves (read_link path) \<and>
   keeps evolves (path_fsinfo path) \<and> keeps evolves (Client_fsstat path) \<and> keeps evolves (Client_pathconf path) \<and>
   keeps evolves (read_file path) \<and> keeps evolves1 (read_to_writer path) \<and>
   keeps evolves1 (read_range_to_writer path offset count) \<and> keeps evolves (read_exact_at path offset n) \<and>
   keeps evolves (write_with_stability path data stability) \<and>
   keeps evolves1 (write_from_reader_with_stability path stability) \<and>
   keeps evolves (append_with_stability path data stability) \<and>
   keeps evolves1 (append_from_reader_with_stability path stability) \<and>
   keeps evolves (write_at_with_stability path offset data stability) \<and>
   keeps evolves (write_atomic_with_mode_and_stability temp_name path data mode stability) \<and>
   keeps evolves1 (write_atomic_from_reader_with_mode_and_stability temp_name path mode stability) \<and>
   keeps evolves (copy_with_stability path target stability) \<and>
   keeps evolves (copy_atomic_with_stability temp_name path target stability) \<and>
   keeps evolves (Client_setattr path attr) \<and> keeps evolves (truncate path len) \<and>
   keeps evolves (Client_commit path offset n) \<and> keeps evolves (create_new path mode) \<and>
   keeps evolves (create_unchecked path mode) \<and> keeps evolves (Client_mkdir path mode) \<and>
   keeps evolves (create_dir_all path mode) \<and> keeps evolves (Client_symlink path target) \<and>
   keeps evolves (Client_mknod path what) \<and> keeps evolves (hard_link path target) \<and>
   keeps evolves (rename path target) \<and> keeps evolves (remove path) \<and> keeps evolves (rmdir path) \<and>
   keeps evolves (remove_all path) \<and> keeps evolves (if_exists (remove_all path)) \<and>
   keeps evolves (read_dir_limited path limit) \<and> keeps evolves (read_dir_page_limited path cursor limit)"
  by (intro conjI keeps_intros)

subsection \<open>Well-formed handles\<close>

lemma returns_from_xdr [returns_intros]: "returns P m \<Longrightarrow> returns P (from_xdr m)"
  by (auto simp: returns_def from_xdr_def map_err_Inr_iff)

lemma returns_with_nfs [returns_intros]: "returns P m \<Longrightarrow> returns P (with_nfs m)"
  by (auto simp: returns_def with_nfs_Inr)

lemma returns_procedure [returns_intros]:
  "returns P m \<Longrightarrow> returns P (bnd (nfs3_call procedure args) (decode_payload m))"
  by (auto simp: returns_def elim!: procedure_Inr)

lemma returns_decode_FileHandle [returns_intros]: "returns fh_ok decode_FileHandle"
  unfolding decode_FileHandle_def read_opaque_vec_def
  by (rule returns_bnd_from [OF returns_read_opaque])
    (auto intro: returns_intros simp: fh_ok_def NFS3_FHSIZE_def)

lemma returns_lookup: "returns (fh_ok \<circ> lr_object) (nfs3_lookup dir name)"
  unfolding nfs3_lookup_def decode_lookup_reply_def
  by (intro returns_procedure returns_bnd returns_if returns_fail
      returns_bnd_from [OF returns_from_xdr [OF returns_decode_FileHandle]] returns_ret) simp

lemma returns_create: "returns (pred_option fh_ok \<circ> cr_object) (nfs3_create dir name how)"
proof -
  have "returns (pred_option fh_ok) decode_post_op_fh"
    unfolding decode_post_op_fh_def
    by (intro returns_bnd returns_if returns_bnd_from [OF returns_decode_FileHandle] returns_ret) simp_all
  then show ?thesis
    unfolding nfs3_create_def create_like_def decode_create_reply_def
    by (intro returns_procedure returns_bnd returns_if returns_fail
        returns_bnd_from [where Q = "pred_option fh_ok"] returns_from_xdr returns_ret) simp_all
qed

definition client_ok :: "Client \<Rightarrow> bool" where
  "client_ok c \<longleftrightarrow> fh_ok (cl_root c) \<and> client_sizes_ok c"

lemma evolves_client_ok:
  assumes "evolves c c'"
  shows "client_ok c' \<longleftrightarrow> client_ok c"
proof -
  have "cl_root c' = cl_root (c'\<lparr>cl_nfs := cl_nfs c\<rparr>)"
    "client_sizes_ok c' = client_sizes_ok (c'\<lparr>cl_nfs := cl_nfs c\<rparr>)"
    by (simp_all add: client_sizes_ok_def)
  with assms show ?thesis by (simp add: evolves_def client_ok_def)
qed

lemma kept_client_ok: "keeps evolves m \<Longrightarrow> m c = (r, c') \<Longrightarrow> client_ok c \<Longrightarrow> client_ok c'"
  using evolves_client_ok keepsD by fastforce

lemma returns_lookup_components: "fh_ok current \<Longrightarrow> returns fh_ok (lookup_components current names)"
proof (induction names arbitrary: current)
  case (Cons name names)
  then show ?case
    by (auto intro!: returns_bnd_from [OF returns_with_nfs [OF returns_lookup]])
qed (simp add: returns_ret)

lemma resolve_ok:
  assumes "client_ok c"
  shows "resolve path c = (Inr h, c') \<Longrightarrow> fh_ok h"
    "resolve_parent path c = (Inr (h, name), c') \<Longrightarrow> fh_ok h"
  using assms returnsD [OF returns_lookup_components [of "cl_root c"]]
  by (auto simp: resolve_def resolve_parent_def bnd_Inr_iff gets_apply of_result_apply ret_apply fail_apply
      client_ok_def split: if_splits)

lemma returns_handle_from_create_result:
  "pred_option fh_ok (cr_object r) \<Longrightarrow> returns fh_ok (handle_from_create_result parent name r)"
  unfolding handle_from_create_result_def
  by (cases "cr_object r")
    (auto intro!: returns_bnd_from [OF returns_with_nfs [OF returns_lookup]] returns_ret)

lemma returns_create_handle: "returns fh_ok (create_handle_with_how path how)"
  unfolding create_handle_with_how_def
  by (auto intro!: returns_bnd returns_bnd_from [OF returns_with_nfs [OF returns_create]]
      returns_handle_from_create_result split: prod.split)

lemma create_guarded_handle_Inr:
  assumes "create_guarded_handle path mode (c, b) = (Inr h, (c', b'))"
  shows "fh_ok h" "b'"
proof -
  from assms obtain parent name r c1 c2 where
    r: "with_nfs (nfs3_create parent name (Guarded (SetAttr_mode mode))) c1 = (Inr r, c2)"
      "handle_from_create_result parent name r c2 = (Inr h, c')" "b'"
    by (auto simp: create_guarded_handle_def bnd_Inr_iff on_fst_Inr on_snd_Inr modify_apply)
  have "pred_option fh_ok (cr_object r)"
    using returnsD [OF returns_with_nfs [OF returns_create] r(1)] by simp
  from returnsD [OF returns_handle_from_create_result [OF this] r(2)] r(3) show "fh_ok h" "b'" .
qed

lemma resolve_or_create_ok:
  assumes "client_ok c" "resolve_or_create path mode c = (Inr h, c')"
  shows "fh_ok h"
proof -
  obtain q c1 where q: "resolve path c = (q, c1)" by fastforce
  show ?thesis
  proof (cases q)
    case (Inl e)
    with assms(2) q have "create_handle_with_how path (Unchecked (SetAttr_default\<lparr>sa_mode := Some mode\<rparr>)) c1 =
        (Inr h, c')"
      by (auto simp: resolve_or_create_def match_result_def fail_apply split: if_splits)
    then show ?thesis by (rule returnsD [OF returns_create_handle])
  next
    case (Inr x)
    with assms q show ?thesis
      by (auto simp: resolve_or_create_def match_result_def ret_apply intro: resolve_ok(1))
  qed
qed

lemma mnt_mount_ok:
  assumes "mnt_mount export m = (Inr info, m')"
  shows "fh_ok (mi_file_handle info)"
proof -
  have "returns (fh_ok \<circ> mi_file_handle) decode_mount_reply"
    unfolding decode_mount_reply_def
    by (intro returns_bnd returns_if returns_fail
        returns_bnd_from [OF returns_from_xdr [OF returns_decode_FileHandle]] returns_ret) simp
  with assms show ?thesis
    by (auto simp: mnt_mount_def bnd_Inr_iff decode_payload_def of_result_apply)
      (metis comp_apply prod.collapse returnsD)
qed

text \<open>C34. Handles are well-formed: MNT returns one of at most 64 bytes, and on a client whose root is one and
  whose sizes are within their limits, so is every handle that a path resolves to, that a parent
  resolves to, or that a file opened for writing or a new temporary file has, whatever the server
  sends; and the client is again such a client. So no request of the client fails to encode because of a
  handle.\<close>

theorem handles_well_formed:
  assumes "client_ok c"
  shows "(resolve path c = (Inr h, c') \<longrightarrow> fh_ok h \<and> client_ok c') \<and>
    (resolve_parent path c = (Inr (h, name), c') \<longrightarrow> fh_ok h \<and> client_ok c') \<and>
    (resolve_or_create path mode c = (Inr h, c') \<longrightarrow> fh_ok h \<and> client_ok c') \<and>
    (create_guarded_handle path mode (c, b) = (Inr h, (c', b')) \<longrightarrow> fh_ok h \<and> b' \<and> client_ok c') \<and>
    (mnt_mount export m = (Inr info, m') \<longrightarrow> fh_ok (mi_file_handle info))"
proof (intro conjI impI)
  show "client_ok c'" if "resolve path c = (Inr h, c')"
    using kept_client_ok [OF evolves_resolve(1) that assms] .
  show "client_ok c'" if "resolve_parent path c = (Inr (h, name), c')"
    using kept_client_ok [OF evolves_resolve(2) that assms] .
  show "client_ok c'" if "resolve_or_create path mode c = (Inr h, c')"
    using kept_client_ok [OF evolves_create(2) that assms] .
  show "client_ok c'" if "create_guarded_handle path mode (c, b) = (Inr h, (c', b'))"
    using keepsD [OF evolves_create(3) that] assms by (simp add: evolves_client_ok)
qed (use assms in \<open>auto intro: resolve_ok resolve_or_create_ok create_guarded_handle_Inr mnt_mount_ok\<close>)

theorem handles_well_formed_witness:
  "resolve ''/'' (demo_cl []) = (Inr \<lparr>fh_data = [9]\<rparr>, demo_cl []) \<and> client_ok (demo_cl []) \<and>
   fh_ok \<lparr>fh_data = [9]\<rparr>"
proof -
  have "normalize_path ''/'' = Inr []" by code_simp
  then have r: "resolve ''/'' (demo_cl []) = (Inr \<lparr>fh_data = [9]\<rparr>, demo_cl [])"
    by (simp add: resolve_def bnd_apply of_result_apply gets_apply ret_apply demo_cl_def)
  have "client_ok (demo_cl [])"
    by (simp add: client_ok_def demo_cl_def fh_ok_def client_sizes_ok_def MAX_IO_BYTES_def)
  with r handles_well_formed [of "demo_cl []" "''/''" "\<lparr>fh_data = [9]\<rparr>" "demo_cl []"] show ?thesis by blast
qed

subsection \<open>Atomic replacement\<close>

text \<open>The outcomes of an operation that fills a temporary file and renames it into place, for the mode of
  the file and the operation that fills and renames it: the file replaces its target; it could not be
  created, and nothing is removed; or it was created, something failed behind that, and it is removed,
  with the outcome of the removal in the error.\<close>

inductive atomic_outcome :: "string \<Rightarrow> string \<Rightarrow> u32 \<Rightarrow> (FileHandle \<Rightarrow> (Client \<times> 't, error, 'a) op) \<Rightarrow>
    Client \<times> 't \<Rightarrow> error + 'a \<Rightarrow> Client \<times> 't \<Rightarrow> bool"
  for temp cleanup_context mode fill where
  replaced: "create_guarded_handle temp mode (c, False) = (Inr h, (c1, True)) \<Longrightarrow> fill h (c1, t) = (Inr x, s') \<Longrightarrow>
    atomic_outcome temp cleanup_context mode fill (c, t) (Inr x) s'"
| not_created: "create_guarded_handle temp mode (c, False) = (Inl e, (c', False)) \<Longrightarrow>
    atomic_outcome temp cleanup_context mode fill (c, t) (Inl e) (c', t)"
| no_handle: "create_guarded_handle temp mode (c, False) = (Inl e, (c1, True)) \<Longrightarrow> remove temp c1 = (q, c') \<Longrightarrow>
    atomic_outcome temp cleanup_context mode fill (c, t) (Inl (cleanup_error e cleanup_context q)) (c', t)"
| not_filled: "create_guarded_handle temp mode (c, False) = (Inr h, (c1, True)) \<Longrightarrow>
    fill h (c1, t) = (Inl e, (c2, t')) \<Longrightarrow> remove temp c2 = (q, c') \<Longrightarrow>
    atomic_outcome temp cleanup_context mode fill (c, t) (Inl (cleanup_error e cleanup_context q)) (c', t')"

inductive_simps atomic_outcome_unfold: "atomic_outcome temp cleanup_context mode fill (c, t) r s'"

lemma on_fst_bnd: "on_fst (bnd m k) = bnd (on_fst m) (\<lambda>x. on_fst (k x))"
  by (auto simp: on_fst_def bnd_apply fun_eq_iff split: prod.splits sum.splits)

lemma on_fst_ret: "on_fst (ret x) = ret x"
  by (auto simp: on_fst_def ret_apply fun_eq_iff)

lemma through_temporary_outcome:
  "through_temporary temp cleanup_context
     (bnd (lift_created (create_guarded_handle temp mode)) (\<lambda>h. on_fst (fill h))) s = (r, s') \<longleftrightarrow>
   atomic_outcome temp cleanup_context mode fill s r s'"
proof -
  obtain c t where s: "s = (c, t)" by fastforce
  obtain q c1 b where g: "create_guarded_handle temp mode (c, False) = (q, (c1, b))"
    by (metis prod.exhaust)
  show ?thesis
  proof (cases q)
    case (Inl e)
    then show ?thesis
      by (cases b) (auto simp: s g through_temporary_def bnd_apply lift_created_def finish_with_temp_cleanup_def
          atomic_outcome_unfold split: prod.splits)
  next
    case (Inr h)
    with create_guarded_handle_Inr(2) g have b by blast
    obtain q2 c2 t2 where f: "fill h (c1, t) = (q2, (c2, t2))" by (metis prod.exhaust)
    from Inr \<open>b\<close> f show ?thesis
      by (cases q2) (auto simp: s g through_temporary_def bnd_apply lift_created_def on_fst_def
          finish_with_temp_cleanup_def atomic_outcome_unfold split: prod.splits)
  qed
qed

lemma run_fst_unit: "bnd (run_fst () m) (\<lambda>(x, _). ret x) c = (r, c') \<longleftrightarrow> m (c, ()) = (r, (c', ()))"
  by (auto simp: run_fst_def bnd_apply ret_apply split: prod.splits sum.splits)

lemma write_atomic_outcome:
  assumes "temporary_sibling_path temp_name path = Inr temp"
  shows "write_atomic_with_mode_and_stability temp_name path data mode stability c = (r, c') \<longleftrightarrow>
    atomic_outcome temp ''cleanup REMOVE after failed atomic write'' mode
      (\<lambda>h. on_fst (bnd (write_handle_all h 0 data stability) (\<lambda>_. rename temp path))) (c, ()) r (c', ())"
  unfolding write_atomic_with_mode_and_stability_def assms bnd_apply of_result_apply prod.case sum.case
    through_temporary_outcome [symmetric] on_fst_bnd
  by (simp add: run_fst_unit [unfolded bnd_apply])

lemma write_atomic_from_reader_outcome:
  assumes "temporary_sibling_path temp_name path = Inr temp"
  shows "write_atomic_from_reader_with_mode_and_stability temp_name path mode stability s = (r, s') \<longleftrightarrow>
    atomic_outcome temp ''cleanup REMOVE after failed atomic reader write'' mode
      (\<lambda>h. bnd (write_handle_from_reader h stability) (\<lambda>written.
        bnd (on_fst (rename temp path)) (\<lambda>_. ret written))) s r s'"
  unfolding write_atomic_from_reader_with_mode_and_stability_def assms bnd_apply of_result_apply prod.case sum.case
    through_temporary_outcome [symmetric] on_fst_bnd on_fst_ret
  by simp

lemma copy_atomic_outcome:
  assumes "ensure_distinct_paths from to = Inr ()" "resolve from c = (Inr source, c1)"
    "with_nfs (nfs3_getattr source) c1 = (Inr attr, c2)" "temporary_sibling_path temp_name to = Inr temp"
  shows "copy_atomic_with_stability temp_name from to stability c = (r, c') \<longleftrightarrow>
    atomic_outcome temp ''cleanup REMOVE after failed atomic copy'' (and (fa_mode attr) 0xFFF)
      (\<lambda>h. on_fst (bnd (copy_handles source h stability) (\<lambda>copied.
        bnd (rename temp to) (\<lambda>_. ret copied)))) (c2, ()) r (c', ())"
  unfolding copy_atomic_with_stability_def assms bnd_apply of_result_apply prod.case sum.case
    through_temporary_outcome [symmetric] on_fst_bnd on_fst_ret
  by (simp add: run_fst_unit [unfolded bnd_apply])

text \<open>C29. Atomic writes replace or clean up: with a name for the temporary sibling, the outcomes of
  \<open>write_atomic_with_mode_and_stability\<close> and of its variant for a local reader are exactly those of
  \<open>atomic_outcome\<close>. Either the filled file was renamed onto the path, or the file was never created and
  no REMOVE is sent, or the last thing that happens is its removal; without a name the operation fails
  before it sends anything.\<close>

theorem atomic_writes_replace_or_clean_up:
  "case temporary_sibling_path temp_name path of
     Inl e \<Rightarrow> write_atomic_with_mode_and_stability temp_name path data mode stability c = (Inl e, c) \<and>
       write_atomic_from_reader_with_mode_and_stability temp_name path mode stability s = (Inl e, s)
   | Inr temp \<Rightarrow>
       (write_atomic_with_mode_and_stability temp_name path data mode stability c = (r, c') \<longleftrightarrow>
          atomic_outcome temp ''cleanup REMOVE after failed atomic write'' mode
            (\<lambda>h. on_fst (bnd (write_handle_all h 0 data stability) (\<lambda>_. rename temp path))) (c, ()) r (c', ())) \<and>
       (write_atomic_from_reader_with_mode_and_stability temp_name path mode stability s = (q, s') \<longleftrightarrow>
          atomic_outcome temp ''cleanup REMOVE after failed atomic reader write'' mode
            (\<lambda>h. bnd (write_handle_from_reader h stability) (\<lambda>written.
              bnd (on_fst (rename temp path)) (\<lambda>_. ret written))) s q s')"
proof (cases "temporary_sibling_path temp_name path")
  case (Inl e)
  then show ?thesis
    by (simp add: write_atomic_with_mode_and_stability_def bnd_apply of_result_apply
        write_atomic_from_reader_with_mode_and_stability_def)
next
  case (Inr temp)
  then show ?thesis
    by (simp only: sum.case write_atomic_outcome write_atomic_from_reader_outcome simp_thms)
qed

lemma replaced_iff:
  "atomic_outcome temp cleanup_context mode fill (c, t) (Inr x) s' \<longleftrightarrow>
     (\<exists>h c1. create_guarded_handle temp mode (c, False) = (Inr h, (c1, True)) \<and> fill h (c1, t) = (Inr x, s'))"
  by (auto simp: atomic_outcome_unfold)

lemma write_atomic_success:
  "write_atomic_with_mode_and_stability temp_name path data mode stability c = (Inr (), c') \<longleftrightarrow>
     (\<exists>temp h c1 ws c2. temporary_sibling_path temp_name path = Inr temp \<and>
        create_guarded_handle temp mode (c, False) = (Inr h, (c1, True)) \<and>
        write_run h stability 0 data c1 ws c2 \<and> apply_writes ws [] = data \<and>
        rename temp path c2 = (Inr (), c'))"
proof (cases "temporary_sibling_path temp_name path")
  case (Inl e)
  then show ?thesis
    by (simp add: write_atomic_with_mode_and_stability_def bnd_apply of_result_apply)
next
  case (Inr temp)
  have "write_run h stability 0 data c1 ws c2 \<Longrightarrow> apply_writes ws [] = data" for h c1 ws c2
    using write_run_splice [of h stability 0 data c1 ws c2 "[]"] by (simp add: splice_whole)
  then show ?thesis
    by (simp add: Inr write_atomic_outcome replaced_iff on_fst_Inr bnd_Inr_iff write_handle_all_run) blast
qed

lemma copy_atomic_success:
  "copy_atomic_with_stability temp_name from path stability c = (Inr n, c') \<longleftrightarrow>
     (\<exists>source c1 attr c2 temp h c3 rs ws c4. ensure_distinct_paths from path = Inr () \<and>
        resolve from c = (Inr source, c1) \<and> with_nfs (nfs3_getattr source) c1 = (Inr attr, c2) \<and>
        temporary_sibling_path temp_name path = Inr temp \<and>
        create_guarded_handle temp (and (fa_mode attr) 0xFFF) (c2, False) = (Inr h, (c3, True)) \<and>
        copy_run source h stability 0 c3 rs ws c4 \<and> apply_writes ws [] = run_data rs \<and>
        unat n = length (run_data rs) \<and> rename temp path c4 = (Inr (), c'))" (is "?l \<longleftrightarrow> ?r")
proof
  assume ?l
  then obtain source c1 attr c2 temp where
    p: "ensure_distinct_paths from path = Inr ()" "resolve from c = (Inr source, c1)"
      "with_nfs (nfs3_getattr source) c1 = (Inr attr, c2)" "temporary_sibling_path temp_name path = Inr temp"
    unfolding copy_atomic_with_stability_def by (auto simp: bnd_Inr_iff of_result_apply)
  with \<open>?l\<close> obtain h c3 rs ws c4 where
    "create_guarded_handle temp (and (fa_mode attr) 0xFFF) (c2, False) = (Inr h, (c3, True))"
    "copy_run source h stability 0 c3 rs ws c4" "unat n = length (run_data rs)" "rename temp path c4 = (Inr (), c')"
    by (auto simp: copy_atomic_outcome [OF p] replaced_iff on_fst_Inr bnd_Inr_iff ret_apply copy_handles_run)
  with p copy_run_whole(2) [of source h stability c3 rs ws c4 "[]"] show ?r
    by (simp add: splice_whole) blast
next
  assume ?r
  then show ?l
    by (elim exE conjE)
      (simp add: copy_atomic_outcome replaced_iff on_fst_Inr bnd_Inr_iff ret_apply copy_handles_run, blast)
qed

text \<open>C30. What an atomic write or copy puts in place: \<open>write_atomic_with_mode_and_stability\<close> succeeds exactly
  when the temporary file was newly created, acknowledged writes made it hold exactly the data, and it
  was then renamed onto the path; \<open>copy_atomic_with_stability\<close> succeeds exactly when, for a source other
  than the target, the temporary file was newly created, made to hold exactly the data read from the
  source up to its end, and renamed; it returns the number of these bytes.\<close>

theorem atomic_success_contents:
  "(write_atomic_with_mode_and_stability temp_name path data mode stability c = (Inr (), c') \<longleftrightarrow>
     (\<exists>temp h c1 ws c2. temporary_sibling_path temp_name path = Inr temp \<and>
        create_guarded_handle temp mode (c, False) = (Inr h, (c1, True)) \<and>
        write_run h stability 0 data c1 ws c2 \<and> apply_writes ws [] = data \<and>
        rename temp path c2 = (Inr (), c'))) \<and>
   (copy_atomic_with_stability temp_name from path stability c = (Inr n, c') \<longleftrightarrow>
     (\<exists>source c1 attr c2 temp h c3 rs ws c4. ensure_distinct_paths from path = Inr () \<and>
        resolve from c = (Inr source, c1) \<and> with_nfs (nfs3_getattr source) c1 = (Inr attr, c2) \<and>
        temporary_sibling_path temp_name path = Inr temp \<and>
        create_guarded_handle temp (and (fa_mode attr) 0xFFF) (c2, False) = (Inr h, (c3, True)) \<and>
        copy_run source h stability 0 c3 rs ws c4 \<and> apply_writes ws [] = run_data rs \<and>
        unat n = length (run_data rs) \<and> rename temp path c4 = (Inr (), c')))"
  by (rule conjI [OF write_atomic_success copy_atomic_success])

subsection \<open>Removing trees\<close>

definition path_components :: "string \<Rightarrow> string list" where
  "path_components path = filter real_component (split_on CHR ''/'' path)"

lemma normalize_path_components: "normalize_path path = Inr cs \<Longrightarrow> cs = path_components path"
  by (simp add: normalize_path_iff path_components_def)

lemma path_components_join: "path_components (join_path parent name) = path_components parent @ path_components name"
proof -
  have "\<not> real_component []" by (simp add: real_component_def)
  then show ?thesis
    using split_on_append [of "CHR ''/''" "trim_end_matches CHR ''/'' parent" name]
    by (auto simp: path_components_def join_path_def filter_real_trim)
qed

primrec task_path :: "RemoveTask \<Rightarrow> string" where
  "task_path (Visit path file_type) = path"
| "task_path (RemoveDir path) = path"

text \<open>The turns of the removal loop.\<close>

inductive remove_reach :: "RemoveTask list \<Rightarrow> Client \<Rightarrow> RemoveTask list \<Rightarrow> Client \<Rightarrow> bool"
  for stack c where
  start: "remove_reach stack c stack c"
| turn: "remove_reach stack c stack1 c1 \<Longrightarrow> remove_step stack1 c1 = (Inr (Continue stack2), c2) \<Longrightarrow>
    remove_reach stack c stack2 c2"

definition inside :: "string \<Rightarrow> string \<Rightarrow> bool" where
  "inside base path \<longleftrightarrow> (\<exists>rest. path_components path = path_components base @ rest)"

lemma inside_refl: "inside path path"
  by (simp add: inside_def)

lemma inside_join: "inside base path \<Longrightarrow> inside base (join_path path name)"
  by (auto simp: inside_def path_components_join)

lemma remove_step_Continue:
  assumes "remove_step stack c = (Inr (Continue stack'), c')"
  obtains task tasks where "stack = task # tasks" "remove_task task tasks c = (Inr stack', c')"
  using assms by (auto simp: remove_step_def bnd_Inr_iff ret_apply split: list.splits)

lemma remove_task_Inr:
  assumes "remove_task task tasks c = (Inr stack, c')"
  obtains (Directory) path t c1 entries where "task = Visit path t" "read_dir path c1 = (Inr entries, c')"
      "stack = child_tasks path entries @ RemoveDir path # tasks"
  | (File) path t c1 where "task = Visit path t" "remove path c1 = (Inr (), c')" "stack = tasks"
  | (Empty) path where "task = RemoveDir path" "rmdir path c = (Inr (), c')" "stack = tasks"
proof (cases task)
  case (Visit path t)
  with assms obtain ft c1 where "(if ft = Directory
      then bnd (read_dir path) (\<lambda>entries. ret (child_tasks path entries @ RemoveDir path # tasks))
      else bnd (remove path) (\<lambda>_. ret tasks)) c1 = (Inr stack, c')"
    by (auto simp: remove_task_def bnd_Inr_iff)
  with Visit that(1,2) show ?thesis by (auto simp: bnd_Inr_iff ret_apply split: if_splits)
next
  case (RemoveDir path)
  with assms that(3) show ?thesis by (auto simp: remove_task_def bnd_Inr_iff ret_apply)
qed

lemma remove_reach_inside:
  assumes "remove_reach [Visit path t] c stack c'"
  shows "list_all (inside path \<circ> task_path) stack"
  using assms
proof (induction rule: remove_reach.induct)
  case (turn stack1 c1 stack2 c2)
  from turn.hyps(2) obtain task tasks where st: "stack1 = task # tasks" "remove_task task tasks c1 = (Inr stack2, c2)"
    by (rule remove_step_Continue)
  from st(2) turn.IH st(1) show ?case
    by (cases rule: remove_task_Inr)
      (auto simp: child_tasks_def child_task_def list_all_iff intro: inside_join)
qed (simp add: inside_refl)

text \<open>The task for the path itself stays at the bottom of the stack until it succeeds, so its removal is the
  last thing that happens.\<close>

lemma remove_loop_last:
  assumes "remove_loop [Visit path t] c = (Inr (), c')"
  shows "\<exists>c1. remove path c1 = (Inr (), c') \<or> rmdir path c1 = (Inr (), c')"
  using assms
proof (rule rml.loop_ok_rule [where I = "\<lambda>stack d.
    stack = [Visit path t] \<or> (\<exists>tasks. stack = tasks @ [RemoveDir path]) \<or>
    stack = [] \<and> (\<exists>c1. remove path c1 = (Inr (), d) \<or> rmdir path c1 = (Inr (), d))"
    and Q = "\<lambda>_ d. \<exists>c1. remove path c1 = (Inr (), d) \<or> rmdir path c1 = (Inr (), d)"])
  fix stack d stack' d'
  assume I: "stack = [Visit path t] \<or> (\<exists>tasks. stack = tasks @ [RemoveDir path]) \<or>
      stack = [] \<and> (\<exists>c1. remove path c1 = (Inr (), d) \<or> rmdir path c1 = (Inr (), d))"
    and "remove_step stack d = (Inr (Continue stack'), d')"
  then obtain task tasks where st: "stack = task # tasks" "remove_task task tasks d = (Inr stack', d')"
    by (blast elim: remove_step_Continue)
  from st(2) st(1) I show "stack' = [Visit path t] \<or> (\<exists>tasks. stack' = tasks @ [RemoveDir path]) \<or>
      stack' = [] \<and> (\<exists>c1. remove path c1 = (Inr (), d') \<or> rmdir path c1 = (Inr (), d'))"
    by (cases rule: remove_task_Inr) (auto simp: Cons_eq_append_conv)
next
  fix stack d a d'
  assume "stack = [Visit path t] \<or> (\<exists>tasks. stack = tasks @ [RemoveDir path]) \<or>
      stack = [] \<and> (\<exists>c1. remove path c1 = (Inr (), d) \<or> rmdir path c1 = (Inr (), d))"
    and "remove_step stack d = (Inr (Break a), d')"
  then show "\<exists>c1. remove path c1 = (Inr (), d') \<or> rmdir path c1 = (Inr (), d')"
    by (auto simp: remove_step_def ret_apply bnd_Inr_iff Cons_eq_append_conv split: list.splits)
qed simp

text \<open>C31. A recursive removal stays inside its tree: whatever names the listings of the server hold, every path
  that \<open>remove_all\<close> ever has on its stack has components that extend those of the path it was given; the
  root of the export is refused without a request; and when \<open>remove_all\<close> succeeds, the removal of the
  path itself was acknowledged, and last.\<close>

theorem remove_all_stays_inside:
  "(normalize_path path = Inr [] \<longrightarrow> remove_all path c = (Inl (InvalidPath path), c)) \<and>
   (normalize_path path = Inr base \<and> remove_reach [Visit path t] c stack c' \<and> task \<in> set stack \<and>
      normalize_path (task_path task) = Inr cs \<longrightarrow> (\<exists>rest. cs = base @ rest)) \<and>
   (remove_all path c = (Inr (), c') \<longrightarrow> (\<exists>c1. remove path c1 = (Inr (), c') \<or> rmdir path c1 = (Inr (), c')))"
proof (intro conjI impI)
  show "remove_all path c = (Inl (InvalidPath path), c)" if "normalize_path path = Inr []"
    using that by (simp add: remove_all_def bnd_apply of_result_apply fail_apply)
  show "\<exists>rest. cs = base @ rest"
    if "normalize_path path = Inr base \<and> remove_reach [Visit path t] c stack c' \<and> task \<in> set stack \<and>
      normalize_path (task_path task) = Inr cs"
    using that remove_reach_inside [of path t c stack c']
    by (auto simp: list_all_iff inside_def dest!: normalize_path_components)
  show "\<exists>c1. remove path c1 = (Inr (), c') \<or> rmdir path c1 = (Inr (), c')"
    if "remove_all path c = (Inr (), c')"
    using that remove_loop_last
    by (auto simp: remove_all_def bnd_Inr_iff of_result_apply fail_apply split: if_splits)
qed

theorem remove_all_stays_inside_witness:
  "remove_all ''/'' (demo_cl []) = (Inl (InvalidPath ''/''), demo_cl []) \<and>
   (\<exists>rest. [''a''] = [''a''] @ rest)"
proof -
  have "normalize_path ''/'' = Inr []" "normalize_path ''/a'' = Inr [''a'']"
    by (simp_all add: normalize_path_def MAX_NAME_BYTES_def)
  with remove_all_stays_inside [of "''/''" "demo_cl []"]
    remove_all_stays_inside [of "''/a''" "demo_cl []" "[''a'']" None "[Visit ''/a'' None]" "demo_cl []"
      "Visit ''/a'' None" "[''a'']"]
  show ?thesis by (simp add: remove_reach.start)
qed

subsection \<open>Listing\<close>

text \<open>The batches of a listing, from a cookie and its verifier on: every one but the last has entries, and the
  cookie of its last entry, another one than it was asked for, is where the next one starts.\<close>

inductive list_run :: "FileHandle \<Rightarrow> u64 \<Rightarrow> bytes \<Rightarrow> Client \<Rightarrow> ReadDirResult list \<Rightarrow> Client \<Rightarrow> bool" for dir where
  last_batch: "read_batch dir cookie verf c = (Inr b, c') \<Longrightarrow> rd_eof b \<Longrightarrow> list_run dir cookie verf c [b] c'"
| more_batches: "read_batch dir cookie verf c = (Inr b, c1) \<Longrightarrow> \<not> rd_eof b \<Longrightarrow> rd_entries b \<noteq> [] \<Longrightarrow>
    de_cookie (last (rd_entries b)) \<noteq> cookie \<Longrightarrow>
    list_run dir (de_cookie (last (rd_entries b))) (rd_cookieverf b) c1 bs c' \<Longrightarrow>
    list_run dir cookie verf c (b # bs) c'"

inductive_simps list_run_unfold: "list_run dir cookie verf c bs c'"

definition listing :: "ReadDirResult list \<Rightarrow> DirEntry list" where
  "listing bs = concat (map (map dir_entry_of \<circ> rd_entries) bs)"

lemma listing_simps [simp]: "listing [] = []" "listing (b # bs) = map dir_entry_of (rd_entries b) @ listing bs"
  by (simp_all add: listing_def)

lemma list_run_requests: "list_run dir cookie verf c bs c' \<Longrightarrow> length bs \<le> length (listing bs) + 1"
proof (induction rule: list_run.induct)
  case (more_batches cookie verf c b c1 bs c')
  then show ?case by (cases "rd_entries b") simp_all
qed simp

lemma append_dir_entries_eq:
  "append_dir_entries out b n = Inr out' \<longleftrightarrow>
     out' = out @ map dir_entry_of (rd_entries b) \<and> (length out' \<le> n \<or> usize_max \<le> n)"
  by (auto simp: append_dir_entries_def saturating_add_usize_def min_def split: if_splits)

lemma read_dir_step_Break:
  "read_dir_step dir n (acc, cookie, verf) c = (Inr (Break es), c') \<longleftrightarrow>
     (\<exists>b. read_batch dir cookie verf c = (Inr b, c') \<and> rd_eof b \<and>
        es = acc @ map dir_entry_of (rd_entries b) \<and> (length es \<le> n \<or> usize_max \<le> n))"
  by (auto simp: read_dir_step_def bnd_Inr_iff of_result_apply ret_apply append_dir_entries_eq
      next_dir_cursor_def split: option.splits if_splits)

lemma read_dir_step_Continue:
  "read_dir_step dir n (acc, cookie, verf) c = (Inr (Continue v), c') \<longleftrightarrow>
     (\<exists>b. read_batch dir cookie verf c = (Inr b, c') \<and> \<not> rd_eof b \<and> rd_entries b \<noteq> [] \<and>
        de_cookie (last (rd_entries b)) \<noteq> cookie \<and>
        v = (acc @ map dir_entry_of (rd_entries b), de_cookie (last (rd_entries b)), rd_cookieverf b) \<and>
        (length (acc @ map dir_entry_of (rd_entries b)) \<le> n \<or> usize_max \<le> n))"
  by (auto simp: read_dir_step_def bnd_Inr_iff of_result_apply ret_apply append_dir_entries_eq
      next_dir_cursor_def split: option.splits if_splits)

lemma read_dir_loop_run:
  "read_dir_loop dir n v c = (Inr es, c') \<longleftrightarrow>
     (\<exists>bs. list_run dir (fst (snd v)) (snd (snd v)) c bs c' \<and> es = fst v @ listing bs \<and>
        (length es \<le> n \<or> usize_max \<le> n))"
proof (rule rdl.loop_run_iff)
  fix v :: "DirEntry list \<times> u64 \<times> bytes" and c
  obtain acc cookie verf where v: "v = (acc, cookie, verf)" by (cases v) auto
  show "(\<exists>bs. list_run dir (fst (snd v)) (snd (snd v)) c bs c' \<and> es = fst v @ listing bs \<and>
        (length es \<le> n \<or> usize_max \<le> n)) \<longleftrightarrow>
      read_dir_step dir n v c = (Inr (Break es), c') \<or>
      (\<exists>v1 c1. read_dir_step dir n v c = (Inr (Continue v1), c1) \<and>
        (\<exists>bs. list_run dir (fst (snd v1)) (snd (snd v1)) c1 bs c' \<and> es = fst v1 @ listing bs \<and>
          (length es \<le> n \<or> usize_max \<le> n)))" (is "?run \<longleftrightarrow> ?b \<or> ?m")
  proof (intro iffI; (elim disjE)?)
    assume ?run
    then obtain bs where "list_run dir cookie verf c bs c'" "es = acc @ listing bs"
        "length es \<le> n \<or> usize_max \<le> n" by (auto simp: v)
    then show "?b \<or> ?m"
      by (cases rule: list_run.cases) (auto simp: v read_dir_step_Break read_dir_step_Continue)
  next
    assume ?b
    then obtain b where b: "read_batch dir cookie verf c = (Inr b, c')" "rd_eof b"
        "es = acc @ map dir_entry_of (rd_entries b)" "length es \<le> n \<or> usize_max \<le> n"
      unfolding v read_dir_step_Break by blast
    from list_run.last_batch [OF b(1,2)] b(3,4) show ?run
      by (intro exI [of _ "[b]"]) (simp add: v)
  next
    assume ?m
    then obtain b c1 bs where b: "read_batch dir cookie verf c = (Inr b, c1)" "\<not> rd_eof b" "rd_entries b \<noteq> []"
        "de_cookie (last (rd_entries b)) \<noteq> cookie"
        "list_run dir (de_cookie (last (rd_entries b))) (rd_cookieverf b) c1 bs c'"
        "es = acc @ map dir_entry_of (rd_entries b) @ listing bs" "length es \<le> n \<or> usize_max \<le> n"
      unfolding v read_dir_step_Continue by (elim exE conjE) simp
    from list_run.more_batches [OF b(1-5)] b(6,7) show ?run
      by (intro exI [of _ "b # bs"]) (simp add: v)
  qed
qed

text \<open>C32. A listing is complete and bounded: \<open>read_dir_with_limit\<close> succeeds exactly when the directory
  resolves, the server answers with batches of which each continues at the cookie of the last entry
  before, under the verifier it came with, up to a batch marked as the last, and together they
  hold no more entries than the limit; it returns all their entries in order, after at most one batch
  more than there are entries. A batch is one READDIRPLUS, or that and the READDIR that replaces it where
  the server does not support it.\<close>

theorem read_dir_complete:
  "read_dir_with_limit path n c = (Inr es, c') \<longleftrightarrow>
     (\<exists>dir c1 bs. resolve path c = (Inr dir, c1) \<and> list_run dir 0 (replicate 8 0) c1 bs c' \<and>
        es = listing bs \<and> (length es \<le> n \<or> usize_max \<le> n) \<and> length bs \<le> length es + 1)"
  using list_run_requests
  by (simp add: read_dir_with_limit_def bnd_Inr_iff read_dir_loop_run) blast

end
