(* ===== verification/Tokio_Rpc.thy ===== *)
theory Tokio_Rpc
  imports Rpc_Client
begin

text \<open>
  The asynchronous RPC client (\<open>src/tokio_rpc.rs\<close>). The runtime is not part of the crate: the stream and
  what awaiting an operation on it does are the fields of \<open>tokio_io\<close>, arguments of the model. Awaiting
  an operation ends with its result or not at all, when the future that awaits it is dropped; under a
  timeout the time may also run out. An operation of the client ends with a result, with an error, or
  with \<open>Dropped\<close> when its future is dropped at an await; what it did to the client until then stays.

  The lemmas show that a call that is dropped on its way leaves the connection marked as unusable, exactly
  like a call whose outcome is unknown, that reading a record ends after a bounded number of fragments
  whatever the runtime does, and that over a runtime whose operations behave like those of the standard
  library the client makes the same calls as the blocking one.
\<close>

unbundle bit_operations_syntax

subsection \<open>Awaiting\<close>

datatype stop = Failed error | Dropped

datatype 'a timed = InTime 'a | TimeElapsed

record ('addr, 's) tokio_io =
  io_connect :: "'addr \<Rightarrow> (io_kind + 's) option"
  io_timeout_connect :: "duration \<Rightarrow> 'addr \<Rightarrow> (io_kind + 's) timed option"
  io_set_nodelay :: "bool \<Rightarrow> 's \<Rightarrow> (io_kind + unit) \<times> 's"
  io_write_all :: "bytes \<Rightarrow> 's \<Rightarrow> (io_kind + unit) option \<times> 's"
  io_timeout_write_all :: "duration \<Rightarrow> bytes \<Rightarrow> 's \<Rightarrow> (io_kind + unit) timed option \<times> 's"
  io_flush :: "'s \<Rightarrow> (io_kind + unit) option \<times> 's"
  io_timeout_flush :: "duration \<Rightarrow> 's \<Rightarrow> (io_kind + unit) timed option \<times> 's"
  io_read_exact :: "nat \<Rightarrow> 's \<Rightarrow> (io_kind + bytes) option \<times> 's"
  io_timeout_read_exact :: "duration \<Rightarrow> nat \<Rightarrow> 's \<Rightarrow> (io_kind + bytes) timed option \<times> 's"

record 's TokioRpcClient =
  tk_stream :: 's
  tk_xid :: u32
  tk_auth :: Auth
  tk_max_record_size :: usize
  tk_timeout :: "duration option"
  tk_interrupted :: bool

type_synonym ('s, 'a) tk = "('s TokioRpcClient, stop, 'a) op"

definition timeout_error :: error where
  "timeout_error = Io TimedOut"

text \<open>\<open>.await?\<close> on an operation of the stream, and the same under a timeout.\<close>

fun awaited :: "(io_kind + 'a) option \<Rightarrow> stop + 'a" where
  "awaited None = Inl Dropped"
| "awaited (Some (Inl k)) = Inl (Failed (Io k))"
| "awaited (Some (Inr x)) = Inr x"

fun awaited_timed :: "(io_kind + 'a) timed option \<Rightarrow> stop + 'a" where
  "awaited_timed None = Inl Dropped"
| "awaited_timed (Some TimeElapsed) = Inl (Failed timeout_error)"
| "awaited_timed (Some (InTime r)) = awaited (Some r)"

definition on_stream :: "('s \<Rightarrow> (stop + 'a) \<times> 's) \<Rightarrow> ('s, 'a) tk" where
  "on_stream m c = (case m (tk_stream c) of (r, s) \<Rightarrow> (r, c\<lparr>tk_stream := s\<rparr>))"

subsection \<open>The stream\<close>

definition tk_write_all :: "('addr, 's) tokio_io \<Rightarrow> bytes \<Rightarrow> ('s, unit) tk" where
  "tk_write_all io buf =
     bnd (gets tk_timeout) (\<lambda>timeout.
     case timeout of
       Some t \<Rightarrow> on_stream (map_prod awaited_timed id \<circ> io_timeout_write_all io t buf)
     | None \<Rightarrow> on_stream (map_prod awaited id \<circ> io_write_all io buf))"

definition tk_flush :: "('addr, 's) tokio_io \<Rightarrow> ('s, unit) tk" where
  "tk_flush io =
     bnd (gets tk_timeout) (\<lambda>timeout.
     case timeout of
       Some t \<Rightarrow> on_stream (map_prod awaited_timed id \<circ> io_timeout_flush io t)
     | None \<Rightarrow> on_stream (map_prod awaited id \<circ> io_flush io))"

text \<open>The buffer of \<open>n\<close> zero bytes that is read into keeps its length.\<close>

definition fill :: "nat \<Rightarrow> bytes \<Rightarrow> bytes" where
  "fill n bs = take n (bs @ replicate n 0)"

definition tk_read_exact :: "('addr, 's) tokio_io \<Rightarrow> nat \<Rightarrow> ('s, bytes) tk" where
  "tk_read_exact io n =
     bnd (gets tk_timeout) (\<lambda>timeout.
     bnd (case timeout of
            Some t \<Rightarrow> on_stream (map_prod awaited_timed id \<circ> io_timeout_read_exact io t n)
          | None \<Rightarrow> on_stream (map_prod awaited id \<circ> io_read_exact io n)) (\<lambda>bs.
     ret (fill n bs)))"

subsection \<open>The client\<close>

definition tk_connect_tcp_stream :: "('addr, 's) tokio_io \<Rightarrow> 'addr \<Rightarrow> duration option \<Rightarrow> stop + 's" where
  "tk_connect_tcp_stream io addr timeout =
     (case timeout of
        Some t \<Rightarrow> awaited_timed (io_timeout_connect io t addr)
      | None \<Rightarrow> awaited (io_connect io addr))"

definition tk_connect_with_timeout :: "('addr, 's) tokio_io \<Rightarrow> u32 \<Rightarrow> 'addr \<Rightarrow> Auth \<Rightarrow> duration option \<Rightarrow>
    stop + 's TokioRpcClient" where
  "tk_connect_with_timeout io stamp addr auth timeout =
     bindR (tk_connect_tcp_stream io addr timeout) (\<lambda>stream.
     case io_set_nodelay io True stream of
       (Inl k, _) \<Rightarrow> Inl (Failed (Io k))
     | (Inr _, stream) \<Rightarrow>
         Inr \<lparr>tk_stream = stream, tk_xid = stamp, tk_auth = auth,
              tk_max_record_size = DEFAULT_MAX_RECORD_SIZE, tk_timeout = timeout, tk_interrupted = False\<rparr>)"

definition tk_set_timeout :: "duration option \<Rightarrow> ('s, unit) tk" where
  "tk_set_timeout timeout = modify (\<lambda>c. c\<lparr>tk_timeout := timeout\<rparr>)"

definition fallible :: "'a result \<Rightarrow> ('s, 'a) tk" where
  "fallible r = of_result (case r of Inl e \<Rightarrow> Inl (Failed e) | Inr x \<Rightarrow> Inr x)"

definition tk_set_max_record_size :: "usize \<Rightarrow> ('s, unit) tk" where
  "tk_set_max_record_size max_record_size =
     bnd (fallible (validate_max_record_size max_record_size)) (\<lambda>_.
     modify (\<lambda>c. c\<lparr>tk_max_record_size := max_record_size\<rparr>))"

definition tk_next_xid :: "('s, u32) tk" where
  "tk_next_xid c =
     (let xid = tk_xid c + 1;
          xid = (if xid = 0 then 1 else xid)
      in (Inr xid, c\<lparr>tk_xid := xid\<rparr>))"

definition tk_write_record :: "('addr, 's) tokio_io \<Rightarrow> bytes \<Rightarrow> ('s, unit) tk" where
  "tk_write_record io payload =
     (if length payload > unat FRAGMENT_LEN_MASK
      then fail (Failed (RpcRecordTooLarge (length payload) (unat FRAGMENT_LEN_MASK)))
      else
        bnd (fallible (ok_or (u32_try_from (length payload))
               (RpcRecordTooLarge (length payload) (unat FRAGMENT_LEN_MASK)))) (\<lambda>len.
        let header = LAST_FRAGMENT OR len in
        seq_ops
          [tk_write_all io (u32_to_be_bytes header),
           tk_write_all io payload,
           tk_flush io]))"

definition tk_read_fragment :: "('addr, 's) tokio_io \<Rightarrow> bytes \<Rightarrow> ('s, (bytes, bytes) loop_step) tk" where
  "tk_read_fragment io record =
     bnd (tk_read_exact io 4) (\<lambda>header_bytes.
     let header = from_be_bytes header_bytes :: u32;
         is_last = (header AND LAST_FRAGMENT \<noteq> 0);
         fragment_len = unat (header AND FRAGMENT_LEN_MASK)
     in
       if fragment_len = 0 \<and> \<not> is_last
       then fail (Failed (Protocol ''RPC record contained zero-length non-final fragment'' []))
       else
         bnd (gets tk_max_record_size) (\<lambda>max_record_size.
         bnd (fallible (ok_or (checked_add_usize (length record) fragment_len)
                (RpcRecordTooLarge usize_max max_record_size))) (\<lambda>next_len.
         if next_len > max_record_size then fail (Failed (RpcRecordTooLarge next_len max_record_size))
         else
           bnd (tk_read_exact io (next_len - length record)) (\<lambda>chunk.
           if is_last then ret (Break (record @ chunk)) else ret (Continue (record @ chunk))))))"

text \<open>Only the stream changes while a record is written or read.\<close>

definition only_stream :: "'s TokioRpcClient \<Rightarrow> 's TokioRpcClient \<Rightarrow> bool" where
  "only_stream c c' \<longleftrightarrow> (\<exists>s. c' = c\<lparr>tk_stream := s\<rparr>)"

lemma reflp_only_stream [keeps_intros]: "reflp only_stream"
proof (rule reflpI)
  fix c :: "'s TokioRpcClient"
  show "only_stream c c" unfolding only_stream_def by (rule exI [of _ "tk_stream c"]) simp
qed

lemma transp_only_stream [keeps_intros]: "transp only_stream"
  unfolding only_stream_def by (rule transpI, elim exE, simp, rule exI, rule refl)

lemma only_stream_on_stream [keeps_intros]: "keeps only_stream (on_stream m)"
  by (simp add: keeps_def on_stream_def only_stream_def split: prod.split) (intro allI impI exI, rule refl)

lemma only_stream_fallible [keeps_intros]: "keeps only_stream (fallible r)"
  unfolding fallible_def by (intro keeps_intros)

lemma only_stream_io [keeps_intros]:
  "keeps only_stream (tk_write_all io buf)" "keeps only_stream (tk_flush io)"
  "keeps only_stream (tk_read_exact io n)"
  unfolding tk_write_all_def tk_flush_def tk_read_exact_def by (intro keeps_intros)+

lemma only_stream_write_record [keeps_intros]: "keeps only_stream (tk_write_record io payload)"
  unfolding tk_write_record_def Let_def seq_ops.simps by (intro keeps_intros)

lemma only_stream_read_fragment [keeps_intros]: "keeps only_stream (tk_read_fragment io buf)"
  unfolding tk_read_fragment_def Let_def by (intro keeps_intros)

lemma only_stream_simps:
  assumes "only_stream c c'"
  shows "tk_xid c' = tk_xid c" "tk_auth c' = tk_auth c" "tk_max_record_size c' = tk_max_record_size c"
    "tk_timeout c' = tk_timeout c" "tk_interrupted c' = tk_interrupted c"
  using assms by (auto simp: only_stream_def)

text \<open>Every fragment but the last makes the record longer, and it never grows above the limit.\<close>

lemma length_fill [simp]: "length (fill n bs) = n"
  by (simp add: fill_def)

lemma tk_read_exact_length: "tk_read_exact io n c = (Inr bs, c') \<Longrightarrow> length bs = n"
  by (auto simp: tk_read_exact_def bnd_Inr_iff ret_apply)

lemma tk_read_fragment_shrinks:
  assumes "tk_read_fragment io buf c = (Inr (Continue buf'), c')"
  shows "Suc (tk_max_record_size c') - length buf' < Suc (tk_max_record_size c) - length buf"
proof -
  from assms obtain n c1 chunk where n: "0 < n" "length buf + n \<le> tk_max_record_size c1"
      "tk_read_exact io n c1 = (Inr chunk, c')" "buf' = buf @ chunk"
    by (auto simp: tk_read_fragment_def bnd_Inr_iff gets_apply ret_apply fail_apply fallible_def of_result_apply
        ok_or_def checked_add_usize_def Let_def not_less split: if_splits option.splits)
  have "tk_max_record_size c' = tk_max_record_size c1" "tk_max_record_size c' = tk_max_record_size c"
    using only_stream_simps(3) [OF keepsD [OF only_stream_io(3) n(3)]]
      only_stream_simps(3) [OF keepsD [OF only_stream_read_fragment assms]] by simp_all
  with n tk_read_exact_length [OF n(3)] show ?thesis by simp
qed

function tk_read_record_loop :: "('addr, 's) tokio_io \<Rightarrow> bytes \<Rightarrow> ('s, bytes) tk" where
  "tk_read_record_loop io record c =
     (case tk_read_fragment io record c of
        (Inl e, c') \<Rightarrow> (Inl e, c')
      | (Inr (Continue record'), c') \<Rightarrow> tk_read_record_loop io record' c'
      | (Inr (Break record'), c') \<Rightarrow> (Inr record', c'))"
  by pat_completeness auto
termination
  by (relation "measure (\<lambda>(io, record, c). Suc (tk_max_record_size c) - length record)")
    (auto intro: tk_read_fragment_shrinks [OF sym])

declare tk_read_record_loop.simps [simp del]

interpretation trl: body_loop "tk_read_fragment io" "tk_read_record_loop io"
  "\<lambda>buf c. Suc (tk_max_record_size c) - length buf" for io
  by unfold_locales (rule tk_read_record_loop.simps, rule tk_read_fragment_shrinks)

definition tk_read_record :: "('addr, 's) tokio_io \<Rightarrow> ('s, bytes) tk" where
  "tk_read_record io = tk_read_record_loop io []"

text \<open>\<open>map_err\<close> applies to an error, not to a drop.\<close>

fun outcome_unknown :: "stop \<Rightarrow> stop" where
  "outcome_unknown (Failed err) = Failed (OutcomeUnknown err)"
| "outcome_unknown Dropped = Dropped"

definition tk_call :: "('addr, 's) tokio_io \<Rightarrow> u32 \<Rightarrow> u32 \<Rightarrow> u32 \<Rightarrow> (encoder, xdr_error, unit) op \<Rightarrow>
    ('s, bytes) tk" where
  "tk_call io program version procedure args =
     bnd (gets tk_interrupted) (\<lambda>interrupted.
     if interrupted then fail (Failed RpcConnectionInvalid)
     else
       bnd tk_next_xid (\<lambda>xid.
       bnd (gets tk_auth) (\<lambda>auth.
       bnd (fallible (encode_call xid program version procedure auth args)) (\<lambda>request.
       bnd (modify (\<lambda>c. c\<lparr>tk_interrupted := True\<rparr>)) (\<lambda>_.
       bnd (map_err outcome_unknown (tk_write_record io request)) (\<lambda>_.
       bnd (map_err outcome_unknown (tk_read_record io)) (\<lambda>reply.
       case decode_reply xid reply of
         Inr payload \<Rightarrow> bnd (modify (\<lambda>c. c\<lparr>tk_interrupted := False\<rparr>)) (\<lambda>_. ret payload)
       | Inl err \<Rightarrow>
           (case err of
              RpcDenied _ _ \<Rightarrow> bnd (modify (\<lambda>c. c\<lparr>tk_interrupted := False\<rparr>)) (\<lambda>_. fail (Failed err))
            | RpcAcceptedError _ \<Rightarrow>
                bnd (modify (\<lambda>c. c\<lparr>tk_interrupted := False\<rparr>)) (\<lambda>_. fail (Failed err))
            | RpcProgramMismatch _ _ \<Rightarrow>
                bnd (modify (\<lambda>c. c\<lparr>tk_interrupted := False\<rparr>)) (\<lambda>_. fail (Failed err))
            | _ \<Rightarrow> fail (Failed (OutcomeUnknown err))))))))))"

subsection \<open>Dropped calls\<close>

lemma only_stream_read_record [keeps_intros]: "keeps only_stream (tk_read_record io)"
  unfolding tk_read_record_def by (intro trl.keeps_loop keeps_intros)

lemma tk_next_xid_eq: "tk_next_xid c = (Inr (succ_xid (tk_xid c)), c\<lparr>tk_xid := succ_xid (tk_xid c)\<rparr>)"
  by (simp add: tk_next_xid_def succ_xid_def Let_def)

lemma tk_call_interrupted:
  "tk_interrupted c \<Longrightarrow> tk_call io program version procedure args c = (Inl (Failed RpcConnectionInvalid), c)"
  by (simp add: tk_call_def bnd_apply gets_apply fail_apply)

lemma tk_call_eq:
  assumes "\<not> tk_interrupted c"
  shows "tk_call io program version procedure args c =
    (let xid = succ_xid (tk_xid c);
         c0 = c\<lparr>tk_xid := xid\<rparr>
     in case encode_call xid program version procedure (tk_auth c) args of
       Inl e \<Rightarrow> (Inl (Failed e), c0)
     | Inr request \<Rightarrow>
         (case tk_write_record io request (c0\<lparr>tk_interrupted := True\<rparr>) of
            (Inl e, c1) \<Rightarrow> (Inl (outcome_unknown e), c1)
          | (Inr _, c1) \<Rightarrow>
              (case tk_read_record io c1 of
                 (Inl e, c2) \<Rightarrow> (Inl (outcome_unknown e), c2)
               | (Inr reply, c2) \<Rightarrow>
                   (case decode_reply xid reply of
                      Inr payload \<Rightarrow> (Inr payload, c2\<lparr>tk_interrupted := False\<rparr>)
                    | Inl e \<Rightarrow>
                        if definite_rejection e then (Inl (Failed e), c2\<lparr>tk_interrupted := False\<rparr>)
                        else (Inl (Failed (OutcomeUnknown e)), c2)))))"
  using assms
  by (auto simp: tk_call_def Let_def bnd_apply gets_apply tk_next_xid_eq fallible_def of_result_apply modify_apply
      map_err_apply ret_apply fail_apply split: prod.split sum.split error.split)

lemma outcome_unknown_cases: "outcome_unknown e = Dropped \<or> (\<exists>err. outcome_unknown e = Failed (OutcomeUnknown err))"
  by (cases e) simp_all

lemma tk_call_poisons:
  assumes "\<not> tk_interrupted c" "tk_call io program version procedure args c = (r, c')"
  shows "tk_interrupted c' \<longleftrightarrow> r = Inl Dropped \<or> (\<exists>e. r = Inl (Failed (OutcomeUnknown e)))"
proof -
  have w: "tk_write_record io request d = (q, d') \<Longrightarrow> tk_interrupted d' = tk_interrupted d" for request d q d'
    by (drule keepsD [OF only_stream_write_record]) (simp add: only_stream_simps)
  have r: "tk_read_record io d = (q, d') \<Longrightarrow> tk_interrupted d' = tk_interrupted d" for d q d'
    by (drule keepsD [OF only_stream_read_record]) (simp add: only_stream_simps)
  show ?thesis
    using assms(2) assms(1) outcome_unknown_cases unfolding tk_call_eq [OF assms(1)] Let_def
    by (auto split: prod.splits sum.splits if_splits
        dest: encode_call_Inl w r definite_not_unknown)
qed

subsection \<open>The same calls as the blocking client\<close>

text \<open>A runtime whose operations, awaited without a timeout and not dropped, do what those of the standard
  library do.\<close>

definition like_std :: "('addr, tcp_stream) tokio_io \<Rightarrow> bool" where
  "like_std io \<longleftrightarrow>
     (\<forall>buf s. io_write_all io buf s = map_prod Some id (write_all buf s)) \<and>
     (\<forall>s. io_flush io s = map_prod Some id (flush s)) \<and>
     (\<forall>n s. io_read_exact io n s = map_prod Some id (read_exact n s))"

definition async_of :: "RpcClient \<Rightarrow> tcp_stream TokioRpcClient" where
  "async_of b =
     \<lparr>tk_stream = rpc_stream b, tk_xid = rpc_xid b, tk_auth = rpc_auth b,
      tk_max_record_size = rpc_max_record_size b, tk_timeout = None, tk_interrupted = rpc_interrupted b\<rparr>"

definition mirrors :: "(tcp_stream, 'a) tk \<Rightarrow> 'a rpc \<Rightarrow> bool" where
  "mirrors m n \<longleftrightarrow> (\<forall>b. m (async_of b) = map_prod (map_sum Failed id) async_of (n b))"

named_theorems mirror_intros "introduction rules for mirrors"

lemma mirrors_bnd [mirror_intros]:
  assumes "mirrors m n" "\<And>x. mirrors (k x) (l x)"
  shows "mirrors (bnd m k) (bnd n l)"
  unfolding mirrors_def
proof
  fix b
  show "bnd m k (async_of b) = map_prod (map_sum Failed id) async_of (bnd n l b)"
    using assms unfolding mirrors_def by (cases "n b"; cases "fst (n b)") (simp_all add: bnd_apply)
qed

lemma mirrors_basic [mirror_intros]:
  "mirrors (ret x) (ret x)" "mirrors (fail (Failed e)) (fail e)"
  "mirrors (fallible r) (of_result r)"
  by (cases r; simp add: mirrors_def ret_apply fail_apply fallible_def of_result_apply)+

lemma mirrors_gets [mirror_intros]:
  "mirrors (gets tk_interrupted) (gets rpc_interrupted)" "mirrors (gets tk_auth) (gets rpc_auth)"
  "mirrors (gets tk_max_record_size) (gets rpc_max_record_size)"
  by (simp_all add: mirrors_def gets_apply async_of_def)

lemma mirrors_interrupted [mirror_intros]:
  "mirrors (modify (\<lambda>c. c\<lparr>tk_interrupted := v\<rparr>)) (modify (\<lambda>c. c\<lparr>rpc_interrupted := v\<rparr>))"
  by (simp add: mirrors_def modify_apply async_of_def)

lemma mirrors_next_xid [mirror_intros]: "mirrors tk_next_xid next_xid"
  by (simp add: mirrors_def tk_next_xid_eq next_xid_eq async_of_def)

lemma mirrors_map_err [mirror_intros]:
  "mirrors m n \<Longrightarrow> mirrors (map_err outcome_unknown m) (map_err OutcomeUnknown n)"
  by (auto simp: mirrors_def map_err_apply split: prod.splits sum.splits)

lemma mirrors_if [mirror_intros]:
  "(b \<Longrightarrow> mirrors m n) \<Longrightarrow> (\<not> b \<Longrightarrow> mirrors m' n') \<Longrightarrow> mirrors (if b then m else m') (if b then n else n')"
  by simp

lemma mirrors_sum [mirror_intros]:
  "(\<And>e. mirrors (k e) (l e)) \<Longrightarrow> (\<And>x. mirrors (h x) (g x)) \<Longrightarrow>
     mirrors (case r of Inl e \<Rightarrow> k e | Inr x \<Rightarrow> h x) (case r of Inl e \<Rightarrow> l e | Inr x \<Rightarrow> g x)"
  by (cases r) simp_all

lemma mirrors_on_stream:
  assumes "\<And>s. m s = map_prod (map_sum (Failed \<circ> Io) id) id (n s)"
  shows "mirrors (on_stream m) (with_stream n)"
  using assms by (auto simp: mirrors_def on_stream_def with_stream_def async_of_def split: prod.split sum.split)

lemma awaited_Some: "awaited (Some r) = map_sum (Failed \<circ> Io) id r"
  by (cases r) simp_all

lemma mirrors_stream:
  assumes "like_std io"
  shows "mirrors (tk_write_all io buf) (with_stream (write_all buf))"
    "mirrors (tk_flush io) (with_stream flush)" "mirrors (tk_read_exact io n) (with_stream (read_exact n))"
proof -
  have t: "mirrors (bnd (gets tk_timeout) k) m" if "mirrors (k None) m" for k :: "_ \<Rightarrow> (tcp_stream, 'c) tk" and m
    using that by (simp add: mirrors_def bnd_apply gets_apply async_of_def)
  show "mirrors (tk_write_all io buf) (with_stream (write_all buf))"
    using assms unfolding tk_write_all_def like_std_def
    by (intro t) (auto intro!: mirrors_on_stream simp: awaited_Some map_prod_def split: prod.splits)
  show "mirrors (tk_flush io) (with_stream flush)"
    using assms unfolding tk_flush_def like_std_def
    by (intro t) (auto intro!: mirrors_on_stream simp: awaited_Some map_prod_def split: prod.splits)
  have "mirrors (on_stream (map_prod awaited id \<circ> io_read_exact io n)) (with_stream (read_exact n))"
    using assms unfolding like_std_def
    by (auto intro!: mirrors_on_stream simp: awaited_Some map_prod_def split: prod.splits)
  moreover have "bnd (with_stream (read_exact n)) (\<lambda>bs. ret (fill n bs)) = with_stream (read_exact n)"
  proof
    fix c
    show "bnd (with_stream (read_exact n)) (\<lambda>bs. ret (fill n bs)) c = with_stream (read_exact n) c"
      using read_exact_Inr(1) [of n c]
      by (cases "with_stream (read_exact n) c"; cases "fst (with_stream (read_exact n) c)")
        (auto simp: bnd_apply ret_apply fill_def)
  qed
  ultimately show "mirrors (tk_read_exact io n) (with_stream (read_exact n))"
    unfolding tk_read_exact_def
    by (intro t) (simp, metis mirrors_bnd mirrors_basic(1))
qed

lemma mirrors_write_record:
  assumes "like_std io"
  shows "mirrors (tk_write_record io payload) (write_record payload)"
  unfolding tk_write_record_def write_record_def Let_def seq_ops.simps
  by (intro mirror_intros mirrors_stream [OF assms])

lemma mirrors_read_fragment:
  assumes "like_std io"
  shows "mirrors (tk_read_fragment io buf) (read_fragment buf)"
  unfolding tk_read_fragment_def read_fragment_def Let_def
  by (intro mirror_intros mirrors_stream [OF assms])

lemma mirrors_read_record:
  assumes "like_std io"
  shows "mirrors (tk_read_record io) read_record"
proof -
  have "tk_read_record_loop io buf (async_of b) = map_prod (map_sum Failed id) async_of (read_record_loop buf b)"
    for buf b
  proof (induction buf b rule: rrl.loop_induct)
    case (1 buf b)
    have f: "tk_read_fragment io buf (async_of b) = map_prod (map_sum Failed id) async_of (read_fragment buf b)"
      using mirrors_read_fragment [OF assms] by (simp add: mirrors_def)
    show ?case
      using 1 unfolding tk_read_record_loop.simps [of io buf] read_record_loop.simps [of buf] f
      by (auto split: prod.splits sum.splits loop_step.splits)
  qed
  then show ?thesis by (simp add: mirrors_def tk_read_record_def read_record_def)
qed

lemma mirrors_call:
  assumes "like_std io"
  shows "mirrors (tk_call io program version procedure args) (rpc_call program version procedure args)"
proof -
  have rejection: "mirrors
      (case err of
         RpcDenied _ _ \<Rightarrow> bnd (modify (\<lambda>c. c\<lparr>tk_interrupted := False\<rparr>)) (\<lambda>_. fail (Failed err))
       | RpcAcceptedError _ \<Rightarrow> bnd (modify (\<lambda>c. c\<lparr>tk_interrupted := False\<rparr>)) (\<lambda>_. fail (Failed err))
       | RpcProgramMismatch _ _ \<Rightarrow> bnd (modify (\<lambda>c. c\<lparr>tk_interrupted := False\<rparr>)) (\<lambda>_. fail (Failed err))
       | _ \<Rightarrow> fail (Failed (OutcomeUnknown err)))
      (case err of
         RpcDenied _ _ \<Rightarrow> bnd (modify (\<lambda>c. c\<lparr>rpc_interrupted := False\<rparr>)) (\<lambda>_. fail err)
       | RpcAcceptedError _ \<Rightarrow> bnd (modify (\<lambda>c. c\<lparr>rpc_interrupted := False\<rparr>)) (\<lambda>_. fail err)
       | RpcProgramMismatch _ _ \<Rightarrow> bnd (modify (\<lambda>c. c\<lparr>rpc_interrupted := False\<rparr>)) (\<lambda>_. fail err)
       | _ \<Rightarrow> fail (OutcomeUnknown err))" for err :: error
    by (cases err) (auto intro!: mirror_intros)
  show ?thesis
    unfolding tk_call_def rpc_call_def
    by (intro mirror_intros mirrors_write_record mirrors_read_record assms rejection)
qed

text \<open>C11. A call that is dropped poisons the connection: whatever the runtime does, an asynchronous call on a
  usable connection leaves it marked as unusable exactly when its future was dropped at an await or its
  outcome is unknown, and on a connection so marked a call fails with \<open>RpcConnectionInvalid\<close> and changes
  nothing. So no later call can take the reply of a dropped one for its own.\<close>

theorem tokio_dropped_call_poisons:
  "(\<not> tk_interrupted c \<and> tk_call io program version procedure args c = (r, c') \<longrightarrow>
     (tk_interrupted c' \<longleftrightarrow> r = Inl Dropped \<or> (\<exists>e. r = Inl (Failed (OutcomeUnknown e))))) \<and>
   (tk_interrupted c \<longrightarrow> tk_call io program version procedure args c = (Inl (Failed RpcConnectionInvalid), c))"
  using tk_call_poisons tk_call_interrupted by blast

text \<open>The standard operations as a runtime, and one on which the first write is dropped.\<close>

definition std_io :: "(unit, tcp_stream) tokio_io" where
  "std_io =
     \<lparr>io_connect = (\<lambda>_. None), io_timeout_connect = (\<lambda>_ _. None), io_set_nodelay = set_nodelay,
      io_write_all = (\<lambda>buf s. map_prod Some id (write_all buf s)), io_timeout_write_all = (\<lambda>_ _ s. (None, s)),
      io_flush = (\<lambda>s. map_prod Some id (flush s)), io_timeout_flush = (\<lambda>_ s. (None, s)),
      io_read_exact = (\<lambda>n s. map_prod Some id (read_exact n s)), io_timeout_read_exact = (\<lambda>_ _ s. (None, s))\<rparr>"

lemma like_std_io: "like_std std_io"
  by (simp add: like_std_def std_io_def)

theorem tokio_dropped_call_poisons_witness:
  "(\<exists>c'. tk_call (std_io\<lparr>io_write_all := (\<lambda>_ s. (None, s))\<rparr>) 100003 3 0 (encode_unit ()) (async_of (demo_client [])) =
      (Inl Dropped, c') \<and> tk_interrupted c') \<and>
   tk_call std_io 100003 3 0 (encode_unit ()) (async_of ((demo_client [])\<lparr>rpc_interrupted := True\<rparr>)) =
     (Inl (Failed RpcConnectionInvalid), async_of ((demo_client [])\<lparr>rpc_interrupted := True\<rparr>))"
proof (rule conjI)
  let ?io = "std_io\<lparr>io_write_all := (\<lambda>_ s. (None, s))\<rparr>"
  let ?c = "async_of (demo_client [])"
  obtain r c' where r: "tk_call ?io 100003 3 0 (encode_unit ()) ?c = (r, c')" by fastforce
  have usable: "\<not> tk_interrupted ?c" by (simp add: async_of_def)
  let ?request = "call_wire 5 100003 3 0 AuthNone []"
  have enc: "encode_call 5 100003 3 0 AuthNone (encode_unit ()) = Inr ?request"
    by (simp add: encode_call_eq encodesD [OF unitc.enc_wire] into_bytes_def extend_from_slice_def
        encoder_new_def)
  have len: "length ?request = 40"
    by (simp add: call_wire_def auth_wire_def opaque_wire_def opaque_pad_def padding_len_def)
  have "tk_write_record ?io ?request d = (Inl Dropped, d)" if "tk_timeout d = None" for d
    using that len
    by (simp add: tk_write_record_def unat_FRAGMENT_LEN_MASK bnd_apply fallible_def of_result_apply ok_or_def
        u32_try_from_def Let_def tk_write_all_def gets_apply on_stream_def)
  then have "r = Inl Dropped"
    using r enc unfolding tk_call_eq [OF usable] Let_def
    by (simp add: async_of_def succ_xid_def)
  with r tokio_dropped_call_poisons [THEN conjunct1, rule_format, OF conjI, OF usable r]
  show "\<exists>c'. tk_call ?io 100003 3 0 (encode_unit ()) ?c = (Inl Dropped, c') \<and> tk_interrupted c'" by simp
  show "tk_call std_io 100003 3 0 (encode_unit ()) (async_of ((demo_client [])\<lparr>rpc_interrupted := True\<rparr>)) =
     (Inl (Failed RpcConnectionInvalid), async_of ((demo_client [])\<lparr>rpc_interrupted := True\<rparr>))"
    by (rule tokio_dropped_call_poisons [THEN conjunct2, rule_format]) (simp add: async_of_def)
qed

text \<open>C12. Without timeouts and over a runtime whose operations do what those of the standard library do, the
  asynchronous client is the blocking one: for every peer and every call it returns the same result and
  leaves the same connection.\<close>

theorem tokio_call_like_blocking:
  assumes "like_std io"
  shows "tk_call io program version procedure args (async_of b) =
    map_prod (map_sum Failed id) async_of (rpc_call program version procedure args b)"
  using mirrors_call [OF assms] by (simp add: mirrors_def)

theorem tokio_call_like_blocking_witness:
  "\<exists>c'. tk_call std_io 100003 3 0 (encode_unit ())
      (async_of (demo_client [RxData (u32_to_be_bytes (frag_header True 24) @ null_reply)])) = (Inr [], async_of c') \<and>
     \<not> rpc_interrupted c' \<and> sent (rpc_stream c') = frame [call_wire 5 100003 3 0 AuthNone []]"
  using demo_null_call tokio_call_like_blocking [OF like_std_io, of 100003 3 0 "encode_unit ()"
    "demo_client [RxData (u32_to_be_bytes (frag_header True 24) @ null_reply)]"]
  by auto

end
