(* ===== verification/V4_Attr.thy ===== *)
theory V4_Attr
  imports V3_Messages
begin

text \<open>
  File handles, state ids and attributes of NFSv4 (\<open>src/v4/proto.rs\<close>): the attribute bitmap, the raw
  attribute list with its typed views, and the attribute update. The lemmas show that a bitmap is the set
  of its attributes, that an update encodes its values in the order of its bitmap, and that the client
  reads back what an update says.
\<close>

unbundle bit_operations_syntax

subsection \<open>Limits and attribute numbers\<close>

abbreviation (input) NFS4_FHSIZE :: usize where "NFS4_FHSIZE \<equiv> 128"
abbreviation (input) NFS4_VERIFIER_SIZE :: usize where "NFS4_VERIFIER_SIZE \<equiv> 8"
abbreviation (input) NFS4_SESSIONID_SIZE :: usize where "NFS4_SESSIONID_SIZE \<equiv> 16"
abbreviation (input) NFS4_DEVICEID_SIZE :: usize where "NFS4_DEVICEID_SIZE \<equiv> 16"
abbreviation (input) NFS4_MAX_BITMAP_WORDS :: usize where "NFS4_MAX_BITMAP_WORDS \<equiv> 128"
definition NFS4_OPAQUE_LIMIT :: usize where "NFS4_OPAQUE_LIMIT = 1024"
definition NFS4_MAX_OPS :: usize where "NFS4_MAX_OPS = 128"
definition NFS4_MAX_IO :: usize where "NFS4_MAX_IO = 64 * 1024 * 1024"
definition NFS4_MAX_DIR_ENTRIES :: usize where "NFS4_MAX_DIR_ENTRIES = 1000000"
definition NFS4_NSECONDS_PER_SECOND :: u32 where "NFS4_NSECONDS_PER_SECOND = 1000000000"

abbreviation (input) FATTR4_SUPPORTED_ATTRS :: u32 where "FATTR4_SUPPORTED_ATTRS \<equiv> 0"
abbreviation (input) FATTR4_TYPE :: u32 where "FATTR4_TYPE \<equiv> 1"
abbreviation (input) FATTR4_FH_EXPIRE_TYPE :: u32 where "FATTR4_FH_EXPIRE_TYPE \<equiv> 2"
abbreviation (input) FATTR4_CHANGE :: u32 where "FATTR4_CHANGE \<equiv> 3"
abbreviation (input) FATTR4_SIZE :: u32 where "FATTR4_SIZE \<equiv> 4"
abbreviation (input) FATTR4_LINK_SUPPORT :: u32 where "FATTR4_LINK_SUPPORT \<equiv> 5"
abbreviation (input) FATTR4_SYMLINK_SUPPORT :: u32 where "FATTR4_SYMLINK_SUPPORT \<equiv> 6"
abbreviation (input) FATTR4_UNIQUE_HANDLES :: u32 where "FATTR4_UNIQUE_HANDLES \<equiv> 9"
abbreviation (input) FATTR4_LEASE_TIME :: u32 where "FATTR4_LEASE_TIME \<equiv> 10"
abbreviation (input) FATTR4_CANSETTIME :: u32 where "FATTR4_CANSETTIME \<equiv> 15"
abbreviation (input) FATTR4_CASE_INSENSITIVE :: u32 where "FATTR4_CASE_INSENSITIVE \<equiv> 16"
abbreviation (input) FATTR4_CASE_PRESERVING :: u32 where "FATTR4_CASE_PRESERVING \<equiv> 17"
abbreviation (input) FATTR4_CHOWN_RESTRICTED :: u32 where "FATTR4_CHOWN_RESTRICTED \<equiv> 18"
abbreviation (input) FATTR4_FILEID :: u32 where "FATTR4_FILEID \<equiv> 20"
abbreviation (input) FATTR4_FILES_AVAIL :: u32 where "FATTR4_FILES_AVAIL \<equiv> 21"
abbreviation (input) FATTR4_FILES_FREE :: u32 where "FATTR4_FILES_FREE \<equiv> 22"
abbreviation (input) FATTR4_FILES_TOTAL :: u32 where "FATTR4_FILES_TOTAL \<equiv> 23"
abbreviation (input) FATTR4_HOMOGENEOUS :: u32 where "FATTR4_HOMOGENEOUS \<equiv> 26"
abbreviation (input) FATTR4_MAXFILESIZE :: u32 where "FATTR4_MAXFILESIZE \<equiv> 27"
abbreviation (input) FATTR4_MAXLINK :: u32 where "FATTR4_MAXLINK \<equiv> 28"
abbreviation (input) FATTR4_MAXNAME :: u32 where "FATTR4_MAXNAME \<equiv> 29"
abbreviation (input) FATTR4_MAXREAD :: u32 where "FATTR4_MAXREAD \<equiv> 30"
abbreviation (input) FATTR4_MAXWRITE :: u32 where "FATTR4_MAXWRITE \<equiv> 31"
abbreviation (input) FATTR4_MODE :: u32 where "FATTR4_MODE \<equiv> 33"
abbreviation (input) FATTR4_NO_TRUNC :: u32 where "FATTR4_NO_TRUNC \<equiv> 34"
abbreviation (input) FATTR4_NUMLINKS :: u32 where "FATTR4_NUMLINKS \<equiv> 35"
abbreviation (input) FATTR4_OWNER :: u32 where "FATTR4_OWNER \<equiv> 36"
abbreviation (input) FATTR4_OWNER_GROUP :: u32 where "FATTR4_OWNER_GROUP \<equiv> 37"
abbreviation (input) FATTR4_SPACE_AVAIL :: u32 where "FATTR4_SPACE_AVAIL \<equiv> 42"
abbreviation (input) FATTR4_SPACE_FREE :: u32 where "FATTR4_SPACE_FREE \<equiv> 43"
abbreviation (input) FATTR4_SPACE_TOTAL :: u32 where "FATTR4_SPACE_TOTAL \<equiv> 44"
abbreviation (input) FATTR4_SPACE_USED :: u32 where "FATTR4_SPACE_USED \<equiv> 45"
abbreviation (input) FATTR4_TIME_ACCESS :: u32 where "FATTR4_TIME_ACCESS \<equiv> 47"
abbreviation (input) FATTR4_TIME_ACCESS_SET :: u32 where "FATTR4_TIME_ACCESS_SET \<equiv> 48"
abbreviation (input) FATTR4_TIME_DELTA :: u32 where "FATTR4_TIME_DELTA \<equiv> 51"
abbreviation (input) FATTR4_TIME_METADATA :: u32 where "FATTR4_TIME_METADATA \<equiv> 52"
abbreviation (input) FATTR4_TIME_MODIFY :: u32 where "FATTR4_TIME_MODIFY \<equiv> 53"
abbreviation (input) FATTR4_TIME_MODIFY_SET :: u32 where "FATTR4_TIME_MODIFY_SET \<equiv> 54"

definition FATTR4_BASIC_ATTRS :: "u32 list" where
  "FATTR4_BASIC_ATTRS =
     [FATTR4_TYPE, FATTR4_CHANGE, FATTR4_SIZE, FATTR4_FILEID, FATTR4_MODE, FATTR4_NUMLINKS, FATTR4_OWNER,
      FATTR4_OWNER_GROUP, FATTR4_SPACE_USED, FATTR4_TIME_ACCESS, FATTR4_TIME_METADATA, FATTR4_TIME_MODIFY]"

definition FATTR4_FSSTAT_ATTRS :: "u32 list" where
  "FATTR4_FSSTAT_ATTRS =
     [FATTR4_FILES_AVAIL, FATTR4_FILES_FREE, FATTR4_FILES_TOTAL, FATTR4_SPACE_AVAIL, FATTR4_SPACE_FREE,
      FATTR4_SPACE_TOTAL]"

definition FATTR4_FSINFO_ATTRS :: "u32 list" where
  "FATTR4_FSINFO_ATTRS =
     [FATTR4_FH_EXPIRE_TYPE, FATTR4_LINK_SUPPORT, FATTR4_SYMLINK_SUPPORT, FATTR4_UNIQUE_HANDLES,
      FATTR4_LEASE_TIME, FATTR4_CANSETTIME, FATTR4_HOMOGENEOUS, FATTR4_MAXFILESIZE, FATTR4_MAXREAD,
      FATTR4_MAXWRITE, FATTR4_TIME_DELTA]"

definition FATTR4_PATHCONF_ATTRS :: "u32 list" where
  "FATTR4_PATHCONF_ATTRS =
     [FATTR4_CASE_INSENSITIVE, FATTR4_CASE_PRESERVING, FATTR4_CHOWN_RESTRICTED, FATTR4_MAXLINK,
      FATTR4_MAXNAME, FATTR4_NO_TRUNC]"

subsection \<open>Handles and identifiers\<close>

type_synonym Verifier = bytes
type_synonym SessionId = bytes
type_synonym DeviceId = bytes

record FileHandle4 =
  fh4_data :: bytes

definition FileHandle4_new :: "bytes \<Rightarrow> FileHandle4 result" where
  "FileHandle4_new data =
     (if length data > NFS4_FHSIZE
      then Inl (Protocol ''NFSv4 file handle is {} bytes, maximum is {NFS4_FHSIZE}'' [FNat (length data)])
      else Inr \<lparr>fh4_data = data\<rparr>)"

definition encode_FileHandle4 :: "FileHandle4 enc" where
  "encode_FileHandle4 h = write_opaque (fh4_data h) NFS4_FHSIZE"

definition decode_FileHandle4 :: "FileHandle4 dec" where
  "decode_FileHandle4 = bnd (read_opaque_vec NFS4_FHSIZE) (\<lambda>data. ret \<lparr>fh4_data = data\<rparr>)"

record StateId =
  si_seqid :: u32
  si_other :: bytes

definition StateId_anonymous :: StateId where
  "StateId_anonymous = \<lparr>si_seqid = 0, si_other = replicate 12 0\<rparr>"

definition is_anonymous :: "StateId \<Rightarrow> bool" where
  "is_anonymous stateid \<longleftrightarrow> stateid = StateId_anonymous"

definition encode_StateId :: "StateId enc" where
  "encode_StateId s = seq_ops [write_u32 (si_seqid s), write_fixed_opaque (si_other s)]"

text \<open>A fixed-size byte array: the conversion of the slice fails only for a slice of another length.\<close>

definition read_array_of :: "usize \<Rightarrow> bytes dec" where
  "read_array_of n =
     bnd (read_fixed_opaque n) (\<lambda>bs. if length bs = n then ret bs else fail (UnexpectedEof n (length bs)))"

definition decode_StateId :: "StateId dec" where
  "decode_StateId =
     bnd read_u32 (\<lambda>seqid. bnd (read_array_of 12) (\<lambda>other. ret \<lparr>si_seqid = seqid, si_other = other\<rparr>))"

definition encode_DeviceId :: "DeviceId enc" where
  "encode_DeviceId d = write_fixed_opaque d"

definition decode_DeviceId :: "DeviceId dec" where
  "decode_DeviceId = read_array_of NFS4_DEVICEID_SIZE"

definition decode_verifier :: "Verifier dec" where
  "decode_verifier = read_array_of NFS4_VERIFIER_SIZE"

definition decode_session_id :: "SessionId dec" where
  "decode_session_id = read_array_of NFS4_SESSIONID_SIZE"

subsection \<open>File types and times\<close>

datatype FileType4 =
    Regular | Directory | BlockDevice | CharacterDevice | Symlink | Socket | Fifo | AttrDir | NamedAttr
  | UnknownType u32

definition FileType4_is_file :: "FileType4 \<Rightarrow> bool" where
  "FileType4_is_file t \<longleftrightarrow> t = FileType4.Regular"

definition FileType4_is_dir :: "FileType4 \<Rightarrow> bool" where
  "FileType4_is_dir t \<longleftrightarrow> t = FileType4.Directory"

definition FileType4_is_symlink :: "FileType4 \<Rightarrow> bool" where
  "FileType4_is_symlink t \<longleftrightarrow> t = FileType4.Symlink"

definition FileType4_from_u32 :: "u32 \<Rightarrow> FileType4" where
  "FileType4_from_u32 v =
     (if v = 1 then FileType4.Regular else if v = 2 then FileType4.Directory
      else if v = 3 then FileType4.BlockDevice else if v = 4 then FileType4.CharacterDevice
      else if v = 5 then FileType4.Symlink else if v = 6 then FileType4.Socket
      else if v = 7 then FileType4.Fifo else if v = 8 then FileType4.AttrDir
      else if v = 9 then FileType4.NamedAttr else UnknownType v)"

record NfsTime4 =
  t4_seconds :: i64
  t4_nseconds :: u32

definition validate_nseconds4 :: "u32 \<Rightarrow> xdr_error + unit" where
  "validate_nseconds4 ns =
     (if ns \<ge> NFS4_NSECONDS_PER_SECOND
      then Inl (LengthLimitExceeded (unat ns) (unat (NFS4_NSECONDS_PER_SECOND - 1)))
      else Inr ())"

definition NfsTime4_validate :: "NfsTime4 \<Rightarrow> xdr_error + unit" where
  "NfsTime4_validate t = validate_nseconds4 (t4_nseconds t)"

definition decode_NfsTime4 :: "NfsTime4 dec" where
  "decode_NfsTime4 =
     bnd read_i64 (\<lambda>s. bnd read_u32 (\<lambda>n.
     let time = \<lparr>t4_seconds = s, t4_nseconds = n\<rparr> in
     bnd (of_result (NfsTime4_validate time)) (\<lambda>_. ret time)))"

definition encode_NfsTime4 :: "NfsTime4 enc" where
  "encode_NfsTime4 t =
     seq_ops [of_result (NfsTime4_validate t), write_i64 (t4_seconds t), write_u32 (t4_nseconds t)]"

datatype SetTime4 = DontChange | ServerTime | ClientTime NfsTime4

definition encode_set_time4 :: "SetTime4 enc" where
  "encode_set_time4 value =
     (case value of
        SetTime4.DontChange \<Rightarrow> write_u32 0
      | SetTime4.ServerTime \<Rightarrow> write_u32 0
      | SetTime4.ClientTime time \<Rightarrow>
          seq_ops [of_result (NfsTime4_validate time), write_u32 1, encode_NfsTime4 time])"

subsection \<open>The attribute bitmap\<close>

record Bitmap =
  bm_words :: "u32 list"

definition Bitmap_empty :: Bitmap where
  "Bitmap_empty = \<lparr>bm_words = []\<rparr>"

definition validate_bitmap_attrs :: "u32 list \<Rightarrow> unit result" where
  "validate_bitmap_attrs attrs =
     (case find (\<lambda>attr. unat attr div 32 \<ge> NFS4_MAX_BITMAP_WORDS) attrs of
        None \<Rightarrow> Inr ()
      | Some attr \<Rightarrow>
          Inl (Protocol ''NFSv4 bitmap attribute {attr} exceeds supported bitmap word limit {NFS4_MAX_BITMAP_WORDS}''
            [FNat (unat attr)]))"

definition set_attr :: "u32 \<Rightarrow> u32 list \<Rightarrow> u32 list" where
  "set_attr attr words =
     (let word = unat (attr div 32); bit = unat (attr mod 32)
      in words[word := words ! word OR push_bit bit 1])"

definition from_valid_attrs :: "u32 list \<Rightarrow> Bitmap" where
  "from_valid_attrs attrs =
     (let words = (if attrs = [] then [] else replicate (unat (Max (set attrs)) div 32 + 1) 0)
      in \<lparr>bm_words = fold set_attr attrs words\<rparr>)"

definition Bitmap_from_attrs :: "u32 list \<Rightarrow> Bitmap result" where
  "Bitmap_from_attrs attrs = bindR (validate_bitmap_attrs attrs) (\<lambda>_. Inr (from_valid_attrs attrs))"

text \<open>The debug assertion of \<open>from_known_attrs\<close> is not part of a release build.\<close>

definition from_known_attrs :: "u32 list \<Rightarrow> Bitmap" where
  "from_known_attrs attrs = from_valid_attrs attrs"

definition Bitmap_contains :: "Bitmap \<Rightarrow> u32 \<Rightarrow> bool" where
  "Bitmap_contains b attr =
     (let word = unat attr div 32; bit = unat (attr mod 32)
      in word < length (bm_words b) \<and> bm_words b ! word AND push_bit bit 1 \<noteq> 0)"

definition from_supported_attrs :: "Bitmap \<Rightarrow> u32 list \<Rightarrow> Bitmap result" where
  "from_supported_attrs supported attrs =
     bindR (validate_bitmap_attrs attrs) (\<lambda>_. Bitmap_from_attrs (filter (Bitmap_contains supported) attrs))"

definition Bitmap_is_empty :: "Bitmap \<Rightarrow> bool" where
  "Bitmap_is_empty b \<longleftrightarrow> list_all (\<lambda>word. word = 0) (bm_words b)"

definition Bitmap_attrs :: "Bitmap \<Rightarrow> u32 list" where
  "Bitmap_attrs b =
     concat (map (\<lambda>(word_index, word).
         List.map_filter (\<lambda>bit.
           if word AND push_bit bit 1 \<noteq> 0 then Some (of_nat word_index * 32 + of_nat bit) else None)
         [0..<32])
       (enumerate 0 (bm_words b)))"

definition encode_Bitmap :: "Bitmap enc" where
  "encode_Bitmap b = write_array encode_u32 (bm_words b) NFS4_MAX_BITMAP_WORDS"

definition decode_Bitmap :: "Bitmap dec" where
  "decode_Bitmap = bnd (read_array decode_u32 NFS4_MAX_BITMAP_WORDS) (\<lambda>words. ret \<lparr>bm_words = words\<rparr>)"

subsection \<open>Raw attributes\<close>

record Fattr =
  fattr_attrmask :: Bitmap
  fattr_attr_vals :: bytes

definition Fattr_empty :: Fattr where
  "Fattr_empty = \<lparr>fattr_attrmask = Bitmap_empty, fattr_attr_vals = []\<rparr>"

text \<open>Writing to a new encoder without a fallible step, and taking its bytes.\<close>

definition written :: "(encoder, xdr_error, unit) op \<Rightarrow> bytes" where
  "written m = into_bytes (snd (m encoder_new))"

definition Fattr_size :: "u64 \<Rightarrow> Fattr" where
  "Fattr_size sz =
     \<lparr>fattr_attrmask = from_known_attrs [FATTR4_SIZE], fattr_attr_vals = written (write_u64 sz)\<rparr>"

definition Fattr_mode :: "u32 \<Rightarrow> Fattr" where
  "Fattr_mode mode =
     \<lparr>fattr_attrmask = from_known_attrs [FATTR4_MODE], fattr_attr_vals = written (write_u32 mode)\<rparr>"

definition encode_Fattr :: "Fattr enc" where
  "encode_Fattr a =
     seq_ops [encode_Bitmap (fattr_attrmask a), write_opaque (fattr_attr_vals a) NFS4_MAX_IO]"

definition decode_Fattr :: "Fattr dec" where
  "decode_Fattr =
     bnd decode_Bitmap (\<lambda>mask. bnd (read_opaque_vec NFS4_MAX_IO) (\<lambda>vals.
     ret \<lparr>fattr_attrmask = mask, fattr_attr_vals = vals\<rparr>))"

subsection \<open>Updates\<close>

record SetAttrs =
  sa4_size :: "u64 option"
  sa4_mode :: "u32 option"
  sa4_owner :: "string option"
  sa4_owner_group :: "string option"
  sa4_access_time :: SetTime4
  sa4_modify_time :: SetTime4

definition SetAttrs_default :: SetAttrs where
  "SetAttrs_default =
     \<lparr>sa4_size = None, sa4_mode = None, sa4_owner = None, sa4_owner_group = None,
      sa4_access_time = SetTime4.DontChange, sa4_modify_time = SetTime4.DontChange\<rparr>"

definition SetAttrs_size :: "u64 \<Rightarrow> SetAttrs" where
  "SetAttrs_size sz = SetAttrs_default\<lparr>sa4_size := Some sz\<rparr>"

definition SetAttrs_mode :: "u32 \<Rightarrow> SetAttrs" where
  "SetAttrs_mode mode = SetAttrs_default\<lparr>sa4_mode := Some mode\<rparr>"

definition SetAttrs_owner :: "string \<Rightarrow> SetAttrs" where
  "SetAttrs_owner owner = SetAttrs_default\<lparr>sa4_owner := Some owner\<rparr>"

definition SetAttrs_owner_group :: "string \<Rightarrow> SetAttrs" where
  "SetAttrs_owner_group name = SetAttrs_default\<lparr>sa4_owner_group := Some name\<rparr>"

definition SetAttrs_ownership :: "string \<Rightarrow> string \<Rightarrow> SetAttrs" where
  "SetAttrs_ownership owner name = SetAttrs_default\<lparr>sa4_owner := Some owner, sa4_owner_group := Some name\<rparr>"

definition SetAttrs_times :: "NfsTime4 option \<Rightarrow> NfsTime4 option \<Rightarrow> SetAttrs" where
  "SetAttrs_times access_time modify_time = SetAttrs_default
     \<lparr>sa4_access_time := (case access_time of None \<Rightarrow> SetTime4.DontChange | Some t \<Rightarrow> SetTime4.ClientTime t),
      sa4_modify_time := (case modify_time of None \<Rightarrow> SetTime4.DontChange | Some t \<Rightarrow> SetTime4.ClientTime t)\<rparr>"

definition SetAttrs_touch :: SetAttrs where
  "SetAttrs_touch = SetAttrs_default
     \<lparr>sa4_access_time := SetTime4.ServerTime, sa4_modify_time := SetTime4.ServerTime\<rparr>"

text \<open>One \<open>if let\<close> of \<open>from_set_attrs\<close>: the value is written and the attribute's number pushed.\<close>

definition set_field :: "u32 \<Rightarrow> 'v enc \<Rightarrow> 'v option \<Rightarrow> u32 list \<Rightarrow> (encoder, xdr_error, u32 list) op" where
  "set_field attr enc value attr_ids =
     (case value of
        None \<Rightarrow> ret attr_ids
      | Some v \<Rightarrow> bnd (enc v) (\<lambda>_. ret (attr_ids @ [attr])))"

definition changed_time :: "SetTime4 \<Rightarrow> SetTime4 option" where
  "changed_time t = (if t \<noteq> SetTime4.DontChange then Some t else None)"

definition encode_set_attrs :: "SetAttrs \<Rightarrow> (encoder, xdr_error, u32 list) op" where
  "encode_set_attrs attrs =
     bnd (set_field FATTR4_SIZE write_u64 (sa4_size attrs) []) (\<lambda>ids.
     bnd (set_field FATTR4_MODE write_u32 (sa4_mode attrs) ids) (\<lambda>ids.
     bnd (set_field FATTR4_OWNER (\<lambda>v. write_string v NFS4_OPAQUE_LIMIT) (sa4_owner attrs) ids) (\<lambda>ids.
     bnd (set_field FATTR4_OWNER_GROUP (\<lambda>v. write_string v NFS4_OPAQUE_LIMIT) (sa4_owner_group attrs) ids) (\<lambda>ids.
     bnd (set_field FATTR4_TIME_ACCESS_SET encode_set_time4 (changed_time (sa4_access_time attrs)) ids) (\<lambda>ids.
     set_field FATTR4_TIME_MODIFY_SET encode_set_time4 (changed_time (sa4_modify_time attrs)) ids)))))"

definition from_set_attrs :: "SetAttrs \<Rightarrow> Fattr result" where
  "from_set_attrs attrs =
     (case encode_set_attrs attrs encoder_new of
        (Inl e, _) \<Rightarrow> Inl (Xdr e)
      | (Inr attr_ids, encoder) \<Rightarrow>
          Inr \<lparr>fattr_attrmask = from_known_attrs attr_ids, fattr_attr_vals = into_bytes encoder\<rparr>)"

subsection \<open>Typed views\<close>

text \<open>The loop over the attributes of the mask: each reads its value and records it.\<close>

fun parse_each :: "(u32 \<Rightarrow> 'p \<Rightarrow> (decoder, error, 'p) op) \<Rightarrow> u32 list \<Rightarrow> 'p \<Rightarrow> (decoder, error, 'p) op" where
  "parse_each step [] parsed = ret parsed"
| "parse_each step (attr # attrs) parsed = bnd (step attr parsed) (parse_each step attrs)"

definition parse_view :: "(u32 \<Rightarrow> 'p \<Rightarrow> (decoder, error, 'p) op) \<Rightarrow> 'p \<Rightarrow> Fattr \<Rightarrow> 'p result" where
  "parse_view step parsed a =
     fst (bnd (parse_each step (Bitmap_attrs (fattr_attrmask a)) parsed) (\<lambda>parsed.
          bnd (from_xdr dec_finish) (\<lambda>_. ret parsed)) (decoder_new (fattr_attr_vals a)))"

definition record_value :: "'v dec \<Rightarrow> ('v \<Rightarrow> 'p \<Rightarrow> 'p) \<Rightarrow> 'p \<Rightarrow> (decoder, error, 'p) op" where
  "record_value dec upd parsed = bnd (from_xdr dec) (\<lambda>v. ret (upd v parsed))"

definition parse_supported_attr :: "u32 \<Rightarrow> Bitmap option \<Rightarrow> (decoder, error, Bitmap option) op" where
  "parse_supported_attr attr supported =
     (if attr = FATTR4_SUPPORTED_ATTRS then record_value decode_Bitmap (\<lambda>v _. Some v) supported
      else fail (Protocol ''cannot parse unsupported NFSv4 supported_attrs attribute {attr}'' [FNat (unat attr)]))"

definition parse_supported_attrs :: "Fattr \<Rightarrow> Bitmap result" where
  "parse_supported_attrs a =
     bindR (parse_view parse_supported_attr None a) (\<lambda>supported.
     ok_or supported (Protocol ''NFSv4 supported_attrs response did not include attr 0'' []))"

record BasicAttributes =
  ba_file_type :: "FileType4 option"
  ba_change :: "u64 option"
  ba_size :: "u64 option"
  ba_fileid :: "u64 option"
  ba_mode :: "u32 option"
  ba_numlinks :: "u32 option"
  ba_owner :: "string option"
  ba_owner_group :: "string option"
  ba_space_used :: "u64 option"
  ba_access_time :: "NfsTime4 option"
  ba_metadata_time :: "NfsTime4 option"
  ba_modify_time :: "NfsTime4 option"
  ba_raw :: Fattr

definition parse_basic_attr :: "u32 \<Rightarrow> BasicAttributes \<Rightarrow> (decoder, error, BasicAttributes) op" where
  "parse_basic_attr attr =
     (if attr = FATTR4_TYPE then record_value (bnd read_u32 (\<lambda>v. ret (FileType4_from_u32 v))) (\<lambda>v p. p\<lparr>ba_file_type := Some v\<rparr>)
     else if attr = FATTR4_CHANGE then record_value read_u64 (\<lambda>v p. p\<lparr>ba_change := Some v\<rparr>)
     else if attr = FATTR4_SIZE then record_value read_u64 (\<lambda>v p. p\<lparr>ba_size := Some v\<rparr>)
     else if attr = FATTR4_FILEID then record_value read_u64 (\<lambda>v p. p\<lparr>ba_fileid := Some v\<rparr>)
     else if attr = FATTR4_MODE then record_value read_u32 (\<lambda>v p. p\<lparr>ba_mode := Some v\<rparr>)
     else if attr = FATTR4_NUMLINKS then record_value read_u32 (\<lambda>v p. p\<lparr>ba_numlinks := Some v\<rparr>)
     else if attr = FATTR4_OWNER then record_value (read_string NFS4_OPAQUE_LIMIT) (\<lambda>v p. p\<lparr>ba_owner := Some v\<rparr>)
     else if attr = FATTR4_OWNER_GROUP then record_value (read_string NFS4_OPAQUE_LIMIT) (\<lambda>v p. p\<lparr>ba_owner_group := Some v\<rparr>)
     else if attr = FATTR4_SPACE_USED then record_value read_u64 (\<lambda>v p. p\<lparr>ba_space_used := Some v\<rparr>)
     else if attr = FATTR4_TIME_ACCESS then record_value decode_NfsTime4 (\<lambda>v p. p\<lparr>ba_access_time := Some v\<rparr>)
     else if attr = FATTR4_TIME_METADATA then record_value decode_NfsTime4 (\<lambda>v p. p\<lparr>ba_metadata_time := Some v\<rparr>)
     else if attr = FATTR4_TIME_MODIFY then record_value decode_NfsTime4 (\<lambda>v p. p\<lparr>ba_modify_time := Some v\<rparr>)
     else (\<lambda>_. fail (Protocol ''cannot parse unsupported NFSv4 basic attribute {attr}'' [FNat (unat attr)])))"

definition parse_basic :: "Fattr \<Rightarrow> BasicAttributes result" where
  "parse_basic a = parse_view parse_basic_attr
     \<lparr>ba_file_type = None, ba_change = None, ba_size = None, ba_fileid = None, ba_mode = None, ba_numlinks
      = None, ba_owner = None, ba_owner_group = None, ba_space_used = None, ba_access_time = None,
      ba_metadata_time = None, ba_modify_time = None, ba_raw = a\<rparr> a"

record FsStat4 =
  fs4_total_bytes :: "u64 option"
  fs4_free_bytes :: "u64 option"
  fs4_available_bytes :: "u64 option"
  fs4_total_files :: "u64 option"
  fs4_free_files :: "u64 option"
  fs4_available_files :: "u64 option"
  fs4_raw :: Fattr

definition parse_fsstat_attr :: "u32 \<Rightarrow> FsStat4 \<Rightarrow> (decoder, error, FsStat4) op" where
  "parse_fsstat_attr attr =
     (if attr = FATTR4_FILES_AVAIL then record_value read_u64 (\<lambda>v p. p\<lparr>fs4_available_files := Some v\<rparr>)
     else if attr = FATTR4_FILES_FREE then record_value read_u64 (\<lambda>v p. p\<lparr>fs4_free_files := Some v\<rparr>)
     else if attr = FATTR4_FILES_TOTAL then record_value read_u64 (\<lambda>v p. p\<lparr>fs4_total_files := Some v\<rparr>)
     else if attr = FATTR4_SPACE_AVAIL then record_value read_u64 (\<lambda>v p. p\<lparr>fs4_available_bytes := Some v\<rparr>)
     else if attr = FATTR4_SPACE_FREE then record_value read_u64 (\<lambda>v p. p\<lparr>fs4_free_bytes := Some v\<rparr>)
     else if attr = FATTR4_SPACE_TOTAL then record_value read_u64 (\<lambda>v p. p\<lparr>fs4_total_bytes := Some v\<rparr>)
     else (\<lambda>_. fail (Protocol ''cannot parse unsupported NFSv4 fsstat attribute {attr}'' [FNat (unat attr)])))"

definition parse_fsstat :: "Fattr \<Rightarrow> FsStat4 result" where
  "parse_fsstat a = parse_view parse_fsstat_attr
     \<lparr>fs4_total_bytes = None, fs4_free_bytes = None, fs4_available_bytes = None, fs4_total_files = None,
      fs4_free_files = None, fs4_available_files = None, fs4_raw = a\<rparr> a"

record FsInfo4 =
  fi4_fh_expire_type :: "u32 option"
  fi4_link_support :: "bool option"
  fi4_symlink_support :: "bool option"
  fi4_unique_handles :: "bool option"
  fi4_lease_time_seconds :: "u32 option"
  fi4_can_set_time :: "bool option"
  fi4_homogeneous :: "bool option"
  fi4_max_file_size :: "u64 option"
  fi4_max_read :: "u64 option"
  fi4_max_write :: "u64 option"
  fi4_time_delta :: "NfsTime4 option"
  fi4_raw :: Fattr

definition parse_fsinfo_attr :: "u32 \<Rightarrow> FsInfo4 \<Rightarrow> (decoder, error, FsInfo4) op" where
  "parse_fsinfo_attr attr =
     (if attr = FATTR4_FH_EXPIRE_TYPE then record_value read_u32 (\<lambda>v p. p\<lparr>fi4_fh_expire_type := Some v\<rparr>)
     else if attr = FATTR4_LINK_SUPPORT then record_value read_bool (\<lambda>v p. p\<lparr>fi4_link_support := Some v\<rparr>)
     else if attr = FATTR4_SYMLINK_SUPPORT then record_value read_bool (\<lambda>v p. p\<lparr>fi4_symlink_support := Some v\<rparr>)
     else if attr = FATTR4_UNIQUE_HANDLES then record_value read_bool (\<lambda>v p. p\<lparr>fi4_unique_handles := Some v\<rparr>)
     else if attr = FATTR4_LEASE_TIME then record_value read_u32 (\<lambda>v p. p\<lparr>fi4_lease_time_seconds := Some v\<rparr>)
     else if attr = FATTR4_CANSETTIME then record_value read_bool (\<lambda>v p. p\<lparr>fi4_can_set_time := Some v\<rparr>)
     else if attr = FATTR4_HOMOGENEOUS then record_value read_bool (\<lambda>v p. p\<lparr>fi4_homogeneous := Some v\<rparr>)
     else if attr = FATTR4_MAXFILESIZE then record_value read_u64 (\<lambda>v p. p\<lparr>fi4_max_file_size := Some v\<rparr>)
     else if attr = FATTR4_MAXREAD then record_value read_u64 (\<lambda>v p. p\<lparr>fi4_max_read := Some v\<rparr>)
     else if attr = FATTR4_MAXWRITE then record_value read_u64 (\<lambda>v p. p\<lparr>fi4_max_write := Some v\<rparr>)
     else if attr = FATTR4_TIME_DELTA then record_value decode_NfsTime4 (\<lambda>v p. p\<lparr>fi4_time_delta := Some v\<rparr>)
     else (\<lambda>_. fail (Protocol ''cannot parse unsupported NFSv4 fsinfo attribute {attr}'' [FNat (unat attr)])))"

definition parse_fsinfo :: "Fattr \<Rightarrow> FsInfo4 result" where
  "parse_fsinfo a = parse_view parse_fsinfo_attr
     \<lparr>fi4_fh_expire_type = None, fi4_link_support = None, fi4_symlink_support = None, fi4_unique_handles =
      None, fi4_lease_time_seconds = None, fi4_can_set_time = None, fi4_homogeneous = None,
      fi4_max_file_size = None, fi4_max_read = None, fi4_max_write = None, fi4_time_delta = None, fi4_raw
      = a\<rparr> a"

record PathConf4 =
  pc4_link_max :: "u32 option"
  pc4_name_max :: "u32 option"
  pc4_no_trunc :: "bool option"
  pc4_chown_restricted :: "bool option"
  pc4_case_insensitive :: "bool option"
  pc4_case_preserving :: "bool option"
  pc4_raw :: Fattr

definition parse_pathconf_attr :: "u32 \<Rightarrow> PathConf4 \<Rightarrow> (decoder, error, PathConf4) op" where
  "parse_pathconf_attr attr =
     (if attr = FATTR4_CASE_INSENSITIVE then record_value read_bool (\<lambda>v p. p\<lparr>pc4_case_insensitive := Some v\<rparr>)
     else if attr = FATTR4_CASE_PRESERVING then record_value read_bool (\<lambda>v p. p\<lparr>pc4_case_preserving := Some v\<rparr>)
     else if attr = FATTR4_CHOWN_RESTRICTED then record_value read_bool (\<lambda>v p. p\<lparr>pc4_chown_restricted := Some v\<rparr>)
     else if attr = FATTR4_MAXLINK then record_value read_u32 (\<lambda>v p. p\<lparr>pc4_link_max := Some v\<rparr>)
     else if attr = FATTR4_MAXNAME then record_value read_u32 (\<lambda>v p. p\<lparr>pc4_name_max := Some v\<rparr>)
     else if attr = FATTR4_NO_TRUNC then record_value read_bool (\<lambda>v p. p\<lparr>pc4_no_trunc := Some v\<rparr>)
     else (\<lambda>_. fail (Protocol ''cannot parse unsupported NFSv4 pathconf attribute {attr}'' [FNat (unat attr)])))"

definition parse_pathconf :: "Fattr \<Rightarrow> PathConf4 result" where
  "parse_pathconf a = parse_view parse_pathconf_attr
     \<lparr>pc4_link_max = None, pc4_name_max = None, pc4_no_trunc = None, pc4_chown_restricted = None,
      pc4_case_insensitive = None, pc4_case_preserving = None, pc4_raw = a\<rparr> a"

definition required_file_type :: "BasicAttributes \<Rightarrow> FileType4 result" where
  "required_file_type a =
     ok_or (ba_file_type a) (Protocol ''NFSv4 file type attribute was not returned by the server'' [])"

definition BasicAttributes_is_file :: "BasicAttributes \<Rightarrow> bool result" where
  "BasicAttributes_is_file a = bindR (required_file_type a) (\<lambda>t. Inr (FileType4_is_file t))"

definition BasicAttributes_is_dir :: "BasicAttributes \<Rightarrow> bool result" where
  "BasicAttributes_is_dir a = bindR (required_file_type a) (\<lambda>t. Inr (FileType4_is_dir t))"

definition BasicAttributes_is_symlink :: "BasicAttributes \<Rightarrow> bool result" where
  "BasicAttributes_is_symlink a = bindR (required_file_type a) (\<lambda>t. Inr (FileType4_is_symlink t))"

subsection \<open>A bitmap is the set of its attributes\<close>

lemma unat_mod_32: "unat (a mod 32 :: u32) = unat a mod 32"
  by (simp add: unat_mod)

lemma unat_div_32: "unat (a div 32 :: u32) = unat a div 32"
  by (simp add: unat_div)

lemma contains_bit:
  "Bitmap_contains b attr \<longleftrightarrow>
     unat attr div 32 < length (bm_words b) \<and> bit (bm_words b ! (unat attr div 32)) (unat attr mod 32)"
  by (simp add: Bitmap_contains_def Let_def bit_iff_and_push_bit_not_eq_0 unat_mod_32)

lemma length_set_attr [simp]: "length (set_attr attr words) = length words"
  by (simp add: set_attr_def Let_def)

lemma length_fold_set_attr [simp]: "length (fold set_attr attrs words) = length words"
  by (induction attrs arbitrary: words) simp_all

lemma bit_set_attr:
  assumes "unat attr div 32 < length words" "i < length words" "n < 32"
  shows "bit (set_attr attr words ! i) n \<longleftrightarrow> bit (words ! i) n \<or> unat attr = 32 * i + n"
proof -
  have "unat attr = 32 * i + n \<longleftrightarrow> unat attr div 32 = i \<and> unat attr mod 32 = n"
    using assms(3) by auto
  with assms show ?thesis
    by (auto simp: set_attr_def Let_def unat_div_32 unat_mod_32 nth_list_update bit_or_iff bit_exp_iff
        possible_bit_word)
qed

lemma bit_fold_set_attr:
  assumes "\<forall>attr\<in>set attrs. unat attr div 32 < length words" "i < length words" "n < 32"
  shows "bit (fold set_attr attrs words ! i) n \<longleftrightarrow>
    bit (words ! i) n \<or> (\<exists>attr\<in>set attrs. unat attr = 32 * i + n)"
  using assms(1,2)
proof (induction attrs arbitrary: words)
  case (Cons attr attrs)
  then show ?case by (auto simp: bit_set_attr assms(3))
qed simp

lemma length_from_valid_attrs:
  "attrs \<noteq> [] \<Longrightarrow> length (bm_words (from_valid_attrs attrs)) = unat (Max (set attrs)) div 32 + 1"
  by (simp add: from_valid_attrs_def)

lemma in_words: "attr \<in> set attrs \<Longrightarrow> unat attr div 32 < unat (Max (set attrs)) div 32 + 1"
  by (simp add: less_Suc_eq_le div_le_mono word_le_nat_alt [THEN iffD1])

lemma bit_fold_zero:
  assumes "\<And>attr. attr \<in> set attrs \<Longrightarrow> unat attr div 32 < m" "unat attr div 32 < m"
  shows "bit (fold set_attr attrs (replicate m 0) ! (unat attr div 32)) (unat attr mod 32) \<longleftrightarrow> attr \<in> set attrs"
proof -
  have "bit (fold set_attr attrs (replicate m 0) ! (unat attr div 32)) (unat attr mod 32) \<longleftrightarrow>
      (\<exists>x\<in>set attrs. unat x = unat attr)"
    using assms by (subst bit_fold_set_attr) auto
  then show ?thesis by (auto simp flip: word_unat_eq_iff)
qed

lemma contains_from_valid_attrs [simp]:
  "Bitmap_contains (from_valid_attrs attrs) attr \<longleftrightarrow> attr \<in> set attrs"
proof (cases "attrs = []")
  case True
  then show ?thesis by (simp add: Bitmap_contains_def from_valid_attrs_def)
next
  case False
  define m where "m = unat (Max (set attrs)) div 32 + 1"
  have bound: "unat x div 32 < m" if "x \<in> set attrs" for x
    unfolding m_def by (rule in_words [OF that])
  have "from_valid_attrs attrs = \<lparr>bm_words = fold set_attr attrs (replicate m 0)\<rparr>"
    using False by (simp add: from_valid_attrs_def m_def)
  then show ?thesis
    using bit_fold_zero [of attrs m attr] bound by (auto simp: contains_bit)
qed

text \<open>The iterator gives the attributes in increasing order.\<close>

definition holds :: "u32 list \<Rightarrow> nat \<Rightarrow> bool" where
  "holds words n \<longleftrightarrow> n div 32 < length words \<and> bit (words ! (n div 32)) (n mod 32)"

lemma upt_block: "[0..<32 * Suc k] = [0..<32 * k] @ map (\<lambda>n. 32 * k + n) [0..<32]"
  using upt_add_eq_append [of 0 "32 * k" 32] map_add_upt [of "32 * k" 32]
  by (simp add: add.commute)

lemma attrs_holds:
  assumes "length words \<le> 128"
  shows "map unat (Bitmap_attrs \<lparr>bm_words = words\<rparr>) = filter (holds words) [0..<32 * length words]"
  using assms
proof (induction words rule: rev_induct)
  case Nil
  then show ?case by (simp add: Bitmap_attrs_def)
next
  case (snoc word words)
  let ?k = "length words"
  have small: "unat (of_nat ?k * 32 + of_nat n :: u32) = 32 * ?k + n" if "n < 32" for n
  proof -
    have "(of_nat ?k * 32 + of_nat n :: u32) = of_nat (32 * ?k + n)" by simp
    moreover have "32 * ?k + n < 2 ^ 32" using that snoc.prems by simp
    ultimately show ?thesis by (simp only: unat_of_nat_u32)
  qed
  have "map unat (List.map_filter (\<lambda>n. if word AND push_bit n 1 \<noteq> 0
        then Some (of_nat ?k * 32 + of_nat n :: u32) else None) [0..<32]) =
      filter (holds (words @ [word])) (map (\<lambda>n. 32 * ?k + n) [0..<32])"
    unfolding List.map_filter_def filter_map map_map
    by (rule map_cong) (auto intro!: filter_cong simp: holds_def small nth_append
        bit_iff_and_push_bit_not_eq_0 split: if_splits)
  moreover have "filter (holds (words @ [word])) [0..<32 * ?k] = filter (holds words) [0..<32 * ?k]"
    by (intro filter_cong) (auto simp: holds_def nth_append)
  ultimately show ?case
    using snoc by (simp add: Bitmap_attrs_def enumerate_append_eq upt_block del: upt_Suc mult_Suc_right)
qed

lemma Bitmap_attrs_holds:
  "length (bm_words b) \<le> 128 \<Longrightarrow>
     map unat (Bitmap_attrs b) = filter (holds (bm_words b)) [0..<32 * length (bm_words b)]"
  by (cases b) (simp add: attrs_holds)

lemma length_words_bound:
  assumes "\<And>attr. attr \<in> set attrs \<Longrightarrow> unat attr < 4096"
  shows "length (bm_words (from_valid_attrs attrs)) \<le> 128"
proof (cases "attrs = []")
  case False
  then have "unat (Max (set attrs)) < 4096" by (intro assms Max_in) auto
  with False show ?thesis by (simp add: length_from_valid_attrs less_Suc_eq_le flip: less_Suc_eq_le)
qed (simp add: from_valid_attrs_def)

lemma attrs_from_valid_attrs:
  assumes "\<And>attr. attr \<in> set attrs \<Longrightarrow> unat attr < 4096"
  shows "Bitmap_attrs (from_valid_attrs attrs) = sorted_list_of_set (set attrs)"
proof -
  let ?b = "from_valid_attrs attrs"
  have "map unat (Bitmap_attrs ?b) = filter (holds (bm_words ?b)) [0..<32 * length (bm_words ?b)]"
    using assms by (intro Bitmap_attrs_holds length_words_bound)
  then have "sorted (map unat (Bitmap_attrs ?b))" "distinct (map unat (Bitmap_attrs ?b))"
      "set (map unat (Bitmap_attrs ?b)) = {n. holds (bm_words ?b) n}"
    by (auto simp: sorted_wrt_filter holds_def)
  note l = this
  have mem: "holds (bm_words ?b) (unat attr) \<longleftrightarrow> attr \<in> set attrs" for attr
    using contains_from_valid_attrs [of attrs attr] by (simp add: holds_def contains_bit)
  have "sorted (Bitmap_attrs ?b)"
    using l(1) by (simp add: sorted_map word_le_nat_alt [abs_def])
  moreover have "distinct (Bitmap_attrs ?b)" using l(2) by (simp add: distinct_map)
  moreover have "attr \<in> set (Bitmap_attrs ?b) \<longleftrightarrow> attr \<in> set attrs" for attr
  proof -
    have "attr \<in> set (Bitmap_attrs ?b) \<longleftrightarrow> unat attr \<in> set (map unat (Bitmap_attrs ?b))"
      by (auto simp flip: word_unat_eq_iff)
    then show ?thesis unfolding l(3) mem [symmetric] by simp
  qed
  ultimately have "sorted (Bitmap_attrs ?b)" "distinct (Bitmap_attrs ?b)" "set (Bitmap_attrs ?b) = set attrs"
    by auto
  then show ?thesis by (metis sorted_list_of_set.idem_if_sorted_distinct)
qed

lemma find_None_all: "find P xs = None \<longleftrightarrow> (\<forall>x\<in>set xs. \<not> P x)"
  by (auto simp: find_None_iff)

lemma validate_bitmap_attrs_iff:
  "validate_bitmap_attrs attrs = Inr () \<longleftrightarrow> (\<forall>attr\<in>set attrs. unat attr < 4096)"
proof -
  have "validate_bitmap_attrs attrs = Inr () \<longleftrightarrow>
      find (\<lambda>attr. unat attr div 32 \<ge> NFS4_MAX_BITMAP_WORDS) attrs = None"
    by (simp add: validate_bitmap_attrs_def split: option.split)
  then show ?thesis unfolding find_None_all by (simp add: not_le div_less_iff_less_mult)
qed

interpretation bitmapc: xdr_array_codec encode_u32 decode_u32 u32_to_be_bytes "\<lambda>_. True" NFS4_MAX_BITMAP_WORDS
  by unfold_locales simp

lemma bitmap_wire:
  assumes "length (bm_words b) \<le> NFS4_MAX_BITMAP_WORDS"
  shows "encodes (encode_Bitmap b) (array_wire u32_to_be_bytes (bm_words b))"
    "decodes decode_Bitmap (array_wire u32_to_be_bytes (bm_words b)) b"
proof -
  have all: "list_all (\<lambda>_. True) (bm_words b)" by (simp add: list_all_iff)
  show "encodes (encode_Bitmap b) (array_wire u32_to_be_bytes (bm_words b))"
    unfolding encode_Bitmap_def by (rule bitmapc.array_encodes [OF all assms])
  show "decodes decode_Bitmap (array_wire u32_to_be_bytes (bm_words b)) b"
    unfolding decode_Bitmap_def
    using decodes_bnd_ret [OF bitmapc.array_decodes [OF all assms], of "\<lambda>words. \<lparr>bm_words = words\<rparr>"] by (cases b) simp
qed

lemma bitmap_too_long:
  assumes "NFS4_MAX_BITMAP_WORDS < length (bm_words b)"
  shows "fst (encode_Bitmap b e) = Inl (LengthLimitExceeded (length (bm_words b)) NFS4_MAX_BITMAP_WORDS)"
  using assms by (simp add: encode_Bitmap_def write_array_def write_len_def bnd_apply op_simps)

lemma returns_Bitmap: "returns (\<lambda>b. length (bm_words b) \<le> NFS4_MAX_BITMAP_WORDS) decode_Bitmap"
  unfolding decode_Bitmap_def
  by (rule returns_bnd_from [OF returns_read_array]) (simp add: returns_def ret_apply)

text \<open>C21. The attribute bitmap as a set. \<open>from_attrs\<close> accepts exactly the lists of attribute numbers below
  4096; the bitmap then contains exactly the numbers of the list, and its iterator gives them in increasing
  order without repetition. It survives the wire: it is encoded as its number of words and the words, and
  this decodes to the same bitmap. A bitmap of more than 128 words is refused by the encoder and never
  comes out of the decoder.\<close>

theorem bitmap_is_attribute_set:
  "(Bitmap_from_attrs attrs = Inr b \<longleftrightarrow>
      b = from_valid_attrs attrs \<and> (\<forall>attr\<in>set attrs. unat attr < 4096)) \<and>
   (Bitmap_from_attrs attrs = Inr b \<longrightarrow>
      (\<forall>attr. Bitmap_contains b attr \<longleftrightarrow> attr \<in> set attrs) \<and>
      Bitmap_attrs b = sorted_list_of_set (set attrs) \<and> length (bm_words b) \<le> NFS4_MAX_BITMAP_WORDS \<and>
      encodes (encode_Bitmap b) (u32_to_be_bytes (of_nat (length (bm_words b))) @ concat (map u32_to_be_bytes (bm_words b))) \<and>
      decodes decode_Bitmap (u32_to_be_bytes (of_nat (length (bm_words b))) @ concat (map u32_to_be_bytes (bm_words b))) b) \<and>
   (128 < length (bm_words b) \<longrightarrow> isl (fst (encode_Bitmap b e))) \<and>
   (decode_Bitmap d = (Inr b, d') \<longrightarrow> length (bm_words b) \<le> 128)"
proof (intro conjI)
  show iff: "Bitmap_from_attrs attrs = Inr b \<longleftrightarrow>
      b = from_valid_attrs attrs \<and> (\<forall>attr\<in>set attrs. unat attr < 4096)"
    by (auto simp: Bitmap_from_attrs_def bindR_Inr_iff simp flip: validate_bitmap_attrs_iff)
  show "Bitmap_from_attrs attrs = Inr b \<longrightarrow>
      (\<forall>attr. Bitmap_contains b attr \<longleftrightarrow> attr \<in> set attrs) \<and>
      Bitmap_attrs b = sorted_list_of_set (set attrs) \<and> length (bm_words b) \<le> NFS4_MAX_BITMAP_WORDS \<and>
      encodes (encode_Bitmap b) (u32_to_be_bytes (of_nat (length (bm_words b))) @ concat (map u32_to_be_bytes (bm_words b))) \<and>
      decodes decode_Bitmap (u32_to_be_bytes (of_nat (length (bm_words b))) @ concat (map u32_to_be_bytes (bm_words b))) b"
    unfolding iff array_wire_def [symmetric]
    by (intro impI conjI bitmap_wire) (auto intro!: attrs_from_valid_attrs length_words_bound)
  show "128 < length (bm_words b) \<longrightarrow> isl (fst (encode_Bitmap b e))"
    by (simp add: bitmap_too_long)
  show "decode_Bitmap d = (Inr b, d') \<longrightarrow> length (bm_words b) \<le> 128"
    using returnsD [OF returns_Bitmap] by auto
qed

theorem bitmap_is_attribute_set_witness:
  "Bitmap_from_attrs [33, 4] = Inr (from_valid_attrs [33, 4]) \<and>
   Bitmap_attrs (from_valid_attrs [33, 4]) = sorted_list_of_set {4, 33} \<and>
   encodes (encode_Bitmap (from_valid_attrs [33, 4])) (u32_to_be_bytes 2 @ u32_to_be_bytes 16 @ u32_to_be_bytes 2) \<and>
   decodes decode_Bitmap (u32_to_be_bytes 2 @ u32_to_be_bytes 16 @ u32_to_be_bytes 2) (from_valid_attrs [33, 4]) \<and>
   isl (fst (encode_Bitmap \<lparr>bm_words = replicate 129 0\<rparr> encoder_new))"
proof -
  have words: "from_valid_attrs [33, 4] = \<lparr>bm_words = [16, 2]\<rparr>" by code_simp
  show ?thesis
    using bitmap_is_attribute_set [of "[33, 4]" "from_valid_attrs [33, 4]"]
      bitmap_is_attribute_set [of _ "\<lparr>bm_words = replicate 129 0\<rparr>" encoder_new]
    by (simp add: insert_commute words)
qed

subsection \<open>Updates are encoded in the order of their bitmap\<close>

text \<open>The reference: each attribute that an update sets, with its value, by increasing number.\<close>

fun set_time4_wire :: "SetTime4 \<Rightarrow> bytes" where
  "set_time4_wire (SetTime4.ClientTime t) =
     u32_to_be_bytes 1 @ u64_to_be_bytes (t4_seconds t) @ u32_to_be_bytes (t4_nseconds t)"
| "set_time4_wire _ = u32_to_be_bytes 0"

definition setting :: "u32 \<Rightarrow> ('v \<Rightarrow> bytes) \<Rightarrow> 'v option \<Rightarrow> (u32 \<times> bytes) list" where
  "setting attr wire value = (case value of None \<Rightarrow> [] | Some v \<Rightarrow> [(attr, wire v)])"

definition settings :: "SetAttrs \<Rightarrow> (u32 \<times> bytes) list" where
  "settings attrs =
     setting FATTR4_SIZE u64_to_be_bytes (sa4_size attrs) @
     setting FATTR4_MODE u32_to_be_bytes (sa4_mode attrs) @
     setting FATTR4_OWNER (\<lambda>s. opaque_wire (as_bytes s)) (sa4_owner attrs) @
     setting FATTR4_OWNER_GROUP (\<lambda>s. opaque_wire (as_bytes s)) (sa4_owner_group attrs) @
     setting FATTR4_TIME_ACCESS_SET set_time4_wire (changed_time (sa4_access_time attrs)) @
     setting FATTR4_TIME_MODIFY_SET set_time4_wire (changed_time (sa4_modify_time attrs))"

fun set_time4_ok :: "SetTime4 \<Rightarrow> bool" where
  "set_time4_ok (SetTime4.ClientTime t) \<longleftrightarrow> t4_nseconds t < 1000000000"
| "set_time4_ok _ \<longleftrightarrow> True"

definition set_attrs_ok :: "SetAttrs \<Rightarrow> bool" where
  "set_attrs_ok attrs \<longleftrightarrow>
     pred_option (\<lambda>s. length s \<le> 1024) (sa4_owner attrs) \<and>
     pred_option (\<lambda>s. length s \<le> 1024) (sa4_owner_group attrs) \<and>
     set_time4_ok (sa4_access_time attrs) \<and> set_time4_ok (sa4_modify_time attrs)"

lemma sorted_settings: "sorted (map fst (settings attrs))" "distinct (map fst (settings attrs))"
  by (auto simp: settings_def setting_def split: option.splits)

lemma settings_small: "attr \<in> set (map fst (settings attrs)) \<Longrightarrow> unat attr < 4096"
  by (auto simp: settings_def setting_def split: option.splits)

lemma attrs_of_settings: "Bitmap_attrs (from_known_attrs (map fst (settings attrs))) = map fst (settings attrs)"
proof -
  have "Bitmap_attrs (from_valid_attrs (map fst (settings attrs))) =
      sorted_list_of_set (set (map fst (settings attrs)))"
    by (rule attrs_from_valid_attrs) (rule settings_small)
  also have "\<dots> = map fst (settings attrs)"
    using sorted_settings by (rule sorted_list_of_set.idem_if_sorted_distinct)
  finally show ?thesis by (simp add: from_known_attrs_def)
qed

text \<open>A step that either fails without regard to what was written, or appends fixed bytes.\<close>

lemma set_field_spec:
  assumes "\<And>v. value = Some v \<Longrightarrow> ok v \<Longrightarrow> encodes (enc v) (wire v)"
    "\<And>v e. value = Some v \<Longrightarrow> \<not> ok v \<Longrightarrow> \<exists>x e'. enc v e = (Inl x, e')"
  shows "pred_option ok value \<Longrightarrow>
      set_field attr enc value ids e =
        (Inr (ids @ map fst (setting attr wire value)),
         extend_from_slice (concat (map snd (setting attr wire value))) e)"
    "\<not> pred_option ok value \<Longrightarrow> \<exists>x e'. set_field attr enc value ids e = (Inl x, e')"
proof -
  show "pred_option ok value \<Longrightarrow>
      set_field attr enc value ids e =
        (Inr (ids @ map fst (setting attr wire value)),
         extend_from_slice (concat (map snd (setting attr wire value))) e)"
    using assms(1) by (cases "value") (auto simp: set_field_def setting_def op_simps encodesD)
next
  assume "\<not> pred_option ok value"
  then obtain v where "value = Some v" "\<not> ok v" by (cases "value") auto
  with assms(2) [of v e] show "\<exists>x e'. set_field attr enc value ids e = (Inl x, e')"
    by (auto simp: set_field_def op_simps)
qed

lemma set_field_cases:
  assumes "\<And>v. value = Some v \<Longrightarrow> ok v \<Longrightarrow> encodes (enc v) (wire v)"
    "\<And>v e. value = Some v \<Longrightarrow> \<not> ok v \<Longrightarrow> \<exists>x e'. enc v e = (Inl x, e')"
  shows "set_field attr enc value ids e = (Inr ids', e') \<longleftrightarrow>
    pred_option ok value \<and> ids' = ids @ map fst (setting attr wire value) \<and>
    e' = extend_from_slice (concat (map snd (setting attr wire value))) e"
proof (cases "pred_option ok value")
  case True
  from set_field_spec(1) [of "value" ok enc wire attr ids e, OF assms True] True show ?thesis by auto
next
  case False
  from set_field_spec(2) [of "value" ok enc wire attr ids e, OF assms False] False show ?thesis by auto
qed

lemma write_string_fails: "\<not> length v \<le> limit \<Longrightarrow> \<exists>x e'. write_string v limit e = (Inl x, e')"
  by (auto simp: write_string_def write_opaque_def write_len_def op_simps)

lemma encode_set_time4_ok: "set_time4_ok t \<Longrightarrow> encodes (encode_set_time4 t) (set_time4_wire t)"
proof (induction t)
  case (ClientTime t)
  have v: "NfsTime4_validate t = Inr ()"
    using ClientTime by (simp add: NfsTime4_validate_def validate_nseconds4_def NFS4_NSECONDS_PER_SECOND_def)
  show ?case
    by (simp add: encodes_def encode_set_time4_def encode_NfsTime4_def op_simps v
        encodesD [OF encodes_write_u32] encodesD [OF encodes_write_i64])
qed (simp_all add: encode_set_time4_def encodes_write_u32)

lemma encode_set_time4_fails: "\<not> set_time4_ok t \<Longrightarrow> \<exists>x e'. encode_set_time4 t e = (Inl x, e')"
  by (cases t) (auto simp: encode_set_time4_def NfsTime4_validate_def validate_nseconds4_def
      NFS4_NSECONDS_PER_SECOND_def op_simps)

lemma changed_time_ok: "pred_option set_time4_ok (changed_time t) \<longleftrightarrow> set_time4_ok t"
  by (cases t) (auto simp: changed_time_def)

lemma string_field:
  "set_field attr (\<lambda>v. write_string v NFS4_OPAQUE_LIMIT) value ids e = (Inr ids', e') \<longleftrightarrow>
    pred_option (\<lambda>s. length s \<le> 1024) value \<and>
    ids' = ids @ map fst (setting attr (\<lambda>s. opaque_wire (as_bytes s)) value) \<and>
    e' = extend_from_slice (concat (map snd (setting attr (\<lambda>s. opaque_wire (as_bytes s)) value))) e"
  by (rule set_field_cases) (auto intro!: encodes_write_string write_string_fails simp: NFS4_OPAQUE_LIMIT_def)

lemma plain_field:
  assumes "\<And>v. encodes (enc v) (wire v)"
  shows "set_field attr enc value ids e = (Inr ids', e') \<longleftrightarrow>
    ids' = ids @ map fst (setting attr wire value) \<and>
    e' = extend_from_slice (concat (map snd (setting attr wire value))) e"
  using set_field_cases [of "value" "\<lambda>_. True" enc wire attr ids e ids' e'] assms
  by (simp add: option.pred_True)

lemma time_field:
  "set_field attr encode_set_time4 (changed_time t) ids e = (Inr ids', e') \<longleftrightarrow>
    set_time4_ok t \<and>
    ids' = ids @ map fst (setting attr set_time4_wire (changed_time t)) \<and>
    e' = extend_from_slice (concat (map snd (setting attr set_time4_wire (changed_time t)))) e"
  using set_field_cases [of "changed_time t" set_time4_ok encode_set_time4 set_time4_wire attr ids e ids' e']
  by (simp add: encode_set_time4_ok encode_set_time4_fails changed_time_ok)

lemma encode_set_attrs_iff:
  "encode_set_attrs attrs e = (Inr ids, e') \<longleftrightarrow>
     set_attrs_ok attrs \<and> ids = map fst (settings attrs) \<and>
     e' = extend_from_slice (concat (map snd (settings attrs))) e"
  unfolding encode_set_attrs_def
  by (simp add: bnd_Inr_iff plain_field [OF encodes_write_u64] plain_field [OF encodes_write_u32]
      string_field time_field settings_def set_attrs_ok_def)

lemma set_attrs_fattr_iff:
  "from_set_attrs attrs = Inr f \<longleftrightarrow>
     set_attrs_ok attrs \<and>
     f = \<lparr>fattr_attrmask = from_known_attrs (map fst (settings attrs)),
          fattr_attr_vals = concat (map snd (settings attrs))\<rparr>"
proof -
  have "from_set_attrs attrs = Inr f \<longleftrightarrow> (\<exists>ids e. encode_set_attrs attrs encoder_new = (Inr ids, e) \<and>
      f = \<lparr>fattr_attrmask = from_known_attrs ids, fattr_attr_vals = into_bytes e\<rparr>)"
    by (auto simp: from_set_attrs_def split: prod.splits sum.splits)
  then show ?thesis
    by (auto simp: encode_set_attrs_iff into_bytes_def extend_from_slice_def encoder_new_def)
qed

lemma set_attrs_fattr:
  "from_set_attrs attrs = Inr f \<Longrightarrow>
     set_attrs_ok attrs \<and> Bitmap_attrs (fattr_attrmask f) = map fst (settings attrs) \<and>
     fattr_attr_vals f = concat (map snd (settings attrs))"
  by (simp add: set_attrs_fattr_iff attrs_of_settings)

lemma setting_length:
  "(\<And>v. value = Some v \<Longrightarrow> length (wire v) \<le> n) \<Longrightarrow> length (concat (map snd (setting attr wire value))) \<le> n"
  by (cases "value") (simp_all add: setting_def)

lemma string_setting_length:
  "pred_option (\<lambda>s. length s \<le> 1024) value \<Longrightarrow>
     length (concat (map snd (setting attr (\<lambda>s. opaque_wire (as_bytes s)) value))) \<le> 1032"
proof (rule setting_length)
  fix v
  assume "pred_option (\<lambda>s. length s \<le> 1024) value" "value = Some v"
  with padding_len_less [of "length v"] show "length (opaque_wire (as_bytes v)) \<le> 1032"
    by (simp add: opaque_wire_def opaque_pad_def)
qed

lemma length_set_time4_wire: "length (set_time4_wire t) \<le> 16"
  by (induction t) simp_all

lemma settings_length:
  assumes "set_attrs_ok attrs"
  shows "length (concat (map snd (settings attrs))) \<le> usize_max"
proof -
  have "length (concat (map snd (settings attrs))) \<le> 8 + (4 + (1032 + (1032 + (16 + 16))))"
    unfolding settings_def map_append concat_append length_append using assms
    by (intro add_mono setting_length string_setting_length length_set_time4_wire)
      (simp_all add: set_attrs_ok_def)
  then show ?thesis by (simp add: usize_max_def)
qed

text \<open>C22. An attribute update on the wire. \<open>from_set_attrs\<close> succeeds exactly when the owner names have at most
  1024 bytes and the given times are valid; the mask of the result then lists exactly the attributes the
  update sets, by increasing number, and the value bytes are the values of those attributes in that very
  order, as the protocol requires.\<close>

theorem set_attrs_encoded_in_bitmap_order:
  "(from_set_attrs attrs = Inr f \<longleftrightarrow>
     set_attrs_ok attrs \<and>
     f = \<lparr>fattr_attrmask = from_known_attrs (map fst (settings attrs)),
          fattr_attr_vals = concat (map snd (settings attrs))\<rparr>) \<and>
   Bitmap_attrs (from_known_attrs (map fst (settings attrs))) = map fst (settings attrs)"
  using set_attrs_fattr_iff attrs_of_settings by blast

text \<open>Reading an update back as basic attributes.\<close>

lemma decodes_record_value:
  "decodes dec bs v \<Longrightarrow> decodes (record_value dec upd p) bs (upd v p)"
  unfolding record_value_def by (rule decodes_bnd_ret, rule decodes_from_xdr) simp_all

lemma decodes_parse_each:
  assumes "list_all2 (\<lambda>(attr, bs) f. \<forall>p. decodes (step attr p) bs (f p)) xs fs"
  shows "decodes (parse_each step (map fst xs) p) (concat (map snd xs)) (fold (\<lambda>f p. f p) fs p)"
  using assms
proof (induction xs fs arbitrary: p rule: list_all2_induct)
  case Nil
  then show ?case by (simp add: decodes_ret)
next
  case (Cons x xs f fs)
  then show ?case by (cases x) (auto intro!: decodes_bnd)
qed

lemma parse_view_complete:
  assumes "decodes (parse_each step (Bitmap_attrs (fattr_attrmask a)) p) (fattr_attr_vals a) q"
    "length (fattr_attr_vals a) \<le> usize_max"
  shows "parse_view step p a = Inr q"
proof -
  have "completes (bnd (parse_each step (Bitmap_attrs (fattr_attrmask a)) p) (\<lambda>parsed.
      bnd (from_xdr dec_finish) (\<lambda>_. ret parsed))) (fattr_attr_vals a) q"
    by (rule completes_bnd_last [OF assms(1)]) (intro completes_finish completes_ret refl)
  from this [unfolded completes_def, rule_format, of "[]"] assms(2) show ?thesis
    by (simp add: parse_view_def dec_at_def decoder_new_def)
qed

definition updated :: "'v option \<Rightarrow> ('v \<Rightarrow> 'p \<Rightarrow> 'p) \<Rightarrow> ('p \<Rightarrow> 'p) list" where
  "updated value upd = (case value of None \<Rightarrow> [] | Some v \<Rightarrow> [upd v])"

lemma setting_updated:
  assumes "\<And>v p. value = Some v \<Longrightarrow> decodes (step attr p) (wire v) (upd v p)"
  shows "list_all2 (\<lambda>(attr, bs) f. \<forall>p. decodes (step attr p) bs (f p)) (setting attr wire value) (updated value upd)"
  using assms by (cases "value") (simp_all add: setting_def updated_def)

text \<open>C23. What an update says is what the client reads. When an update that sets no times has been encoded,
  reading the encoded attributes as basic attributes gives exactly the size, mode, owner and group of the
  update and nothing else.\<close>

theorem set_attrs_read_back:
  assumes "from_set_attrs attrs = Inr f"
    and "sa4_access_time attrs = SetTime4.DontChange" "sa4_modify_time attrs = SetTime4.DontChange"
    and "pred_option (\<lambda>s. utf8_valid (as_bytes s)) (sa4_owner attrs)"
      "pred_option (\<lambda>s. utf8_valid (as_bytes s)) (sa4_owner_group attrs)"
  shows "parse_basic f = Inr
    \<lparr>ba_file_type = None, ba_change = None, ba_size = sa4_size attrs, ba_fileid = None,
     ba_mode = sa4_mode attrs, ba_numlinks = None, ba_owner = sa4_owner attrs,
     ba_owner_group = sa4_owner_group attrs, ba_space_used = None, ba_access_time = None,
     ba_metadata_time = None, ba_modify_time = None, ba_raw = f\<rparr>"
proof -
  let ?fs = "updated (sa4_size attrs) (\<lambda>v p. p\<lparr>ba_size := Some v\<rparr>) @
    updated (sa4_mode attrs) (\<lambda>v p. p\<lparr>ba_mode := Some v\<rparr>) @
    updated (sa4_owner attrs) (\<lambda>v p. p\<lparr>ba_owner := Some v\<rparr>) @
    updated (sa4_owner_group attrs) (\<lambda>v p. p\<lparr>ba_owner_group := Some v\<rparr>)"
  have ok: "set_attrs_ok attrs" and mask: "Bitmap_attrs (fattr_attrmask f) = map fst (settings attrs)"
    and vals: "fattr_attr_vals f = concat (map snd (settings attrs))"
    using set_attrs_fattr [OF assms(1)] by auto
  have eq: "settings attrs = setting FATTR4_SIZE u64_to_be_bytes (sa4_size attrs) @
     setting FATTR4_MODE u32_to_be_bytes (sa4_mode attrs) @
     setting FATTR4_OWNER (\<lambda>s. opaque_wire (as_bytes s)) (sa4_owner attrs) @
     setting FATTR4_OWNER_GROUP (\<lambda>s. opaque_wire (as_bytes s)) (sa4_owner_group attrs)"
    using assms(2,3) by (simp add: settings_def changed_time_def setting_def)
  have "list_all2 (\<lambda>(attr, bs) g. \<forall>p. decodes (parse_basic_attr attr p) bs (g p)) (settings attrs) ?fs"
    unfolding eq using ok assms(4,5)
    by (intro list_all2_appendI setting_updated)
      (auto simp: parse_basic_attr_def set_attrs_ok_def NFS4_OPAQUE_LIMIT_def
        intro!: decodes_record_value decodes_read_string decodes_read_u64 decodes_read_u32)
  from decodes_parse_each [OF this] have
    "decodes (parse_each parse_basic_attr (Bitmap_attrs (fattr_attrmask f)) p) (fattr_attr_vals f)
       (fold (\<lambda>g p. g p) ?fs p)" for p
    unfolding mask vals .
  from parse_view_complete [OF this] have "parse_view parse_basic_attr p f = Inr (fold (\<lambda>g p. g p) ?fs p)" for p
    using settings_length [OF ok] by (simp only: vals)
  then show ?thesis
    unfolding parse_basic_def by (simp add: updated_def split: option.split)
qed

theorem set_attrs_read_back_witness:
  "\<exists>f. from_set_attrs (SetAttrs_mode 420) = Inr f \<and>
     parse_basic f = Inr
       \<lparr>ba_file_type = None, ba_change = None, ba_size = None, ba_fileid = None, ba_mode = Some 420,
        ba_numlinks = None, ba_owner = None, ba_owner_group = None, ba_space_used = None,
        ba_access_time = None, ba_metadata_time = None, ba_modify_time = None, ba_raw = f\<rparr>"
proof -
  let ?a = "SetAttrs_mode 420"
  let ?f = "\<lparr>fattr_attrmask = from_known_attrs (map fst (settings ?a)),
    fattr_attr_vals = concat (map snd (settings ?a))\<rparr>"
  have f: "from_set_attrs ?a = Inr ?f"
    by (simp add: set_attrs_fattr_iff set_attrs_ok_def SetAttrs_mode_def SetAttrs_default_def)
  from set_attrs_read_back [OF f] f show ?thesis
    by (intro exI [of _ ?f]) (simp add: SetAttrs_mode_def SetAttrs_default_def)
qed

end
