(* ===== verification/V4_Args.thy ===== *)
theory V4_Args
  imports V4_Attr Rpc_Message
begin

text \<open>
  The argument structures of the NFSv4 operations (\<open>src/v4/proto.rs\<close>) with their encoders, and the
  enumerations they use. Each encoder writes its fields in the order of the source; a fallible field ends
  it. A constructor whose name would hide one of HOL's carries a prefix.
\<close>

subsection \<open>Limits\<close>

definition NFS4_MAX_CALLBACK_SEC_PARMS :: usize where "NFS4_MAX_CALLBACK_SEC_PARMS = 16"
definition NFS4_MAX_NETLOCATIONS :: usize where "NFS4_MAX_NETLOCATIONS = 128"
definition NFS4_MAX_LAYOUT_ERRORS :: usize where "NFS4_MAX_LAYOUT_ERRORS = 1000000"
definition DEFAULT_SESSION_CHANNEL_SIZE :: u32 where "DEFAULT_SESSION_CHANNEL_SIZE = 1024 * 1024"
definition RPCSEC_GSS :: u32 where "RPCSEC_GSS = 6"

subsection \<open>Enumerations\<close>

datatype RpcGssService = SvcNone | SvcIntegrity | SvcPrivacy | SvcUnknown u32

primrec RpcGssService_as_u32 :: "RpcGssService \<Rightarrow> u32" where
  "RpcGssService_as_u32 RpcGssService.SvcNone = 1"
| "RpcGssService_as_u32 RpcGssService.SvcIntegrity = 2"
| "RpcGssService_as_u32 RpcGssService.SvcPrivacy = 3"
| "RpcGssService_as_u32 (SvcUnknown v) = v"

definition RpcGssService_from_u32 :: "u32 \<Rightarrow> RpcGssService" where
  "RpcGssService_from_u32 v =
     (if v = 1 then RpcGssService.SvcNone else if v = 2 then RpcGssService.SvcIntegrity else if v = 3
      then RpcGssService.SvcPrivacy else SvcUnknown v)"

lemma RpcGssService_as_from [simp]: "RpcGssService_as_u32 (RpcGssService_from_u32 v) = v"
  by (simp add: RpcGssService_from_u32_def)

datatype SecInfoStyle = CurrentFileHandle | Parent

primrec SecInfoStyle_as_u32 :: "SecInfoStyle \<Rightarrow> u32" where
  "SecInfoStyle_as_u32 SecInfoStyle.CurrentFileHandle = 0"
| "SecInfoStyle_as_u32 SecInfoStyle.Parent = 1"

definition SecInfoStyle_from_u32 :: "u32 \<Rightarrow> SecInfoStyle option" where
  "SecInfoStyle_from_u32 v =
     (if v = 0 then Some SecInfoStyle.CurrentFileHandle else if v = 1 then Some SecInfoStyle.Parent else
      None)"

lemma SecInfoStyle_from_as [simp]: "SecInfoStyle_from_u32 (SecInfoStyle_as_u32 x) = Some x"
  by (cases x) (simp_all add: SecInfoStyle_from_u32_def)

lemma SecInfoStyle_from_Some: "SecInfoStyle_from_u32 v = Some x \<longleftrightarrow> v = SecInfoStyle_as_u32 x"
  by (cases x) (auto simp: SecInfoStyle_from_u32_def)

datatype StateProtectHow = ProtectNone | MachineCredentials | SecretStateVerifier

primrec StateProtectHow_as_u32 :: "StateProtectHow \<Rightarrow> u32" where
  "StateProtectHow_as_u32 StateProtectHow.ProtectNone = 0"
| "StateProtectHow_as_u32 StateProtectHow.MachineCredentials = 1"
| "StateProtectHow_as_u32 StateProtectHow.SecretStateVerifier = 2"

definition StateProtectHow_from_u32 :: "u32 \<Rightarrow> StateProtectHow option" where
  "StateProtectHow_from_u32 v =
     (if v = 0 then Some StateProtectHow.ProtectNone else if v = 1 then Some
      StateProtectHow.MachineCredentials else if v = 2 then Some
      StateProtectHow.SecretStateVerifier else None)"

lemma StateProtectHow_from_as [simp]: "StateProtectHow_from_u32 (StateProtectHow_as_u32 x) = Some x"
  by (cases x) (simp_all add: StateProtectHow_from_u32_def)

lemma StateProtectHow_from_Some: "StateProtectHow_from_u32 v = Some x \<longleftrightarrow> v = StateProtectHow_as_u32 x"
  by (cases x) (auto simp: StateProtectHow_from_u32_def)

datatype ChannelDirFromClient = Fore | Back | ForeOrBoth | BackOrBoth

primrec ChannelDirFromClient_as_u32 :: "ChannelDirFromClient \<Rightarrow> u32" where
  "ChannelDirFromClient_as_u32 ChannelDirFromClient.Fore = 1"
| "ChannelDirFromClient_as_u32 ChannelDirFromClient.Back = 2"
| "ChannelDirFromClient_as_u32 ChannelDirFromClient.ForeOrBoth = 3"
| "ChannelDirFromClient_as_u32 ChannelDirFromClient.BackOrBoth = 7"

definition ChannelDirFromClient_from_u32 :: "u32 \<Rightarrow> ChannelDirFromClient option" where
  "ChannelDirFromClient_from_u32 v =
     (if v = 1 then Some ChannelDirFromClient.Fore else if v = 2 then Some ChannelDirFromClient.Back
      else if v = 3 then Some ChannelDirFromClient.ForeOrBoth else if v = 7 then Some
      ChannelDirFromClient.BackOrBoth else None)"

lemma ChannelDirFromClient_from_as [simp]: "ChannelDirFromClient_from_u32 (ChannelDirFromClient_as_u32 x) = Some x"
  by (cases x) (simp_all add: ChannelDirFromClient_from_u32_def)

lemma ChannelDirFromClient_from_Some: "ChannelDirFromClient_from_u32 v = Some x \<longleftrightarrow> v = ChannelDirFromClient_as_u32 x"
  by (cases x) (auto simp: ChannelDirFromClient_from_u32_def)

datatype ChannelDirFromServer = Fore | Back | Both

primrec ChannelDirFromServer_as_u32 :: "ChannelDirFromServer \<Rightarrow> u32" where
  "ChannelDirFromServer_as_u32 ChannelDirFromServer.Fore = 1"
| "ChannelDirFromServer_as_u32 ChannelDirFromServer.Back = 2"
| "ChannelDirFromServer_as_u32 ChannelDirFromServer.Both = 3"

definition ChannelDirFromServer_from_u32 :: "u32 \<Rightarrow> ChannelDirFromServer option" where
  "ChannelDirFromServer_from_u32 v =
     (if v = 1 then Some ChannelDirFromServer.Fore else if v = 2 then Some ChannelDirFromServer.Back
      else if v = 3 then Some ChannelDirFromServer.Both else None)"

lemma ChannelDirFromServer_from_as [simp]: "ChannelDirFromServer_from_u32 (ChannelDirFromServer_as_u32 x) = Some x"
  by (cases x) (simp_all add: ChannelDirFromServer_from_u32_def)

lemma ChannelDirFromServer_from_Some: "ChannelDirFromServer_from_u32 v = Some x \<longleftrightarrow> v = ChannelDirFromServer_as_u32 x"
  by (cases x) (auto simp: ChannelDirFromServer_from_u32_def)

datatype CreateMode = Unchecked | Guarded | Exclusive | Exclusive4_1

primrec CreateMode_as_u32 :: "CreateMode \<Rightarrow> u32" where
  "CreateMode_as_u32 CreateMode.Unchecked = 0"
| "CreateMode_as_u32 CreateMode.Guarded = 1"
| "CreateMode_as_u32 CreateMode.Exclusive = 2"
| "CreateMode_as_u32 CreateMode.Exclusive4_1 = 3"

definition CreateMode_from_u32 :: "u32 \<Rightarrow> CreateMode option" where
  "CreateMode_from_u32 v =
     (if v = 0 then Some CreateMode.Unchecked else if v = 1 then Some CreateMode.Guarded else if v = 2
      then Some CreateMode.Exclusive else if v = 3 then Some CreateMode.Exclusive4_1 else None)"

lemma CreateMode_from_as [simp]: "CreateMode_from_u32 (CreateMode_as_u32 x) = Some x"
  by (cases x) (simp_all add: CreateMode_from_u32_def)

lemma CreateMode_from_Some: "CreateMode_from_u32 v = Some x \<longleftrightarrow> v = CreateMode_as_u32 x"
  by (cases x) (auto simp: CreateMode_from_u32_def)

datatype OpenType = NoCreate | Create

primrec OpenType_as_u32 :: "OpenType \<Rightarrow> u32" where
  "OpenType_as_u32 OpenType.NoCreate = 0"
| "OpenType_as_u32 OpenType.Create = 1"

definition OpenType_from_u32 :: "u32 \<Rightarrow> OpenType option" where
  "OpenType_from_u32 v =
     (if v = 0 then Some OpenType.NoCreate else if v = 1 then Some OpenType.Create else None)"

lemma OpenType_from_as [simp]: "OpenType_from_u32 (OpenType_as_u32 x) = Some x"
  by (cases x) (simp_all add: OpenType_from_u32_def)

lemma OpenType_from_Some: "OpenType_from_u32 v = Some x \<longleftrightarrow> v = OpenType_as_u32 x"
  by (cases x) (auto simp: OpenType_from_u32_def)

datatype OpenDelegationType = DelegNone | DelegRead | DelegWrite | DelegNoneExt

primrec OpenDelegationType_as_u32 :: "OpenDelegationType \<Rightarrow> u32" where
  "OpenDelegationType_as_u32 OpenDelegationType.DelegNone = 0"
| "OpenDelegationType_as_u32 OpenDelegationType.DelegRead = 1"
| "OpenDelegationType_as_u32 OpenDelegationType.DelegWrite = 2"
| "OpenDelegationType_as_u32 OpenDelegationType.DelegNoneExt = 3"

definition OpenDelegationType_from_u32 :: "u32 \<Rightarrow> OpenDelegationType option" where
  "OpenDelegationType_from_u32 v =
     (if v = 0 then Some OpenDelegationType.DelegNone else if v = 1 then Some
      OpenDelegationType.DelegRead else if v = 2 then Some OpenDelegationType.DelegWrite else if v
      = 3 then Some OpenDelegationType.DelegNoneExt else None)"

lemma OpenDelegationType_from_as [simp]: "OpenDelegationType_from_u32 (OpenDelegationType_as_u32 x) = Some x"
  by (cases x) (simp_all add: OpenDelegationType_from_u32_def)

lemma OpenDelegationType_from_Some: "OpenDelegationType_from_u32 v = Some x \<longleftrightarrow> v = OpenDelegationType_as_u32 x"
  by (cases x) (auto simp: OpenDelegationType_from_u32_def)

datatype OpenClaimType = ClaimNull | ClaimPrevious | ClaimDelegateCurrent | ClaimDelegatePrevious | ClaimFileHandle | ClaimDelegateCurrentFileHandle | ClaimDelegatePreviousFileHandle

primrec OpenClaimType_as_u32 :: "OpenClaimType \<Rightarrow> u32" where
  "OpenClaimType_as_u32 OpenClaimType.ClaimNull = 0"
| "OpenClaimType_as_u32 OpenClaimType.ClaimPrevious = 1"
| "OpenClaimType_as_u32 OpenClaimType.ClaimDelegateCurrent = 2"
| "OpenClaimType_as_u32 OpenClaimType.ClaimDelegatePrevious = 3"
| "OpenClaimType_as_u32 OpenClaimType.ClaimFileHandle = 4"
| "OpenClaimType_as_u32 OpenClaimType.ClaimDelegateCurrentFileHandle = 5"
| "OpenClaimType_as_u32 OpenClaimType.ClaimDelegatePreviousFileHandle = 6"

definition OpenClaimType_from_u32 :: "u32 \<Rightarrow> OpenClaimType option" where
  "OpenClaimType_from_u32 v =
     (if v = 0 then Some OpenClaimType.ClaimNull else if v = 1 then Some OpenClaimType.ClaimPrevious
      else if v = 2 then Some OpenClaimType.ClaimDelegateCurrent else if v = 3 then Some
      OpenClaimType.ClaimDelegatePrevious else if v = 4 then Some OpenClaimType.ClaimFileHandle
      else if v = 5 then Some OpenClaimType.ClaimDelegateCurrentFileHandle else if v = 6 then Some
      OpenClaimType.ClaimDelegatePreviousFileHandle else None)"

lemma OpenClaimType_from_as [simp]: "OpenClaimType_from_u32 (OpenClaimType_as_u32 x) = Some x"
  by (cases x) (simp_all add: OpenClaimType_from_u32_def)

lemma OpenClaimType_from_Some: "OpenClaimType_from_u32 v = Some x \<longleftrightarrow> v = OpenClaimType_as_u32 x"
  by (cases x) (auto simp: OpenClaimType_from_u32_def)

datatype LockType = LockRead | LockWrite | LockReadBlocking | LockWriteBlocking

primrec LockType_as_u32 :: "LockType \<Rightarrow> u32" where
  "LockType_as_u32 LockType.LockRead = 1"
| "LockType_as_u32 LockType.LockWrite = 2"
| "LockType_as_u32 LockType.LockReadBlocking = 3"
| "LockType_as_u32 LockType.LockWriteBlocking = 4"

definition LockType_from_u32 :: "u32 \<Rightarrow> LockType option" where
  "LockType_from_u32 v =
     (if v = 1 then Some LockType.LockRead else if v = 2 then Some LockType.LockWrite else if v = 3 then
      Some LockType.LockReadBlocking else if v = 4 then Some LockType.LockWriteBlocking else None)"

lemma LockType_from_as [simp]: "LockType_from_u32 (LockType_as_u32 x) = Some x"
  by (cases x) (simp_all add: LockType_from_u32_def)

lemma LockType_from_Some: "LockType_from_u32 v = Some x \<longleftrightarrow> v = LockType_as_u32 x"
  by (cases x) (auto simp: LockType_from_u32_def)

datatype IoAdviceType = Normal | Sequential | SequentialBackwards | Random | WillNeed | WillNeedOpportunistic | DontNeed | NoReuse | AdviceRead | AdviceWrite | InitProximity

primrec IoAdviceType_as_u32 :: "IoAdviceType \<Rightarrow> u32" where
  "IoAdviceType_as_u32 IoAdviceType.Normal = 0"
| "IoAdviceType_as_u32 IoAdviceType.Sequential = 1"
| "IoAdviceType_as_u32 IoAdviceType.SequentialBackwards = 2"
| "IoAdviceType_as_u32 IoAdviceType.Random = 3"
| "IoAdviceType_as_u32 IoAdviceType.WillNeed = 4"
| "IoAdviceType_as_u32 IoAdviceType.WillNeedOpportunistic = 5"
| "IoAdviceType_as_u32 IoAdviceType.DontNeed = 6"
| "IoAdviceType_as_u32 IoAdviceType.NoReuse = 7"
| "IoAdviceType_as_u32 IoAdviceType.AdviceRead = 8"
| "IoAdviceType_as_u32 IoAdviceType.AdviceWrite = 9"
| "IoAdviceType_as_u32 IoAdviceType.InitProximity = 10"

definition IoAdviceType_from_u32 :: "u32 \<Rightarrow> IoAdviceType option" where
  "IoAdviceType_from_u32 v =
     (if v = 0 then Some IoAdviceType.Normal else if v = 1 then Some IoAdviceType.Sequential else if v =
      2 then Some IoAdviceType.SequentialBackwards else if v = 3 then Some IoAdviceType.Random
      else if v = 4 then Some IoAdviceType.WillNeed else if v = 5 then Some
      IoAdviceType.WillNeedOpportunistic else if v = 6 then Some IoAdviceType.DontNeed else if v =
      7 then Some IoAdviceType.NoReuse else if v = 8 then Some IoAdviceType.AdviceRead else if v =
      9 then Some IoAdviceType.AdviceWrite else if v = 10 then Some IoAdviceType.InitProximity
      else None)"

lemma IoAdviceType_from_as [simp]: "IoAdviceType_from_u32 (IoAdviceType_as_u32 x) = Some x"
  by (cases x) (simp_all add: IoAdviceType_from_u32_def)

lemma IoAdviceType_from_Some: "IoAdviceType_from_u32 v = Some x \<longleftrightarrow> v = IoAdviceType_as_u32 x"
  by (cases x) (auto simp: IoAdviceType_from_u32_def)

datatype SeekContent = ContentData | ContentHole

primrec SeekContent_as_u32 :: "SeekContent \<Rightarrow> u32" where
  "SeekContent_as_u32 SeekContent.ContentData = 0"
| "SeekContent_as_u32 SeekContent.ContentHole = 1"

definition SeekContent_from_u32 :: "u32 \<Rightarrow> SeekContent option" where
  "SeekContent_from_u32 v =
     (if v = 0 then Some SeekContent.ContentData else if v = 1 then Some SeekContent.ContentHole else
      None)"

lemma SeekContent_from_as [simp]: "SeekContent_from_u32 (SeekContent_as_u32 x) = Some x"
  by (cases x) (simp_all add: SeekContent_from_u32_def)

lemma SeekContent_from_Some: "SeekContent_from_u32 v = Some x \<longleftrightarrow> v = SeekContent_as_u32 x"
  by (cases x) (auto simp: SeekContent_from_u32_def)

datatype ChangeAttrType = MonotonicIncr | VersionCounter | VersionCounterNoPnfs | TimeMetadata | Undefined

primrec ChangeAttrType_as_u32 :: "ChangeAttrType \<Rightarrow> u32" where
  "ChangeAttrType_as_u32 ChangeAttrType.MonotonicIncr = 0"
| "ChangeAttrType_as_u32 ChangeAttrType.VersionCounter = 1"
| "ChangeAttrType_as_u32 ChangeAttrType.VersionCounterNoPnfs = 2"
| "ChangeAttrType_as_u32 ChangeAttrType.TimeMetadata = 3"
| "ChangeAttrType_as_u32 ChangeAttrType.Undefined = 4"

definition ChangeAttrType_from_u32 :: "u32 \<Rightarrow> ChangeAttrType option" where
  "ChangeAttrType_from_u32 v =
     (if v = 0 then Some ChangeAttrType.MonotonicIncr else if v = 1 then Some
      ChangeAttrType.VersionCounter else if v = 2 then Some ChangeAttrType.VersionCounterNoPnfs
      else if v = 3 then Some ChangeAttrType.TimeMetadata else if v = 4 then Some
      ChangeAttrType.Undefined else None)"

lemma ChangeAttrType_from_as [simp]: "ChangeAttrType_from_u32 (ChangeAttrType_as_u32 x) = Some x"
  by (cases x) (simp_all add: ChangeAttrType_from_u32_def)

lemma ChangeAttrType_from_Some: "ChangeAttrType_from_u32 v = Some x \<longleftrightarrow> v = ChangeAttrType_as_u32 x"
  by (cases x) (auto simp: ChangeAttrType_from_u32_def)

datatype LayoutType = NfsV4_1Files | Osd2Objects | BlockVolume | LayoutUnknown u32

primrec LayoutType_as_u32 :: "LayoutType \<Rightarrow> u32" where
  "LayoutType_as_u32 LayoutType.NfsV4_1Files = 1"
| "LayoutType_as_u32 LayoutType.Osd2Objects = 2"
| "LayoutType_as_u32 LayoutType.BlockVolume = 3"
| "LayoutType_as_u32 (LayoutUnknown v) = v"

definition LayoutType_from_u32 :: "u32 \<Rightarrow> LayoutType" where
  "LayoutType_from_u32 v =
     (if v = 1 then LayoutType.NfsV4_1Files else if v = 2 then LayoutType.Osd2Objects else if v = 3 then
      LayoutType.BlockVolume else LayoutUnknown v)"

lemma LayoutType_as_from [simp]: "LayoutType_as_u32 (LayoutType_from_u32 v) = v"
  by (simp add: LayoutType_from_u32_def)

datatype LayoutIomode = IomodeRead | IomodeReadWrite | IomodeAny | IomodeUnknown u32

primrec LayoutIomode_as_u32 :: "LayoutIomode \<Rightarrow> u32" where
  "LayoutIomode_as_u32 LayoutIomode.IomodeRead = 1"
| "LayoutIomode_as_u32 LayoutIomode.IomodeReadWrite = 2"
| "LayoutIomode_as_u32 LayoutIomode.IomodeAny = 3"
| "LayoutIomode_as_u32 (IomodeUnknown v) = v"

definition LayoutIomode_from_u32 :: "u32 \<Rightarrow> LayoutIomode" where
  "LayoutIomode_from_u32 v =
     (if v = 1 then LayoutIomode.IomodeRead else if v = 2 then LayoutIomode.IomodeReadWrite else if v =
      3 then LayoutIomode.IomodeAny else IomodeUnknown v)"

lemma LayoutIomode_as_from [simp]: "LayoutIomode_as_u32 (LayoutIomode_from_u32 v) = v"
  by (simp add: LayoutIomode_from_u32_def)

text \<open>\<open>StableHow\<close> has the variants and the order of the NFSv3 type, which the model shares.\<close>

primrec StableHow4_as_u32 :: "StableHow \<Rightarrow> u32" where
  "StableHow4_as_u32 StableHow.Unstable = 0"
| "StableHow4_as_u32 StableHow.DataSync = 1"
| "StableHow4_as_u32 StableHow.FileSync = 2"

definition StableHow4_from_u32 :: "u32 \<Rightarrow> StableHow option" where
  "StableHow4_from_u32 v =
     (if v = 0 then Some StableHow.Unstable else if v = 1 then Some StableHow.DataSync
      else if v = 2 then Some StableHow.FileSync else None)"

lemma StableHow4_from_as [simp]: "StableHow4_from_u32 (StableHow4_as_u32 x) = Some x"
  by (cases x) (simp_all add: StableHow4_from_u32_def)

definition encode_LayoutType :: "LayoutType enc" where
  "encode_LayoutType t = write_u32 (LayoutType_as_u32 t)"

definition decode_LayoutType :: "LayoutType dec" where
  "decode_LayoutType = bnd read_u32 (\<lambda>v. ret (LayoutType_from_u32 v))"

definition encode_LayoutIomode :: "LayoutIomode enc" where
  "encode_LayoutIomode m = write_u32 (LayoutIomode_as_u32 m)"

definition decode_LayoutIomode :: "LayoutIomode dec" where
  "decode_LayoutIomode = bnd read_u32 (\<lambda>v. ret (LayoutIomode_from_u32 v))"

subsection \<open>Clients and sessions\<close>

record NetAddr =
  na_netid :: string
  na_addr :: string

definition encode_NetAddr :: "NetAddr enc" where
  "encode_NetAddr a =
     seq_ops [write_string (na_netid a) NFS4_OPAQUE_LIMIT, write_string (na_addr a) NFS4_OPAQUE_LIMIT]"

definition decode_NetAddr :: "NetAddr dec" where
  "decode_NetAddr =
     bnd (read_string NFS4_OPAQUE_LIMIT) (\<lambda>v_netid.
     bnd (read_string NFS4_OPAQUE_LIMIT) (\<lambda>v_addr.
     ret \<lparr>na_netid = v_netid, na_addr = v_addr\<rparr>))"

datatype CallbackSecParms =
    CbAuthNone | CbAuthSys AuthSys | CbRpcSecGss RpcGssService bytes bytes

definition encode_CallbackSecParms :: "CallbackSecParms enc" where
  "encode_CallbackSecParms a =
     (case a of
        CbAuthNone \<Rightarrow> write_u32 AUTH_NONE
      | CbAuthSys auth \<Rightarrow> seq_ops [write_u32 AUTH_SYS, encode_AuthSys auth]
      | CbRpcSecGss service handle_from_server handle_from_client \<Rightarrow>
          seq_ops [write_u32 RPCSEC_GSS, write_u32 (RpcGssService_as_u32 service),
            write_opaque handle_from_server NFS4_OPAQUE_LIMIT, write_opaque handle_from_client NFS4_OPAQUE_LIMIT])"

record ClientOwner =
  co_verifier :: Verifier
  co_owner_id :: bytes

definition encode_ClientOwner :: "ClientOwner enc" where
  "encode_ClientOwner a =
     seq_ops [write_fixed_opaque (co_verifier a), write_opaque (co_owner_id a) NFS4_OPAQUE_LIMIT]"

record CallbackClient =
  cbc_program :: u32
  cbc_location :: NetAddr

definition encode_CallbackClient :: "CallbackClient enc" where
  "encode_CallbackClient a =
     seq_ops [write_u32 (cbc_program a), encode_NetAddr (cbc_location a)]"

record SetClientIdArgs =
  sci_client :: ClientOwner
  sci_callback :: CallbackClient
  sci_callback_ident :: u32

definition encode_SetClientIdArgs :: "SetClientIdArgs enc" where
  "encode_SetClientIdArgs a =
     seq_ops [encode_ClientOwner (sci_client a), encode_CallbackClient (sci_callback a),
       write_u32 (sci_callback_ident a)]"

record SetClientIdConfirmArgs =
  scc_client_id :: u64
  scc_verifier :: Verifier

definition encode_SetClientIdConfirmArgs :: "SetClientIdConfirmArgs enc" where
  "encode_SetClientIdConfirmArgs a =
     seq_ops [write_u64 (scc_client_id a), write_fixed_opaque (scc_verifier a)]"

record ExchangeIdArgs =
  eia_client_owner :: ClientOwner
  eia_flags :: u32

definition encode_ExchangeIdArgs :: "ExchangeIdArgs enc" where
  "encode_ExchangeIdArgs a =
     seq_ops [encode_ClientOwner (eia_client_owner a), write_u32 (eia_flags a),
       write_u32 (StateProtectHow_as_u32 StateProtectHow.ProtectNone), write_u32 0]"

record ChannelAttrs =
  ca_header_pad_size :: u32
  ca_max_request_size :: u32
  ca_max_response_size :: u32
  ca_max_response_size_cached :: u32
  ca_max_operations :: u32
  ca_max_requests :: u32
  ca_rdma_ird :: "u32 list"

definition encode_ChannelAttrs :: "ChannelAttrs enc" where
  "encode_ChannelAttrs a =
     seq_ops [write_u32 (ca_header_pad_size a), write_u32 (ca_max_request_size a),
       write_u32 (ca_max_response_size a), write_u32 (ca_max_response_size_cached a),
       write_u32 (ca_max_operations a), write_u32 (ca_max_requests a),
       write_array encode_u32 (ca_rdma_ird a) 1]"

definition decode_ChannelAttrs :: "ChannelAttrs dec" where
  "decode_ChannelAttrs =
     bnd read_u32 (\<lambda>v_header_pad_size.
     bnd read_u32 (\<lambda>v_max_request_size.
     bnd read_u32 (\<lambda>v_max_response_size.
     bnd read_u32 (\<lambda>v_max_response_size_cached.
     bnd read_u32 (\<lambda>v_max_operations.
     bnd read_u32 (\<lambda>v_max_requests.
     bnd (read_array decode_u32 1) (\<lambda>v_rdma_ird.
     ret \<lparr>ca_header_pad_size = v_header_pad_size, ca_max_request_size = v_max_request_size,
       ca_max_response_size = v_max_response_size, ca_max_response_size_cached =
       v_max_response_size_cached, ca_max_operations = v_max_operations, ca_max_requests =
       v_max_requests, ca_rdma_ird = v_rdma_ird\<rparr>)))))))"

definition fore_channel_default :: ChannelAttrs where
  "fore_channel_default =
     \<lparr>ca_header_pad_size = 0, ca_max_request_size = DEFAULT_SESSION_CHANNEL_SIZE,
      ca_max_response_size = DEFAULT_SESSION_CHANNEL_SIZE,
      ca_max_response_size_cached = DEFAULT_SESSION_CHANNEL_SIZE, ca_max_operations = 64,
      ca_max_requests = 1, ca_rdma_ird = []\<rparr>"

definition back_channel_disabled :: ChannelAttrs where
  "back_channel_disabled =
     \<lparr>ca_header_pad_size = 0, ca_max_request_size = DEFAULT_SESSION_CHANNEL_SIZE,
      ca_max_response_size = DEFAULT_SESSION_CHANNEL_SIZE,
      ca_max_response_size_cached = DEFAULT_SESSION_CHANNEL_SIZE, ca_max_operations = 8,
      ca_max_requests = 1, ca_rdma_ird = []\<rparr>"

record CreateSessionArgs =
  csa_client_id :: u64
  csa_sequence_id :: u32
  csa_flags :: u32
  csa_fore_channel_attrs :: ChannelAttrs
  csa_back_channel_attrs :: ChannelAttrs
  csa_callback_program :: u32
  csa_callback_sec_parms :: "CallbackSecParms list"

definition encode_CreateSessionArgs :: "CreateSessionArgs enc" where
  "encode_CreateSessionArgs a =
     seq_ops [write_u64 (csa_client_id a), write_u32 (csa_sequence_id a), write_u32 (csa_flags a),
       encode_ChannelAttrs (csa_fore_channel_attrs a),
       encode_ChannelAttrs (csa_back_channel_attrs a), write_u32 (csa_callback_program a),
       write_array encode_CallbackSecParms (csa_callback_sec_parms a) NFS4_MAX_CALLBACK_SEC_PARMS]"

record BackchannelCtlArgs =
  bca_callback_program :: u32
  bca_callback_sec_parms :: "CallbackSecParms list"

definition encode_BackchannelCtlArgs :: "BackchannelCtlArgs enc" where
  "encode_BackchannelCtlArgs a =
     seq_ops [write_u32 (bca_callback_program a),
       write_array encode_CallbackSecParms (bca_callback_sec_parms a) NFS4_MAX_CALLBACK_SEC_PARMS]"

record SequenceArgs =
  sq_session_id :: SessionId
  sq_sequence_id :: u32
  sq_slot_id :: u32
  sq_highest_slot_id :: u32
  sq_cache_this :: bool

definition encode_SequenceArgs :: "SequenceArgs enc" where
  "encode_SequenceArgs a =
     seq_ops [write_fixed_opaque (sq_session_id a), write_u32 (sq_sequence_id a),
       write_u32 (sq_slot_id a), write_u32 (sq_highest_slot_id a), write_bool (sq_cache_this a)]"

record BindConnToSessionArgs =
  bcs_session_id :: SessionId
  bcs_direction :: ChannelDirFromClient
  bcs_use_conn_in_rdma_mode :: bool

definition encode_BindConnToSessionArgs :: "BindConnToSessionArgs enc" where
  "encode_BindConnToSessionArgs a =
     seq_ops [write_fixed_opaque (bcs_session_id a),
       write_u32 (ChannelDirFromClient_as_u32 (bcs_direction a)),
       write_bool (bcs_use_conn_in_rdma_mode a)]"

record SetSsvArgs =
  ssv_ssv :: bytes
  ssv_digest :: bytes

definition encode_SetSsvArgs :: "SetSsvArgs enc" where
  "encode_SetSsvArgs a =
     seq_ops [write_opaque (ssv_ssv a) NFS4_OPAQUE_LIMIT, write_opaque (ssv_digest a) NFS4_OPAQUE_LIMIT]"

subsection \<open>Open and lock state\<close>

record OpenOwner =
  oo_client_id :: u64
  oo_owner :: bytes

definition encode_OpenOwner :: "OpenOwner enc" where
  "encode_OpenOwner a =
     seq_ops [write_u64 (oo_client_id a), write_opaque (oo_owner a) NFS4_OPAQUE_LIMIT]"

datatype OpenHow =
    NoCreate | Unchecked Fattr | Guarded Fattr | Exclusive Verifier | ExclusiveWithAttrs Verifier Fattr

definition encode_OpenHow :: "OpenHow enc" where
  "encode_OpenHow a =
     (case a of
        OpenHow.NoCreate \<Rightarrow> write_u32 (OpenType_as_u32 OpenType.NoCreate)
      | OpenHow.Unchecked attrs \<Rightarrow>
          seq_ops [write_u32 (OpenType_as_u32 OpenType.Create),
            write_u32 (CreateMode_as_u32 CreateMode.Unchecked), encode_Fattr attrs]
      | OpenHow.Guarded attrs \<Rightarrow>
          seq_ops [write_u32 (OpenType_as_u32 OpenType.Create),
            write_u32 (CreateMode_as_u32 CreateMode.Guarded), encode_Fattr attrs]
      | OpenHow.Exclusive verifier \<Rightarrow>
          seq_ops [write_u32 (OpenType_as_u32 OpenType.Create),
            write_u32 (CreateMode_as_u32 CreateMode.Exclusive), write_fixed_opaque verifier]
      | OpenHow.ExclusiveWithAttrs verifier attrs \<Rightarrow>
          seq_ops [write_u32 (OpenType_as_u32 OpenType.Create),
            write_u32 (CreateMode_as_u32 CreateMode.Exclusive4_1), write_fixed_opaque verifier,
            encode_Fattr attrs])"

datatype OpenClaim =
    Null string | Previous OpenDelegationType | DelegateCurrent StateId string | DelegatePrevious string
  | CurrentFileHandle | DelegateCurrentFileHandle StateId | DelegatePreviousFileHandle

definition encode_OpenClaim :: "OpenClaim enc" where
  "encode_OpenClaim a =
     (case a of
        OpenClaim.Null name \<Rightarrow>
          seq_ops [write_u32 (OpenClaimType_as_u32 ClaimNull), write_string name NFS4_OPAQUE_LIMIT]
      | OpenClaim.Previous delegation_type \<Rightarrow>
          seq_ops [write_u32 (OpenClaimType_as_u32 ClaimPrevious),
            write_u32 (OpenDelegationType_as_u32 delegation_type)]
      | OpenClaim.DelegateCurrent delegate_stateid name \<Rightarrow>
          seq_ops [write_u32 (OpenClaimType_as_u32 ClaimDelegateCurrent), encode_StateId delegate_stateid,
            write_string name NFS4_OPAQUE_LIMIT]
      | OpenClaim.DelegatePrevious name \<Rightarrow>
          seq_ops [write_u32 (OpenClaimType_as_u32 ClaimDelegatePrevious), write_string name NFS4_OPAQUE_LIMIT]
      | OpenClaim.CurrentFileHandle \<Rightarrow> write_u32 (OpenClaimType_as_u32 ClaimFileHandle)
      | OpenClaim.DelegateCurrentFileHandle delegate_stateid \<Rightarrow>
          seq_ops [write_u32 (OpenClaimType_as_u32 ClaimDelegateCurrentFileHandle),
            encode_StateId delegate_stateid]
      | OpenClaim.DelegatePreviousFileHandle \<Rightarrow>
          write_u32 (OpenClaimType_as_u32 ClaimDelegatePreviousFileHandle))"

record OpenArgs =
  oa_seqid :: u32
  oa_share_access :: u32
  oa_share_deny :: u32
  oa_owner :: OpenOwner
  oa_openhow :: OpenHow
  oa_claim :: OpenClaim

definition encode_OpenArgs :: "OpenArgs enc" where
  "encode_OpenArgs a =
     seq_ops [write_u32 (oa_seqid a), write_u32 (oa_share_access a), write_u32 (oa_share_deny a),
       encode_OpenOwner (oa_owner a), encode_OpenHow (oa_openhow a),
       encode_OpenClaim (oa_claim a)]"

record LockOwner =
  lo_client_id :: u64
  lo_owner :: bytes

definition encode_LockOwner :: "LockOwner enc" where
  "encode_LockOwner a =
     seq_ops [write_u64 (lo_client_id a), write_opaque (lo_owner a) NFS4_OPAQUE_LIMIT]"

definition decode_LockOwner :: "LockOwner dec" where
  "decode_LockOwner =
     bnd read_u64 (\<lambda>v_client_id.
     bnd (read_opaque_vec NFS4_OPAQUE_LIMIT) (\<lambda>v_owner.
     ret \<lparr>lo_client_id = v_client_id, lo_owner = v_owner\<rparr>))"

datatype Locker = New u32 StateId u32 LockOwner | Existing StateId u32

definition encode_Locker :: "Locker enc" where
  "encode_Locker a =
     (case a of
        New open_seqid open_stateid lock_seqid lock_owner \<Rightarrow>
          seq_ops [write_bool True, write_u32 open_seqid, encode_StateId open_stateid, write_u32 lock_seqid,
            encode_LockOwner lock_owner]
      | Existing lock_stateid lock_seqid \<Rightarrow>
          seq_ops [write_bool False, encode_StateId lock_stateid, write_u32 lock_seqid])"

record LockArgs =
  la_lock_type :: LockType
  la_reclaim :: bool
  la_offset :: u64
  la_length :: u64
  la_locker :: Locker

definition encode_LockArgs :: "LockArgs enc" where
  "encode_LockArgs a =
     seq_ops [write_u32 (LockType_as_u32 (la_lock_type a)), write_bool (la_reclaim a),
       write_u64 (la_offset a), write_u64 (la_length a), encode_Locker (la_locker a)]"

record LockTestArgs =
  lta_lock_type :: LockType
  lta_offset :: u64
  lta_length :: u64
  lta_owner :: LockOwner

definition encode_LockTestArgs :: "LockTestArgs enc" where
  "encode_LockTestArgs a =
     seq_ops [write_u32 (LockType_as_u32 (lta_lock_type a)), write_u64 (lta_offset a),
       write_u64 (lta_length a), encode_LockOwner (lta_owner a)]"

record LockUnlockArgs =
  lua_lock_type :: LockType
  lua_seqid :: u32
  lua_lock_stateid :: StateId
  lua_offset :: u64
  lua_length :: u64

definition encode_LockUnlockArgs :: "LockUnlockArgs enc" where
  "encode_LockUnlockArgs a =
     seq_ops [write_u32 (LockType_as_u32 (lua_lock_type a)), write_u32 (lua_seqid a),
       encode_StateId (lua_lock_stateid a), write_u64 (lua_offset a), write_u64 (lua_length a)]"

datatype DelegationClaim = WantFileHandle | WantPrevious OpenDelegationType | WantDelegPrevFileHandle

definition encode_DelegationClaim :: "DelegationClaim enc" where
  "encode_DelegationClaim a =
     (case a of
        WantFileHandle \<Rightarrow> write_u32 (OpenClaimType_as_u32 ClaimFileHandle)
      | WantPrevious delegation_type \<Rightarrow>
          seq_ops [write_u32 (OpenClaimType_as_u32 ClaimPrevious),
            write_u32 (OpenDelegationType_as_u32 delegation_type)]
      | WantDelegPrevFileHandle \<Rightarrow> write_u32 (OpenClaimType_as_u32 ClaimDelegatePreviousFileHandle))"

record WantDelegationArgs =
  wda_want :: u32
  wda_claim :: DelegationClaim

definition encode_WantDelegationArgs :: "WantDelegationArgs enc" where
  "encode_WantDelegationArgs a =
     seq_ops [write_u32 (wda_want a), encode_DelegationClaim (wda_claim a)]"

record GetDirDelegationArgs =
  gdd_signal_deleg_avail :: bool
  gdd_notification_types :: Bitmap
  gdd_child_attr_delay :: NfsTime4
  gdd_dir_attr_delay :: NfsTime4
  gdd_child_attributes :: Bitmap
  gdd_dir_attributes :: Bitmap

definition encode_GetDirDelegationArgs :: "GetDirDelegationArgs enc" where
  "encode_GetDirDelegationArgs a =
     seq_ops [write_bool (gdd_signal_deleg_avail a), encode_Bitmap (gdd_notification_types a),
       encode_NfsTime4 (gdd_child_attr_delay a), encode_NfsTime4 (gdd_dir_attr_delay a),
       encode_Bitmap (gdd_child_attributes a), encode_Bitmap (gdd_dir_attributes a)]"

subsection \<open>Data\<close>

record ReadPlusArgs =
  rpa_stateid :: StateId
  rpa_offset :: u64
  rpa_count :: u32

definition encode_ReadPlusArgs :: "ReadPlusArgs enc" where
  "encode_ReadPlusArgs a =
     seq_ops [encode_StateId (rpa_stateid a), write_u64 (rpa_offset a), write_u32 (rpa_count a)]"

record IoAdviseArgs =
  iaa_stateid :: StateId
  iaa_offset :: u64
  iaa_count :: u64
  iaa_hints :: Bitmap

definition encode_IoAdviseArgs :: "IoAdviseArgs enc" where
  "encode_IoAdviseArgs a =
     seq_ops [encode_StateId (iaa_stateid a), write_u64 (iaa_offset a), write_u64 (iaa_count a),
       encode_Bitmap (iaa_hints a)]"

datatype NetLoc = LocName string | LocUrl string | LocNetAddr string string

definition encode_NetLoc :: "NetLoc enc" where
  "encode_NetLoc a =
     (case a of
        LocName name \<Rightarrow> seq_ops [write_u32 1, write_string name NFS4_OPAQUE_LIMIT]
      | LocUrl url \<Rightarrow> seq_ops [write_u32 2, write_string url NFS4_OPAQUE_LIMIT]
      | LocNetAddr netid addr \<Rightarrow>
          seq_ops [write_u32 3, write_string netid NFS4_OPAQUE_LIMIT, write_string addr NFS4_OPAQUE_LIMIT])"

definition decode_NetLoc :: "NetLoc dec" where
  "decode_NetLoc =
     bnd read_u32 (\<lambda>v.
     if v = 1 then bnd (read_string NFS4_OPAQUE_LIMIT) (\<lambda>name. ret (LocName name))
     else if v = 2 then bnd (read_string NFS4_OPAQUE_LIMIT) (\<lambda>url. ret (LocUrl url))
     else if v = 3 then
       bnd (read_string NFS4_OPAQUE_LIMIT) (\<lambda>netid.
       bnd (read_string NFS4_OPAQUE_LIMIT) (\<lambda>addr. ret (LocNetAddr netid addr)))
     else fail (InvalidDiscriminant ''netloc_type4'' v))"

record AppDataBlock =
  adb_offset :: u64
  adb_block_size :: u64
  adb_block_count :: u64
  adb_block_number_offset :: u64
  adb_block_number :: u32
  adb_pattern_offset :: u64
  adb_pattern :: bytes

definition encode_AppDataBlock :: "AppDataBlock enc" where
  "encode_AppDataBlock a =
     seq_ops [write_u64 (adb_offset a), write_u64 (adb_block_size a), write_u64 (adb_block_count a),
       write_u64 (adb_block_number_offset a), write_u32 (adb_block_number a),
       write_u64 (adb_pattern_offset a), write_opaque (adb_pattern a) NFS4_MAX_IO]"

record CopyArgs =
  cpa_src_stateid :: StateId
  cpa_dst_stateid :: StateId
  cpa_src_offset :: u64
  cpa_dst_offset :: u64
  cpa_count :: u64
  cpa_consecutive :: bool
  cpa_synchronous :: bool
  cpa_source_servers :: "NetLoc list"

definition encode_CopyArgs :: "CopyArgs enc" where
  "encode_CopyArgs a =
     seq_ops [encode_StateId (cpa_src_stateid a), encode_StateId (cpa_dst_stateid a),
       write_u64 (cpa_src_offset a), write_u64 (cpa_dst_offset a), write_u64 (cpa_count a),
       write_bool (cpa_consecutive a), write_bool (cpa_synchronous a),
       write_array encode_NetLoc (cpa_source_servers a) NFS4_MAX_NETLOCATIONS]"

record CopyNotifyArgs =
  cna_src_stateid :: StateId
  cna_destination_server :: NetLoc

definition encode_CopyNotifyArgs :: "CopyNotifyArgs enc" where
  "encode_CopyNotifyArgs a =
     seq_ops [encode_StateId (cna_src_stateid a), encode_NetLoc (cna_destination_server a)]"

record WriteSameArgs =
  wsa_stateid :: StateId
  wsa_stable :: StableHow
  wsa_block :: AppDataBlock

definition encode_WriteSameArgs :: "WriteSameArgs enc" where
  "encode_WriteSameArgs a =
     seq_ops [encode_StateId (wsa_stateid a), write_u32 (StableHow4_as_u32 (wsa_stable a)),
       encode_AppDataBlock (wsa_block a)]"

record CloneArgs =
  cla_src_stateid :: StateId
  cla_dst_stateid :: StateId
  cla_src_offset :: u64
  cla_dst_offset :: u64
  cla_count :: u64

definition encode_CloneArgs :: "CloneArgs enc" where
  "encode_CloneArgs a =
     seq_ops [encode_StateId (cla_src_stateid a), encode_StateId (cla_dst_stateid a),
       write_u64 (cla_src_offset a), write_u64 (cla_dst_offset a), write_u64 (cla_count a)]"

datatype CreateKind =
    KindDirectory | KindSymlink string | KindBlockDevice u32 u32 | KindCharacterDevice u32 u32
  | KindSocket | KindFifo

definition encode_CreateKind :: "CreateKind enc" where
  "encode_CreateKind a =
     (case a of
        KindDirectory \<Rightarrow> write_u32 2
      | KindSymlink target \<Rightarrow> seq_ops [write_u32 5, write_string target NFS4_OPAQUE_LIMIT]
      | KindBlockDevice major minor \<Rightarrow> seq_ops [write_u32 3, write_u32 major, write_u32 minor]
      | KindCharacterDevice major minor \<Rightarrow> seq_ops [write_u32 4, write_u32 major, write_u32 minor]
      | KindSocket \<Rightarrow> write_u32 6
      | KindFifo \<Rightarrow> write_u32 7)"

record CreateArgs4 =
  cra_kind :: CreateKind
  cra_name :: string
  cra_attrs :: Fattr

definition encode_CreateArgs4 :: "CreateArgs4 enc" where
  "encode_CreateArgs4 a =
     seq_ops [encode_CreateKind (cra_kind a), write_string (cra_name a) NFS4_OPAQUE_LIMIT,
       encode_Fattr (cra_attrs a)]"

subsection \<open>Layouts\<close>

record LayoutContent =
  lc_layout_type :: LayoutType
  lc_body :: bytes

definition encode_LayoutContent :: "LayoutContent enc" where
  "encode_LayoutContent a =
     seq_ops [encode_LayoutType (lc_layout_type a), write_opaque (lc_body a) NFS4_MAX_IO]"

definition decode_LayoutContent :: "LayoutContent dec" where
  "decode_LayoutContent =
     bnd decode_LayoutType (\<lambda>v_layout_type.
     bnd (read_opaque_vec NFS4_MAX_IO) (\<lambda>v_body.
     ret \<lparr>lc_layout_type = v_layout_type, lc_body = v_body\<rparr>))"

record Layout =
  ly_offset :: u64
  ly_length :: u64
  ly_iomode :: LayoutIomode
  ly_content :: LayoutContent

definition encode_Layout :: "Layout enc" where
  "encode_Layout a =
     seq_ops [write_u64 (ly_offset a), write_u64 (ly_length a), encode_LayoutIomode (ly_iomode a),
       encode_LayoutContent (ly_content a)]"

definition decode_Layout :: "Layout dec" where
  "decode_Layout =
     bnd read_u64 (\<lambda>v_offset.
     bnd read_u64 (\<lambda>v_length.
     bnd decode_LayoutIomode (\<lambda>v_iomode.
     bnd decode_LayoutContent (\<lambda>v_content.
     ret \<lparr>ly_offset = v_offset, ly_length = v_length, ly_iomode = v_iomode, ly_content =
       v_content\<rparr>))))"

record LayoutUpdate =
  lu_layout_type :: LayoutType
  lu_body :: bytes

definition encode_LayoutUpdate :: "LayoutUpdate enc" where
  "encode_LayoutUpdate a =
     seq_ops [encode_LayoutType (lu_layout_type a), write_opaque (lu_body a) NFS4_MAX_IO]"

record GetDeviceInfoArgs =
  gdi_device_id :: DeviceId
  gdi_layout_type :: LayoutType
  gdi_max_count :: u32
  gdi_notify_types :: Bitmap

definition encode_GetDeviceInfoArgs :: "GetDeviceInfoArgs enc" where
  "encode_GetDeviceInfoArgs a =
     seq_ops [encode_DeviceId (gdi_device_id a), encode_LayoutType (gdi_layout_type a),
       write_u32 (gdi_max_count a), encode_Bitmap (gdi_notify_types a)]"

record GetDeviceListArgs =
  gdl_layout_type :: LayoutType
  gdl_max_devices :: u32
  gdl_cookie :: u64
  gdl_cookieverf :: Verifier

definition encode_GetDeviceListArgs :: "GetDeviceListArgs enc" where
  "encode_GetDeviceListArgs a =
     seq_ops [encode_LayoutType (gdl_layout_type a), write_u32 (gdl_max_devices a),
       write_u64 (gdl_cookie a), write_fixed_opaque (gdl_cookieverf a)]"

record LayoutCommitArgs =
  lca_offset :: u64
  lca_length :: u64
  lca_reclaim :: bool
  lca_stateid :: StateId
  lca_last_write_offset :: "u64 option"
  lca_time_modify :: "NfsTime4 option"
  lca_layout_update :: LayoutUpdate

definition encode_LayoutCommitArgs :: "LayoutCommitArgs enc" where
  "encode_LayoutCommitArgs a =
     seq_ops [write_u64 (lca_offset a), write_u64 (lca_length a), write_bool (lca_reclaim a),
       encode_StateId (lca_stateid a), write_optional encode_u64 (lca_last_write_offset a),
       write_optional encode_NfsTime4 (lca_time_modify a),
       encode_LayoutUpdate (lca_layout_update a)]"

record LayoutGetArgs =
  lga_signal_layout_avail :: bool
  lga_layout_type :: LayoutType
  lga_iomode :: LayoutIomode
  lga_offset :: u64
  lga_length :: u64
  lga_min_length :: u64
  lga_stateid :: StateId
  lga_max_count :: u32

definition encode_LayoutGetArgs :: "LayoutGetArgs enc" where
  "encode_LayoutGetArgs a =
     seq_ops [write_bool (lga_signal_layout_avail a), encode_LayoutType (lga_layout_type a),
       encode_LayoutIomode (lga_iomode a), write_u64 (lga_offset a), write_u64 (lga_length a),
       write_u64 (lga_min_length a), encode_StateId (lga_stateid a), write_u32 (lga_max_count a)]"

record LayoutReturnFile =
  lrf_offset :: u64
  lrf_length :: u64
  lrf_stateid :: StateId
  lrf_body :: bytes

definition encode_LayoutReturnFile :: "LayoutReturnFile enc" where
  "encode_LayoutReturnFile a =
     seq_ops [write_u64 (lrf_offset a), write_u64 (lrf_length a), encode_StateId (lrf_stateid a),
       write_opaque (lrf_body a) NFS4_MAX_IO]"

datatype LayoutReturn = ReturnFile LayoutReturnFile | ReturnFsid | ReturnAll

definition encode_LayoutReturn :: "LayoutReturn enc" where
  "encode_LayoutReturn a =
     (case a of
        ReturnFile lrf \<Rightarrow> seq_ops [write_u32 1, encode_LayoutReturnFile lrf]
      | ReturnFsid \<Rightarrow> write_u32 2
      | ReturnAll \<Rightarrow> write_u32 3)"

record LayoutReturnArgs =
  lra_reclaim :: bool
  lra_layout_type :: LayoutType
  lra_iomode :: LayoutIomode
  lra_layout_return :: LayoutReturn

definition encode_LayoutReturnArgs :: "LayoutReturnArgs enc" where
  "encode_LayoutReturnArgs a =
     seq_ops [write_bool (lra_reclaim a), encode_LayoutType (lra_layout_type a),
       encode_LayoutIomode (lra_iomode a), encode_LayoutReturn (lra_layout_return a)]"

record DeviceError =
  de_device_id :: DeviceId
  de_status :: Status
  de_opnum :: u32

definition encode_DeviceError :: "DeviceError enc" where
  "encode_DeviceError a =
     seq_ops [encode_DeviceId (de_device_id a), write_u32 (Status_as_u32 (de_status a)),
       write_u32 (de_opnum a)]"

record LayoutErrorArgs =
  lea_offset :: u64
  lea_length :: u64
  lea_stateid :: StateId
  lea_errors :: "DeviceError list"

definition encode_LayoutErrorArgs :: "LayoutErrorArgs enc" where
  "encode_LayoutErrorArgs a =
     seq_ops [write_u64 (lea_offset a), write_u64 (lea_length a), encode_StateId (lea_stateid a),
       write_array encode_DeviceError (lea_errors a) NFS4_MAX_LAYOUT_ERRORS]"

record IoInfo =
  ioi_count :: u64
  ioi_bytes :: u64

definition encode_IoInfo :: "IoInfo enc" where
  "encode_IoInfo a =
     seq_ops [write_u64 (ioi_count a), write_u64 (ioi_bytes a)]"

record LayoutStatsArgs =
  lsa_offset :: u64
  lsa_length :: u64
  lsa_stateid :: StateId
  lsa_read :: IoInfo
  lsa_write :: IoInfo
  lsa_device_id :: DeviceId
  lsa_layout_update :: LayoutUpdate

definition encode_LayoutStatsArgs :: "LayoutStatsArgs enc" where
  "encode_LayoutStatsArgs a =
     seq_ops [write_u64 (lsa_offset a), write_u64 (lsa_length a), encode_StateId (lsa_stateid a),
       encode_IoInfo (lsa_read a), encode_IoInfo (lsa_write a), encode_DeviceId (lsa_device_id a),
       encode_LayoutUpdate (lsa_layout_update a)]"

end
