(* ===== verification/V4_Results.thy ===== *)
theory V4_Results
  imports V4_Args
begin

text \<open>
  The result structures of the NFSv4 operations (\<open>src/v4/proto.rs\<close>) with their decoders, up to the decoders
  of single fields that the client skips.
\<close>

definition NFS4_MAX_SECINFO_FLAVORS :: usize where "NFS4_MAX_SECINFO_FLAVORS = 128"
definition NFS4_MAX_READ_PLUS_SEGMENTS :: usize where "NFS4_MAX_READ_PLUS_SEGMENTS = 1000000"
definition NFS4_MAX_DEVICEIDS :: usize where "NFS4_MAX_DEVICEIDS = 1000000"
definition NFS4_MAX_LAYOUTS :: usize where "NFS4_MAX_LAYOUTS = 1000000"
definition NFS4_MAX_STATE_PROTECT_HANDLES :: usize where "NFS4_MAX_STATE_PROTECT_HANDLES = 1024"

subsection \<open>Clients and sessions\<close>

record SetClientIdResult =
  scr_client_id :: u64
  scr_verifier :: Verifier

record ExchangeIdResult =
  eir_client_id :: u64
  eir_sequence_id :: u32
  eir_flags :: u32

record CreateSessionResult =
  csr_session_id :: SessionId
  csr_sequence_id :: u32
  csr_flags :: u32
  csr_fore_channel_attrs :: ChannelAttrs
  csr_back_channel_attrs :: ChannelAttrs

record SequenceResult =
  sr_session_id :: SessionId
  sr_sequence_id :: u32
  sr_slot_id :: u32
  sr_highest_slot_id :: u32
  sr_target_highest_slot_id :: u32
  sr_status_flags :: u32

record BindConnToSessionResult =
  bcr_session_id :: SessionId
  bcr_direction :: ChannelDirFromServer
  bcr_use_conn_in_rdma_mode :: bool

record SetSsvResult =
  ssr_digest :: bytes

subsection \<open>Security flavours and access\<close>

datatype SecInfo = FlavorNone | FlavorSys | FlavorGss bytes u32 RpcGssService | FlavorUnknown u32

definition decode_SecInfo :: "SecInfo dec" where
  "decode_SecInfo =
     bnd read_u32 (\<lambda>flavor.
     if flavor = AUTH_NONE then ret FlavorNone
     else if flavor = AUTH_SYS then ret FlavorSys
     else if flavor = RPCSEC_GSS then
       bnd (read_opaque_vec NFS4_OPAQUE_LIMIT) (\<lambda>oid.
       bnd read_u32 (\<lambda>qop.
       bnd read_u32 (\<lambda>service. ret (FlavorGss oid qop (RpcGssService_from_u32 service)))))
     else ret (FlavorUnknown flavor))"

record AccessResult4 =
  ar4_supported :: u32
  ar4_access :: u32

subsection \<open>Delegations\<close>

record NfsAce =
  ace_ace_type :: u32
  ace_flag :: u32
  ace_access_mask :: u32
  ace_who :: string

definition decode_NfsAce :: "NfsAce dec" where
  "decode_NfsAce =
     bnd read_u32 (\<lambda>v_ace_type.
     bnd read_u32 (\<lambda>v_flag.
     bnd read_u32 (\<lambda>v_access_mask.
     bnd (read_string NFS4_OPAQUE_LIMIT) (\<lambda>v_who.
     ret \<lparr>ace_ace_type = v_ace_type, ace_flag = v_flag, ace_access_mask = v_access_mask, ace_who =
       v_who\<rparr>))))"

datatype NfsSpaceLimit = LimitSize u64 | LimitBlocks u32 u32

definition decode_NfsSpaceLimit :: "NfsSpaceLimit dec" where
  "decode_NfsSpaceLimit =
     bnd read_u32 (\<lambda>v.
     if v = 1 then bnd read_u64 (\<lambda>n. ret (LimitSize n))
     else if v = 2 then bnd read_u32 (\<lambda>n. bnd read_u32 (\<lambda>b. ret (LimitBlocks n b)))
     else fail (InvalidDiscriminant ''limit_by4'' v))"

record OpenReadDelegation =
  ord_stateid :: StateId
  ord_recall :: bool
  ord_permissions :: NfsAce

record OpenWriteDelegation =
  owd_stateid :: StateId
  owd_recall :: bool
  owd_space_limit :: NfsSpaceLimit
  owd_permissions :: NfsAce

datatype WhyNoDelegation = NotWanted | Contention | WhyResource | NotSupportedFileType | WriteDelegationNotSupportedFileType | NotSupportedUpgrade | NotSupportedDowngrade | Cancelled | IsDirectory | WhyUnknown u32

definition WhyNoDelegation_from_u32 :: "u32 \<Rightarrow> WhyNoDelegation" where
  "WhyNoDelegation_from_u32 v =
     (if v = 0 then WhyNoDelegation.NotWanted else if v = 1 then WhyNoDelegation.Contention else if v =
      2 then WhyNoDelegation.WhyResource else if v = 3 then WhyNoDelegation.NotSupportedFileType
      else if v = 4 then WhyNoDelegation.WriteDelegationNotSupportedFileType else if v = 5 then
      WhyNoDelegation.NotSupportedUpgrade else if v = 6 then WhyNoDelegation.NotSupportedDowngrade
      else if v = 7 then WhyNoDelegation.Cancelled else if v = 8 then WhyNoDelegation.IsDirectory
      else WhyUnknown v)"

record OpenNoneDelegation =
  ond_why :: WhyNoDelegation
  ond_server_will_push_deleg :: "bool option"
  ond_server_will_signal_avail :: "bool option"

datatype OpenDelegation =
    NoDelegation | ReadDelegation OpenReadDelegation | WriteDelegation OpenWriteDelegation
  | NoDelegationExt OpenNoneDelegation

definition decode_OpenDelegation :: "OpenDelegation dec" where
  "decode_OpenDelegation =
     bnd read_u32 (\<lambda>v.
     if v = 0 then ret NoDelegation
     else if v = 1 then
       bnd decode_StateId (\<lambda>stateid. bnd decode_bool (\<lambda>recall. bnd decode_NfsAce (\<lambda>permissions.
       ret (ReadDelegation \<lparr>ord_stateid = stateid, ord_recall = recall, ord_permissions = permissions\<rparr>))))
     else if v = 2 then
       bnd decode_StateId (\<lambda>stateid. bnd decode_bool (\<lambda>recall. bnd decode_NfsSpaceLimit (\<lambda>space_limit.
       bnd decode_NfsAce (\<lambda>permissions.
       ret (WriteDelegation \<lparr>owd_stateid = stateid, owd_recall = recall, owd_space_limit = space_limit,
         owd_permissions = permissions\<rparr>)))))
     else if v = 3 then
       bnd read_u32 (\<lambda>raw.
       let why = WhyNoDelegation_from_u32 raw in
       bnd (if why = Contention then bnd decode_bool (\<lambda>b. ret (Some b, None))
            else if why = WhyResource then bnd decode_bool (\<lambda>b. ret (None, Some b))
            else ret (None, None)) (\<lambda>(push, signal).
       ret (NoDelegationExt \<lparr>ond_why = why, ond_server_will_push_deleg = push,
         ond_server_will_signal_avail = signal\<rparr>)))
     else fail (InvalidDiscriminant ''open_delegation_type4'' v))"

record OpenResult =
  opr_stateid :: StateId
  opr_result_flags :: u32
  opr_attrset :: Bitmap
  opr_delegation :: OpenDelegation

record LockDenied =
  ld_offset :: u64
  ld_length :: u64
  ld_lock_type :: LockType
  ld_owner :: LockOwner

text \<open>A discriminant that has to be one of an enumeration.\<close>

definition read_enum :: "string \<Rightarrow> (u32 \<Rightarrow> 'a option) \<Rightarrow> 'a dec" where
  "read_enum type_name from_u32 =
     bnd read_u32 (\<lambda>raw. of_result (ok_or (from_u32 raw) (InvalidDiscriminant type_name raw)))"

definition decode_LockDenied :: "LockDenied dec" where
  "decode_LockDenied =
     bnd read_u64 (\<lambda>offset.
     bnd read_u64 (\<lambda>len.
     bnd (read_enum ''nfs_lock_type4'' LockType_from_u32) (\<lambda>lock_type.
     bnd decode_LockOwner (\<lambda>owner.
     ret \<lparr>ld_offset = offset, ld_length = len, ld_lock_type = lock_type, ld_owner = owner\<rparr>))))"

datatype GetDirDelegationResult =
    Granted Verifier StateId Bitmap Bitmap Bitmap | Unavailable bool

subsection \<open>Data\<close>

record WriteResult4 =
  wr4_count :: u32
  wr4_committed :: StableHow
  wr4_verifier :: Verifier

record CommitResult4 =
  cr4_verifier :: Verifier

record SeekResult =
  skr_eof :: bool
  skr_offset :: u64

definition found_offset :: "SeekResult \<Rightarrow> u64 option" where
  "found_offset r = (if skr_eof r then None else Some (skr_offset r))"

datatype ReadPlusContent = PlusData u64 bytes | PlusHole u64 u64

definition decode_ReadPlusContent :: "ReadPlusContent dec" where
  "decode_ReadPlusContent =
     bnd read_u32 (\<lambda>v.
     if v = 0 then bnd read_u64 (\<lambda>offset. bnd (read_opaque_vec NFS4_MAX_IO) (\<lambda>data. ret (PlusData offset data)))
     else if v = 1 then bnd read_u64 (\<lambda>offset. bnd read_u64 (\<lambda>len. ret (PlusHole offset len)))
     else fail (InvalidDiscriminant ''data_content4'' v))"

record ReadPlusResult =
  rpr_eof :: bool
  rpr_contents :: "ReadPlusContent list"

record IoAdviseResult =
  iar_hints :: Bitmap

record OffloadStatusResult =
  osr_count :: u64
  osr_complete :: "Status option"

record WriteResponse =
  wrp_callback_id :: "StateId option"
  wrp_count :: u64
  wrp_committed :: StableHow
  wrp_verifier :: Verifier

definition decode_WriteResponse :: "WriteResponse dec" where
  "decode_WriteResponse =
     bnd (read_array decode_StateId 1) (\<lambda>callback_ids.
     bnd read_u64 (\<lambda>count.
     bnd (read_enum ''stable_how4'' StableHow4_from_u32) (\<lambda>committed.
     bnd decode_verifier (\<lambda>verifier.
     ret \<lparr>wrp_callback_id = (case callback_ids of [] \<Rightarrow> None | callback # _ \<Rightarrow> Some callback), wrp_count = count,
       wrp_committed = committed, wrp_verifier = verifier\<rparr>))))"

record CopyRequirements =
  crq_consecutive :: bool
  crq_synchronous :: bool

definition decode_CopyRequirements :: "CopyRequirements dec" where
  "decode_CopyRequirements =
     bnd decode_bool (\<lambda>v_consecutive.
     bnd decode_bool (\<lambda>v_synchronous.
     ret \<lparr>crq_consecutive = v_consecutive, crq_synchronous = v_synchronous\<rparr>))"

record CopyResult =
  cpr_response :: "WriteResponse option"
  cpr_requirements :: "CopyRequirements option"

record CopyNotifyResult =
  cnr_lease_time :: NfsTime4
  cnr_stateid :: StateId
  cnr_source_servers :: "NetLoc list"

record DirEntry4 =
  d4_cookie :: u64
  d4_name :: string
  d4_attrs :: Fattr

subsection \<open>Layouts\<close>

record DeviceAddr =
  da_layout_type :: LayoutType
  da_body :: bytes

definition decode_DeviceAddr :: "DeviceAddr dec" where
  "decode_DeviceAddr =
     bnd decode_LayoutType (\<lambda>v_layout_type.
     bnd (read_opaque_vec NFS4_MAX_IO) (\<lambda>v_body.
     ret \<lparr>da_layout_type = v_layout_type, da_body = v_body\<rparr>))"

record GetDeviceInfoResult =
  gir_device_addr :: DeviceAddr
  gir_notification :: Bitmap

record GetDeviceListResult =
  glr_cookie :: u64
  glr_cookieverf :: Verifier
  glr_device_ids :: "DeviceId list"
  glr_eof :: bool

record LayoutCommitResult =
  lcr_new_size :: "u64 option"

record LayoutGetResult =
  lgr_return_on_close :: bool
  lgr_stateid :: StateId
  lgr_layouts :: "Layout list"

record LayoutReturnResult =
  lrr_stateid :: "StateId option"

subsection \<open>Skipped fields\<close>

definition skip_change_info :: "unit dec" where
  "skip_change_info = bnd read_bool (\<lambda>_. bnd read_u64 (\<lambda>_. bnd read_u64 (\<lambda>_. ret ())))"

primrec skip_n :: "nat \<Rightarrow> 'a dec \<Rightarrow> unit dec" where
  "skip_n 0 dec = ret ()"
| "skip_n (Suc n) dec = bnd dec (\<lambda>_. skip_n n dec)"

definition skip_state_protect_reply :: "unit dec" where
  "skip_state_protect_reply =
     bnd read_u32 (\<lambda>v.
     if v = 0 then ret ()
     else if v = 1 then bnd decode_Bitmap (\<lambda>_. bnd decode_Bitmap (\<lambda>_. ret ()))
     else if v = 2 then
       bnd decode_Bitmap (\<lambda>_. bnd decode_Bitmap (\<lambda>_.
       bnd read_u32 (\<lambda>_. bnd read_u32 (\<lambda>_. bnd read_u32 (\<lambda>_. bnd read_u32 (\<lambda>_.
       bnd read_u32 (\<lambda>handle_count.
       if unat handle_count > NFS4_MAX_STATE_PROTECT_HANDLES
       then fail (LengthLimitExceeded (unat handle_count) NFS4_MAX_STATE_PROTECT_HANDLES)
       else skip_n (unat handle_count) (read_opaque NFS4_OPAQUE_LIMIT))))))))
     else fail (InvalidDiscriminant ''state_protect_how4'' v))"

definition skip_server_owner :: "unit dec" where
  "skip_server_owner = bnd read_u64 (\<lambda>_. bnd (read_opaque NFS4_OPAQUE_LIMIT) (\<lambda>_. ret ()))"

definition skip_impl_ids :: "unit dec" where
  "skip_impl_ids =
     bnd read_u32 (\<lambda>count.
     if unat count > 1 then fail (LengthLimitExceeded (unat count) 1)
     else
       skip_n (unat count)
         (bnd (read_opaque NFS4_OPAQUE_LIMIT) (\<lambda>_.
          bnd (read_opaque NFS4_OPAQUE_LIMIT) (\<lambda>_.
          bnd read_i64 (\<lambda>_. bnd read_u32 (\<lambda>_. ret ()))))))"

end
