(* ===== verification/V4_Types.thy ===== *)
theory V4_Types
  imports V4_Results
begin

text \<open>
  The operations and results of a COMPOUND (\<open>src/v4/proto.rs\<close>) with their encoder and decoder. An \<open>OpCode\<close>,
  an enumeration with explicit numbers, is its number. The operations and their results are those of the
  source, in groups, because a single datatype of seventy constructors is out of reach.
\<close>

subsection \<open>Operation codes\<close>

type_synonym OpCode = u32

definition OpCode_names :: "(OpCode \<times> string) list" where
  "OpCode_names = [
     (3, ''ACCESS''), (4, ''CLOSE''), (5, ''COMMIT''), (6, ''CREATE''), (7, ''DELEGPURGE'')
     , (8, ''DELEGRETURN''), (9, ''GETATTR''), (10, ''GETFH''), (11, ''LINK''), (12, ''LOCK'')
     , (13, ''LOCKT''), (14, ''LOCKU''), (15, ''LOOKUP''), (16, ''LOOKUPP''), (17, ''NVERIFY'')
     , (18, ''OPEN''), (19, ''OPENATTR''), (20, ''OPEN_CONFIRM''), (21, ''OPEN_DOWNGRADE'')
     , (22, ''PUTFH''), (23, ''PUTPUBFH''), (24, ''PUTROOTFH''), (25, ''READ''), (26, ''READDIR'')
     , (27, ''READLINK''), (28, ''REMOVE''), (29, ''RENAME''), (30, ''RENEW''), (31, ''RESTOREFH'')
     , (32, ''SAVEFH''), (33, ''SECINFO''), (34, ''SETATTR''), (35, ''SETCLIENTID'')
     , (36, ''SETCLIENTID_CONFIRM''), (37, ''VERIFY''), (38, ''WRITE''), (39, ''RELEASE_LOCKOWNER'')
     , (40, ''BACKCHANNEL_CTL''), (41, ''BIND_CONN_TO_SESSION''), (42, ''EXCHANGE_ID'')
     , (43, ''CREATE_SESSION''), (44, ''DESTROY_SESSION''), (45, ''FREE_STATEID'')
     , (46, ''GET_DIR_DELEGATION''), (47, ''GETDEVICEINFO''), (48, ''GETDEVICELIST'')
     , (49, ''LAYOUTCOMMIT''), (50, ''LAYOUTGET''), (51, ''LAYOUTRETURN'')
     , (52, ''SECINFO_NO_NAME''), (53, ''SEQUENCE''), (54, ''SET_SSV''), (55, ''TEST_STATEID'')
     , (56, ''WANT_DELEGATION''), (57, ''DESTROY_CLIENTID''), (58, ''RECLAIM_COMPLETE'')
     , (59, ''ALLOCATE''), (60, ''COPY''), (61, ''COPY_NOTIFY''), (62, ''DEALLOCATE'')
     , (63, ''IO_ADVISE''), (64, ''LAYOUTERROR''), (65, ''LAYOUTSTATS''), (66, ''OFFLOAD_CANCEL'')
     , (67, ''OFFLOAD_STATUS''), (68, ''READ_PLUS''), (69, ''SEEK''), (70, ''WRITE_SAME'')
     , (71, ''CLONE''), (10044, ''ILLEGAL'')]"

definition OpCode_from_u32 :: "u32 \<Rightarrow> OpCode option" where
  "OpCode_from_u32 value = (if value \<in> fst ` set OpCode_names then Some value else None)"

definition OpCode_as_u32 :: "OpCode \<Rightarrow> u32" where
  "OpCode_as_u32 op = op"

definition OpCode_name :: "OpCode \<Rightarrow> string" where
  "OpCode_name op = (case map_of OpCode_names op of Some name \<Rightarrow> name | None \<Rightarrow> [])"

definition Illegal :: OpCode where "Illegal = 10044"

subsection \<open>Operations\<close>

datatype handle_op =
    PutRootFh | PutPubFh | PutFh FileHandle4 | Lookup string | Lookupp | GetFh | SaveFh | RestoreFh

datatype name_op =
    Access u32 | SecInfo string | SecInfoNoName SecInfoStyle | NVerify Fattr | Verify Fattr | GetAttr Bitmap
    | SetAttr StateId Fattr | ReadDir u64 Verifier u32 u32 Bitmap | ReadLink | Remove string | Link string
    | Rename string string | Create CreateArgs4 | OpenAttr bool

datatype data_op =
    Read StateId u64 u32 | Write StateId u64 StableHow bytes | Commit u64 u32 | Allocate StateId u64 u64
    | Deallocate StateId u64 u64 | IoAdvise IoAdviseArgs | Copy CopyArgs | CopyNotify CopyNotifyArgs
    | OffloadCancel StateId | OffloadStatus StateId | ReadPlus ReadPlusArgs | Seek StateId u64 SeekContent
    | Clone CloneArgs | WriteSame WriteSameArgs

datatype state_op =
    Open OpenArgs | OpenConfirm StateId u32 | Close u32 StateId | Lock LockArgs | LockTest LockTestArgs
    | LockUnlock LockUnlockArgs | OpenDowngrade u32 StateId u32 u32 | FreeStateId StateId
    | TestStateIds "StateId list" | DelegPurge u64 | DelegReturn StateId
    | GetDirDelegation GetDirDelegationArgs | WantDelegation WantDelegationArgs | Renew u64
    | ReleaseLockOwner LockOwner

datatype session_op =
    SetClientId SetClientIdArgs | SetClientIdConfirm SetClientIdConfirmArgs | ExchangeId ExchangeIdArgs
    | CreateSession CreateSessionArgs | BackchannelCtl BackchannelCtlArgs
    | BindConnToSession BindConnToSessionArgs | DestroySession SessionId | DestroyClientId u64
    | ReclaimComplete bool | Sequence SequenceArgs | SetSsv SetSsvArgs

datatype layout_op =
    GetDeviceInfo GetDeviceInfoArgs | GetDeviceList GetDeviceListArgs | LayoutCommit LayoutCommitArgs
    | LayoutGet LayoutGetArgs | LayoutReturn LayoutReturnArgs | LayoutError LayoutErrorArgs
    | LayoutStats LayoutStatsArgs

datatype Operation =
    OpHandle handle_op
  | OpName name_op
  | OpData data_op
  | OpState state_op
  | OpSession session_op
  | OpLayout layout_op

primrec handle_op_code :: "handle_op \<Rightarrow> OpCode" where
  "handle_op_code handle_op.PutRootFh = 24"
| "handle_op_code handle_op.PutPubFh = 23"
| "handle_op_code (handle_op.PutFh a0) = 22"
| "handle_op_code (handle_op.Lookup a0) = 15"
| "handle_op_code handle_op.Lookupp = 16"
| "handle_op_code handle_op.GetFh = 10"
| "handle_op_code handle_op.SaveFh = 32"
| "handle_op_code handle_op.RestoreFh = 31"

primrec name_op_code :: "name_op \<Rightarrow> OpCode" where
  "name_op_code (name_op.Access a0) = 3"
| "name_op_code (name_op.SecInfo a0) = 33"
| "name_op_code (name_op.SecInfoNoName a0) = 52"
| "name_op_code (name_op.NVerify a0) = 17"
| "name_op_code (name_op.Verify a0) = 37"
| "name_op_code (name_op.GetAttr a0) = 9"
| "name_op_code (name_op.SetAttr a0 a1) = 34"
| "name_op_code (name_op.ReadDir a0 a1 a2 a3 a4) = 26"
| "name_op_code name_op.ReadLink = 27"
| "name_op_code (name_op.Remove a0) = 28"
| "name_op_code (name_op.Link a0) = 11"
| "name_op_code (name_op.Rename a0 a1) = 29"
| "name_op_code (name_op.Create a0) = 6"
| "name_op_code (name_op.OpenAttr a0) = 19"

primrec data_op_code :: "data_op \<Rightarrow> OpCode" where
  "data_op_code (data_op.Read a0 a1 a2) = 25"
| "data_op_code (data_op.Write a0 a1 a2 a3) = 38"
| "data_op_code (data_op.Commit a0 a1) = 5"
| "data_op_code (data_op.Allocate a0 a1 a2) = 59"
| "data_op_code (data_op.Deallocate a0 a1 a2) = 62"
| "data_op_code (data_op.IoAdvise a0) = 63"
| "data_op_code (data_op.Copy a0) = 60"
| "data_op_code (data_op.CopyNotify a0) = 61"
| "data_op_code (data_op.OffloadCancel a0) = 66"
| "data_op_code (data_op.OffloadStatus a0) = 67"
| "data_op_code (data_op.ReadPlus a0) = 68"
| "data_op_code (data_op.Seek a0 a1 a2) = 69"
| "data_op_code (data_op.Clone a0) = 71"
| "data_op_code (data_op.WriteSame a0) = 70"

primrec state_op_code :: "state_op \<Rightarrow> OpCode" where
  "state_op_code (state_op.Open a0) = 18"
| "state_op_code (state_op.OpenConfirm a0 a1) = 20"
| "state_op_code (state_op.Close a0 a1) = 4"
| "state_op_code (state_op.Lock a0) = 12"
| "state_op_code (state_op.LockTest a0) = 13"
| "state_op_code (state_op.LockUnlock a0) = 14"
| "state_op_code (state_op.OpenDowngrade a0 a1 a2 a3) = 21"
| "state_op_code (state_op.FreeStateId a0) = 45"
| "state_op_code (state_op.TestStateIds a0) = 55"
| "state_op_code (state_op.DelegPurge a0) = 7"
| "state_op_code (state_op.DelegReturn a0) = 8"
| "state_op_code (state_op.GetDirDelegation a0) = 46"
| "state_op_code (state_op.WantDelegation a0) = 56"
| "state_op_code (state_op.Renew a0) = 30"
| "state_op_code (state_op.ReleaseLockOwner a0) = 39"

primrec session_op_code :: "session_op \<Rightarrow> OpCode" where
  "session_op_code (session_op.SetClientId a0) = 35"
| "session_op_code (session_op.SetClientIdConfirm a0) = 36"
| "session_op_code (session_op.ExchangeId a0) = 42"
| "session_op_code (session_op.CreateSession a0) = 43"
| "session_op_code (session_op.BackchannelCtl a0) = 40"
| "session_op_code (session_op.BindConnToSession a0) = 41"
| "session_op_code (session_op.DestroySession a0) = 44"
| "session_op_code (session_op.DestroyClientId a0) = 57"
| "session_op_code (session_op.ReclaimComplete a0) = 58"
| "session_op_code (session_op.Sequence a0) = 53"
| "session_op_code (session_op.SetSsv a0) = 54"

primrec layout_op_code :: "layout_op \<Rightarrow> OpCode" where
  "layout_op_code (layout_op.GetDeviceInfo a0) = 47"
| "layout_op_code (layout_op.GetDeviceList a0) = 48"
| "layout_op_code (layout_op.LayoutCommit a0) = 49"
| "layout_op_code (layout_op.LayoutGet a0) = 50"
| "layout_op_code (layout_op.LayoutReturn a0) = 51"
| "layout_op_code (layout_op.LayoutError a0) = 64"
| "layout_op_code (layout_op.LayoutStats a0) = 65"

primrec Operation_op_code :: "Operation \<Rightarrow> OpCode" where
  "Operation_op_code (OpHandle operation) = handle_op_code operation"
| "Operation_op_code (OpName operation) = name_op_code operation"
| "Operation_op_code (OpData operation) = data_op_code operation"
| "Operation_op_code (OpState operation) = state_op_code operation"
| "Operation_op_code (OpSession operation) = session_op_code operation"
| "Operation_op_code (OpLayout operation) = layout_op_code operation"

subsection \<open>Encoding\<close>

definition encode_handle_op :: "handle_op enc" where
  "encode_handle_op operation =
     (case operation of
        handle_op.PutFh handle \<Rightarrow> encode_FileHandle4 handle
      | handle_op.Lookup component \<Rightarrow> write_string component NFS4_OPAQUE_LIMIT
      | _ \<Rightarrow> ret ())"

definition encode_name_op :: "name_op enc" where
  "encode_name_op operation =
     (case operation of
        name_op.Access access \<Rightarrow> write_u32 access
      | name_op.SecInfo name \<Rightarrow> write_string name NFS4_OPAQUE_LIMIT
      | name_op.SecInfoNoName style \<Rightarrow> write_u32 (SecInfoStyle_as_u32 style)
      | name_op.NVerify attrs \<Rightarrow> encode_Fattr attrs
      | name_op.Verify attrs \<Rightarrow> encode_Fattr attrs
      | name_op.GetAttr bitmap \<Rightarrow> encode_Bitmap bitmap
      | name_op.SetAttr stateid attrs \<Rightarrow> seq_ops [encode_StateId stateid, encode_Fattr attrs]
      | name_op.ReadDir cookie cookieverf dircount maxcount attr_request \<Rightarrow>
          seq_ops [write_u64 cookie, write_fixed_opaque cookieverf, write_u32 dircount, write_u32 maxcount,
            encode_Bitmap attr_request]
      | name_op.ReadLink \<Rightarrow> ret ()
      | name_op.Remove target \<Rightarrow> write_string target NFS4_OPAQUE_LIMIT
      | name_op.Link target \<Rightarrow> write_string target NFS4_OPAQUE_LIMIT
      | name_op.Rename oldname newname \<Rightarrow>
          seq_ops [write_string oldname NFS4_OPAQUE_LIMIT, write_string newname NFS4_OPAQUE_LIMIT]
      | name_op.Create args \<Rightarrow> encode_CreateArgs4 args
      | name_op.OpenAttr create_dir \<Rightarrow> write_bool create_dir)"

definition encode_data_op :: "data_op enc" where
  "encode_data_op operation =
     (case operation of
        data_op.Read stateid offset count \<Rightarrow> seq_ops [encode_StateId stateid, write_u64 offset, write_u32 count]
      | data_op.Write stateid offset how data \<Rightarrow>
          seq_ops [encode_StateId stateid, write_u64 offset, write_u32 (StableHow4_as_u32 how),
            write_opaque data NFS4_MAX_IO]
      | data_op.Commit offset count \<Rightarrow> seq_ops [write_u64 offset, write_u32 count]
      | data_op.Allocate stateid offset len \<Rightarrow>
          seq_ops [encode_StateId stateid, write_u64 offset, write_u64 len]
      | data_op.Deallocate stateid offset len \<Rightarrow>
          seq_ops [encode_StateId stateid, write_u64 offset, write_u64 len]
      | data_op.IoAdvise args \<Rightarrow> encode_IoAdviseArgs args
      | data_op.Copy args \<Rightarrow> encode_CopyArgs args
      | data_op.CopyNotify args \<Rightarrow> encode_CopyNotifyArgs args
      | data_op.OffloadCancel stateid \<Rightarrow> encode_StateId stateid
      | data_op.OffloadStatus stateid \<Rightarrow> encode_StateId stateid
      | data_op.ReadPlus args \<Rightarrow> encode_ReadPlusArgs args
      | data_op.Seek stateid offset what \<Rightarrow>
          seq_ops [encode_StateId stateid, write_u64 offset, write_u32 (SeekContent_as_u32 what)]
      | data_op.Clone args \<Rightarrow> encode_CloneArgs args
      | data_op.WriteSame args \<Rightarrow> encode_WriteSameArgs args)"

definition encode_state_op :: "state_op enc" where
  "encode_state_op operation =
     (case operation of
        state_op.Open args \<Rightarrow> encode_OpenArgs args
      | state_op.OpenConfirm stateid seqid \<Rightarrow> seq_ops [encode_StateId stateid, write_u32 seqid]
      | state_op.Close seqid stateid \<Rightarrow> seq_ops [write_u32 seqid, encode_StateId stateid]
      | state_op.Lock args \<Rightarrow> encode_LockArgs args
      | state_op.LockTest args \<Rightarrow> encode_LockTestArgs args
      | state_op.LockUnlock args \<Rightarrow> encode_LockUnlockArgs args
      | state_op.OpenDowngrade seqid stateid share_access share_deny \<Rightarrow>
          seq_ops [encode_StateId stateid, write_u32 seqid, write_u32 share_access, write_u32 share_deny]
      | state_op.FreeStateId stateid \<Rightarrow> encode_StateId stateid
      | state_op.TestStateIds stateids \<Rightarrow> write_array encode_StateId stateids NFS4_MAX_OPS
      | state_op.DelegPurge client_id \<Rightarrow> write_u64 client_id
      | state_op.DelegReturn stateid \<Rightarrow> encode_StateId stateid
      | state_op.GetDirDelegation args \<Rightarrow> encode_GetDirDelegationArgs args
      | state_op.WantDelegation args \<Rightarrow> encode_WantDelegationArgs args
      | state_op.Renew client_id \<Rightarrow> write_u64 client_id
      | state_op.ReleaseLockOwner owner \<Rightarrow> encode_LockOwner owner)"

definition encode_session_op :: "session_op enc" where
  "encode_session_op operation =
     (case operation of
        session_op.SetClientId args \<Rightarrow> encode_SetClientIdArgs args
      | session_op.SetClientIdConfirm args \<Rightarrow> encode_SetClientIdConfirmArgs args
      | session_op.ExchangeId args \<Rightarrow> encode_ExchangeIdArgs args
      | session_op.CreateSession args \<Rightarrow> encode_CreateSessionArgs args
      | session_op.BackchannelCtl args \<Rightarrow> encode_BackchannelCtlArgs args
      | session_op.BindConnToSession args \<Rightarrow> encode_BindConnToSessionArgs args
      | session_op.DestroySession session_id \<Rightarrow> write_fixed_opaque session_id
      | session_op.DestroyClientId client_id \<Rightarrow> write_u64 client_id
      | session_op.ReclaimComplete one_fs \<Rightarrow> write_bool one_fs
      | session_op.Sequence args \<Rightarrow> encode_SequenceArgs args
      | session_op.SetSsv args \<Rightarrow> encode_SetSsvArgs args)"

definition encode_layout_op :: "layout_op enc" where
  "encode_layout_op operation =
     (case operation of
        layout_op.GetDeviceInfo args \<Rightarrow> encode_GetDeviceInfoArgs args
      | layout_op.GetDeviceList args \<Rightarrow> encode_GetDeviceListArgs args
      | layout_op.LayoutCommit args \<Rightarrow> encode_LayoutCommitArgs args
      | layout_op.LayoutGet args \<Rightarrow> encode_LayoutGetArgs args
      | layout_op.LayoutReturn args \<Rightarrow> encode_LayoutReturnArgs args
      | layout_op.LayoutError args \<Rightarrow> encode_LayoutErrorArgs args
      | layout_op.LayoutStats args \<Rightarrow> encode_LayoutStatsArgs args)"

definition encode_operation_args :: "Operation enc" where
  "encode_operation_args operation =
     (case operation of
        OpHandle op \<Rightarrow> encode_handle_op op
      | OpName op \<Rightarrow> encode_name_op op
      | OpData op \<Rightarrow> encode_data_op op
      | OpState op \<Rightarrow> encode_state_op op
      | OpSession op \<Rightarrow> encode_session_op op
      | OpLayout op \<Rightarrow> encode_layout_op op)"

definition encode_Operation :: "Operation enc" where
  "encode_Operation operation =
     seq_ops [write_u32 (OpCode_as_u32 (Operation_op_code operation)), encode_operation_args operation]"

record CompoundArgs =
  cpd_tag :: string
  cpd_minor_version :: u32
  cpd_operations :: "Operation list"

definition encode_CompoundArgs :: "CompoundArgs enc" where
  "encode_CompoundArgs a =
     seq_ops [write_string (cpd_tag a) NFS4_OPAQUE_LIMIT, write_u32 (cpd_minor_version a),
       write_array encode_Operation (cpd_operations a) NFS4_MAX_OPS]"

subsection \<open>Results\<close>

datatype session_res =
    SetClientId Status "SetClientIdResult option" "NetAddr option" | ExchangeId Status "ExchangeIdResult option"
    | CreateSession Status "CreateSessionResult option"
    | BindConnToSession Status "BindConnToSessionResult option" | Sequence Status "SequenceResult option"
    | StatusOnly OpCode Status | SetSsv Status "SetSsvResult option"

datatype state_res =
    Open Status "OpenResult option" | OpenConfirm Status "StateId option" | Close Status "StateId option"
    | Lock Status "StateId option" "LockDenied option" | LockTest Status "LockDenied option"
    | LockUnlock Status "StateId option" | OpenDowngrade Status "StateId option"
    | TestStateIds Status "Status list" | GetDirDelegation Status "GetDirDelegationResult option"
    | WantDelegation Status "OpenDelegation option"

datatype layout_res =
    GetDeviceInfo Status "GetDeviceInfoResult option" "u32 option"
    | GetDeviceList Status "GetDeviceListResult option" | LayoutCommit Status "LayoutCommitResult option"
    | LayoutGet Status "LayoutGetResult option" "bool option" | LayoutReturn Status "LayoutReturnResult option"

datatype name_res =
    GetFh Status "FileHandle4 option" | GetAttr Status "Fattr option" | Access Status "AccessResult4 option"
    | SecInfo OpCode Status "SecInfo list" | ReadDir Status Verifier "DirEntry4 list" bool
    | ReadLink Status "string option"

datatype data_res =
    Read Status bool bytes | Write Status "WriteResult4 option" | Commit Status "CommitResult4 option"
    | IoAdvise Status "IoAdviseResult option" | Copy Status "CopyResult option"
    | CopyNotify Status "CopyNotifyResult option" | OffloadStatus Status "OffloadStatusResult option"
    | ReadPlus Status "ReadPlusResult option" | Seek Status "SeekResult option"
    | WriteSame Status "WriteResponse option"

datatype OperationResult =
    ResSession session_res
  | ResState state_res
  | ResLayout layout_res
  | ResName name_res
  | ResData data_res

primrec session_res_code :: "session_res \<Rightarrow> OpCode" where
  "session_res_code (session_res.SetClientId status a1 a2) = 35"
| "session_res_code (session_res.ExchangeId status a1) = 42"
| "session_res_code (session_res.CreateSession status a1) = 43"
| "session_res_code (session_res.BindConnToSession status a1) = 41"
| "session_res_code (session_res.Sequence status a1) = 53"
| "session_res_code (session_res.StatusOnly op status) = op"
| "session_res_code (session_res.SetSsv status a1) = 54"

primrec session_res_status :: "session_res \<Rightarrow> Status" where
  "session_res_status (session_res.SetClientId status a1 a2) = status"
| "session_res_status (session_res.ExchangeId status a1) = status"
| "session_res_status (session_res.CreateSession status a1) = status"
| "session_res_status (session_res.BindConnToSession status a1) = status"
| "session_res_status (session_res.Sequence status a1) = status"
| "session_res_status (session_res.StatusOnly op status) = status"
| "session_res_status (session_res.SetSsv status a1) = status"

primrec state_res_code :: "state_res \<Rightarrow> OpCode" where
  "state_res_code (state_res.Open status a1) = 18"
| "state_res_code (state_res.OpenConfirm status a1) = 20"
| "state_res_code (state_res.Close status a1) = 4"
| "state_res_code (state_res.Lock status a1 a2) = 12"
| "state_res_code (state_res.LockTest status a1) = 13"
| "state_res_code (state_res.LockUnlock status a1) = 14"
| "state_res_code (state_res.OpenDowngrade status a1) = 21"
| "state_res_code (state_res.TestStateIds status a1) = 55"
| "state_res_code (state_res.GetDirDelegation status a1) = 46"
| "state_res_code (state_res.WantDelegation status a1) = 56"

primrec state_res_status :: "state_res \<Rightarrow> Status" where
  "state_res_status (state_res.Open status a1) = status"
| "state_res_status (state_res.OpenConfirm status a1) = status"
| "state_res_status (state_res.Close status a1) = status"
| "state_res_status (state_res.Lock status a1 a2) = status"
| "state_res_status (state_res.LockTest status a1) = status"
| "state_res_status (state_res.LockUnlock status a1) = status"
| "state_res_status (state_res.OpenDowngrade status a1) = status"
| "state_res_status (state_res.TestStateIds status a1) = status"
| "state_res_status (state_res.GetDirDelegation status a1) = status"
| "state_res_status (state_res.WantDelegation status a1) = status"

primrec layout_res_code :: "layout_res \<Rightarrow> OpCode" where
  "layout_res_code (layout_res.GetDeviceInfo status a1 a2) = 47"
| "layout_res_code (layout_res.GetDeviceList status a1) = 48"
| "layout_res_code (layout_res.LayoutCommit status a1) = 49"
| "layout_res_code (layout_res.LayoutGet status a1 a2) = 50"
| "layout_res_code (layout_res.LayoutReturn status a1) = 51"

primrec layout_res_status :: "layout_res \<Rightarrow> Status" where
  "layout_res_status (layout_res.GetDeviceInfo status a1 a2) = status"
| "layout_res_status (layout_res.GetDeviceList status a1) = status"
| "layout_res_status (layout_res.LayoutCommit status a1) = status"
| "layout_res_status (layout_res.LayoutGet status a1 a2) = status"
| "layout_res_status (layout_res.LayoutReturn status a1) = status"

primrec name_res_code :: "name_res \<Rightarrow> OpCode" where
  "name_res_code (name_res.GetFh status a1) = 10"
| "name_res_code (name_res.GetAttr status a1) = 9"
| "name_res_code (name_res.Access status a1) = 3"
| "name_res_code (name_res.SecInfo op status a2) = op"
| "name_res_code (name_res.ReadDir status a1 a2 a3) = 26"
| "name_res_code (name_res.ReadLink status a1) = 27"

primrec name_res_status :: "name_res \<Rightarrow> Status" where
  "name_res_status (name_res.GetFh status a1) = status"
| "name_res_status (name_res.GetAttr status a1) = status"
| "name_res_status (name_res.Access status a1) = status"
| "name_res_status (name_res.SecInfo op status a2) = status"
| "name_res_status (name_res.ReadDir status a1 a2 a3) = status"
| "name_res_status (name_res.ReadLink status a1) = status"

primrec data_res_code :: "data_res \<Rightarrow> OpCode" where
  "data_res_code (data_res.Read status a1 a2) = 25"
| "data_res_code (data_res.Write status a1) = 38"
| "data_res_code (data_res.Commit status a1) = 5"
| "data_res_code (data_res.IoAdvise status a1) = 63"
| "data_res_code (data_res.Copy status a1) = 60"
| "data_res_code (data_res.CopyNotify status a1) = 61"
| "data_res_code (data_res.OffloadStatus status a1) = 67"
| "data_res_code (data_res.ReadPlus status a1) = 68"
| "data_res_code (data_res.Seek status a1) = 69"
| "data_res_code (data_res.WriteSame status a1) = 70"

primrec data_res_status :: "data_res \<Rightarrow> Status" where
  "data_res_status (data_res.Read status a1 a2) = status"
| "data_res_status (data_res.Write status a1) = status"
| "data_res_status (data_res.Commit status a1) = status"
| "data_res_status (data_res.IoAdvise status a1) = status"
| "data_res_status (data_res.Copy status a1) = status"
| "data_res_status (data_res.CopyNotify status a1) = status"
| "data_res_status (data_res.OffloadStatus status a1) = status"
| "data_res_status (data_res.ReadPlus status a1) = status"
| "data_res_status (data_res.Seek status a1) = status"
| "data_res_status (data_res.WriteSame status a1) = status"

primrec OperationResult_op_code :: "OperationResult \<Rightarrow> OpCode" where
  "OperationResult_op_code (ResSession r) = session_res_code r"
| "OperationResult_op_code (ResState r) = state_res_code r"
| "OperationResult_op_code (ResLayout r) = layout_res_code r"
| "OperationResult_op_code (ResName r) = name_res_code r"
| "OperationResult_op_code (ResData r) = data_res_code r"

primrec OperationResult_status :: "OperationResult \<Rightarrow> Status" where
  "OperationResult_status (ResSession r) = session_res_status r"
| "OperationResult_status (ResState r) = state_res_status r"
| "OperationResult_status (ResLayout r) = layout_res_status r"
| "OperationResult_status (ResName r) = name_res_status r"
| "OperationResult_status (ResData r) = data_res_status r"

definition op_name :: "OperationResult \<Rightarrow> string" where
  "op_name r = OpCode_name (OperationResult_op_code r)"

record CompoundResponse =
  cmp_status :: Status
  cmp_tag :: string
  cmp_results :: "OperationResult list"

definition ensure_ok :: "CompoundResponse \<Rightarrow> unit result" where
  "ensure_ok response =
     (if Status_is_ok (cmp_status response) then Inr ()
      else if cmp_results response \<noteq> []
      then Inl (NfsV4 (op_name (last (cmp_results response))) (OperationResult_status (last (cmp_results response))))
      else Inl (NfsV4 ''COMPOUND'' (cmp_status response)))"

end
