(* ===== verification/V4_Compound.thy ===== *)
theory V4_Compound
  imports V4_Types Rpc_Client V3_Path
begin

text \<open>
  What the NFSv4 clients do with a COMPOUND (\<open>src/v4/client.rs\<close>): which responses are accepted, which of
  them allow the same operations to be sent again, and how paths become operations. The lemmas give the
  shape of an accepted response and show that a delayed response is answered by a retry only when the
  server has executed nothing but operations that change nothing.
\<close>

unbundle bit_operations_syntax

subsection \<open>Limits\<close>

definition NFS4_COMPOUND_IO_HEADROOM :: u32 where "NFS4_COMPOUND_IO_HEADROOM = 4096"
definition SEQ4_STATUS_EXPIRED_ALL_STATE_REVOKED :: u32 where "SEQ4_STATUS_EXPIRED_ALL_STATE_REVOKED = 0x8"
definition SEQ4_STATUS_EXPIRED_SOME_STATE_REVOKED :: u32 where "SEQ4_STATUS_EXPIRED_SOME_STATE_REVOKED = 0x10"
definition SEQ4_STATUS_ADMIN_STATE_REVOKED :: u32 where "SEQ4_STATUS_ADMIN_STATE_REVOKED = 0x20"

subsection \<open>Responses\<close>

definition sequence_succeeded :: "CompoundResponse \<Rightarrow> bool" where
  "sequence_succeeded response \<longleftrightarrow>
     (case cmp_results response of
        ResSession (session_res.Sequence status _) # _ \<Rightarrow> Status_is_ok status
      | _ \<Rightarrow> False)"

definition response_revoked_lock_status :: "CompoundResponse \<Rightarrow> Status option" where
  "response_revoked_lock_status response =
     (case cmp_results response of
        ResSession (session_res.Sequence _ (Some sequence)) # _ \<Rightarrow>
          if sr_status_flags sequence AND SEQ4_STATUS_ADMIN_STATE_REVOKED \<noteq> 0
          then Some (Proto proto4.AdminRevoked)
          else if sr_status_flags sequence AND
            (SEQ4_STATUS_EXPIRED_ALL_STATE_REVOKED OR SEQ4_STATUS_EXPIRED_SOME_STATE_REVOKED) \<noteq> 0
          then Some (State state4.Expired)
          else None
      | _ \<Rightarrow> None)"

definition status_allows_delayed_retry :: "Status \<Rightarrow> bool" where
  "status_allows_delayed_retry status \<longleftrightarrow> status = State state4.Delay \<or> status = State state4.Grace"

text \<open>\<open>iter().position\<close>\<close>

fun position :: "('a \<Rightarrow> bool) \<Rightarrow> 'a list \<Rightarrow> nat option" where
  "position p [] = None"
| "position p (x # xs) = (if p x then Some 0 else map_option Suc (position p xs))"

definition first_delayed_retry_result_index :: "CompoundResponse \<Rightarrow> usize option" where
  "first_delayed_retry_result_index response =
     (if cmp_results response = [] \<and> status_allows_delayed_retry (cmp_status response) then Some 0
      else position (\<lambda>r. status_allows_delayed_retry (OperationResult_status r)) (cmp_results response))"

definition response_requires_session_recovery :: "CompoundResponse \<Rightarrow> bool" where
  "response_requires_session_recovery response \<longleftrightarrow>
     (case cmp_results response of
        ResSession (session_res.Sequence status _) # _ \<Rightarrow> Status_requires_session_recovery status
      | _ \<Rightarrow> False) \<or>
     cmp_results response = [] \<and> Status_requires_session_recovery (cmp_status response)"

definition session_recovery_error :: "CompoundResponse \<Rightarrow> error" where
  "session_recovery_error response =
     (case cmp_results response of
        [] \<Rightarrow> NfsV4 ''COMPOUND'' (cmp_status response)
      | r # _ \<Rightarrow>
          (case r of
             ResSession (session_res.Sequence status _) \<Rightarrow>
               if Status_requires_session_recovery status then NfsV4 ''SEQUENCE'' status
               else NfsV4 (op_name r) (OperationResult_status r)
           | _ \<Rightarrow> NfsV4 (op_name r) (OperationResult_status r)))"

definition owner_seqid_status_consumes :: "Status \<Rightarrow> bool" where
  "owner_seqid_status_consumes status \<longleftrightarrow> status \<notin> set [
     Proto proto4.BadSeqId, State state4.BadStateId, Proto proto4.BadXdr, State state4.Moved,
     Proto proto4.NoFileHandle, State state4.Resource, State state4.StaleClientId, State state4.StaleStateId]"

definition response_consumed_owner_seqid :: "CompoundResponse \<Rightarrow> OpCode \<Rightarrow> bool" where
  "response_consumed_owner_seqid response op \<longleftrightarrow>
     list_ex (\<lambda>r. OperationResult_op_code r = op \<and> owner_seqid_status_consumes (OperationResult_status r))
       (cmp_results response)"

definition response_operation_has_delayed_status :: "CompoundResponse \<Rightarrow> OpCode \<Rightarrow> bool" where
  "response_operation_has_delayed_status response op \<longleftrightarrow>
     list_ex (\<lambda>r. OperationResult_op_code r = op \<and> status_allows_delayed_retry (OperationResult_status r))
       (cmp_results response)"

definition response_operation_requires_session_recovery :: "CompoundResponse \<Rightarrow> OpCode \<Rightarrow> bool" where
  "response_operation_requires_session_recovery response op \<longleftrightarrow>
     list_ex (\<lambda>r. OperationResult_op_code r = op \<and> Status_requires_session_recovery (OperationResult_status r))
       (cmp_results response)"

definition compound_result_matches_expected :: "OperationResult \<Rightarrow> OpCode \<Rightarrow> bool" where
  "compound_result_matches_expected r expected \<longleftrightarrow>
     OperationResult_op_code r = expected \<or>
     OperationResult_op_code r = Illegal \<and> OperationResult_status r = Proto proto4.OpIllegal"

fun mismatched_result :: "nat \<Rightarrow> OperationResult list \<Rightarrow> OpCode list \<Rightarrow> (nat \<times> OpCode \<times> OpCode) option" where
  "mismatched_result index (r # rs) (expected # rest) =
     (if \<not> compound_result_matches_expected r expected then Some (index, OperationResult_op_code r, expected)
      else mismatched_result (Suc index) rs rest)"
| "mismatched_result index _ _ = None"

definition validate_compound_response_shape :: "string \<Rightarrow> OpCode list \<Rightarrow> CompoundResponse \<Rightarrow> unit result" where
  "validate_compound_response_shape tag expected response =
     (let results = cmp_results response; n = length results in
      if cmp_tag response \<noteq> tag
      then Inl (Protocol ''NFSv4 COMPOUND response tag {} does not match request tag {}''
        [FStr (cmp_tag response), FStr tag])
      else if n > length expected
      then Inl (Protocol ''NFSv4 COMPOUND {} returned {} operation results for {} requests''
        [FStr tag, FNat n, FNat (length expected)])
      else case mismatched_result 0 results expected of
        Some (index, actual, wanted) \<Rightarrow>
          Inl (Protocol ''NFSv4 COMPOUND {} result {} is {}, expected {}''
            [FStr tag, FNat index, FStr (OpCode_name actual), FStr (OpCode_name wanted)])
      | None \<Rightarrow>
          if Status_is_ok (cmp_status response) \<and> n \<noteq> length expected
          then Inl (Protocol ''NFSv4 COMPOUND {} succeeded with {} operation results for {} requests''
            [FStr tag, FNat n, FNat (length expected)])
          else
            case position (\<lambda>r. \<not> Status_is_ok (OperationResult_status r)) results of
              Some index \<Rightarrow>
                if Status_is_ok (cmp_status response)
                then Inl (Protocol ''NFSv4 COMPOUND {} has OK compound status but result {} failed with {}''
                  [FStr tag, FNat index, FNat (unat (Status_as_u32 (OperationResult_status (results ! index))))])
                else if index + 1 \<noteq> n
                then Inl (Protocol ''NFSv4 COMPOUND {} has non-final failed result {} with {}''
                  [FStr tag, FNat index, FNat (unat (Status_as_u32 (OperationResult_status (results ! index))))])
                else if OperationResult_status (results ! index) \<noteq> cmp_status response
                then Inl (Protocol ''NFSv4 COMPOUND {} status {} does not match final result status {}''
                  [FStr tag, FNat (unat (Status_as_u32 (cmp_status response))),
                   FNat (unat (Status_as_u32 (OperationResult_status (results ! index))))])
                else Inr ()
            | None \<Rightarrow>
                if \<not> Status_is_ok (cmp_status response) \<and> results \<noteq> []
                then Inl (Protocol ''NFSv4 COMPOUND {} failed with {}, but all operation results were OK''
                  [FStr tag, FNat (unat (Status_as_u32 (cmp_status response)))])
                else Inr ())"

subsection \<open>Sending operations again\<close>

definition operation_can_replay_after_session_recovery :: "Operation \<Rightarrow> bool" where
  "operation_can_replay_after_session_recovery operation =
     (case operation of
        OpHandle _ \<Rightarrow> True
      | OpName n \<Rightarrow>
          (case n of
             name_op.Access _ \<Rightarrow> True | name_op.SecInfo _ \<Rightarrow> True | name_op.SecInfoNoName _ \<Rightarrow> True
           | name_op.NVerify _ \<Rightarrow> True | name_op.GetAttr _ \<Rightarrow> True | name_op.ReadDir _ _ _ _ _ \<Rightarrow> True
           | name_op.ReadLink \<Rightarrow> True | name_op.Verify _ \<Rightarrow> True | _ \<Rightarrow> False)
      | OpData d \<Rightarrow> (case d of data_op.Read stateid _ _ \<Rightarrow> is_anonymous stateid | _ \<Rightarrow> False)
      | OpState st \<Rightarrow> (case st of state_op.TestStateIds _ \<Rightarrow> True | _ \<Rightarrow> False)
      | OpSession _ \<Rightarrow> False
      | OpLayout _ \<Rightarrow> False)"

definition operations_can_replay_after_session_recovery :: "Operation list \<Rightarrow> bool" where
  "operations_can_replay_after_session_recovery operations =
     list_all operation_can_replay_after_session_recovery operations"

definition operations_release_state :: "Operation list \<Rightarrow> bool" where
  "operations_release_state operations \<longleftrightarrow> operations \<noteq> [] \<and>
     list_all (\<lambda>operation.
       case operation of
         OpHandle h \<Rightarrow> (case h of handle_op.PutFh _ \<Rightarrow> True | _ \<Rightarrow> False)
       | OpState st \<Rightarrow>
           (case st of
              state_op.Close _ _ \<Rightarrow> True | state_op.LockUnlock _ \<Rightarrow> True | state_op.FreeStateId _ \<Rightarrow> True
            | state_op.ReleaseLockOwner _ \<Rightarrow> True | _ \<Rightarrow> False)
       | _ \<Rightarrow> False) operations"

definition operation_can_replay_after_successful_prefix :: "Operation \<Rightarrow> bool" where
  "operation_can_replay_after_successful_prefix operation =
     (case operation of
        OpHandle _ \<Rightarrow> True
      | OpName n \<Rightarrow>
          (case n of
             name_op.Access _ \<Rightarrow> True | name_op.SecInfo _ \<Rightarrow> True | name_op.SecInfoNoName _ \<Rightarrow> True
           | name_op.NVerify _ \<Rightarrow> True | name_op.GetAttr _ \<Rightarrow> True | name_op.ReadDir _ _ _ _ _ \<Rightarrow> True
           | name_op.ReadLink \<Rightarrow> True | name_op.Verify _ \<Rightarrow> True | _ \<Rightarrow> False)
      | OpData d \<Rightarrow>
          (case d of
             data_op.Read _ _ _ \<Rightarrow> True | data_op.ReadPlus _ \<Rightarrow> True | data_op.Seek _ _ _ \<Rightarrow> True
           | data_op.OffloadStatus _ \<Rightarrow> True | _ \<Rightarrow> False)
      | OpState st \<Rightarrow> (case st of state_op.LockTest _ \<Rightarrow> True | state_op.TestStateIds _ \<Rightarrow> True | _ \<Rightarrow> False)
      | OpSession _ \<Rightarrow> False
      | OpLayout l \<Rightarrow> (case l of layout_op.GetDeviceInfo _ \<Rightarrow> True | layout_op.GetDeviceList _ \<Rightarrow> True | _ \<Rightarrow> False))"

definition operation_can_retry_after_delayed_result :: "Operation \<Rightarrow> bool" where
  "operation_can_retry_after_delayed_result operation \<longleftrightarrow> \<not>
     (case operation of
        OpState st \<Rightarrow>
          (case st of
             state_op.Open _ \<Rightarrow> True | state_op.OpenConfirm _ _ \<Rightarrow> True | state_op.Close _ _ \<Rightarrow> True
           | state_op.Lock _ \<Rightarrow> True | state_op.LockUnlock _ \<Rightarrow> True | state_op.OpenDowngrade _ _ _ _ \<Rightarrow> True
           | _ \<Rightarrow> False)
      | OpSession q \<Rightarrow> (case q of session_op.Sequence _ \<Rightarrow> True | _ \<Rightarrow> False)
      | _ \<Rightarrow> False)"

definition response_allows_delayed_retry_after_leading_results :: "Operation list \<Rightarrow> CompoundResponse \<Rightarrow>
    usize \<Rightarrow> bool" where
  "response_allows_delayed_retry_after_leading_results operations response leading_result_count =
     (case first_delayed_retry_result_index response of
        None \<Rightarrow> False
      | Some retry_index \<Rightarrow>
          if retry_index < leading_result_count then True
          else
            let delayed_operation_index = retry_index - leading_result_count in
            delayed_operation_index < length operations \<and>
            list_all operation_can_replay_after_successful_prefix (take delayed_operation_index operations) \<and>
            operation_can_retry_after_delayed_result (operations ! delayed_operation_index))"

definition response_allows_delayed_retry :: "Operation list \<Rightarrow> CompoundResponse \<Rightarrow> bool" where
  "response_allows_delayed_retry operations response =
     response_allows_delayed_retry_after_leading_results operations response 1"

definition response_allows_delayed_retry_without_sequence :: "Operation list \<Rightarrow> CompoundResponse \<Rightarrow> bool" where
  "response_allows_delayed_retry_without_sequence operations response =
     response_allows_delayed_retry_after_leading_results operations response 0"

subsection \<open>Sessions\<close>

definition ensure_reclaim_complete :: "CompoundResponse \<Rightarrow> unit result" where
  "ensure_reclaim_complete response =
     (if cmp_status response = Sess sess4.CompleteAlready \<or>
         (cmp_results response \<noteq> [] \<and>
          OperationResult_status (last (cmp_results response)) = Sess sess4.CompleteAlready)
      then Inr () else ensure_ok response)"

definition session_payload_limit :: "u32 \<Rightarrow> u32" where
  "session_payload_limit channel_size =
     min (if channel_size < NFS4_COMPOUND_IO_HEADROOM then 0 else channel_size - NFS4_COMPOUND_IO_HEADROOM)
       (of_nat NFS4_MAX_IO)"

definition session_max_operations :: "ChannelAttrs \<Rightarrow> usize result" where
  "session_max_operations attrs =
     (if ca_max_operations attrs = 0
      then Inl (Protocol ''NFSv4 session fore channel returned max_operations=0'' [])
      else Inr (min (unat (ca_max_operations attrs)) NFS4_MAX_OPS))"

definition validate_session_channel_size :: "string \<Rightarrow> u32 \<Rightarrow> unit result" where
  "validate_session_channel_size name n =
     (if n \<le> NFS4_COMPOUND_IO_HEADROOM
      then Inl (Protocol ''NFSv4 session fore channel returned {}={}, which leaves no payload capacity''
        [FStr name, FNat (unat n)])
      else Inr ())"

definition validate_session_channel_attrs :: "ChannelAttrs \<Rightarrow> unit result" where
  "validate_session_channel_attrs attrs =
     bindR (validate_session_channel_size ''max_request_size'' (ca_max_request_size attrs)) (\<lambda>_.
     bindR (validate_session_channel_size ''max_response_size'' (ca_max_response_size attrs)) (\<lambda>_.
     if ca_max_requests attrs = 0
     then Inl (Protocol ''NFSv4 session fore channel returned max_requests=0'' [])
     else Inr ()))"

definition validate_session_compound_operation_count :: "usize \<Rightarrow> usize \<Rightarrow> unit result" where
  "validate_session_compound_operation_count operation_count max_operations =
     bindR (ok_or (checked_add_usize operation_count 1)
       (Protocol ''NFSv4 COMPOUND operation count overflow'' [])) (\<lambda>total.
     if total > max_operations
     then Inl (Protocol ''NFSv4 COMPOUND has {} operations including SEQUENCE, but session allows {}''
       [FNat total, FNat max_operations])
     else Inr ())"

definition ensure_last_status :: "CompoundResponse \<Rightarrow> string \<Rightarrow> unit result" where
  "ensure_last_status response operation =
     (if cmp_results response = [] then Inl (Protocol ''{} returned no result'' [FStr operation])
      else if Status_is_ok (OperationResult_status (last (cmp_results response))) then Inr ()
      else Inl (NfsV4 operation (OperationResult_status (last (cmp_results response)))))"

definition finish_with_close :: "'a result \<Rightarrow> unit result \<Rightarrow> 'a result" where
  "finish_with_close r close_result =
     (case r of
        Inr value \<Rightarrow> bindR close_result (\<lambda>_. Inr value)
      | Inl err \<Rightarrow> Inl (cleanup_error err ''cleanup CLOSE after failed operation'' close_result))"

subsection \<open>Paths\<close>

fun path_components_loop :: "string \<Rightarrow> string list \<Rightarrow> string list \<Rightarrow> string list result" where
  "path_components_loop path components [] = Inr components"
| "path_components_loop path components (component # rest) =
     (if component = [] \<or> component = ''.'' then path_components_loop path components rest
      else if component = ''..'' then Inl (InvalidPath path)
      else if length component > NFS4_OPAQUE_LIMIT then Inl (NameTooLong component NFS4_OPAQUE_LIMIT)
      else path_components_loop path (components @ [component]) rest)"

definition path_components4 :: "string \<Rightarrow> string list result" where
  "path_components4 path =
     (if path = [] then Inl (InvalidPath path) else path_components_loop path [] (split_on CHR ''/'' path))"

definition lookups :: "string list \<Rightarrow> Operation list" where
  "lookups components = map (\<lambda>component. OpHandle (handle_op.Lookup component)) components"

definition path_ops :: "string \<Rightarrow> Operation list \<Rightarrow> Operation list result" where
  "path_ops path tail =
     bindR (path_components4 path) (\<lambda>components.
     Inr (OpHandle handle_op.PutRootFh # lookups components @ tail))"

definition public_path_ops :: "string \<Rightarrow> Operation list \<Rightarrow> Operation list result" where
  "public_path_ops path tail =
     bindR (path_components4 path) (\<lambda>components.
     Inr (OpHandle handle_op.PutPubFh # lookups components @ tail))"

definition parent_path_ops :: "string \<Rightarrow> Operation list \<Rightarrow> Operation list result" where
  "parent_path_ops path tail =
     bindR (path_components4 path) (\<lambda>components.
     if components = [] then Inl (InvalidPath path)
     else Inr (OpHandle handle_op.PutRootFh # lookups components @ OpHandle handle_op.Lookupp # tail))"

definition validate_named_attr_name :: "string \<Rightarrow> unit result" where
  "validate_named_attr_name name =
     (if name = [] \<or> name = ''.'' \<or> name = ''..'' \<or> CHR ''/'' \<in> set name then Inl (InvalidPath name)
      else if length name > NFS4_OPAQUE_LIMIT then Inl (NameTooLong name NFS4_OPAQUE_LIMIT)
      else Inr ())"

definition named_attr_ops :: "string \<Rightarrow> string \<Rightarrow> Operation list \<Rightarrow> Operation list result" where
  "named_attr_ops path name tail =
     bindR (validate_named_attr_name name) (\<lambda>_.
     bindR (path_ops path [OpName (name_op.OpenAttr False), OpHandle (handle_op.Lookup name)]) (\<lambda>ops.
     Inr (ops @ tail)))"

definition split_parent :: "string \<Rightarrow> (string list \<times> string) result" where
  "split_parent path =
     bindR (path_components4 path) (\<lambda>components.
     if components = [] then Inl (InvalidPath path) else Inr (butlast components, last components))"

definition temporary_sibling_path4 :: "string \<Rightarrow> string \<Rightarrow> string result" where
  "temporary_sibling_path4 temp_name path =
     bindR (split_parent path) (\<lambda>(parents, _). Inr (join_path (foldl join_path ''/'' parents) temp_name))"

subsection \<open>The shape of an accepted response\<close>

lemma position_Some:
  "position p xs = Some i \<longleftrightarrow> i < length xs \<and> p (xs ! i) \<and> (\<forall>j < i. \<not> p (xs ! j))"
proof (induction xs arbitrary: i)
  case (Cons x xs)
  then show ?case by (cases i) (auto simp: less_Suc_eq_0_disj)
qed simp

lemma position_None: "position p xs = None \<longleftrightarrow> \<not> list_ex p xs"
  by (induction xs) auto

lemma mismatched_result_None:
  "length rs \<le> length codes \<Longrightarrow>
     mismatched_result i rs codes = None \<longleftrightarrow>
     list_all2 compound_result_matches_expected rs (take (length rs) codes)"
proof (induction i rs codes rule: mismatched_result.induct)
  case (1 index r rs expected rest)
  then show ?case by simp
qed auto

text \<open>All results but the last are fine, and the last one has the status of the whole response.\<close>

definition fails_last :: "CompoundResponse \<Rightarrow> bool" where
  "fails_last response \<longleftrightarrow>
     cmp_results response = [] \<or>
     list_all (\<lambda>r. Status_is_ok (OperationResult_status r)) (butlast (cmp_results response)) \<and>
     OperationResult_status (last (cmp_results response)) = cmp_status response"

lemma position_last:
  "position p xs = Some i \<Longrightarrow> Suc i = length xs \<longleftrightarrow> \<not> list_ex p (butlast xs)"
proof (induction xs arbitrary: i)
  case (Cons x xs)
  then show ?case by (cases xs) (auto split: if_splits)
qed simp

lemma shape_failed:
  assumes "\<not> Status_is_ok (cmp_status response)"
  shows "(case position (\<lambda>r. \<not> Status_is_ok (OperationResult_status r)) (cmp_results response) of
      Some i \<Rightarrow> Suc i = length (cmp_results response) \<and>
        OperationResult_status (cmp_results response ! i) = cmp_status response
    | None \<Rightarrow> cmp_results response = []) \<longleftrightarrow> fails_last response"
proof (cases "position (\<lambda>r. \<not> Status_is_ok (OperationResult_status r)) (cmp_results response)")
  case None
  then have "\<not> list_ex (\<lambda>r. \<not> Status_is_ok (OperationResult_status r)) (cmp_results response)"
    by (simp add: position_None)
  with assms show ?thesis unfolding None
    by (cases "cmp_results response" rule: rev_cases) (auto simp: fails_last_def list_ex_iff)
next
  case (Some i)
  from position_last [OF Some] have "Suc i = length (cmp_results response) \<longleftrightarrow>
      list_all (\<lambda>r. Status_is_ok (OperationResult_status r)) (butlast (cmp_results response))"
    by (auto simp: list_ex_iff list_all_iff)
  moreover have "cmp_results response \<noteq> []" using Some by auto
  moreover have "Suc i = length (cmp_results response) \<Longrightarrow> cmp_results response ! i = last (cmp_results response)"
    by (metis Suc_eq_plus1 add_diff_cancel_right' last_conv_nth list.size(3) nat.distinct(1))
  ultimately show ?thesis by (auto simp: Some fails_last_def)
qed

lemma shape_iff:
  "validate_compound_response_shape tag expected response = Inr () \<longleftrightarrow>
     cmp_tag response = tag \<and> length (cmp_results response) \<le> length expected \<and>
     list_all2 compound_result_matches_expected (cmp_results response)
       (take (length (cmp_results response)) expected) \<and>
     (if Status_is_ok (cmp_status response)
      then length (cmp_results response) = length expected \<and>
        list_all (\<lambda>r. Status_is_ok (OperationResult_status r)) (cmp_results response)
      else fails_last response)"
  (is "_ \<longleftrightarrow> ?shape")
proof (cases "cmp_tag response = tag \<and> length (cmp_results response) \<le> length expected \<and>
    mismatched_result 0 (cmp_results response) expected = None")
  case False
  then show ?thesis
    using mismatched_result_None [of "cmp_results response" expected 0]
    by (auto simp: validate_compound_response_shape_def Let_def split: option.splits)
next
  case True
  let ?failed = "position (\<lambda>r. \<not> Status_is_ok (OperationResult_status r)) (cmp_results response)"
  have all: "?failed = None \<longleftrightarrow> list_all (\<lambda>r. Status_is_ok (OperationResult_status r)) (cmp_results response)"
    by (auto simp: position_None list_ex_iff list_all_iff)
  have m: "list_all2 compound_result_matches_expected (cmp_results response)
       (take (length (cmp_results response)) expected)"
    using True mismatched_result_None [of "cmp_results response" expected 0] by simp
  show ?thesis
  proof (cases "Status_is_ok (cmp_status response)")
    case ok: True
    then show ?thesis
      using True m all by (cases ?failed) (auto simp: validate_compound_response_shape_def Let_def)
  next
    case failed: False
    then show ?thesis
      using True m shape_failed [OF failed]
      by (cases ?failed) (auto simp: validate_compound_response_shape_def Let_def)
  qed
qed

text \<open>C13. The shape of an accepted COMPOUND response: \<open>validate_compound_response_shape\<close> accepts a response
  exactly when it has the tag of the request, its results answer the first operations of the request
  one by one (or say that the operation is illegal), a successful response answers every operation with
  success, and a failed one has no result, or only its last result has failed, with the status of the
  response.\<close>

theorem compound_shape_accepted_iff:
  "validate_compound_response_shape tag expected response = Inr () \<longleftrightarrow>
     cmp_tag response = tag \<and> length (cmp_results response) \<le> length expected \<and>
     list_all2 (\<lambda>r code. OperationResult_op_code r = code \<or>
         OperationResult_op_code r = 10044 \<and> OperationResult_status r = Proto proto4.OpIllegal)
       (cmp_results response) (take (length (cmp_results response)) expected) \<and>
     (if Status_is_ok (cmp_status response)
      then length (cmp_results response) = length expected \<and>
        list_all (\<lambda>r. Status_is_ok (OperationResult_status r)) (cmp_results response)
      else cmp_results response = [] \<or>
        list_all (\<lambda>r. Status_is_ok (OperationResult_status r)) (butlast (cmp_results response)) \<and>
        OperationResult_status (last (cmp_results response)) = cmp_status response)"
  unfolding shape_iff fails_last_def
  by (simp add: compound_result_matches_expected_def [abs_def] Illegal_def)

subsection \<open>What a retry repeats\<close>

text \<open>The operations of RFC 8881 that change neither the file system nor the state of the client: the
  filehandle operations, ACCESS, GETATTR, READ, READDIR, READLINK, READ_PLUS, SEEK, SECINFO and
  SECINFO_NO_NAME, VERIFY and NVERIFY, LOCKT, TEST_STATEID, GETDEVICEINFO and GETDEVICELIST, and
  OFFLOAD_STATUS.\<close>

definition read_only_codes :: "OpCode list" where
  "read_only_codes = [3, 9, 10, 13, 15, 16, 17, 22, 23, 24, 25, 26, 27, 31, 32, 33, 37, 47, 48, 52, 55, 67, 68, 69]"

lemma prefix_read_only:
  "operation_can_replay_after_successful_prefix operation \<longleftrightarrow> Operation_op_code operation \<in> set read_only_codes"
proof (cases operation)
  case (OpHandle h)
  then show ?thesis
    by (cases h) (simp_all add: operation_can_replay_after_successful_prefix_def read_only_codes_def)
next
  case (OpName n)
  then show ?thesis
    by (cases n) (simp_all add: operation_can_replay_after_successful_prefix_def read_only_codes_def)
next
  case (OpData d)
  then show ?thesis
    by (cases d) (simp_all add: operation_can_replay_after_successful_prefix_def read_only_codes_def)
next
  case (OpState st)
  then show ?thesis
    by (cases st) (simp_all add: operation_can_replay_after_successful_prefix_def read_only_codes_def)
next
  case (OpSession q)
  then show ?thesis
    by (cases q) (simp_all add: operation_can_replay_after_successful_prefix_def read_only_codes_def)
next
  case (OpLayout l)
  then show ?thesis
    by (cases l) (simp_all add: operation_can_replay_after_successful_prefix_def read_only_codes_def)
qed

lemma recovery_replays_prefix:
  "operation_can_replay_after_session_recovery operation \<Longrightarrow> operation_can_replay_after_successful_prefix operation"
  unfolding operation_can_replay_after_session_recovery_def operation_can_replay_after_successful_prefix_def
  by (auto split: Operation.splits name_op.splits data_op.splits state_op.splits)

lemma recovery_read_only:
  "operations_can_replay_after_session_recovery operations \<Longrightarrow>
     list_all (\<lambda>operation. Operation_op_code operation \<in> set read_only_codes) operations"
  by (auto simp: operations_can_replay_after_session_recovery_def list_all_iff
      simp flip: prefix_read_only intro: recovery_replays_prefix)

lemma delayed_not_ok: "status_allows_delayed_retry status \<Longrightarrow> \<not> Status_is_ok status"
  by (auto simp: status_allows_delayed_retry_def Status_is_ok_def)

text \<open>In an accepted response only the last result can be delayed, and then the response is.\<close>

lemma delayed_index_last:
  assumes "validate_compound_response_shape tag expected response = Inr ()"
    "first_delayed_retry_result_index response = Some i"
  shows "status_allows_delayed_retry (cmp_status response)" "length (cmp_results response) \<le> Suc i"
    "cmp_results response = [] \<or> Suc i = length (cmp_results response)"
proof -
  have "status_allows_delayed_retry (cmp_status response) \<and>
      (cmp_results response = [] \<and> i = 0 \<or> Suc i = length (cmp_results response))"
  proof (cases "cmp_results response = []")
    case True
    with assms(2) show ?thesis by (auto simp: first_delayed_retry_result_index_def split: if_splits)
  next
    case False
    with assms(2) have i: "i < length (cmp_results response)"
        "status_allows_delayed_retry (OperationResult_status (cmp_results response ! i))"
      by (auto simp: first_delayed_retry_result_index_def position_Some)
    then have bad: "\<not> Status_is_ok (OperationResult_status (cmp_results response ! i))"
      by (rule_tac delayed_not_ok)
    with i(1) have "\<not> list_all (\<lambda>r. Status_is_ok (OperationResult_status r)) (cmp_results response)"
      by (auto simp: list_all_iff)
    with assms(1) False have l: "list_all (\<lambda>r. Status_is_ok (OperationResult_status r)) (butlast (cmp_results response))"
        "OperationResult_status (last (cmp_results response)) = cmp_status response"
      by (auto simp: shape_iff fails_last_def split: if_splits)
    have "\<not> i < length (butlast (cmp_results response))"
      using l(1) bad by (auto simp: list_all_length nth_butlast)
    with i(1) have "Suc i = length (cmp_results response)" by simp
    moreover from this False have "cmp_results response ! i = last (cmp_results response)"
      by (simp add: last_conv_nth flip: \<open>Suc i = length (cmp_results response)\<close>)
    ultimately show ?thesis using i(2) l(2) by simp
  qed
  then show "status_allows_delayed_retry (cmp_status response)" "length (cmp_results response) \<le> Suc i"
    "cmp_results response = [] \<or> Suc i = length (cmp_results response)" by auto
qed

lemma delayed_retry_cases:
  assumes "validate_compound_response_shape tag expected response = Inr ()"
    "response_allows_delayed_retry_after_leading_results operations response leading"
  shows "status_allows_delayed_retry (cmp_status response)"
    "list_all operation_can_replay_after_successful_prefix
       (take (length (cmp_results response) - Suc leading) operations)"
    "leading < length (cmp_results response) \<Longrightarrow>
       length (cmp_results response) - Suc leading < length operations \<and>
       operation_can_retry_after_delayed_result (operations ! (length (cmp_results response) - Suc leading))"
proof -
  from assms(2) obtain i where i: "first_delayed_retry_result_index response = Some i"
      "i < leading \<or> i - leading < length operations \<and>
        list_all operation_can_replay_after_successful_prefix (take (i - leading) operations) \<and>
        operation_can_retry_after_delayed_result (operations ! (i - leading))"
    by (auto simp: response_allows_delayed_retry_after_leading_results_def Let_def
        split: option.splits if_splits)
  note last = delayed_index_last [OF assms(1) i(1)]
  show "status_allows_delayed_retry (cmp_status response)" by (rule last(1))
  have eq: "length (cmp_results response) - Suc leading = i - leading" if "cmp_results response \<noteq> []"
    using last(3) that by (metis diff_Suc_Suc)
  show "list_all operation_can_replay_after_successful_prefix
       (take (length (cmp_results response) - Suc leading) operations)"
    using i(2) eq by (cases "cmp_results response = []") auto
  show "length (cmp_results response) - Suc leading < length operations \<and>
       operation_can_retry_after_delayed_result (operations ! (length (cmp_results response) - Suc leading))"
    if "leading < length (cmp_results response)"
  proof -
    from that have "cmp_results response \<noteq> []" by auto
    with that last(3) have "\<not> i < leading" by linarith
    with eq [OF \<open>cmp_results response \<noteq> []\<close>] i(2) show ?thesis by simp
  qed
qed

lemma retry_codes:
  "operation_can_retry_after_delayed_result operation \<Longrightarrow>
     Operation_op_code operation \<notin> {4, 12, 14, 18, 20, 21, 53}"
proof (cases operation)
  case (OpHandle h)
  then show ?thesis by (cases h) simp_all
next
  case (OpName n)
  then show ?thesis by (cases n) simp_all
next
  case (OpData d)
  then show ?thesis by (cases d) simp_all
next
  case (OpState st)
  then show "operation_can_retry_after_delayed_result operation \<Longrightarrow> ?thesis"
    by (cases st) (simp_all add: operation_can_retry_after_delayed_result_def)
next
  case (OpSession q)
  then show "operation_can_retry_after_delayed_result operation \<Longrightarrow> ?thesis"
    by (cases q) (simp_all add: operation_can_retry_after_delayed_result_def)
next
  case (OpLayout l)
  then show ?thesis by (cases l) simp_all
qed

text \<open>C14. What the delayed retry repeats. When a response that passed the shape validation makes
  \<open>response_allows_delayed_retry\<close> send the operations again, the server answered DELAY or GRACE, the
  operations it had already executed (every one before the last result, after SEQUENCE) change nothing
  on the server, and the delayed operation is not one whose owner sequence a second request would
  break.\<close>

theorem delayed_retry_repeats_read_only:
  assumes "validate_compound_response_shape tag (53 # map Operation_op_code operations) response = Inr ()"
    and "response_allows_delayed_retry operations response"
  shows "cmp_status response \<in> {State state4.Delay, State state4.Grace} \<and>
    list_all (\<lambda>operation. Operation_op_code operation \<in> set read_only_codes)
      (take (length (cmp_results response) - 2) operations) \<and>
    (1 < length (cmp_results response) \<longrightarrow>
      length (cmp_results response) \<le> Suc (length operations) \<and>
      Operation_op_code (operations ! (length (cmp_results response) - 2)) \<notin> {4, 12, 14, 18, 20, 21, 53})"
proof -
  note cases = delayed_retry_cases [OF assms(1) assms(2) [unfolded response_allows_delayed_retry_def]]
  have "length (cmp_results response) \<le> Suc (length operations) \<and>
      Operation_op_code (operations ! (length (cmp_results response) - 2)) \<notin> {4, 12, 14, 18, 20, 21, 53}"
    if "1 < length (cmp_results response)"
  proof -
    from cases(3) [OF that] have "length (cmp_results response) - 2 < length operations"
        "operation_can_retry_after_delayed_result (operations ! (length (cmp_results response) - 2))"
      by (simp_all add: numeral_2_eq_2)
    then show ?thesis using retry_codes by (intro conjI) (linarith, blast)
  qed
  with cases(1,2) show ?thesis
    by (simp add: status_allows_delayed_retry_def numeral_2_eq_2 flip: prefix_read_only)
qed

definition delayed_reply :: "CompoundResponse" where
  "delayed_reply = \<lparr>cmp_status = State state4.Delay, cmp_tag = ''nfs-rs'',
     cmp_results = [ResSession (session_res.Sequence (Posix posix4.Ok) None),
       ResSession (session_res.StatusOnly 22 (Posix posix4.Ok)),
       ResData (data_res.Write (State state4.Delay) None)]\<rparr>"

definition delayed_operations :: "Operation list" where
  "delayed_operations =
     [OpHandle (handle_op.PutFh \<lparr>fh4_data = [7]\<rparr>), OpData (data_op.Write StateId_anonymous 0 FileSync [1])]"

lemma delayed_reply_shape:
  "validate_compound_response_shape ''nfs-rs'' (53 # map Operation_op_code delayed_operations) delayed_reply = Inr ()"
  by (simp add: shape_iff fails_last_def delayed_reply_def delayed_operations_def Status_is_ok_def
      compound_result_matches_expected_def)

lemma delayed_reply_retry: "response_allows_delayed_retry delayed_operations delayed_reply"
  by (simp add: response_allows_delayed_retry_def response_allows_delayed_retry_after_leading_results_def
      first_delayed_retry_result_index_def status_allows_delayed_retry_def delayed_reply_def
      delayed_operations_def prefix_read_only read_only_codes_def
      operation_can_retry_after_delayed_result_def)

theorem delayed_retry_repeats_read_only_witness:
  "list_all (\<lambda>operation. Operation_op_code operation \<in> set read_only_codes)
     (take (length (cmp_results delayed_reply) - 2) delayed_operations) \<and>
   length (cmp_results delayed_reply) = 3"
  using delayed_retry_repeats_read_only [OF delayed_reply_shape delayed_reply_retry]
  by (simp add: delayed_reply_def)

end
