(* ===== verification/V4_Codec.thy ===== *)
theory V4_Codec
  imports V4_Types
begin

text \<open>
  The decoder of operation results and of COMPOUND responses (\<open>src/v4/proto.rs\<close>). Every result starts with
  its operation code and its status; what follows depends on both. The lemmas show that a decoded result
  carries its content exactly when its status calls for it, and how much of the input it takes.
\<close>

subsection \<open>Results with their own decoder\<close>

definition decode_if_ok :: "Status \<Rightarrow> 'a dec \<Rightarrow> 'a option dec" where
  "decode_if_ok status dec = (if Status_is_ok status then bnd dec (\<lambda>x. ret (Some x)) else ret None)"

definition lift_ok :: "(Status \<Rightarrow> 'a option \<Rightarrow> OperationResult) \<Rightarrow> 'a dec \<Rightarrow> Status \<Rightarrow> OperationResult dec" where
  "lift_ok K dec status = bnd (decode_if_ok status dec) (\<lambda>x. ret (K status x))"

definition decode_set_client_id_result :: "Status \<Rightarrow> OperationResult dec" where
  "decode_set_client_id_result status =
     (if status = Posix posix4.Ok then
        bnd read_u64 (\<lambda>client_id. bnd decode_verifier (\<lambda>verifier.
        ret (ResSession (session_res.SetClientId status
          (Some \<lparr>scr_client_id = client_id, scr_verifier = verifier\<rparr>) None))))
      else if status = State state4.ClidInUse then
        bnd decode_NetAddr (\<lambda>addr. ret (ResSession (session_res.SetClientId status None (Some addr))))
      else ret (ResSession (session_res.SetClientId status None None)))"

definition decode_exchange_id_result :: "Status \<Rightarrow> OperationResult dec" where
  "decode_exchange_id_result status =
     (if \<not> Status_is_ok status then ret (ResSession (session_res.ExchangeId status None))
      else
        bnd read_u64 (\<lambda>client_id. bnd read_u32 (\<lambda>sequence_id. bnd read_u32 (\<lambda>flags.
        bnd skip_state_protect_reply (\<lambda>_. bnd skip_server_owner (\<lambda>_.
        bnd (read_opaque NFS4_OPAQUE_LIMIT) (\<lambda>_. bnd skip_impl_ids (\<lambda>_.
        ret (ResSession (session_res.ExchangeId status
          (Some \<lparr>eir_client_id = client_id, eir_sequence_id = sequence_id, eir_flags = flags\<rparr>)))))))))))"

definition decode_create_session_result :: "Status \<Rightarrow> OperationResult dec" where
  "decode_create_session_result status =
     (if \<not> Status_is_ok status then ret (ResSession (session_res.CreateSession status None))
      else
        bnd decode_session_id (\<lambda>session_id. bnd read_u32 (\<lambda>sequence_id. bnd read_u32 (\<lambda>flags.
        bnd decode_ChannelAttrs (\<lambda>fore. bnd decode_ChannelAttrs (\<lambda>back.
        ret (ResSession (session_res.CreateSession status
          (Some \<lparr>csr_session_id = session_id, csr_sequence_id = sequence_id, csr_flags = flags,
             csr_fore_channel_attrs = fore, csr_back_channel_attrs = back\<rparr>)))))))))"

definition decode_bind_conn_to_session_result :: "Status \<Rightarrow> OperationResult dec" where
  "decode_bind_conn_to_session_result status =
     (if \<not> Status_is_ok status then ret (ResSession (session_res.BindConnToSession status None))
      else
        bnd decode_session_id (\<lambda>session_id.
        bnd (read_enum ''channel_dir_from_server4'' ChannelDirFromServer_from_u32) (\<lambda>direction.
        bnd decode_bool (\<lambda>rdma.
        ret (ResSession (session_res.BindConnToSession status
          (Some \<lparr>bcr_session_id = session_id, bcr_direction = direction, bcr_use_conn_in_rdma_mode = rdma\<rparr>)))))))"

definition decode_sequence_result :: "Status \<Rightarrow> OperationResult dec" where
  "decode_sequence_result status =
     lift_ok (\<lambda>s x. ResSession (session_res.Sequence s x)) 
       (bnd decode_session_id (\<lambda>session_id. bnd read_u32 (\<lambda>sequence_id. bnd read_u32 (\<lambda>slot_id.
        bnd read_u32 (\<lambda>highest. bnd read_u32 (\<lambda>target. bnd read_u32 (\<lambda>flags.
        ret \<lparr>sr_session_id = session_id, sr_sequence_id = sequence_id, sr_slot_id = slot_id,
          sr_highest_slot_id = highest, sr_target_highest_slot_id = target, sr_status_flags = flags\<rparr>))))))) status"

definition decode_get_dir_delegation_result :: "Status \<Rightarrow> OperationResult dec" where
  "decode_get_dir_delegation_result status =
     lift_ok (\<lambda>s x. ResState (state_res.GetDirDelegation s x)) 
       (bnd read_u32 (\<lambda>v.
        if v = 0 then
          bnd decode_verifier (\<lambda>cookieverf. bnd decode_StateId (\<lambda>stateid. bnd decode_Bitmap (\<lambda>notification.
          bnd decode_Bitmap (\<lambda>child_attributes. bnd decode_Bitmap (\<lambda>dir_attributes.
          ret (Granted cookieverf stateid notification child_attributes dir_attributes))))))
        else if v = 1 then bnd decode_bool (\<lambda>will_signal. ret (Unavailable will_signal))
        else fail (InvalidDiscriminant ''gddrnf4_status'' v))) status"

definition decode_get_device_info_result :: "Status \<Rightarrow> OperationResult dec" where
  "decode_get_device_info_result status =
     (if status = Posix posix4.Ok then
        bnd decode_DeviceAddr (\<lambda>device_addr. bnd decode_Bitmap (\<lambda>notification.
        ret (ResLayout (layout_res.GetDeviceInfo status
          (Some \<lparr>gir_device_addr = device_addr, gir_notification = notification\<rparr>) None))))
      else if status = State state4.TooSmall then
        bnd read_u32 (\<lambda>min_count. ret (ResLayout (layout_res.GetDeviceInfo status None (Some min_count))))
      else ret (ResLayout (layout_res.GetDeviceInfo status None None)))"

definition decode_get_device_list_result :: "Status \<Rightarrow> OperationResult dec" where
  "decode_get_device_list_result status =
     lift_ok (\<lambda>s x. ResLayout (layout_res.GetDeviceList s x)) 
       (bnd read_u64 (\<lambda>cookie. bnd decode_verifier (\<lambda>cookieverf.
        bnd (read_array decode_DeviceId NFS4_MAX_DEVICEIDS) (\<lambda>device_ids. bnd decode_bool (\<lambda>eof.
        ret \<lparr>glr_cookie = cookie, glr_cookieverf = cookieverf, glr_device_ids = device_ids, glr_eof = eof\<rparr>))))) status"

definition decode_layout_commit_result :: "Status \<Rightarrow> OperationResult dec" where
  "decode_layout_commit_result status =
     lift_ok (\<lambda>s x. ResLayout (layout_res.LayoutCommit s x)) 
       (bnd (read_optional read_u64) (\<lambda>new_size. ret \<lparr>lcr_new_size = new_size\<rparr>)) status"

definition decode_layout_get_result :: "Status \<Rightarrow> OperationResult dec" where
  "decode_layout_get_result status =
     (if status = Posix posix4.Ok then
        bnd decode_bool (\<lambda>return_on_close. bnd decode_StateId (\<lambda>stateid.
        bnd (read_array decode_Layout NFS4_MAX_LAYOUTS) (\<lambda>layouts.
        ret (ResLayout (layout_res.LayoutGet status
          (Some \<lparr>lgr_return_on_close = return_on_close, lgr_stateid = stateid, lgr_layouts = layouts\<rparr>) None)))))
      else if status = Sess sess4.LayoutTryLater then
        bnd decode_bool (\<lambda>will_signal. ret (ResLayout (layout_res.LayoutGet status None (Some will_signal))))
      else ret (ResLayout (layout_res.LayoutGet status None None)))"

definition decode_layout_return_result :: "Status \<Rightarrow> OperationResult dec" where
  "decode_layout_return_result status =
     lift_ok (\<lambda>s x. ResLayout (layout_res.LayoutReturn s x)) 
       (bnd (read_optional decode_StateId) (\<lambda>stateid. ret \<lparr>lrr_stateid = stateid\<rparr>)) status"

definition decode_open_result :: "Status \<Rightarrow> OperationResult dec" where
  "decode_open_result status =
     (if \<not> Status_is_ok status then ret (ResState (state_res.Open status None))
      else
        bnd decode_StateId (\<lambda>stateid. bnd skip_change_info (\<lambda>_. bnd read_u32 (\<lambda>result_flags.
        bnd decode_Bitmap (\<lambda>attrset. bnd decode_OpenDelegation (\<lambda>delegation.
        ret (ResState (state_res.Open status
          (Some \<lparr>opr_stateid = stateid, opr_result_flags = result_flags, opr_attrset = attrset,
             opr_delegation = delegation\<rparr>)))))))))"

subsection \<open>Directory listings\<close>

definition decode_entry4_fields :: "DirEntry4 dec" where
  "decode_entry4_fields =
     bnd read_u64 (\<lambda>cookie. bnd (read_string NFS4_OPAQUE_LIMIT) (\<lambda>name. bnd decode_Fattr (\<lambda>attrs.
     ret \<lparr>d4_cookie = cookie, d4_name = name, d4_attrs = attrs\<rparr>)))"

definition decode_readdir_step :: "DirEntry4 list \<Rightarrow> (DirEntry4 list, DirEntry4 list) loop_step dec" where
  "decode_readdir_step entries =
     bnd decode_bool (\<lambda>more.
     if \<not> more then ret (Break entries)
     else if length entries \<ge> NFS4_MAX_DIR_ENTRIES
     then fail (LengthLimitExceeded (length entries + 1) NFS4_MAX_DIR_ENTRIES)
     else bnd decode_entry4_fields (\<lambda>entry. ret (Continue (entries @ [entry]))))"

lemma advances_array_of [keeps_intros]: "keeps advances (read_array_of n)"
  unfolding read_array_of_def by (intro keeps_intros)

lemma advances_bitmap [keeps_intros]: "keeps advances decode_Bitmap"
  unfolding decode_Bitmap_def by (intro keeps_intros)

lemma advances_fattr [keeps_intros]: "keeps advances decode_Fattr"
  unfolding decode_Fattr_def by (intro keeps_intros)

lemma advances_entry4_fields [keeps_intros]: "keeps advances decode_entry4_fields"
  unfolding decode_entry4_fields_def by (intro keeps_intros)

lemma decode_readdir_step_advances:
  assumes "decode_readdir_step entries d = (Inr st, d')"
  shows "length (dec_input d') - dec_position d' < length (dec_input d) - dec_position d"
proof -
  from assms obtain more d1 where 1: "decode_bool d = (Inr more, d1)"
    by (auto simp: decode_readdir_step_def bnd_Inr_iff)
  let ?rest = "if \<not> more then ret (Break entries)
     else if length entries \<ge> NFS4_MAX_DIR_ENTRIES
     then fail (LengthLimitExceeded (length entries + 1) NFS4_MAX_DIR_ENTRIES)
     else bnd decode_entry4_fields (\<lambda>entry. ret (Continue (entries @ [entry])))"
  have "keeps advances ?rest" by (intro keeps_intros)
  moreover have "?rest d1 = (Inr st, d')"
    using assms 1 by (simp add: decode_readdir_step_def bnd_apply)
  ultimately have "advances d1 d'" by (rule keepsD)
  with decode_bool_Inr [OF 1] show ?thesis by (auto simp: advances_def)
qed

function decode_readdir_loop :: "DirEntry4 list \<Rightarrow> DirEntry4 list dec" where
  "decode_readdir_loop entries d =
     (case decode_readdir_step entries d of
        (Inl e, d') \<Rightarrow> (Inl e, d')
      | (Inr (Continue entries'), d') \<Rightarrow> decode_readdir_loop entries' d'
      | (Inr (Break entries'), d') \<Rightarrow> (Inr entries', d'))"
  by pat_completeness auto
termination
  by (relation "measure (\<lambda>(entries, d). length (dec_input d) - dec_position d)")
    (auto intro: decode_readdir_step_advances [OF sym])

declare decode_readdir_loop.simps [simp del]

interpretation rdl: body_loop decode_readdir_step decode_readdir_loop
  "\<lambda>_ d. length (dec_input d) - dec_position d"
  by unfold_locales (rule decode_readdir_loop.simps, rule decode_readdir_step_advances)

definition decode_readdir_result :: "Status \<Rightarrow> OperationResult dec" where
  "decode_readdir_result status =
     (if \<not> Status_is_ok status then ret (ResName (name_res.ReadDir status (replicate 8 0) [] False))
      else
        bnd decode_verifier (\<lambda>cookieverf. bnd (decode_readdir_loop []) (\<lambda>entries. bnd decode_bool (\<lambda>eof.
        ret (ResName (name_res.ReadDir status cookieverf entries eof))))))"

subsection \<open>All results\<close>

text \<open>The arms of the decoder, by operation code; every other operation has a status only.\<close>

definition lift_list :: "(Status \<Rightarrow> 'a list \<Rightarrow> OperationResult) \<Rightarrow> 'a list dec \<Rightarrow> Status \<Rightarrow> OperationResult dec" where
  "lift_list K dec status = bnd (if Status_is_ok status then dec else ret []) (\<lambda>x. ret (K status x))"

definition lift_skip :: "OpCode \<Rightarrow> unit dec \<Rightarrow> Status \<Rightarrow> OperationResult dec" where
  "lift_skip op dec status =
     bnd (if Status_is_ok status then dec else ret ()) (\<lambda>_. ret (ResSession (session_res.StatusOnly op status)))"

definition decode_lock_result :: "Status \<Rightarrow> OperationResult dec" where
  "decode_lock_result status =
     (if status = Posix posix4.Ok then
        bnd decode_StateId (\<lambda>stateid. ret (ResState (state_res.Lock status (Some stateid) None)))
      else if status = State state4.Denied then
        bnd decode_LockDenied (\<lambda>denied. ret (ResState (state_res.Lock status None (Some denied))))
      else ret (ResState (state_res.Lock status None None)))"

definition decode_lockt_result :: "Status \<Rightarrow> OperationResult dec" where
  "decode_lockt_result status =
     (if status = State state4.Denied then
        bnd decode_LockDenied (\<lambda>denied. ret (ResState (state_res.LockTest status (Some denied))))
      else ret (ResState (state_res.LockTest status None)))"

definition decode_copy_result :: "Status \<Rightarrow> OperationResult dec" where
  "decode_copy_result status =
     (if status = Posix posix4.Ok then
        bnd decode_WriteResponse (\<lambda>response. bnd decode_CopyRequirements (\<lambda>requirements.
        ret (ResData (data_res.Copy status
          (Some \<lparr>cpr_response = Some response, cpr_requirements = Some requirements\<rparr>)))))
      else if status = Ext ext4.OffloadNoReqs then
        bnd decode_CopyRequirements (\<lambda>requirements.
        ret (ResData (data_res.Copy status
          (Some \<lparr>cpr_response = None, cpr_requirements = Some requirements\<rparr>))))
      else ret (ResData (data_res.Copy status None)))"

definition decode_read_result :: "Status \<Rightarrow> OperationResult dec" where
  "decode_read_result status =
     (if Status_is_ok status then
        bnd decode_bool (\<lambda>eof. bnd (read_opaque_vec NFS4_MAX_IO) (\<lambda>data.
        ret (ResData (data_res.Read status eof data))))
      else ret (ResData (data_res.Read status False [])))"

definition decode_write4_fields :: "WriteResult4 dec" where
  "decode_write4_fields =
     bnd read_u32 (\<lambda>count. bnd (read_enum ''stable_how4'' StableHow4_from_u32) (\<lambda>committed.
     bnd decode_verifier (\<lambda>verifier.
     ret \<lparr>wr4_count = count, wr4_committed = committed, wr4_verifier = verifier\<rparr>)))"

definition decode_copy_notify_fields :: "CopyNotifyResult dec" where
  "decode_copy_notify_fields =
     bnd decode_NfsTime4 (\<lambda>lease_time. bnd decode_StateId (\<lambda>stateid.
     bnd (read_array decode_NetLoc NFS4_MAX_NETLOCATIONS) (\<lambda>source_servers.
     ret \<lparr>cnr_lease_time = lease_time, cnr_stateid = stateid, cnr_source_servers = source_servers\<rparr>)))"

definition decode_offload_status_fields :: "OffloadStatusResult dec" where
  "decode_offload_status_fields =
     bnd read_u64 (\<lambda>count. bnd (read_array decode_u32 1) (\<lambda>complete.
     ret \<lparr>osr_count = count,
       osr_complete = (case complete of [] \<Rightarrow> None | raw # _ \<Rightarrow> Some (Status_from_u32 raw))\<rparr>))"

definition decode_read_plus_fields :: "ReadPlusResult dec" where
  "decode_read_plus_fields =
     bnd decode_bool (\<lambda>eof. bnd (read_array decode_ReadPlusContent NFS4_MAX_READ_PLUS_SEGMENTS) (\<lambda>contents.
     ret \<lparr>rpr_eof = eof, rpr_contents = contents\<rparr>))"

definition session_arms :: "(OpCode \<times> (Status \<Rightarrow> OperationResult dec)) list" where
  "session_arms =
    [(35, decode_set_client_id_result), (42, decode_exchange_id_result), (43, decode_create_session_result),
     (41, decode_bind_conn_to_session_result), (53, decode_sequence_result),
     (54, lift_ok (\<lambda>s x. ResSession (session_res.SetSsv s x))
        (bnd (read_opaque_vec NFS4_OPAQUE_LIMIT) (\<lambda>digest. ret \<lparr>ssr_digest = digest\<rparr>)))]"

definition state_arms :: "(OpCode \<times> (Status \<Rightarrow> OperationResult dec)) list" where
  "state_arms =
    [(18, decode_open_result),
     (20, lift_ok (\<lambda>s x. ResState (state_res.OpenConfirm s x)) decode_StateId),
     (4, lift_ok (\<lambda>s x. ResState (state_res.Close s x)) decode_StateId),
     (12, decode_lock_result), (13, decode_lockt_result),
     (14, lift_ok (\<lambda>s x. ResState (state_res.LockUnlock s x)) decode_StateId),
     (21, lift_ok (\<lambda>s x. ResState (state_res.OpenDowngrade s x)) decode_StateId),
     (55, lift_list (\<lambda>s x. ResState (state_res.TestStateIds s x))
        (bnd (read_array decode_u32 NFS4_MAX_OPS) (\<lambda>raw. ret (map Status_from_u32 raw)))),
     (46, decode_get_dir_delegation_result),
     (56, lift_ok (\<lambda>s x. ResState (state_res.WantDelegation s x)) decode_OpenDelegation)]"

definition layout_arms :: "(OpCode \<times> (Status \<Rightarrow> OperationResult dec)) list" where
  "layout_arms =
    [(47, decode_get_device_info_result), (48, decode_get_device_list_result), (49, decode_layout_commit_result),
     (50, decode_layout_get_result), (51, decode_layout_return_result)]"

definition name_arms :: "(OpCode \<times> (Status \<Rightarrow> OperationResult dec)) list" where
  "name_arms =
    [(10, lift_ok (\<lambda>s x. ResName (name_res.GetFh s x)) decode_FileHandle4),
     (9, lift_ok (\<lambda>s x. ResName (name_res.GetAttr s x)) decode_Fattr),
     (3, lift_ok (\<lambda>s x. ResName (name_res.Access s x))
        (bnd read_u32 (\<lambda>supported. bnd read_u32 (\<lambda>access.
         ret \<lparr>ar4_supported = supported, ar4_access = access\<rparr>)))),
     (33, lift_list (\<lambda>s x. ResName (name_res.SecInfo 33 s x)) (read_array decode_SecInfo NFS4_MAX_SECINFO_FLAVORS)),
     (52, lift_list (\<lambda>s x. ResName (name_res.SecInfo 52 s x)) (read_array decode_SecInfo NFS4_MAX_SECINFO_FLAVORS)),
     (26, decode_readdir_result),
     (27, lift_ok (\<lambda>s x. ResName (name_res.ReadLink s x)) (read_string NFS4_OPAQUE_LIMIT)),
     (34, lift_skip 34 (bnd decode_Bitmap (\<lambda>_. ret ()))),
     (28, lift_skip 28 skip_change_info), (11, lift_skip 11 skip_change_info),
     (29, lift_skip 29 (bnd skip_change_info (\<lambda>_. skip_change_info))),
     (6, lift_skip 6 (bnd skip_change_info (\<lambda>_. bnd decode_Bitmap (\<lambda>_. ret ()))))]"

definition data_arms :: "(OpCode \<times> (Status \<Rightarrow> OperationResult dec)) list" where
  "data_arms =
    [(25, decode_read_result),
     (38, lift_ok (\<lambda>s x. ResData (data_res.Write s x)) decode_write4_fields),
     (5, lift_ok (\<lambda>s x. ResData (data_res.Commit s x))
        (bnd decode_verifier (\<lambda>verifier. ret \<lparr>cr4_verifier = verifier\<rparr>))),
     (63, lift_ok (\<lambda>s x. ResData (data_res.IoAdvise s x)) (bnd decode_Bitmap (\<lambda>hints. ret \<lparr>iar_hints = hints\<rparr>))),
     (60, decode_copy_result),
     (61, lift_ok (\<lambda>s x. ResData (data_res.CopyNotify s x)) decode_copy_notify_fields),
     (67, lift_ok (\<lambda>s x. ResData (data_res.OffloadStatus s x)) decode_offload_status_fields),
     (68, lift_ok (\<lambda>s x. ResData (data_res.ReadPlus s x)) decode_read_plus_fields),
     (69, lift_ok (\<lambda>s x. ResData (data_res.Seek s x))
        (bnd decode_bool (\<lambda>eof. bnd read_u64 (\<lambda>offset. ret \<lparr>skr_eof = eof, skr_offset = offset\<rparr>)))),
     (70, lift_ok (\<lambda>s x. ResData (data_res.WriteSame s x)) decode_WriteResponse)]"

definition result_arms :: "(OpCode \<times> (Status \<Rightarrow> OperationResult dec)) list" where
  "result_arms = session_arms @ state_arms @ layout_arms @ name_arms @ data_arms"

definition decode_result_arm :: "OpCode \<Rightarrow> Status \<Rightarrow> OperationResult dec" where
  "decode_result_arm op status =
     (case map_of result_arms op of
        Some arm \<Rightarrow> arm status
      | None \<Rightarrow> ret (ResSession (session_res.StatusOnly op status)))"

definition decode_OperationResult :: "OperationResult dec" where
  "decode_OperationResult =
     bnd read_u32 (\<lambda>raw_op.
     bnd read_u32 (\<lambda>raw_status.
     decode_result_arm (case OpCode_from_u32 raw_op of Some op \<Rightarrow> op | None \<Rightarrow> Illegal) (Status_from_u32 raw_status)))"

definition decode_CompoundResponse :: "CompoundResponse dec" where
  "decode_CompoundResponse =
     bnd read_u32 (\<lambda>raw_status. bnd (read_string NFS4_OPAQUE_LIMIT) (\<lambda>tag.
     bnd (read_array decode_OperationResult NFS4_MAX_OPS) (\<lambda>results.
     ret \<lparr>cmp_status = Status_from_u32 raw_status, cmp_tag = tag, cmp_results = results\<rparr>)))"

subsection \<open>Every decoder stays within its input\<close>

lemma advances_skip_n [keeps_intros]: "keeps advances dec \<Longrightarrow> keeps advances (skip_n n dec)"
  by (induction n) (auto intro: keeps_intros)

lemma advances_read_enum [keeps_intros]: "keeps advances (read_enum type_name from_u32)"
  unfolding read_enum_def by (intro keeps_intros)

lemma advances_ids [keeps_intros]:
  "keeps advances decode_verifier" "keeps advances decode_session_id" "keeps advances decode_DeviceId"
  "keeps advances decode_StateId" "keeps advances decode_FileHandle4" "keeps advances decode_NfsTime4"
  unfolding decode_verifier_def decode_session_id_def decode_DeviceId_def decode_StateId_def
    decode_FileHandle4_def decode_NfsTime4_def Let_def
  by (intro keeps_intros)+

lemma advances_layout_parts [keeps_intros]:
  "keeps advances decode_LayoutType" "keeps advances decode_LayoutIomode" "keeps advances decode_LayoutContent"
  unfolding decode_LayoutType_def decode_LayoutIomode_def decode_LayoutContent_def
  by (intro keeps_intros)+

lemma advances_addresses [keeps_intros]:
  "keeps advances decode_NetAddr" "keeps advances decode_NetLoc" "keeps advances decode_LockOwner"
  "keeps advances decode_ChannelAttrs" "keeps advances decode_Layout"
  unfolding decode_NetAddr_def decode_NetLoc_def decode_LockOwner_def decode_ChannelAttrs_def
    decode_Layout_def
  by (intro keeps_intros)+

lemma advances_delegations [keeps_intros]:
  "keeps advances decode_NfsAce" "keeps advances decode_NfsSpaceLimit" "keeps advances decode_LockDenied"
  unfolding decode_NfsAce_def decode_NfsSpaceLimit_def decode_LockDenied_def
  by (intro keeps_intros)+

lemma advances_open_delegation [keeps_intros]: "keeps advances decode_OpenDelegation"
  unfolding decode_OpenDelegation_def Let_def by (intro keeps_intros)

lemma advances_skipped [keeps_intros]:
  "keeps advances skip_change_info" "keeps advances skip_server_owner" "keeps advances skip_impl_ids"
  "keeps advances skip_state_protect_reply"
  unfolding skip_change_info_def skip_server_owner_def skip_impl_ids_def skip_state_protect_reply_def
  by (intro keeps_intros)+

lemma advances_data_results [keeps_intros]:
  "keeps advances decode_SecInfo" "keeps advances decode_ReadPlusContent" "keeps advances decode_WriteResponse"
  "keeps advances decode_CopyRequirements" "keeps advances decode_DeviceAddr"
  unfolding decode_SecInfo_def decode_ReadPlusContent_def decode_WriteResponse_def
    decode_CopyRequirements_def decode_DeviceAddr_def
  by (intro keeps_intros)+

lemma advances_readdir_loop [keeps_intros]: "keeps advances (decode_readdir_loop entries)"
proof (rule rdl.keeps_loop)
  show "keeps advances (decode_readdir_step es)" for es
    unfolding decode_readdir_step_def by (intro keeps_intros)
qed simp_all

lemma advances_lifts [keeps_intros]:
  "keeps advances dec \<Longrightarrow> keeps advances (lift_ok K dec status)"
  "keeps advances ds \<Longrightarrow> keeps advances (lift_list L ds status)"
  "keeps advances sk \<Longrightarrow> keeps advances (lift_skip op sk status)"
  unfolding lift_ok_def lift_list_def lift_skip_def decode_if_ok_def by (intro keeps_intros; simp)+

lemmas result_decoder_defs =
  decode_set_client_id_result_def decode_exchange_id_result_def decode_create_session_result_def
  decode_bind_conn_to_session_result_def decode_sequence_result_def decode_open_result_def
  decode_lock_result_def decode_lockt_result_def decode_get_dir_delegation_result_def
  decode_get_device_info_result_def decode_get_device_list_result_def decode_layout_commit_result_def
  decode_layout_get_result_def decode_layout_return_result_def decode_readdir_result_def
  decode_copy_result_def decode_read_result_def

lemmas result_field_defs =
  decode_write4_fields_def decode_copy_notify_fields_def decode_offload_status_fields_def
  decode_read_plus_fields_def

lemmas result_arm_defs =
  session_arms_def state_arms_def layout_arms_def name_arms_def data_arms_def

lemma advances_arms: "list_all (\<lambda>(op, arm). \<forall>status. keeps advances (arm status)) result_arms"
  unfolding result_arms_def result_arm_defs list_all_append list.pred_inject prod.case result_decoder_defs
    result_field_defs
  by (intro conjI allI keeps_intros TrueI) simp_all

lemma advances_result_arm [keeps_intros]: "keeps advances (decode_result_arm op status)"
proof (cases "map_of result_arms op")
  case (Some arm)
  then have "(op, arm) \<in> set result_arms" by (rule map_of_SomeD)
  with advances_arms have "keeps advances (arm status)" by (auto simp: list_all_iff)
  with Some show ?thesis by (simp add: decode_result_arm_def)
qed (simp add: decode_result_arm_def keeps_intros)

lemma advances_operation_result [keeps_intros]: "keeps advances decode_OperationResult"
  unfolding decode_OperationResult_def by (intro keeps_intros)

subsection \<open>What a decoded result carries\<close>

text \<open>
  \<open>carries r\<close>: the content of a result is there exactly when its status calls for it, and within the limits
  of the protocol constants; an operation that returns something never has a mere status.
\<close>

definition content_codes :: "OpCode list" where
  "content_codes = [3, 4, 5, 9, 10, 12, 13, 14, 18, 20, 21, 25, 26, 27, 33, 35, 38, 41, 42, 43, 46, 47, 48, 49,
     50, 51, 52, 53, 54, 55, 56, 60, 61, 63, 67, 68, 69, 70]"

primrec session_carries :: "session_res \<Rightarrow> bool" where
  "session_carries (session_res.SetClientId s r c) \<longleftrightarrow>
     (r \<noteq> None \<longleftrightarrow> Status_is_ok s) \<and> (c \<noteq> None \<longleftrightarrow> s = State state4.ClidInUse)"
| "session_carries (session_res.ExchangeId s r) \<longleftrightarrow> (r \<noteq> None \<longleftrightarrow> Status_is_ok s)"
| "session_carries (session_res.CreateSession s r) \<longleftrightarrow> (r \<noteq> None \<longleftrightarrow> Status_is_ok s)"
| "session_carries (session_res.BindConnToSession s r) \<longleftrightarrow> (r \<noteq> None \<longleftrightarrow> Status_is_ok s)"
| "session_carries (session_res.Sequence s r) \<longleftrightarrow> (r \<noteq> None \<longleftrightarrow> Status_is_ok s)"
| "session_carries (session_res.StatusOnly op s) \<longleftrightarrow> op \<notin> set content_codes"
| "session_carries (session_res.SetSsv s r) \<longleftrightarrow> (r \<noteq> None \<longleftrightarrow> Status_is_ok s)"

primrec state_carries :: "state_res \<Rightarrow> bool" where
  "state_carries (state_res.Open s r) \<longleftrightarrow> (r \<noteq> None \<longleftrightarrow> Status_is_ok s)"
| "state_carries (state_res.OpenConfirm s r) \<longleftrightarrow> (r \<noteq> None \<longleftrightarrow> Status_is_ok s)"
| "state_carries (state_res.Close s r) \<longleftrightarrow> (r \<noteq> None \<longleftrightarrow> Status_is_ok s)"
| "state_carries (state_res.Lock s r d) \<longleftrightarrow>
     (r \<noteq> None \<longleftrightarrow> Status_is_ok s) \<and> (d \<noteq> None \<longleftrightarrow> s = State state4.Denied)"
| "state_carries (state_res.LockTest s d) \<longleftrightarrow> (d \<noteq> None \<longleftrightarrow> s = State state4.Denied)"
| "state_carries (state_res.LockUnlock s r) \<longleftrightarrow> (r \<noteq> None \<longleftrightarrow> Status_is_ok s)"
| "state_carries (state_res.OpenDowngrade s r) \<longleftrightarrow> (r \<noteq> None \<longleftrightarrow> Status_is_ok s)"
| "state_carries (state_res.TestStateIds s xs) \<longleftrightarrow> length xs \<le> NFS4_MAX_OPS \<and> (xs \<noteq> [] \<longrightarrow> Status_is_ok s)"
| "state_carries (state_res.GetDirDelegation s r) \<longleftrightarrow> (r \<noteq> None \<longleftrightarrow> Status_is_ok s)"
| "state_carries (state_res.WantDelegation s r) \<longleftrightarrow> (r \<noteq> None \<longleftrightarrow> Status_is_ok s)"

primrec layout_carries :: "layout_res \<Rightarrow> bool" where
  "layout_carries (layout_res.GetDeviceInfo s r m) \<longleftrightarrow>
     (r \<noteq> None \<longleftrightarrow> Status_is_ok s) \<and> (m \<noteq> None \<longleftrightarrow> s = State state4.TooSmall)"
| "layout_carries (layout_res.GetDeviceList s r) \<longleftrightarrow> (r \<noteq> None \<longleftrightarrow> Status_is_ok s)"
| "layout_carries (layout_res.LayoutCommit s r) \<longleftrightarrow> (r \<noteq> None \<longleftrightarrow> Status_is_ok s)"
| "layout_carries (layout_res.LayoutGet s r w) \<longleftrightarrow>
     (r \<noteq> None \<longleftrightarrow> Status_is_ok s) \<and> (w \<noteq> None \<longleftrightarrow> s = Sess sess4.LayoutTryLater)"
| "layout_carries (layout_res.LayoutReturn s r) \<longleftrightarrow> (r \<noteq> None \<longleftrightarrow> Status_is_ok s)"

primrec name_carries :: "name_res \<Rightarrow> bool" where
  "name_carries (name_res.GetFh s r) \<longleftrightarrow>
     (r \<noteq> None \<longleftrightarrow> Status_is_ok s) \<and> pred_option (\<lambda>h. length (fh4_data h) \<le> NFS4_FHSIZE) r"
| "name_carries (name_res.GetAttr s r) \<longleftrightarrow> (r \<noteq> None \<longleftrightarrow> Status_is_ok s)"
| "name_carries (name_res.Access s r) \<longleftrightarrow> (r \<noteq> None \<longleftrightarrow> Status_is_ok s)"
| "name_carries (name_res.SecInfo op s xs) \<longleftrightarrow>
     (op = 33 \<or> op = 52) \<and> length xs \<le> NFS4_MAX_SECINFO_FLAVORS \<and> (xs \<noteq> [] \<longrightarrow> Status_is_ok s)"
| "name_carries (name_res.ReadDir s v es eof) \<longleftrightarrow>
     length v = 8 \<and> length es \<le> NFS4_MAX_DIR_ENTRIES \<and> (es \<noteq> [] \<or> eof \<longrightarrow> Status_is_ok s)"
| "name_carries (name_res.ReadLink s r) \<longleftrightarrow> (r \<noteq> None \<longleftrightarrow> Status_is_ok s)"

primrec data_carries :: "data_res \<Rightarrow> bool" where
  "data_carries (data_res.Read s eof data) \<longleftrightarrow>
     length data \<le> NFS4_MAX_IO \<and> (data \<noteq> [] \<or> eof \<longrightarrow> Status_is_ok s)"
| "data_carries (data_res.Write s r) \<longleftrightarrow> (r \<noteq> None \<longleftrightarrow> Status_is_ok s)"
| "data_carries (data_res.Commit s r) \<longleftrightarrow> (r \<noteq> None \<longleftrightarrow> Status_is_ok s)"
| "data_carries (data_res.IoAdvise s r) \<longleftrightarrow> (r \<noteq> None \<longleftrightarrow> Status_is_ok s)"
| "data_carries (data_res.Copy s r) \<longleftrightarrow>
     (r \<noteq> None \<longleftrightarrow> Status_is_ok s \<or> s = Ext ext4.OffloadNoReqs) \<and>
     pred_option (\<lambda>c. cpr_requirements c \<noteq> None \<and> (cpr_response c \<noteq> None \<longleftrightarrow> Status_is_ok s)) r"
| "data_carries (data_res.CopyNotify s r) \<longleftrightarrow> (r \<noteq> None \<longleftrightarrow> Status_is_ok s)"
| "data_carries (data_res.OffloadStatus s r) \<longleftrightarrow> (r \<noteq> None \<longleftrightarrow> Status_is_ok s)"
| "data_carries (data_res.ReadPlus s r) \<longleftrightarrow> (r \<noteq> None \<longleftrightarrow> Status_is_ok s)"
| "data_carries (data_res.Seek s r) \<longleftrightarrow> (r \<noteq> None \<longleftrightarrow> Status_is_ok s)"
| "data_carries (data_res.WriteSame s r) \<longleftrightarrow> (r \<noteq> None \<longleftrightarrow> Status_is_ok s)"

primrec carries :: "OperationResult \<Rightarrow> bool" where
  "carries (ResSession r) = session_carries r"
| "carries (ResState r) = state_carries r"
| "carries (ResLayout r) = layout_carries r"
| "carries (ResName r) = name_carries r"
| "carries (ResData r) = data_carries r"

definition answers :: "OpCode \<Rightarrow> Status \<Rightarrow> OperationResult \<Rightarrow> bool" where
  "answers op status r \<longleftrightarrow>
     OperationResult_op_code r = op \<and> OperationResult_status r = status \<and> carries r"

lemma returns_ok:
  assumes "\<not> Status_is_ok s \<Longrightarrow> P (K s None)" "\<And>x. Status_is_ok s \<Longrightarrow> Q x \<Longrightarrow> P (K s (Some x))" "returns Q dec"
  shows "returns P (lift_ok K dec s)"
  using assms unfolding lift_ok_def decode_if_ok_def
  by (auto simp: returns_def bnd_Inr_iff ret_apply split: if_splits)

lemma returns_ok_any [returns_intros]:
  "(\<not> Status_is_ok s \<Longrightarrow> P (K s None)) \<Longrightarrow> (\<And>x. Status_is_ok s \<Longrightarrow> P (K s (Some x))) \<Longrightarrow>
   returns P (lift_ok K dec s)"
  by (rule returns_ok [where Q = "\<lambda>_. True"]) (auto simp: returns_def)

lemma returns_list:
  assumes "P (K s [])" "\<And>xs. Status_is_ok s \<Longrightarrow> Q xs \<Longrightarrow> P (K s xs)" "returns Q dec"
  shows "returns P (lift_list K dec s)"
  using assms unfolding lift_list_def
  by (auto simp: returns_def bnd_Inr_iff ret_apply split: if_splits)

lemma returns_skip [returns_intros]:
  "P (ResSession (session_res.StatusOnly op s)) \<Longrightarrow> returns P (lift_skip op dec s)"
  unfolding lift_skip_def by (auto simp: returns_def bnd_Inr_iff ret_apply)

lemma decode_readdir_loop_length:
  assumes "decode_readdir_loop entries d = (Inr es, d')" "length entries \<le> NFS4_MAX_DIR_ENTRIES"
  shows "length es \<le> NFS4_MAX_DIR_ENTRIES"
  using assms
proof (induction entries d rule: decode_readdir_loop.induct)
  case (1 entries d)
  from "1.prems"(1) obtain st d1 where step: "decode_readdir_step entries d = (Inr st, d1)"
    by (auto simp: decode_readdir_loop.simps [of entries] split: prod.splits sum.splits)
  show ?case
  proof (cases st)
    case (Continue entries')
    with step have "length entries' \<le> NFS4_MAX_DIR_ENTRIES"
      by (auto simp: decode_readdir_step_def bnd_Inr_iff ret_apply fail_apply split: if_splits)
    with "1.IH" [OF step [symmetric]] Continue "1.prems" step show ?thesis
      by (auto simp: decode_readdir_loop.simps [of entries])
  next
    case (Break entries')
    with step have "entries' = entries"
      by (auto simp: decode_readdir_step_def bnd_Inr_iff ret_apply fail_apply split: if_splits)
    with Break "1.prems" step show ?thesis by (auto simp: decode_readdir_loop.simps [of entries])
  qed
qed

lemma returns_readdir_loop: "returns (\<lambda>es. length es \<le> NFS4_MAX_DIR_ENTRIES) (decode_readdir_loop [])"
  using decode_readdir_loop_length by (fastforce simp: returns_def)

lemma returns_verifier: "returns (\<lambda>v. length v = 8) decode_verifier"
  unfolding decode_verifier_def read_array_of_def
  by (intro returns_intros) simp

lemma returns_handle4: "returns (\<lambda>h. length (fh4_data h) \<le> NFS4_FHSIZE) decode_FileHandle4"
  unfolding decode_FileHandle4_def read_opaque_vec_def
  by (rule returns_bnd_from [OF returns_read_opaque]) (intro returns_intros, simp)

lemma answers_session_arms: "list_all (\<lambda>(op, arm). \<forall>status. returns (answers op status) (arm status)) session_arms"
  unfolding session_arms_def list.pred_inject prod.case result_decoder_defs
  by (intro conjI allI returns_intros TrueI) (simp_all add: answers_def Status_is_ok_def)

lemma answers_tests:
  "returns (answers 55 status) (lift_list (\<lambda>s x. ResState (state_res.TestStateIds s x))
     (bnd (read_array decode_u32 NFS4_MAX_OPS) (\<lambda>raw. ret (map Status_from_u32 raw))) status)"
proof (rule returns_list)
  show "returns (\<lambda>xs. length xs \<le> NFS4_MAX_OPS)
      (bnd (read_array decode_u32 NFS4_MAX_OPS) (\<lambda>raw. ret (map Status_from_u32 raw)))"
    by (rule returns_bnd_from [OF returns_read_array]) (intro returns_intros, simp)
qed (simp_all add: answers_def)

lemma answers_state_arms: "list_all (\<lambda>(op, arm). \<forall>status. returns (answers op status) (arm status)) state_arms"
  unfolding state_arms_def list.pred_inject prod.case result_decoder_defs
  by (intro conjI allI TrueI; (rule answers_tests
      | (intro returns_intros; simp add: answers_def Status_is_ok_def) | simp))

lemma answers_layout_arms: "list_all (\<lambda>(op, arm). \<forall>status. returns (answers op status) (arm status)) layout_arms"
  unfolding layout_arms_def list.pred_inject prod.case result_decoder_defs
  by (intro conjI allI returns_intros TrueI) (simp_all add: answers_def Status_is_ok_def)

lemma answers_readdir: "returns (answers 26 status) (decode_readdir_result status)"
  unfolding decode_readdir_result_def
  by (rule returns_if, rule returns_ret, simp add: answers_def,
      rule returns_bnd_from [OF returns_verifier], rule returns_bnd_from [OF returns_readdir_loop],
      intro returns_intros, simp add: answers_def)

lemma answers_secinfo:
  "op = 33 \<or> op = 52 \<Longrightarrow> returns (answers op status) (lift_list (\<lambda>s x. ResName (name_res.SecInfo op s x))
     (read_array decode_SecInfo NFS4_MAX_SECINFO_FLAVORS) status)"
  by (rule returns_list [OF _ _ returns_read_array]) (simp_all add: answers_def)

lemma answers_getfh:
  "returns (answers 10 status) (lift_ok (\<lambda>s x. ResName (name_res.GetFh s x)) decode_FileHandle4 status)"
  by (rule returns_ok [OF _ _ returns_handle4]) (simp_all add: answers_def)

lemma answers_name_arms: "list_all (\<lambda>(op, arm). \<forall>status. returns (answers op status) (arm status)) name_arms"
  unfolding name_arms_def list.pred_inject prod.case
  by (intro conjI allI TrueI; (rule answers_readdir answers_getfh | (rule answers_secinfo, simp)
      | (intro returns_intros; simp add: answers_def Status_is_ok_def content_codes_def) | simp))

lemma answers_read: "returns (answers 25 status) (decode_read_result status)"
  unfolding decode_read_result_def read_opaque_vec_def
  by (rule returns_if, rule returns_bnd, rule returns_bnd_from [OF returns_read_opaque])
    (intro returns_intros, simp add: answers_def)+

lemma answers_copy: "returns (answers 60 status) (decode_copy_result status)"
  unfolding decode_copy_result_def
  by (intro returns_intros) (simp_all add: answers_def Status_is_ok_def)

lemma answers_data_arms: "list_all (\<lambda>(op, arm). \<forall>status. returns (answers op status) (arm status)) data_arms"
  unfolding data_arms_def list.pred_inject prod.case
  by (intro conjI allI answers_read answers_copy returns_intros TrueI)
    (simp_all add: answers_def Status_is_ok_def)

lemmas answers_arms =
  answers_session_arms answers_state_arms answers_layout_arms answers_name_arms answers_data_arms

lemma answers_result_arm: "returns (answers op status) (decode_result_arm op status)"
proof (cases "map_of result_arms op")
  case (Some arm)
  then have "(op, arm) \<in> set result_arms" by (rule map_of_SomeD)
  with answers_arms have "returns (answers op status) (arm status)"
    by (auto simp: list_all_iff result_arms_def)
  with Some show ?thesis by (simp add: decode_result_arm_def)
next
  case None
  then have "op \<notin> set content_codes"
    by (auto simp: content_codes_def result_arms_def result_arm_defs)
  with None show ?thesis by (simp add: decode_result_arm_def returns_ret answers_def)
qed

definition known_code :: "OpCode \<Rightarrow> bool" where
  "known_code op \<longleftrightarrow> op \<in> fst ` set OpCode_names"

lemma read_u32_advances:
  assumes "read_u32 d = (Inr v, d')"
  shows "dec_position d' = dec_position d + 4" "dec_input d' = dec_input d" "dec_position d' \<le> length (dec_input d)"
  using assms
  by (auto simp: read_u32_def read_byte_array_def read_bytes_def checked_add_usize_def bnd_Inr_iff
      ret_apply fail_apply split: if_splits)

lemma decode_OperationResult_Inr:
  assumes "decode_OperationResult d = (Inr r, d')"
  shows "carries r" "known_code (OperationResult_op_code r)" "dec_position d + 8 \<le> dec_position d'"
    "dec_input d' = dec_input d" "dec_position d' \<le> length (dec_input d)"
proof -
  define op where "op raw = (case OpCode_from_u32 raw of Some c \<Rightarrow> c | None \<Rightarrow> Illegal)" for raw
  from assms obtain raw d1 st d2 where 1: "read_u32 d = (Inr raw, d1)" and 2: "read_u32 d1 = (Inr st, d2)"
    and 3: "decode_result_arm (op raw) (Status_from_u32 st) d2 = (Inr r, d')"
    by (auto simp: decode_OperationResult_def bnd_Inr_iff op_def)
  from returnsD [OF answers_result_arm 3] have "answers (op raw) (Status_from_u32 st) r" .
  then show "carries r" "known_code (OperationResult_op_code r)"
    by (auto simp: answers_def known_code_def op_def OpCode_from_u32_def Illegal_def OpCode_names_def
        split: option.splits if_splits)
  from keepsD [OF advances_result_arm 3] read_u32_advances [OF 1] read_u32_advances [OF 2]
  show "dec_position d + 8 \<le> dec_position d'" "dec_input d' = dec_input d"
    "dec_position d' \<le> length (dec_input d)"
    by (auto simp: advances_def)
qed

lemma read_results:
  assumes "read_n n decode_OperationResult d = (Inr rs, d')" "dec_position d \<le> length (dec_input d)"
  shows "list_all carries rs \<and> list_all (\<lambda>r. known_code (OperationResult_op_code r)) rs \<and> length rs = n \<and>
    dec_position d + 8 * n \<le> dec_position d' \<and> dec_position d' \<le> length (dec_input d) \<and> dec_input d' = dec_input d"
  using assms
proof (induction n arbitrary: d rs)
  case (Suc n)
  then obtain r d1 rs' where 1: "decode_OperationResult d = (Inr r, d1)"
    and 2: "read_n n decode_OperationResult d1 = (Inr rs', d')" and rs: "rs = r # rs'"
    by (auto simp: bnd_Inr_iff ret_apply)
  from decode_OperationResult_Inr [OF 1] Suc.IH [OF 2] show ?case by (auto simp: rs)
qed (simp add: ret_apply)

lemma read_string_Inr:
  assumes "read_string limit d = (Inr s, d')" "dec_position d \<le> length (dec_input d)"
  obtains k e where "read_u32 d = (Inr k, e)" "dec_position e \<le> dec_position d'" "dec_input d' = dec_input e"
proof -
  from assms(1) obtain n k e d2 bs where 1: "read_u32 d = (Inr k, e)" and 2: "read_fixed_opaque n e = (Inr bs, d2)"
    and 3: "d' = d2"
    by (auto simp: read_string_def read_opaque_def read_len_def bnd_Inr_iff ret_apply fail_apply
        split: if_splits)
  from keepsD [OF advances_opaque(1) 2] read_u32_advances [OF 1] 3 assms(2) that [OF 1] show ?thesis
    by (auto simp: advances_def)
qed

text \<open>Whatever bytes arrive, a COMPOUND response that decodes has at most 128 results, each of an operation
  of the protocol, takes at least eight bytes of the input per result and never more than there are, and
  every result carries its content exactly when its status calls for it: a successful READ has its data,
  an unsuccessful one none, a refused LOCK has the conflicting lock. So a client that finds a successful
  result finds its content.\<close>

lemma decoded_response:
  assumes "decode_CompoundResponse (decoder_new bs) = (Inr response, d)"
  shows "length (cmp_results response) \<le> 128 \<and> 8 * length (cmp_results response) + 12 \<le> length bs \<and>
    list_all carries (cmp_results response) \<and>
    list_all (\<lambda>r. known_code (OperationResult_op_code r)) (cmp_results response)"
proof -
  from assms obtain st d1 tag d2 n d3 where 1: "read_u32 (decoder_new bs) = (Inr st, d1)"
    and 2: "read_string NFS4_OPAQUE_LIMIT d1 = (Inr tag, d2)" and 3: "read_len NFS4_MAX_OPS d2 = (Inr n, d3)"
    and 4: "read_n n decode_OperationResult d3 = (Inr (cmp_results response), d)"
    by (auto simp: decode_CompoundResponse_def read_array_def bnd_Inr_iff ret_apply)
  from 2 obtain k e1 where tag: "read_u32 d1 = (Inr k, e1)" and e1: "dec_position e1 \<le> dec_position d2"
    "dec_input d2 = dec_input e1"
    by (rule read_string_Inr) (use read_u32_advances [OF 1] in auto)
  from 3 obtain m where len: "read_u32 d2 = (Inr m, d3)" and n: "n \<le> NFS4_MAX_OPS"
    by (auto simp: read_len_def bnd_Inr_iff ret_apply fail_apply split: if_splits)
  note pos = read_u32_advances [OF 1] read_u32_advances [OF tag] e1 read_u32_advances [OF len]
  from read_results [OF 4] pos n show ?thesis
    by (auto simp: decoder_new_def NFS4_MAX_OPS_def)
qed

lemmas decoded_carries = decoded_response [THEN conjunct2, THEN conjunct2, THEN conjunct1]

lemma decodes_read_n:
  assumes "list_all2 (decodes dec) bss xs"
  shows "decodes (read_n (length xs) dec) (concat bss) xs"
  using assms
proof (induction rule: list_all2_induct)
  case (Cons bs bss x xs)
  have "decodes (bnd (read_n (length xs) dec) (\<lambda>vs. ret (x # vs))) (concat bss) (x # xs)"
    by (rule decodes_bnd_ret [OF Cons.IH]) simp
  with Cons.hyps(1) show ?case by (auto intro: decodes_bnd)
qed (simp add: decodes_ret)

lemma decodes_operation_result:
  assumes "OpCode_from_u32 op = Some op" "decodes (decode_result_arm op (Status_from_u32 raw)) bs r"
  shows "decodes decode_OperationResult (u32_to_be_bytes op @ u32_to_be_bytes raw @ bs) r"
  unfolding decode_OperationResult_def
  by (rule decodes_bnd, rule decodes_read_u32, rule decodes_bnd, rule decodes_read_u32)
    (simp add: assms)

lemma decodes_response:
  assumes "list_all2 (decodes decode_OperationResult) bss rs" "length rs \<le> 128"
    "length tag \<le> 1024" "utf8_valid (as_bytes tag)"
  shows "decodes decode_CompoundResponse
    (u32_to_be_bytes raw @ opaque_wire (as_bytes tag) @
     u32_to_be_bytes (of_nat (length rs)) @ concat bss)
    \<lparr>cmp_status = Status_from_u32 raw, cmp_tag = tag, cmp_results = rs\<rparr>"
proof -
  have results: "decodes (read_array decode_OperationResult NFS4_MAX_OPS) (u32_to_be_bytes (of_nat (length rs)) @ concat bss) rs"
    unfolding read_array_def
    by (rule decodes_bnd, rule decodes_read_len)
      (use assms in \<open>simp_all add: NFS4_MAX_OPS_def decodes_read_n\<close>)
  show ?thesis
    unfolding decode_CompoundResponse_def
    by (rule decodes_bnd, rule decodes_read_u32, rule decodes_bnd, rule decodes_read_string)
      (use assms results in \<open>auto simp: NFS4_OPAQUE_LIMIT_def intro: decodes_bnd_ret\<close>)
qed

end
