(* ===== verification/V4_Response.thy ===== *)
theory V4_Response
  imports V4_Compound V4_Codec
begin

text \<open>
  What the client takes from a COMPOUND response (\<open>src/v4/client.rs\<close>): the typed result of one operation,
  with the checks of lengths and counts, the pages of a directory or device listing, and the small
  translations from the arguments of the client to those of the protocol.
\<close>

subsection \<open>Finding the result of an operation\<close>

text \<open>\<open>iter().find_map\<close>\<close>

fun find_map :: "('a \<Rightarrow> 'b option) \<Rightarrow> 'a list \<Rightarrow> 'b option" where
  "find_map f [] = None"
| "find_map f (x # xs) = (case f x of Some y \<Rightarrow> Some y | None \<Rightarrow> find_map f xs)"

definition response_find :: "(OperationResult \<Rightarrow> 'a result option) \<Rightarrow> string \<Rightarrow> CompoundResponse \<Rightarrow> 'a result" where
  "response_find select op response =
     (case find_map select (cmp_results response) of
        Some r \<Rightarrow> r
      | None \<Rightarrow> Inl (Protocol ''COMPOUND did not include {} result'' [FStr op]))"

text \<open>The arms of an extractor: content of a successful result, or the status as an error. Some of them have
  an arm of their own for a successful result without content.\<close>

definition ok_content :: "string \<Rightarrow> Status \<Rightarrow> 'a option \<Rightarrow> 'a result" where
  "ok_content op status content =
     (case content of
        Some x \<Rightarrow> if Status_is_ok status then Inr x else Inl (NfsV4 op status)
      | None \<Rightarrow> Inl (NfsV4 op status))"

definition ok_content_or :: "error \<Rightarrow> string \<Rightarrow> Status \<Rightarrow> 'a option \<Rightarrow> 'a result" where
  "ok_content_or missing op status content =
     (if Status_is_ok status then ok_or content missing else Inl (NfsV4 op status))"

definition without_result :: "string \<Rightarrow> error" where
  "without_result op = Protocol ''NFSv4 {} returned OK without a result'' [FStr op]"

fun debug_option :: "fmt_arg option \<Rightarrow> fmt_arg" where
  "debug_option None = FStr ''None''"
| "debug_option (Some x) = x"

definition response_exchange_id :: "CompoundResponse \<Rightarrow> ExchangeIdResult result" where
  "response_exchange_id response =
     (case cmp_results response of
        [] \<Rightarrow> Inl (Protocol ''EXCHANGE_ID returned no result'' [])
      | r # _ \<Rightarrow>
          (case r of
             ResSession (session_res.ExchangeId status (Some content)) \<Rightarrow>
               if Status_is_ok status then Inr content
               else Inl (Protocol ''EXCHANGE_ID failed with {}'' [FNat (unat (Status_as_u32 status))])
           | _ \<Rightarrow> Inl (Protocol ''EXCHANGE_ID failed with {}''
               [FNat (unat (Status_as_u32 (OperationResult_status r)))])))"

definition response_create_session :: "CompoundResponse \<Rightarrow> CreateSessionResult result" where
  "response_create_session response =
     (case cmp_results response of
        [] \<Rightarrow> Inl (Protocol ''CREATE_SESSION returned no result'' [])
      | r # _ \<Rightarrow>
          (case r of
             ResSession (session_res.CreateSession status (Some content)) \<Rightarrow>
               if Status_is_ok status then Inr content
               else Inl (Protocol ''CREATE_SESSION failed with {}'' [FNat (unat (Status_as_u32 status))])
           | _ \<Rightarrow> Inl (Protocol ''CREATE_SESSION failed with {}''
               [FNat (unat (Status_as_u32 (OperationResult_status r)))])))"

definition response_open :: "CompoundResponse \<Rightarrow> OpenResult result" where
  "response_open =
     response_find (\<lambda>r. case r of
       ResState (state_res.Open status x) \<Rightarrow> Some (ok_content ''OPEN'' status x)
     | _ \<Rightarrow> None) ''OPEN''"

definition response_getfh :: "CompoundResponse \<Rightarrow> FileHandle4 result" where
  "response_getfh =
     response_find (\<lambda>r. case r of
       ResName (name_res.GetFh status x) \<Rightarrow> Some (ok_content ''GETFH'' status x)
     | _ \<Rightarrow> None) ''GETFH''"

definition response_getattr :: "CompoundResponse \<Rightarrow> Fattr result" where
  "response_getattr =
     response_find (\<lambda>r. case r of
       ResName (name_res.GetAttr status x) \<Rightarrow> Some (ok_content ''GETATTR'' status x)
     | _ \<Rightarrow> None) ''GETATTR''"

definition response_access :: "CompoundResponse \<Rightarrow> AccessResult4 result" where
  "response_access =
     response_find (\<lambda>r. case r of
       ResName (name_res.Access status x) \<Rightarrow> Some (ok_content ''ACCESS'' status x)
     | _ \<Rightarrow> None) ''ACCESS''"

definition response_bind_conn_to_session :: "CompoundResponse \<Rightarrow> BindConnToSessionResult result" where
  "response_bind_conn_to_session =
     response_find (\<lambda>r. case r of
       ResSession (session_res.BindConnToSession status x) \<Rightarrow> Some (ok_content_or (without_result ''BIND_CONN_TO_SESSION'') ''BIND_CONN_TO_SESSION'' status x)
     | _ \<Rightarrow> None) ''BIND_CONN_TO_SESSION''"

definition response_set_ssv :: "CompoundResponse \<Rightarrow> SetSsvResult result" where
  "response_set_ssv =
     response_find (\<lambda>r. case r of
       ResSession (session_res.SetSsv status x) \<Rightarrow> Some (ok_content_or (without_result ''SET_SSV'') ''SET_SSV'' status x)
     | _ \<Rightarrow> None) ''SET_SSV''"

definition response_secinfo :: "OpCode \<Rightarrow> CompoundResponse \<Rightarrow> SecInfo list result" where
  "response_secinfo expected =
     response_find (\<lambda>r. case r of
       ResName (name_res.SecInfo op status flavors) \<Rightarrow>
         if op = expected then Some (ok_content (OpCode_name expected) status (Some flavors)) else None
     | _ \<Rightarrow> None) (OpCode_name expected)"

definition response_verify :: "OpCode \<Rightarrow> Status \<Rightarrow> CompoundResponse \<Rightarrow> bool result" where
  "response_verify expected false_status =
     response_find (\<lambda>r. case r of
       ResSession (session_res.StatusOnly op status) \<Rightarrow>
         if op = expected
         then Some (if Status_is_ok status then Inr True
           else if status = false_status then Inr False
           else Inl (NfsV4 (OpCode_name expected) status))
         else None
     | _ \<Rightarrow> None) (OpCode_name expected)"

definition validate_read_result_size4 :: "u32 \<Rightarrow> usize \<Rightarrow> bool \<Rightarrow> unit result" where
  "validate_read_result_size4 requested_count data_len eof =
     (if data_len > unat requested_count
      then Inl (Protocol ''NFSv4 READ returned {} bytes for a {} byte request''
        [FNat data_len, FNat (unat requested_count)])
      else if requested_count > 0 \<and> data_len = 0 \<and> \<not> eof
      then Inl (Protocol ''NFSv4 READ returned no data before EOF'' [])
      else Inr ())"

fun read_plus_len :: "ReadPlusContent \<Rightarrow> u64" where
  "read_plus_len (PlusData offset data) = of_nat (length data)"
| "read_plus_len (PlusHole offset len) = len"

fun read_plus_total :: "u64 \<Rightarrow> ReadPlusContent list \<Rightarrow> u64 result" where
  "read_plus_total returned [] = Inr returned"
| "read_plus_total returned (content # rest) =
     bindR (ok_or (checked_add_u64 returned (read_plus_len content))
       (Protocol ''NFSv4 READ_PLUS returned content length overflow'' [])) (\<lambda>returned. read_plus_total returned rest)"

definition validate_read_plus_result :: "u32 \<Rightarrow> ReadPlusResult \<Rightarrow> unit result" where
  "validate_read_plus_result requested_count r =
     bindR (read_plus_total 0 (rpr_contents r)) (\<lambda>returned.
     if returned > ucast requested_count
     then Inl (Protocol ''NFSv4 READ_PLUS returned {} bytes for a {} byte request''
       [FNat (unat returned), FNat (unat requested_count)])
     else if requested_count > 0 \<and> returned = 0 \<and> \<not> rpr_eof r
     then Inl (Protocol ''NFSv4 READ_PLUS returned no content before EOF'' [])
     else Inr ())"

definition validate_write_result_count4 :: "u32 \<Rightarrow> u32 \<Rightarrow> unit result" where
  "validate_write_result_count4 requested_count returned_count =
     (if returned_count > requested_count
      then Inl (Protocol ''NFSv4 WRITE reported {} bytes for a {} byte request''
        [FNat (unat returned_count), FNat (unat requested_count)])
      else if requested_count > 0 \<and> returned_count = 0
      then Inl (Protocol ''NFSv4 WRITE accepted zero bytes'' [])
      else Inr ())"

definition validate_u64_write_result_count :: "string \<Rightarrow> u64 \<Rightarrow> u64 \<Rightarrow> unit result" where
  "validate_u64_write_result_count operation requested_count returned_count =
     (if returned_count > requested_count
      then Inl (Protocol ''NFSv4 {} reported {} bytes for a {} byte request''
        [FStr operation, FNat (unat returned_count), FNat (unat requested_count)])
      else if requested_count > 0 \<and> returned_count = 0
      then Inl (Protocol ''NFSv4 {} accepted zero bytes'' [FStr operation])
      else Inr ())"

definition validate_copy_result :: "u64 \<Rightarrow> CopyResult \<Rightarrow> unit result" where
  "validate_copy_result requested_count copy =
     (case cpr_response copy of
        None \<Rightarrow> Inl (Protocol ''NFSv4 COPY returned OK without a write response'' [])
      | Some write_response \<Rightarrow>
          if wrp_count write_response > requested_count
          then Inl (Protocol ''NFSv4 COPY reported {} bytes for a {} byte request''
            [FNat (unat (wrp_count write_response)), FNat (unat requested_count)])
          else if requested_count > 0 \<and> wrp_count write_response = 0 \<and> wrp_callback_id write_response = None
          then Inl (Protocol ''NFSv4 COPY accepted zero bytes'' [])
          else Inr ())"

definition response_read :: "u32 \<Rightarrow> CompoundResponse \<Rightarrow> (bool \<times> bytes) result" where
  "response_read requested_count =
     response_find (\<lambda>r. case r of
       ResData (data_res.Read status eof data) \<Rightarrow>
         Some (if Status_is_ok status
           then bindR (validate_read_result_size4 requested_count (length data) eof) (\<lambda>_. Inr (eof, data))
           else Inl (NfsV4 ''READ'' status))
     | _ \<Rightarrow> None) ''READ''"

definition response_read_plus :: "u32 \<Rightarrow> CompoundResponse \<Rightarrow> ReadPlusResult result" where
  "response_read_plus requested_count =
     response_find (\<lambda>r. case r of
       ResData (data_res.ReadPlus status x) \<Rightarrow> Some (bindR (ok_content ''READ_PLUS'' status x) (\<lambda>content. bindR (validate_read_plus_result requested_count content) (\<lambda>_. Inr content)))
     | _ \<Rightarrow> None) ''READ_PLUS''"

definition response_readlink :: "CompoundResponse \<Rightarrow> string result" where
  "response_readlink =
     response_find (\<lambda>r. case r of
       ResName (name_res.ReadLink status x) \<Rightarrow> Some (ok_content ''READLINK'' status x)
     | _ \<Rightarrow> None) ''READLINK''"

definition response_write :: "u32 \<Rightarrow> CompoundResponse \<Rightarrow> WriteResult4 result" where
  "response_write requested_count =
     response_find (\<lambda>r. case r of
       ResData (data_res.Write status x) \<Rightarrow> Some (bindR (ok_content ''WRITE'' status x) (\<lambda>content. bindR (validate_write_result_count4 requested_count (wr4_count content)) (\<lambda>_. Inr content)))
     | _ \<Rightarrow> None) ''WRITE''"

definition response_io_advise :: "CompoundResponse \<Rightarrow> IoAdviseResult result" where
  "response_io_advise =
     response_find (\<lambda>r. case r of
       ResData (data_res.IoAdvise status x) \<Rightarrow> Some (ok_content ''IO_ADVISE'' status x)
     | _ \<Rightarrow> None) ''IO_ADVISE''"

definition response_copy :: "u64 \<Rightarrow> CompoundResponse \<Rightarrow> CopyResult result" where
  "response_copy requested_count =
     response_find (\<lambda>r. case r of
       ResData (data_res.Copy status x) \<Rightarrow> Some (bindR (ok_content_or (without_result ''COPY'') ''COPY'' status x) (\<lambda>content.
         bindR (validate_copy_result requested_count content) (\<lambda>_. Inr content)))
     | _ \<Rightarrow> None) ''COPY''"

definition response_copy_notify :: "CompoundResponse \<Rightarrow> CopyNotifyResult result" where
  "response_copy_notify =
     response_find (\<lambda>r. case r of
       ResData (data_res.CopyNotify status x) \<Rightarrow> Some (ok_content_or (without_result ''COPY_NOTIFY'') ''COPY_NOTIFY'' status x)
     | _ \<Rightarrow> None) ''COPY_NOTIFY''"

definition response_lock_test :: "CompoundResponse \<Rightarrow> LockDenied option result" where
  "response_lock_test =
     response_find (\<lambda>r. case r of
       ResState (state_res.LockTest status denied) \<Rightarrow>
         Some (if Status_is_ok status then Inr None
           else if status = State state4.Denied then
             (case denied of
                Some d \<Rightarrow> Inr (Some d)
              | None \<Rightarrow> Inl (Protocol ''NFSv4 LOCKT returned DENIED without conflicting lock details'' []))
           else Inl (NfsV4 ''LOCKT'' status))
     | _ \<Rightarrow> None) ''LOCKT''"

definition response_lock :: "CompoundResponse \<Rightarrow> StateId result" where
  "response_lock =
     response_find (\<lambda>r. case r of
       ResState (state_res.Lock status x denied) \<Rightarrow> Some (ok_content_or (Protocol ''NFSv4 LOCK returned {} without a stateid: {}''
         [FNat (unat (Status_as_u32 status)), FStr ''None'']) ''LOCK'' status x)
     | _ \<Rightarrow> None) ''LOCK''"

definition response_lock_unlock :: "CompoundResponse \<Rightarrow> StateId result" where
  "response_lock_unlock =
     response_find (\<lambda>r. case r of
       ResState (state_res.LockUnlock status x) \<Rightarrow> Some (ok_content_or (Protocol ''NFSv4 LOCKU returned {} without a stateid: {}''
         [FNat (unat (Status_as_u32 status)), FStr ''None'']) ''LOCKU'' status x)
     | _ \<Rightarrow> None) ''LOCKU''"

definition response_test_stateids :: "usize \<Rightarrow> CompoundResponse \<Rightarrow> Status list result" where
  "response_test_stateids requested_count =
     response_find (\<lambda>r. case r of
       ResState (state_res.TestStateIds status statuses) \<Rightarrow>
         Some (if Status_is_ok status then
             if length statuses = requested_count then Inr statuses
             else Inl (Protocol ''NFSv4 TEST_STATEID returned {} statuses for {} stateids''
               [FNat (length statuses), FNat requested_count])
           else Inl (NfsV4 ''TEST_STATEID'' status))
     | _ \<Rightarrow> None) ''TEST_STATEID''"

definition response_release_lock_owner :: "CompoundResponse \<Rightarrow> bool result" where
  "response_release_lock_owner =
     response_find (\<lambda>r. case r of
       ResSession (session_res.StatusOnly op status) \<Rightarrow>
         if op = 39
         then Some (if Status_is_ok status then Inr True
           else if status = Proto proto4.LocksHeld then Inr False
           else Inl (NfsV4 ''RELEASE_LOCKOWNER'' status))
         else None
     | _ \<Rightarrow> None) ''RELEASE_LOCKOWNER''"

definition response_offload_status :: "CompoundResponse \<Rightarrow> OffloadStatusResult result" where
  "response_offload_status =
     response_find (\<lambda>r. case r of
       ResData (data_res.OffloadStatus status x) \<Rightarrow> Some (ok_content_or (without_result ''OFFLOAD_STATUS'') ''OFFLOAD_STATUS'' status x)
     | _ \<Rightarrow> None) ''OFFLOAD_STATUS''"

definition response_get_device_info :: "CompoundResponse \<Rightarrow> GetDeviceInfoResult result" where
  "response_get_device_info =
     response_find (\<lambda>r. case r of
       ResLayout (layout_res.GetDeviceInfo status x min_count) \<Rightarrow> Some (ok_content_or (Protocol ''NFSv4 GETDEVICEINFO returned OK without a result (min_count={})''
         [debug_option (map_option (\<lambda>n. FNat (unat n)) min_count)]) ''GETDEVICEINFO'' status x)
     | _ \<Rightarrow> None) ''GETDEVICEINFO''"

definition response_get_device_list :: "CompoundResponse \<Rightarrow> GetDeviceListResult result" where
  "response_get_device_list =
     response_find (\<lambda>r. case r of
       ResLayout (layout_res.GetDeviceList status x) \<Rightarrow> Some (ok_content_or (without_result ''GETDEVICELIST'') ''GETDEVICELIST'' status x)
     | _ \<Rightarrow> None) ''GETDEVICELIST''"

definition response_get_dir_delegation :: "CompoundResponse \<Rightarrow> GetDirDelegationResult result" where
  "response_get_dir_delegation =
     response_find (\<lambda>r. case r of
       ResState (state_res.GetDirDelegation status x) \<Rightarrow> Some (ok_content_or (without_result ''GET_DIR_DELEGATION'') ''GET_DIR_DELEGATION'' status x)
     | _ \<Rightarrow> None) ''GET_DIR_DELEGATION''"

definition response_want_delegation :: "CompoundResponse \<Rightarrow> OpenDelegation result" where
  "response_want_delegation =
     response_find (\<lambda>r. case r of
       ResState (state_res.WantDelegation status x) \<Rightarrow> Some (ok_content_or (Protocol ''NFSv4 WANT_DELEGATION returned OK without a delegation'' [])
         ''WANT_DELEGATION'' status x)
     | _ \<Rightarrow> None) ''WANT_DELEGATION''"

definition response_layout_commit :: "CompoundResponse \<Rightarrow> LayoutCommitResult result" where
  "response_layout_commit =
     response_find (\<lambda>r. case r of
       ResLayout (layout_res.LayoutCommit status x) \<Rightarrow> Some (ok_content_or (without_result ''LAYOUTCOMMIT'') ''LAYOUTCOMMIT'' status x)
     | _ \<Rightarrow> None) ''LAYOUTCOMMIT''"

definition response_layout_get :: "CompoundResponse \<Rightarrow> LayoutGetResult result" where
  "response_layout_get =
     response_find (\<lambda>r. case r of
       ResLayout (layout_res.LayoutGet status x will_signal) \<Rightarrow> Some (ok_content_or (Protocol ''NFSv4 LAYOUTGET returned OK without a result (will_signal_layout_avail={})''
         [debug_option (map_option (\<lambda>b. FStr (if b then ''true'' else ''false'')) will_signal)]) ''LAYOUTGET'' status x)
     | _ \<Rightarrow> None) ''LAYOUTGET''"

definition response_layout_return :: "CompoundResponse \<Rightarrow> LayoutReturnResult result" where
  "response_layout_return =
     response_find (\<lambda>r. case r of
       ResLayout (layout_res.LayoutReturn status x) \<Rightarrow> Some (ok_content_or (without_result ''LAYOUTRETURN'') ''LAYOUTRETURN'' status x)
     | _ \<Rightarrow> None) ''LAYOUTRETURN''"

definition response_write_same :: "u64 \<Rightarrow> CompoundResponse \<Rightarrow> WriteResponse result" where
  "response_write_same requested_count =
     response_find (\<lambda>r. case r of
       ResData (data_res.WriteSame status x) \<Rightarrow> Some (bindR (ok_content ''WRITE_SAME'' status x) (\<lambda>content. bindR (validate_u64_write_result_count ''WRITE_SAME'' requested_count (wrp_count content)) (\<lambda>_. Inr content)))
     | _ \<Rightarrow> None) ''WRITE_SAME''"

definition response_commit :: "CompoundResponse \<Rightarrow> CommitResult4 result" where
  "response_commit =
     response_find (\<lambda>r. case r of
       ResData (data_res.Commit status x) \<Rightarrow> Some (ok_content ''COMMIT'' status x)
     | _ \<Rightarrow> None) ''COMMIT''"

definition response_seek :: "CompoundResponse \<Rightarrow> SeekResult result" where
  "response_seek =
     response_find (\<lambda>r. case r of
       ResData (data_res.Seek status x) \<Rightarrow> Some (ok_content ''SEEK'' status x)
     | _ \<Rightarrow> None) ''SEEK''"

definition response_readdir :: "CompoundResponse \<Rightarrow> (Verifier \<times> DirEntry4 list \<times> bool) result" where
  "response_readdir =
     response_find (\<lambda>r. case r of
       ResName (name_res.ReadDir status cookieverf entries eof) \<Rightarrow>
         Some (ok_content ''READDIR'' status (Some (cookieverf, entries, eof)))
     | _ \<Rightarrow> None) ''READDIR''"

fun openattr_readdir_loop :: "bool \<Rightarrow> OperationResult list \<Rightarrow> (Verifier \<times> DirEntry4 list \<times> bool) result" where
  "openattr_readdir_loop saw_openattr [] =
     (if saw_openattr
      then Inl (Protocol ''COMPOUND did not include READDIR result after OPENATTR'' [])
      else Inl (Protocol ''COMPOUND did not include OPENATTR result'' []))"
| "openattr_readdir_loop saw_openattr (r # rest) =
     (case r of
        ResSession (session_res.StatusOnly op status) \<Rightarrow>
          if op = 19 then
            if Status_is_ok status then openattr_readdir_loop True rest
            else Inl (NfsV4 ''OPENATTR'' status)
          else openattr_readdir_loop saw_openattr rest
      | ResName (name_res.ReadDir status cookieverf entries eof) \<Rightarrow>
          ok_content ''READDIR'' status (Some (cookieverf, entries, eof))
      | _ \<Rightarrow> openattr_readdir_loop saw_openattr rest)"

definition response_openattr_readdir :: "CompoundResponse \<Rightarrow> (Verifier \<times> DirEntry4 list \<times> bool) result" where
  "response_openattr_readdir response = openattr_readdir_loop False (cmp_results response)"

subsection \<open>Opens and cleanup\<close>

abbreviation (input) OPEN4_SHARE_ACCESS_READ :: u32 where "OPEN4_SHARE_ACCESS_READ \<equiv> 0x1"
abbreviation (input) OPEN4_SHARE_ACCESS_WRITE :: u32 where "OPEN4_SHARE_ACCESS_WRITE \<equiv> 0x2"
abbreviation (input) OPEN4_SHARE_ACCESS_BOTH :: u32 where "OPEN4_SHARE_ACCESS_BOTH \<equiv> 0x3"
abbreviation (input) OPEN4_SHARE_ACCESS_WANT_NO_DELEG :: u32 where "OPEN4_SHARE_ACCESS_WANT_NO_DELEG \<equiv> 0x400"
abbreviation (input) OPEN4_SHARE_DENY_NONE :: u32 where "OPEN4_SHARE_DENY_NONE \<equiv> 0x0"
abbreviation (input) OPEN4_RESULT_CONFIRM :: u32 where "OPEN4_RESULT_CONFIRM \<equiv> 0x2"
abbreviation (input) NFS4_MINOR_VERSION_SESSION_MIN :: u32 where "NFS4_MINOR_VERSION_SESSION_MIN \<equiv> 1"
abbreviation (input) NFS4_MINOR_VERSION_V42 :: u32 where "NFS4_MINOR_VERSION_V42 \<equiv> 2"
abbreviation (input) NFS4_MINOR_VERSION_LATEST :: u32 where "NFS4_MINOR_VERSION_LATEST \<equiv> 2"

fun open_delegation_stateid :: "OpenDelegation \<Rightarrow> StateId option" where
  "open_delegation_stateid (ReadDelegation d) = Some (ord_stateid d)"
| "open_delegation_stateid (WriteDelegation d) = Some (owd_stateid d)"
| "open_delegation_stateid NoDelegation = None"
| "open_delegation_stateid (NoDelegationExt _) = None"

definition validate_open_result :: "OpenResult \<Rightarrow> u32 \<Rightarrow> StateId option result" where
  "validate_open_result r minor_version =
     (if minor_version \<ge> NFS4_MINOR_VERSION_SESSION_MIN \<and> opr_result_flags r AND OPEN4_RESULT_CONFIRM \<noteq> 0
      then Inl (Protocol ''NFSv4 server requested OPEN_CONFIRM for a session minor version'' [])
      else Inr (open_delegation_stateid (opr_delegation r)))"

definition open_cleanup_error :: "error \<Rightarrow> unit result \<Rightarrow> error" where
  "open_cleanup_error err close_result =
     cleanup_error err ''cleanup CLOSE after failed OPEN post-processing'' close_result"

definition ensure_distinct_copy_handles4 :: "FileHandle4 \<Rightarrow> FileHandle4 \<Rightarrow> unit result" where
  "ensure_distinct_copy_handles4 source target =
     (if source = target
      then Inl (Protocol ''copy source and destination refer to the same file handle'' [])
      else Inr ())"

definition attrs_require_open_state :: "Fattr \<Rightarrow> bool" where
  "attrs_require_open_state attrs \<longleftrightarrow> Bitmap_contains (fattr_attrmask attrs) FATTR4_SIZE"

subsection \<open>Arguments\<close>

definition checked_mul_u64 :: "u64 \<Rightarrow> u64 \<Rightarrow> u64 option" where
  "checked_mul_u64 a b = (if unat a * unat b < 2 ^ 64 then Some (a * b) else None)"

definition app_data_block_len :: "AppDataBlock \<Rightarrow> u64 result" where
  "app_data_block_len block =
     (if adb_block_count block > 0 \<and> adb_block_size block = 0
      then Inl (Protocol ''NFSv4 WRITE_SAME block size must be nonzero when block count is nonzero'' [])
      else ok_or (checked_mul_u64 (adb_block_size block) (adb_block_count block))
        (Protocol ''NFSv4 WRITE_SAME byte count overflow'' []))"

definition io_advice_bitmap :: "IoAdviceType list \<Rightarrow> Bitmap" where
  "io_advice_bitmap hints = from_known_attrs (map IoAdviceType_as_u32 hints)"

definition io_advice_share_access :: "IoAdviceType list \<Rightarrow> u32" where
  "io_advice_share_access hints =
     (if IoAdviceType.AdviceWrite \<in> set hints then OPEN4_SHARE_ACCESS_WRITE else OPEN4_SHARE_ACCESS_READ)"

fun lock_share_access :: "LockType \<Rightarrow> u32" where
  "lock_share_access LockRead = OPEN4_SHARE_ACCESS_READ"
| "lock_share_access LockReadBlocking = OPEN4_SHARE_ACCESS_READ"
| "lock_share_access LockWrite = OPEN4_SHARE_ACCESS_WRITE"
| "lock_share_access LockWriteBlocking = OPEN4_SHARE_ACCESS_WRITE"

definition layout_iomode_share_access :: "LayoutIomode \<Rightarrow> u32" where
  "layout_iomode_share_access iomode =
     (if iomode = IomodeRead then OPEN4_SHARE_ACCESS_READ else OPEN4_SHARE_ACCESS_BOTH)"

datatype SpaceOp = SpaceAllocate | SpaceDeallocate

fun SpaceOp_name :: "SpaceOp \<Rightarrow> string" where
  "SpaceOp_name SpaceAllocate = ''ALLOCATE''"
| "SpaceOp_name SpaceDeallocate = ''DEALLOCATE''"

fun into_operation :: "SpaceOp \<Rightarrow> StateId \<Rightarrow> u64 \<Rightarrow> u64 \<Rightarrow> Operation" where
  "into_operation SpaceAllocate stateid offset len = OpData (data_op.Allocate stateid offset len)"
| "into_operation SpaceDeallocate stateid offset len = OpData (data_op.Deallocate stateid offset len)"

definition validate_stateid_batch_len :: "usize \<Rightarrow> unit result" where
  "validate_stateid_batch_len count =
     (if count > NFS4_MAX_OPS
      then Inl (Protocol ''NFSv4 TEST_STATEID accepts at most {} stateids, got {}'' [FNat NFS4_MAX_OPS, FNat count])
      else Inr ())"

definition validate_max_device_ids :: "usize \<Rightarrow> u32 result" where
  "validate_max_device_ids max_device_ids =
     (if max_device_ids = 0 \<or> max_device_ids > 2 ^ 32 - 1
      then Inl (Protocol ''max_device_ids must be in 1..={}'' [FNat (2 ^ 32 - 1)])
      else Inr (of_nat max_device_ids))"

subsection \<open>Pages\<close>

record DirPageCursor4 =
  pc4_cookie :: u64
  pc4_cookieverf :: Verifier

definition DirPageCursor4_default :: DirPageCursor4 where
  "DirPageCursor4_default = \<lparr>pc4_cookie = 0, pc4_cookieverf = replicate 8 0\<rparr>"

text \<open>The entries of the client with their parsed attributes.\<close>

record ParsedEntry =
  pe_cookie :: u64
  pe_name :: string
  pe_attributes :: BasicAttributes

definition from_wire :: "DirEntry4 \<Rightarrow> ParsedEntry result" where
  "from_wire entry =
     bindR (parse_basic (d4_attrs entry)) (\<lambda>attributes.
     Inr \<lparr>pe_cookie = d4_cookie entry, pe_name = d4_name entry, pe_attributes = attributes\<rparr>)"

text \<open>\<open>collect::<Result<Vec<_>>>\<close>\<close>

fun collect_results :: "('a \<Rightarrow> 'b result) \<Rightarrow> 'a list \<Rightarrow> 'b list result" where
  "collect_results f [] = Inr []"
| "collect_results f (x # xs) = bindR (f x) (\<lambda>y. bindR (collect_results f xs) (\<lambda>ys. Inr (y # ys)))"

record DirPage4 =
  dp4_entries :: "ParsedEntry list"
  dp4_next_cursor :: "DirPageCursor4 option"

definition next_dir_cursor4 :: "Verifier \<Rightarrow> DirEntry4 list \<Rightarrow> bool \<Rightarrow> u64 \<Rightarrow> DirPageCursor4 option result" where
  "next_dir_cursor4 cookieverf entries eof previous_cookie =
     (if eof then Inr None
      else if entries = [] then Inl (Protocol ''NFSv4 READDIR returned no entries before EOF'' [])
      else if d4_cookie (last entries) = previous_cookie
      then Inl (Protocol ''NFSv4 READDIR did not advance directory cookie {}'' [FNat (unat previous_cookie)])
      else Inr (Some \<lparr>pc4_cookie = d4_cookie (last entries), pc4_cookieverf = cookieverf\<rparr>))"

definition dir_page_from_entries4 :: "Verifier \<Rightarrow> DirEntry4 list \<Rightarrow> bool \<Rightarrow> u64 \<Rightarrow> usize \<Rightarrow> DirPage4 result" where
  "dir_page_from_entries4 cookieverf entries eof previous_cookie max_entries =
     (if length entries > max_entries
      then Inl (Protocol ''NFSv4 READDIR exceeded configured limit of {} entries'' [FNat max_entries])
      else
        bindR (next_dir_cursor4 cookieverf entries eof previous_cookie) (\<lambda>next_cursor.
        bindR (collect_results from_wire entries) (\<lambda>parsed.
        Inr \<lparr>dp4_entries = parsed, dp4_next_cursor = next_cursor\<rparr>)))"

record DeviceListCursor =
  dlc_cookie :: u64
  dlc_cookieverf :: Verifier

record DeviceListPage =
  dlp_device_ids :: "DeviceId list"
  dlp_next_cursor :: "DeviceListCursor option"

definition next_device_list_cursor :: "u64 \<Rightarrow> Verifier \<Rightarrow> bool \<Rightarrow> u64 \<Rightarrow> DeviceListCursor option result" where
  "next_device_list_cursor cookie cookieverf eof previous_cookie =
     (if eof then Inr None
      else if cookie = previous_cookie
      then Inl (Protocol ''NFSv4 GETDEVICELIST did not advance device-list cookie {}'' [FNat (unat previous_cookie)])
      else Inr (Some \<lparr>dlc_cookie = cookie, dlc_cookieverf = cookieverf\<rparr>))"

definition device_list_page_from_result :: "GetDeviceListResult \<Rightarrow> u64 \<Rightarrow> usize \<Rightarrow> DeviceListPage result" where
  "device_list_page_from_result r previous_cookie max_device_ids =
     (if length (glr_device_ids r) > max_device_ids
      then Inl (Protocol ''NFSv4 GETDEVICELIST exceeded configured limit of {} device ids'' [FNat max_device_ids])
      else
        bindR (next_device_list_cursor (glr_cookie r) (glr_cookieverf r) (glr_eof r) previous_cookie) (\<lambda>next_cursor.
        Inr \<lparr>dlp_device_ids = glr_device_ids r, dlp_next_cursor = next_cursor\<rparr>))"

subsection \<open>A successful response has its results\<close>

definition succeeded :: "OperationResult \<Rightarrow> bool" where
  "succeeded r \<longleftrightarrow> carries r \<and> Status_is_ok (OperationResult_status r)"

definition finds :: "(OperationResult \<Rightarrow> 'a result option) \<Rightarrow> OpCode \<Rightarrow> bool" where
  "finds select code \<longleftrightarrow>
     (\<forall>r. succeeded r \<longrightarrow>
        (case select r of None \<Rightarrow> OperationResult_op_code r \<noteq> code | Some y \<Rightarrow> \<not> isl y))"

lemma response_find_ok:
  assumes "finds select code" "list_all succeeded (cmp_results response)"
    "code \<in> OperationResult_op_code ` set (cmp_results response)"
  shows "\<exists>x. response_find select op response = Inr x"
proof -
  have "\<exists>x. find_map select rs = Some (Inr x)"
    if "list_all succeeded rs" "code \<in> OperationResult_op_code ` set rs" for rs
    using that
  proof (induction rs)
    case (Cons r rs)
    with assms(1) have "case select r of None \<Rightarrow> OperationResult_op_code r \<noteq> code | Some y \<Rightarrow> \<not> isl y"
      by (simp add: finds_def)
    with Cons show ?case by (auto split: option.splits) (metis sum.collapse(2))+
  qed simp
  from this [OF assms(2,3)] show ?thesis by (auto simp: response_find_def)
qed

lemma ensure_ok_iff: "ensure_ok response = Inr () \<longleftrightarrow> Status_is_ok (cmp_status response)"
  by (simp add: ensure_ok_def)

lemma accepted_succeeded:
  assumes "validate_compound_response_shape tag codes response = Inr ()" "list_all carries (cmp_results response)"
    "ensure_ok response = Inr ()"
  shows "list_all succeeded (cmp_results response)" "map OperationResult_op_code (cmp_results response) = codes"
proof -
  from assms(3) have ok: "Status_is_ok (cmp_status response)" by (simp add: ensure_ok_iff)
  with assms(1) have shape: "list_all2 compound_result_matches_expected (cmp_results response) codes"
    "list_all (\<lambda>r. Status_is_ok (OperationResult_status r)) (cmp_results response)"
    by (auto simp: shape_iff)
  with assms(2) show "list_all succeeded (cmp_results response)"
    by (auto simp: list_all_iff succeeded_def)
  from shape show "map OperationResult_op_code (cmp_results response) = codes"
  proof (induction rule: list_all2_induct)
    case (Cons r rs c cs)
    then show ?case by (auto simp: compound_result_matches_expected_def Status_is_ok_def)
  qed simp
qed

lemma succeeded_cases:
  assumes "succeeded r"
  obtains (Session) s where "r = ResSession s" "session_carries s" "Status_is_ok (session_res_status s)"
  | (State) s where "r = ResState s" "state_carries s" "Status_is_ok (state_res_status s)"
  | (Layout) s where "r = ResLayout s" "layout_carries s" "Status_is_ok (layout_res_status s)"
  | (Name) s where "r = ResName s" "name_carries s" "Status_is_ok (name_res_status s)"
  | (Data) s where "r = ResData s" "data_carries s" "Status_is_ok (data_res_status s)"
  using assms by (cases r) (auto simp: succeeded_def)

lemma findsI:
  assumes "\<And>s. session_carries s \<Longrightarrow> Status_is_ok (session_res_status s) \<Longrightarrow>
      case select (ResSession s) of None \<Rightarrow> session_res_code s \<noteq> code | Some y \<Rightarrow> \<not> isl y"
    "\<And>s. state_carries s \<Longrightarrow> Status_is_ok (state_res_status s) \<Longrightarrow>
      case select (ResState s) of None \<Rightarrow> state_res_code s \<noteq> code | Some y \<Rightarrow> \<not> isl y"
    "\<And>s. layout_carries s \<Longrightarrow> Status_is_ok (layout_res_status s) \<Longrightarrow>
      case select (ResLayout s) of None \<Rightarrow> layout_res_code s \<noteq> code | Some y \<Rightarrow> \<not> isl y"
    "\<And>s. name_carries s \<Longrightarrow> Status_is_ok (name_res_status s) \<Longrightarrow>
      case select (ResName s) of None \<Rightarrow> name_res_code s \<noteq> code | Some y \<Rightarrow> \<not> isl y"
    "\<And>s. data_carries s \<Longrightarrow> Status_is_ok (data_res_status s) \<Longrightarrow>
      case select (ResData s) of None \<Rightarrow> data_res_code s \<noteq> code | Some y \<Rightarrow> \<not> isl y"
  shows "finds select code"
  unfolding finds_def
proof (intro allI impI)
  fix r
  assume "succeeded r"
  then show "case select r of None \<Rightarrow> OperationResult_op_code r \<noteq> code | Some y \<Rightarrow> \<not> isl y"
  proof (cases rule: succeeded_cases)
    case (Session s)
    with assms(1) [of s] show ?thesis by (simp split: option.splits)
  next
    case (State s)
    with assms(2) [of s] show ?thesis by (simp split: option.splits)
  next
    case (Layout s)
    with assms(3) [of s] show ?thesis by (simp split: option.splits)
  next
    case (Name s)
    with assms(4) [of s] show ?thesis by (simp split: option.splits)
  next
    case (Data s)
    with assms(5) [of s] show ?thesis by (simp split: option.splits)
  qed
qed

text \<open>The codes of each group of results; together with the arm of an extractor they say that it finds its
  operation.\<close>

lemma session_code: "session_carries s \<Longrightarrow> session_res_code s \<in> {35, 42, 43, 41, 53, 54} \<or> session_res_code s \<notin> set content_codes"
  by (cases s) auto

lemma state_code: "state_res_code s \<in> {18, 20, 4, 12, 13, 14, 21, 55, 46, 56}"
  by (cases s) auto

lemma layout_code: "layout_res_code s \<in> {47, 48, 49, 50, 51}"
  by (cases s) auto

lemma name_code: "name_carries s \<Longrightarrow> name_res_code s \<in> {10, 9, 3, 33, 52, 26, 27}"
  by (cases s) auto

lemma data_code: "data_res_code s \<in> {25, 38, 5, 63, 60, 61, 67, 68, 69, 70}"
  by (cases s) auto

lemma other_groups:
  "session_carries s \<Longrightarrow> code \<in> set content_codes \<Longrightarrow> code \<notin> {35, 42, 43, 41, 53, 54} \<Longrightarrow> session_res_code s \<noteq> code"
  "code \<notin> {18, 20, 4, 12, 13, 14, 21, 55, 46, 56} \<Longrightarrow> state_res_code t \<noteq> code"
  "code \<notin> {47, 48, 49, 50, 51} \<Longrightarrow> layout_res_code l \<noteq> code"
  "name_carries n \<Longrightarrow> code \<notin> {10, 9, 3, 33, 52, 26, 27} \<Longrightarrow> name_res_code n \<noteq> code"
  "code \<notin> {25, 38, 5, 63, 60, 61, 67, 68, 69, 70} \<Longrightarrow> data_res_code d \<noteq> code"
  using session_code [of s] state_code [of t] layout_code [of l] name_code [of n] data_code [of d] by blast+

lemmas content_simps = other_groups content_codes_def ok_content_def ok_content_or_def Status_is_ok_def

lemma response_open_ok:
  assumes "list_all succeeded (cmp_results response)" "18 \<in> OperationResult_op_code ` set (cmp_results response)"
  shows "\<exists>x. response_open response = Inr x"
  unfolding response_open_def
  by (rule response_find_ok [OF findsI assms])
    (simp_all add: content_simps, auto simp: content_simps split: state_res.splits option.splits)

lemma response_getfh_ok:
  assumes "list_all succeeded (cmp_results response)" "10 \<in> OperationResult_op_code ` set (cmp_results response)"
  shows "\<exists>x. response_getfh response = Inr x"
  unfolding response_getfh_def
  by (rule response_find_ok [OF findsI assms])
    (simp_all add: content_simps, auto simp: content_simps split: name_res.splits option.splits)

lemma response_getattr_ok:
  assumes "list_all succeeded (cmp_results response)" "9 \<in> OperationResult_op_code ` set (cmp_results response)"
  shows "\<exists>x. response_getattr response = Inr x"
  unfolding response_getattr_def
  by (rule response_find_ok [OF findsI assms])
    (simp_all add: content_simps, auto simp: content_simps split: name_res.splits option.splits)

lemma response_access_ok:
  assumes "list_all succeeded (cmp_results response)" "3 \<in> OperationResult_op_code ` set (cmp_results response)"
  shows "\<exists>x. response_access response = Inr x"
  unfolding response_access_def
  by (rule response_find_ok [OF findsI assms])
    (simp_all add: content_simps, auto simp: content_simps split: name_res.splits option.splits)

lemma response_readdir_ok:
  assumes "list_all succeeded (cmp_results response)" "26 \<in> OperationResult_op_code ` set (cmp_results response)"
  shows "\<exists>x. response_readdir response = Inr x"
  unfolding response_readdir_def
  by (rule response_find_ok [OF findsI assms])
    (simp_all add: content_simps, auto simp: content_simps split: name_res.splits option.splits)

lemma response_readlink_ok:
  assumes "list_all succeeded (cmp_results response)" "27 \<in> OperationResult_op_code ` set (cmp_results response)"
  shows "\<exists>x. response_readlink response = Inr x"
  unfolding response_readlink_def
  by (rule response_find_ok [OF findsI assms])
    (simp_all add: content_simps, auto simp: content_simps split: name_res.splits option.splits)

lemma response_commit_ok:
  assumes "list_all succeeded (cmp_results response)" "5 \<in> OperationResult_op_code ` set (cmp_results response)"
  shows "\<exists>x. response_commit response = Inr x"
  unfolding response_commit_def
  by (rule response_find_ok [OF findsI assms])
    (simp_all add: content_simps, auto simp: content_simps split: data_res.splits option.splits)

lemma response_seek_ok:
  assumes "list_all succeeded (cmp_results response)" "69 \<in> OperationResult_op_code ` set (cmp_results response)"
  shows "\<exists>x. response_seek response = Inr x"
  unfolding response_seek_def
  by (rule response_find_ok [OF findsI assms])
    (simp_all add: content_simps, auto simp: content_simps split: data_res.splits option.splits)

lemma response_io_advise_ok:
  assumes "list_all succeeded (cmp_results response)" "63 \<in> OperationResult_op_code ` set (cmp_results response)"
  shows "\<exists>x. response_io_advise response = Inr x"
  unfolding response_io_advise_def
  by (rule response_find_ok [OF findsI assms])
    (simp_all add: content_simps, auto simp: content_simps split: data_res.splits option.splits)

lemma response_copy_notify_ok:
  assumes "list_all succeeded (cmp_results response)" "61 \<in> OperationResult_op_code ` set (cmp_results response)"
  shows "\<exists>x. response_copy_notify response = Inr x"
  unfolding response_copy_notify_def
  by (rule response_find_ok [OF findsI assms])
    (simp_all add: content_simps, auto simp: content_simps split: data_res.splits option.splits)

lemma response_offload_status_ok:
  assumes "list_all succeeded (cmp_results response)" "67 \<in> OperationResult_op_code ` set (cmp_results response)"
  shows "\<exists>x. response_offload_status response = Inr x"
  unfolding response_offload_status_def
  by (rule response_find_ok [OF findsI assms])
    (simp_all add: content_simps, auto simp: content_simps split: data_res.splits option.splits)

lemma response_lock_ok:
  assumes "list_all succeeded (cmp_results response)" "12 \<in> OperationResult_op_code ` set (cmp_results response)"
  shows "\<exists>x. response_lock response = Inr x"
  unfolding response_lock_def
  by (rule response_find_ok [OF findsI assms])
    (simp_all add: content_simps, auto simp: content_simps split: state_res.splits option.splits)

lemma response_lock_unlock_ok:
  assumes "list_all succeeded (cmp_results response)" "14 \<in> OperationResult_op_code ` set (cmp_results response)"
  shows "\<exists>x. response_lock_unlock response = Inr x"
  unfolding response_lock_unlock_def
  by (rule response_find_ok [OF findsI assms])
    (simp_all add: content_simps, auto simp: content_simps split: state_res.splits option.splits)

lemma response_get_dir_delegation_ok:
  assumes "list_all succeeded (cmp_results response)" "46 \<in> OperationResult_op_code ` set (cmp_results response)"
  shows "\<exists>x. response_get_dir_delegation response = Inr x"
  unfolding response_get_dir_delegation_def
  by (rule response_find_ok [OF findsI assms])
    (simp_all add: content_simps, auto simp: content_simps split: state_res.splits option.splits)

lemma response_want_delegation_ok:
  assumes "list_all succeeded (cmp_results response)" "56 \<in> OperationResult_op_code ` set (cmp_results response)"
  shows "\<exists>x. response_want_delegation response = Inr x"
  unfolding response_want_delegation_def
  by (rule response_find_ok [OF findsI assms])
    (simp_all add: content_simps, auto simp: content_simps split: state_res.splits option.splits)

lemma response_get_device_info_ok:
  assumes "list_all succeeded (cmp_results response)" "47 \<in> OperationResult_op_code ` set (cmp_results response)"
  shows "\<exists>x. response_get_device_info response = Inr x"
  unfolding response_get_device_info_def
  by (rule response_find_ok [OF findsI assms])
    (simp_all add: content_simps, auto simp: content_simps split: layout_res.splits option.splits)

lemma response_get_device_list_ok:
  assumes "list_all succeeded (cmp_results response)" "48 \<in> OperationResult_op_code ` set (cmp_results response)"
  shows "\<exists>x. response_get_device_list response = Inr x"
  unfolding response_get_device_list_def
  by (rule response_find_ok [OF findsI assms])
    (simp_all add: content_simps, auto simp: content_simps split: layout_res.splits option.splits)

lemma response_layout_commit_ok:
  assumes "list_all succeeded (cmp_results response)" "49 \<in> OperationResult_op_code ` set (cmp_results response)"
  shows "\<exists>x. response_layout_commit response = Inr x"
  unfolding response_layout_commit_def
  by (rule response_find_ok [OF findsI assms])
    (simp_all add: content_simps, auto simp: content_simps split: layout_res.splits option.splits)

lemma response_layout_get_ok:
  assumes "list_all succeeded (cmp_results response)" "50 \<in> OperationResult_op_code ` set (cmp_results response)"
  shows "\<exists>x. response_layout_get response = Inr x"
  unfolding response_layout_get_def
  by (rule response_find_ok [OF findsI assms])
    (simp_all add: content_simps, auto simp: content_simps split: layout_res.splits option.splits)

lemma response_layout_return_ok:
  assumes "list_all succeeded (cmp_results response)" "51 \<in> OperationResult_op_code ` set (cmp_results response)"
  shows "\<exists>x. response_layout_return response = Inr x"
  unfolding response_layout_return_def
  by (rule response_find_ok [OF findsI assms])
    (simp_all add: content_simps, auto simp: content_simps split: layout_res.splits option.splits)

lemma response_bind_conn_to_session_ok:
  assumes "list_all succeeded (cmp_results response)" "41 \<in> OperationResult_op_code ` set (cmp_results response)"
  shows "\<exists>x. response_bind_conn_to_session response = Inr x"
  unfolding response_bind_conn_to_session_def
  by (rule response_find_ok [OF findsI assms])
    (simp_all add: content_simps, auto simp: content_simps split: session_res.splits option.splits)

lemma response_set_ssv_ok:
  assumes "list_all succeeded (cmp_results response)" "54 \<in> OperationResult_op_code ` set (cmp_results response)"
  shows "\<exists>x. response_set_ssv response = Inr x"
  unfolding response_set_ssv_def
  by (rule response_find_ok [OF findsI assms])
    (simp_all add: content_simps, auto simp: content_simps split: session_res.splits option.splits)


text \<open>The server's answer to a GETFH.\<close>

definition demo_getfh_reply :: bytes where
  "demo_getfh_reply =
     u32_to_be_bytes 0 @ opaque_wire [] @ u32_to_be_bytes 1 @ u32_to_be_bytes 10 @ u32_to_be_bytes 0 @ opaque_wire [7]"

definition demo_getfh :: CompoundResponse where
  "demo_getfh = \<lparr>cmp_status = Posix posix4.Ok, cmp_tag = [],
     cmp_results = [ResName (name_res.GetFh (Posix posix4.Ok) (Some \<lparr>fh4_data = [7]\<rparr>))]\<rparr>"

lemma demo_getfh_decoded:
  "\<exists>d. decode_CompoundResponse (decoder_new demo_getfh_reply) = (Inr demo_getfh, d)"
proof -
  have ok: "Status_from_u32 0 = Posix posix4.Ok"
    by (simp add: Status_from_u32_def Status_codes_defs)
  have handle: "decodes decode_FileHandle4 (opaque_wire [7]) \<lparr>fh4_data = [7]\<rparr>"
    unfolding decode_FileHandle4_def read_opaque_vec_def
    by (rule decodes_bnd_ret [OF decodes_read_opaque]) simp_all
  have "decodes (decode_result_arm 10 (Status_from_u32 0)) (opaque_wire [7])
      (ResName (name_res.GetFh (Posix posix4.Ok) (Some \<lparr>fh4_data = [7]\<rparr>)))"
    using decodes_bnd_ret [OF decodes_bnd_ret [OF handle refl] refl]
    by (simp add: decode_result_arm_def result_arms_def result_arm_defs lift_ok_def decode_if_ok_def ok
        Status_is_ok_def)
  then have "decodes decode_OperationResult (u32_to_be_bytes 10 @ u32_to_be_bytes 0 @ opaque_wire [7])
      (ResName (name_res.GetFh (Posix posix4.Ok) (Some \<lparr>fh4_data = [7]\<rparr>)))"
    by (intro decodes_operation_result) (simp_all add: OpCode_from_u32_def OpCode_names_def)
  with decodes_response [of "[u32_to_be_bytes 10 @ u32_to_be_bytes 0 @ opaque_wire [7]]"
      "[ResName (name_res.GetFh (Posix posix4.Ok) (Some \<lparr>fh4_data = [7]\<rparr>))]" "[]" 0]
  have "decodes decode_CompoundResponse demo_getfh_reply demo_getfh"
    by (simp add: demo_getfh_reply_def demo_getfh_def ok as_bytes_def)
  from decodesD [OF this, of "[]" "[]"] show ?thesis
    by (simp add: demo_getfh_reply_def decoder_new_def dec_at_def opaque_wire_def opaque_pad_def
        padding_len_def usize_max_def)
qed


lemma response_find_Inr:
  assumes "response_find select op response = Inr x"
  obtains r where "r \<in> set (cmp_results response)" "select r = Some (Inr x)"
proof -
  have "\<exists>r\<in>set rs. select r = Some y" if "find_map select rs = Some y" for rs y
    using that by (induction rs) (auto split: option.splits)
  with assms that show thesis by (fastforce simp: response_find_def split: option.splits)
qed

lemma response_read_sound:
  assumes "response_read n response = Inr (eof, data)"
  shows "length data \<le> unat n" "0 < n \<Longrightarrow> data = [] \<Longrightarrow> eof"
  using assms unfolding response_read_def
  by (auto elim!: response_find_Inr simp: validate_read_result_size4_def bindR_def word_less_nat_alt
      split: OperationResult.splits data_res.splits if_splits)

lemma response_write_sound:
  assumes "response_write n response = Inr r"
  shows "wr4_count r \<le> n" "0 < n \<Longrightarrow> 0 < wr4_count r"
  using assms unfolding response_write_def
  by (auto elim!: response_find_Inr simp: validate_write_result_count4_def bindR_def ok_content_def
      not_less word_gt_0 split: OperationResult.splits data_res.splits if_splits option.splits sum.splits)

end
