(* ===== verification/V4_Session.thy ===== *)
theory V4_Session
  imports V4_Response V3_Mount
begin

text \<open>
  The session of the blocking NFSv4 client (\<open>src/v4/blocking.rs\<close>, \<open>src/v4/mod.rs\<close> and the lock registry of
  \<open>src/v4/client.rs\<close>): sending a COMPOUND and checking its response, connecting a session, the loops that
  repeat a COMPOUND after a delay or a session recovery, and the recovery itself, which reconnects, reclaims
  or checks every lock and only then replaces the client.

  The state of an operation is a client together with what it shares with the rest of the process and the
  world: the outcomes of coming connection attempts, the lock states (an \<open>Arc<Mutex<LockState>>\<close> is an index
  into \<open>sys_cells\<close>, so \<open>Arc::ptr_eq\<close> is equality of indices), the delays slept, and what the health check of
  the thread that renews the lease will answer.
\<close>

subsection \<open>Validation (src/v4/mod.rs)\<close>

abbreviation (input) NFS4_PROGRAM :: u32 where "NFS4_PROGRAM \<equiv> 100003"
abbreviation (input) NFS4_VERSION :: u32 where "NFS4_VERSION \<equiv> 4"
abbreviation (input) EXCHGID4_FLAG_USE_NON_PNFS :: u32 where "EXCHGID4_FLAG_USE_NON_PNFS \<equiv> 0x10000"

definition validate_opaque_id :: "string \<Rightarrow> bytes \<Rightarrow> unit result" where
  "validate_opaque_id name v =
     (if length v > NFS4_OPAQUE_LIMIT
      then Inl (Protocol ''NFSv4 {} length {} exceeds opaque limit {}''
        [FStr name, FNat (length v), FNat NFS4_OPAQUE_LIMIT])
      else Inr ())"

definition validate_owner_id :: "bytes \<Rightarrow> unit result" where
  "validate_owner_id = validate_opaque_id ''owner_id''"

definition validate_open_owner :: "bytes \<Rightarrow> unit result" where
  "validate_open_owner = validate_opaque_id ''open_owner''"

definition validate_lock_owner :: "bytes \<Rightarrow> unit result" where
  "validate_lock_owner = validate_opaque_id ''lock_owner''"

definition validate_host4 :: "string \<Rightarrow> unit result" where
  "validate_host4 host = (if trim_is_empty host then Inl (InvalidTarget host) else Inr ())"

definition validate_port4 :: "string \<Rightarrow> u16 \<Rightarrow> unit result" where
  "validate_port4 name port =
     (if port = 0 then Inl (Protocol ''{} must be non-zero'' [FStr name]) else Inr ())"

definition validate_transfer_size4 :: "string \<Rightarrow> u32 \<Rightarrow> unit result" where
  "validate_transfer_size4 name transfer =
     (if transfer = 0 \<or> unat transfer > NFS4_MAX_IO
      then Inl (Protocol ''{} must be in 1..={} bytes'' [FStr name, FNat NFS4_MAX_IO])
      else Inr ())"

definition validate_max_dir_entries4 :: "usize \<Rightarrow> unit result" where
  "validate_max_dir_entries4 max_dir_entries =
     (if max_dir_entries = 0 then Inl (Protocol ''max_dir_entries must be greater than zero'' []) else Inr ())"

definition validate_minor_version :: "string \<Rightarrow> u32 \<Rightarrow> unit result" where
  "validate_minor_version name minor_version =
     (if NFS4_MINOR_VERSION_SESSION_MIN \<le> minor_version \<and> minor_version \<le> NFS4_MINOR_VERSION_LATEST
      then Inr ()
      else Inl (Protocol ''{} must be in {}..={}'' [FStr name, FNat 1, FNat 2]))"

definition negotiated_minor_versions :: "u32 \<Rightarrow> u32 list" where
  "negotiated_minor_versions max_minor_version = rev (map of_nat [1..<Suc (unat max_minor_version)])"

definition require_minor_version :: "string \<Rightarrow> u32 \<Rightarrow> u32 \<Rightarrow> unit result" where
  "require_minor_version operation negotiated required =
     (if negotiated \<ge> required then Inr ()
      else Inl (Protocol ''NFSv4 operation {} requires minor version {}, negotiated {}''
        [FStr operation, FNat (unat required), FNat (unat negotiated)]))"

definition clamp_io_size4 :: "u64 option \<Rightarrow> u32 \<Rightarrow> u32" where
  "clamp_io_size4 server_max configured_limit =
     (case server_max of
        None \<Rightarrow> configured_limit
      | Some m \<Rightarrow> if m = 0 then configured_limit else ucast (max (min (ucast configured_limit) m) 1))"

subsection \<open>Sending a COMPOUND\<close>

text \<open>The message of an XDR error (its \<open>Display\<close>), a template with its arguments.\<close>

fun xdr_display :: "xdr_error \<Rightarrow> string \<times> fmt_arg list" where
  "xdr_display (UnexpectedEof needed rest) =
     (''unexpected end of XDR input: need {} bytes, have {}'', [FNat needed, FNat rest])"
| "xdr_display (TrailingBytes rest) = (''XDR input has {} trailing bytes'', [FNat rest])"
| "xdr_display (InvalidBool v) = (''invalid XDR bool value {}'', [FNat (unat v)])"
| "xdr_display (InvalidDiscriminant name v) = (''invalid XDR discriminant {} for {}'', [FInt (sint v), FStr name])"
| "xdr_display (LengthLimitExceeded len limit) = (''XDR length {} exceeds limit {}'', [FNat len, FNat limit])"
| "xdr_display (xdr_error.LengthOutOfRange len) = (''XDR length {} cannot be represented as u32'', [FNat len])"
| "xdr_display InvalidUtf8 = (''XDR string is not valid UTF-8'', [])"

definition codec_error :: "string \<Rightarrow> string \<Rightarrow> decoder \<Rightarrow> xdr_error \<Rightarrow> error" where
  "codec_error what tag d err =
     Protocol (what @ '' NFSv4 COMPOUND response for tag {} at byte {} of {}: '' @ fst (xdr_display err))
       ([FStr tag, FNat (dec_position d), FNat (length (dec_input d))] @ snd (xdr_display err))"

definition decode_compound_reply :: "string \<Rightarrow> bytes \<Rightarrow> CompoundResponse result" where
  "decode_compound_reply tag payload =
     (case decode_CompoundResponse (decoder_new payload) of
        (Inl err, d) \<Rightarrow> Inl (codec_error ''failed to decode'' tag d err)
      | (Inr response, d) \<Rightarrow>
          (case finish d of
             Inl err \<Rightarrow> Inl (codec_error ''failed to finish'' tag d err)
           | Inr _ \<Rightarrow> Inr response))"

definition raw_compound_with_rpc :: "string \<Rightarrow> u32 \<Rightarrow> Operation list \<Rightarrow> CompoundResponse rpc" where
  "raw_compound_with_rpc tag minor_version operations =
     (let expected = map Operation_op_code operations in
      bnd (rpc_call NFS4_PROGRAM NFS4_VERSION 1
        (encode_CompoundArgs \<lparr>cpd_tag = tag, cpd_minor_version = minor_version, cpd_operations = operations\<rparr>))
      (\<lambda>payload.
      bnd (of_result (decode_compound_reply tag payload)) (\<lambda>response.
      bnd (of_result (validate_compound_response_shape tag expected response)) (\<lambda>_.
      ret response))))"

subsection \<open>Locks (src/v4/client.rs)\<close>

record LockState =
  ls_client_id :: u64
  ls_open_owner :: bytes
  ls_handle :: FileHandle4
  ls_open_stateid :: StateId
  ls_lock_stateid :: StateId
  ls_lock_seqid :: u32
  ls_lock_type :: LockType
  ls_offset :: u64
  ls_length :: u64
  ls_owner :: bytes
  ls_lost :: "Status option"

record ByteRangeLock =
  brl_state :: nat
  brl_lock_type :: LockType
  brl_offset :: u64
  brl_length :: u64
  brl_owner :: bytes

text \<open>What the clients of a process share with each other and with the world.\<close>

record 'addr sys =
  sys_net :: "nat \<Rightarrow> 'addr net_env"
  sys_dials :: nat
  sys_cells :: "LockState list"
  sys_slept :: "duration list"
  sys_lease_failed :: "nat \<Rightarrow> bool"
  sys_polls :: nat
  sys_spawn :: "nat \<Rightarrow> io_kind option"
  sys_threads :: nat

definition register :: "LockState \<Rightarrow> nat list \<Rightarrow> 'addr sys \<Rightarrow> ByteRangeLock \<times> nat list \<times> 'addr sys" where
  "register state entries sys =
     (let cell = length (sys_cells sys) in
      (\<lparr>brl_state = cell, brl_lock_type = ls_lock_type state, brl_offset = ls_offset state,
        brl_length = ls_length state, brl_owner = ls_owner state\<rparr>,
       entries @ [cell], sys\<lparr>sys_cells := sys_cells sys @ [state]\<rparr>))"

definition snapshot :: "nat list \<Rightarrow> 'addr sys \<Rightarrow> LockState list" where
  "snapshot entries sys = map (\<lambda>cell. sys_cells sys ! cell) entries"

definition restore :: "nat list \<Rightarrow> nat \<Rightarrow> LockState \<Rightarrow> 'addr sys \<Rightarrow> 'addr sys" where
  "restore entries index state sys = sys\<lparr>sys_cells := (sys_cells sys)[entries ! index := state]\<rparr>"

definition registry_get :: "nat list \<Rightarrow> ByteRangeLock \<Rightarrow> 'addr sys \<Rightarrow> LockState result" where
  "registry_get entries lock sys =
     (if brl_state lock \<in> set entries then Inr (sys_cells sys ! brl_state lock)
      else Inl (Protocol ''lock belongs to a different client or was already released'' []))"

definition registry_remove :: "ByteRangeLock \<Rightarrow> nat list \<Rightarrow> nat list" where
  "registry_remove lock entries = filter (\<lambda>cell. cell \<noteq> brl_state lock) entries"

fun ensure_valid :: "LockState list \<Rightarrow> unit result" where
  "ensure_valid [] = Inr ()"
| "ensure_valid (state # rest) =
     (case ls_lost state of Some status \<Rightarrow> Inl (LockLost status) | None \<Rightarrow> ensure_valid rest)"

subsection \<open>The client\<close>

record ClientBuilder4 =
  b4_host :: string
  b4_auth :: AuthSys
  b4_timeout :: "duration option"
  b4_port :: u16
  b4_owner_id :: bytes
  b4_open_owner :: bytes
  b4_client_owner_verifier :: Verifier
  b4_read_size :: u32
  b4_write_size :: u32
  b4_dir_size :: u32
  b4_max_dir_entries :: usize
  b4_max_minor_version :: u32
  b4_retry_policy :: RetryPolicy
  b4_automatic_lease_renewal :: bool

text \<open>The part of a \<open>BlockingLease\<close> the client uses; the keeper it runs is a client of its own.\<close>

record BlockingLease =
  bl_interval :: duration
  bl_session_id :: SessionId

record Client4 =
  c4_rpc :: RpcClient
  c4_locks :: "nat list"
  c4_recovery_pending :: bool
  c4_lease_renewal :: "BlockingLease option"
  c4_builder :: ClientBuilder4
  c4_client_id :: u64
  c4_session_id :: SessionId
  c4_sequence_id :: u32
  c4_open_seqid :: u32
  c4_open_owner :: bytes
  c4_minor_version :: u32
  c4_max_operations :: usize
  c4_max_request_size :: u32
  c4_max_response_size :: u32
  c4_root_fsinfo :: "FsInfo4 option"
  c4_read_size :: u32
  c4_write_size :: u32
  c4_dir_size :: u32
  c4_max_dir_entries :: usize
  c4_retry_policy :: RetryPolicy

record 'addr v4 =
  v4_sys :: "'addr sys"
  v4_client :: Client4

type_synonym ('addr, 'a) v4op = "('addr v4, error, 'a) op"

type_synonym ('addr, 'a) connop = "('addr sys \<times> RpcClient, error, 'a) op"

definition sleep4 :: "duration \<Rightarrow> 'addr sys \<Rightarrow> 'addr sys" where
  "sleep4 delay sys = sys\<lparr>sys_slept := sys_slept sys @ [delay]\<rparr>"

definition on_rpc :: "'a rpc \<Rightarrow> ('addr, 'a) connop" where
  "on_rpc m = (\<lambda>(sys, rpc). case m rpc of (r, rpc') \<Rightarrow> (r, sys, rpc'))"

definition sleep_conn :: "duration \<Rightarrow> ('addr, unit) connop" where
  "sleep_conn delay = modify (\<lambda>(sys, rpc). (sleep4 delay sys, rpc))"

definition with_rpc4 :: "'a rpc \<Rightarrow> ('addr, 'a) v4op" where
  "with_rpc4 m st = (case m (c4_rpc (v4_client st)) of
     (r, rpc) \<Rightarrow> (r, st\<lparr>v4_client := (v4_client st)\<lparr>c4_rpc := rpc\<rparr>\<rparr>))"

definition get4 :: "(Client4 \<Rightarrow> 'a) \<Rightarrow> ('addr, 'a) v4op" where
  "get4 f = gets (\<lambda>st. f (v4_client st))"

definition put4 :: "(Client4 \<Rightarrow> Client4) \<Rightarrow> ('addr, unit) v4op" where
  "put4 f = modify (\<lambda>st. st\<lparr>v4_client := f (v4_client st)\<rparr>)"

definition put_sys :: "('addr sys \<Rightarrow> 'addr sys) \<Rightarrow> ('addr, unit) v4op" where
  "put_sys f = modify (\<lambda>st. st\<lparr>v4_sys := f (v4_sys st)\<rparr>)"

definition raw_compound :: "string \<Rightarrow> u32 \<Rightarrow> Operation list \<Rightarrow> ('addr, CompoundResponse) v4op" where
  "raw_compound tag minor_version operations = with_rpc4 (raw_compound_with_rpc tag minor_version operations)"

text \<open>\<open>wrapping_add(1).max(1)\<close>\<close>

definition next_seqid :: "u32 \<Rightarrow> u32" where
  "next_seqid v = max (v + 1) 1"

definition advance_open_seqid :: "('addr, unit) v4op" where
  "advance_open_seqid = put4 (\<lambda>c. c\<lparr>c4_open_seqid := next_seqid (c4_open_seqid c)\<rparr>)"

definition sequence_op :: "SessionId \<Rightarrow> u32 \<Rightarrow> Operation" where
  "sequence_op session_id sequence_id =
     OpSession (session_op.Sequence \<lparr>sq_session_id = session_id, sq_sequence_id = sequence_id, sq_slot_id = 0,
       sq_highest_slot_id = 0, sq_cache_this = False\<rparr>)"

subsection \<open>Setting up a session\<close>

definition delayed_step :: "string \<Rightarrow> u32 \<Rightarrow> Operation list \<Rightarrow> RetryPolicy \<Rightarrow> u32 \<Rightarrow>
    ('addr, (u32, CompoundResponse) loop_step) connop" where
  "delayed_step tag minor_version operations policy retry =
     bnd (on_rpc (raw_compound_with_rpc tag minor_version operations)) (\<lambda>response.
     if response_allows_delayed_retry_without_sequence operations response then
       (case delay_for_retry policy retry of
          Some delay \<Rightarrow> bnd (sleep_conn delay) (\<lambda>_. ret (Continue (retry + 1)))
        | None \<Rightarrow> ret (Break response))
     else ret (Break response))"

lemma retry_shrinks:
  assumes "delay_for_retry p retry = Some delay"
  shows "unat (max_retries p) - unat (retry + 1) < unat (max_retries p) - unat retry"
proof -
  from assms have less: "unat retry < unat (max_retries p)"
    by (auto simp: delay_for_retry_backoff split: if_splits)
  then have "unat retry + 1 < 2 ^ 32" using unat_u32_less [of "max_retries p"] by linarith
  then have "unat (retry + 1) = unat retry + 1" by (simp add: unat_word_ariths)
  with less show ?thesis by simp
qed

lemma delayed_step_shrinks:
  assumes "delayed_step tag minor_version operations policy retry st = (Inr (Continue retry'), st')"
  shows "unat (max_retries policy) - unat retry' < unat (max_retries policy) - unat retry"
  using assms
  by (auto simp: delayed_step_def bnd_Inr_iff ret_apply retry_shrinks split: if_splits option.splits)

function raw_compound_with_delayed_retry_loop :: "string \<Rightarrow> u32 \<Rightarrow> Operation list \<Rightarrow> RetryPolicy \<Rightarrow> u32 \<Rightarrow>
    ('addr, CompoundResponse) connop" where
  "raw_compound_with_delayed_retry_loop tag minor_version operations policy retry st =
     (case delayed_step tag minor_version operations policy retry st of
        (Inl e, st') \<Rightarrow> (Inl e, st')
      | (Inr (Continue retry'), st') \<Rightarrow> raw_compound_with_delayed_retry_loop tag minor_version operations policy retry' st'
      | (Inr (Break response), st') \<Rightarrow> (Inr response, st'))"
  by pat_completeness auto
termination
  by (relation "measure (\<lambda>(tag, minor_version, operations, policy, retry, st). unat (max_retries policy) - unat retry)")
    (auto intro: delayed_step_shrinks [OF sym])

declare raw_compound_with_delayed_retry_loop.simps [simp del]

interpretation dlp: body_loop "delayed_step tag minor_version operations policy"
  "raw_compound_with_delayed_retry_loop tag minor_version operations policy"
  "\<lambda>retry st. unat (max_retries policy) - unat retry" for tag minor_version operations policy
  by unfold_locales (rule raw_compound_with_delayed_retry_loop.simps, rule delayed_step_shrinks)

definition raw_compound_with_delayed_retry :: "string \<Rightarrow> u32 \<Rightarrow> Operation list \<Rightarrow> RetryPolicy \<Rightarrow>
    ('addr, CompoundResponse) connop" where
  "raw_compound_with_delayed_retry tag minor_version operations policy =
     raw_compound_with_delayed_retry_loop tag minor_version operations policy 0"

definition reclaim_operations :: "Operation list" where
  "reclaim_operations = [OpSession (session_op.ReclaimComplete False)]"

definition reclaim_step :: "u32 \<Rightarrow> SessionId \<Rightarrow> RetryPolicy \<Rightarrow> u32 \<times> u32 \<Rightarrow>
    ('addr, (u32 \<times> u32, CompoundResponse \<times> u32) loop_step) connop" where
  "reclaim_step minor_version session_id policy = (\<lambda>(retry, sequence_id).
     bnd (on_rpc (raw_compound_with_rpc ''reclaim-complete'' minor_version
       (sequence_op session_id sequence_id # reclaim_operations))) (\<lambda>response.
     let sequence_id = (if sequence_succeeded response then next_seqid sequence_id else sequence_id) in
     if response_allows_delayed_retry reclaim_operations response then
       (case delay_for_retry policy retry of
          Some delay \<Rightarrow> bnd (sleep_conn delay) (\<lambda>_. ret (Continue (retry + 1, sequence_id)))
        | None \<Rightarrow> ret (Break (response, sequence_id)))
     else ret (Break (response, sequence_id))))"

lemma reclaim_step_shrinks:
  assumes "reclaim_step minor_version session_id policy l st = (Inr (Continue l'), st')"
  shows "unat (max_retries policy) - unat (fst l') < unat (max_retries policy) - unat (fst l)"
  using assms
  by (cases l) (auto simp: reclaim_step_def bnd_Inr_iff ret_apply retry_shrinks Let_def
      split: if_splits option.splits)

function reclaim_loop :: "u32 \<Rightarrow> SessionId \<Rightarrow> RetryPolicy \<Rightarrow> u32 \<times> u32 \<Rightarrow>
    ('addr, CompoundResponse \<times> u32) connop" where
  "reclaim_loop minor_version session_id policy l st =
     (case reclaim_step minor_version session_id policy l st of
        (Inl e, st') \<Rightarrow> (Inl e, st')
      | (Inr (Continue l'), st') \<Rightarrow> reclaim_loop minor_version session_id policy l' st'
      | (Inr (Break r), st') \<Rightarrow> (Inr r, st'))"
  by pat_completeness auto
termination
  by (relation "measure (\<lambda>(minor_version, session_id, policy, l, st). unat (max_retries policy) - unat (fst l))")
    (auto dest!: reclaim_step_shrinks [OF sym])

declare reclaim_loop.simps [simp del]

interpretation rcl: body_loop "reclaim_step minor_version session_id policy" "reclaim_loop minor_version session_id policy"
  "\<lambda>l st. unat (max_retries policy) - unat (fst l)" for minor_version session_id policy
  by unfold_locales (rule reclaim_loop.simps, rule reclaim_step_shrinks)

definition reclaim_complete_with_delayed_retry :: "u32 \<Rightarrow> SessionId \<Rightarrow> u32 \<Rightarrow> usize \<Rightarrow> RetryPolicy \<Rightarrow>
    ('addr, CompoundResponse \<times> u32) connop" where
  "reclaim_complete_with_delayed_retry minor_version session_id sequence_id max_operations policy =
     bnd (of_result (validate_session_compound_operation_count (length reclaim_operations) max_operations)) (\<lambda>_.
     reclaim_loop minor_version session_id policy (0, sequence_id))"

definition destroy_session_with_rpc :: "u32 \<Rightarrow> SessionId \<Rightarrow> unit rpc" where
  "destroy_session_with_rpc minor_version session_id =
     bnd (raw_compound_with_rpc ''destroy-session'' minor_version
       [OpSession (session_op.DestroySession session_id)]) (\<lambda>response.
     of_result (ensure_ok response))"

definition cleanup_session_setup_error :: "u32 \<Rightarrow> SessionId \<Rightarrow> error \<Rightarrow> ('addr, 'a) connop" where
  "cleanup_session_setup_error minor_version session_id err st =
     (case on_rpc (destroy_session_with_rpc minor_version session_id) st of
        (r, st') \<Rightarrow>
          (Inl (cleanup_error err ''cleanup DESTROY_SESSION after failed NFSv4 session setup'' r), st'))"

definition or_destroy :: "u32 \<Rightarrow> SessionId \<Rightarrow> 'a result \<Rightarrow> ('addr, 'a) connop" where
  "or_destroy minor_version session_id r =
     (case r of Inr x \<Rightarrow> ret x | Inl err \<Rightarrow> cleanup_session_setup_error minor_version session_id err)"

fun is_minor_version_mismatch :: "error \<Rightarrow> bool" where
  "is_minor_version_mismatch (NfsV4 _ status) \<longleftrightarrow> status = Proto proto4.MinorVersionMismatch"
| "is_minor_version_mismatch _ \<longleftrightarrow> False"

definition exchange_args :: "ClientBuilder4 \<Rightarrow> ExchangeIdArgs" where
  "exchange_args builder =
     \<lparr>eia_client_owner = \<lparr>co_verifier = b4_client_owner_verifier builder, co_owner_id = b4_owner_id builder\<rparr>,
      eia_flags = EXCHGID4_FLAG_USE_NON_PNFS\<rparr>"

definition create_session_args :: "ExchangeIdResult \<Rightarrow> CreateSessionArgs" where
  "create_session_args exchange =
     \<lparr>csa_client_id = eir_client_id exchange, csa_sequence_id = eir_sequence_id exchange, csa_flags = 0,
      csa_fore_channel_attrs = fore_channel_default, csa_back_channel_attrs = back_channel_disabled,
      csa_callback_program = 0, csa_callback_sec_parms = []\<rparr>"

definition exchange_and_create :: "ClientBuilder4 \<Rightarrow> u32 \<Rightarrow> ('addr, ExchangeIdResult \<times> CreateSessionResult) connop" where
  "exchange_and_create builder minor_version =
     bnd (raw_compound_with_delayed_retry ''exchange-id'' minor_version
       [OpSession (session_op.ExchangeId (exchange_args builder))] (b4_retry_policy builder)) (\<lambda>exchange_res.
     bnd (of_result (ensure_ok exchange_res)) (\<lambda>_.
     bnd (of_result (response_exchange_id exchange_res)) (\<lambda>exchange.
     bnd (raw_compound_with_delayed_retry ''create-session'' minor_version
       [OpSession (session_op.CreateSession (create_session_args exchange))] (b4_retry_policy builder)) (\<lambda>session_res.
     bnd (of_result (ensure_ok session_res)) (\<lambda>_.
     bnd (of_result (response_create_session session_res)) (\<lambda>session.
     ret (exchange, session)))))))"

definition finish_session :: "ClientBuilder4 \<Rightarrow> u32 \<Rightarrow> bool \<Rightarrow> CreateSessionResult \<Rightarrow> ('addr, usize \<times> u32) connop" where
  "finish_session builder minor_version complete_reclaim session =
     (let session_id = csr_session_id session; fore = csr_fore_channel_attrs session in
      bnd (or_destroy minor_version session_id (validate_session_channel_attrs fore)) (\<lambda>_.
      bnd (or_destroy minor_version session_id (session_max_operations fore)) (\<lambda>max_operations.
      if complete_reclaim then
        match_result (reclaim_complete_with_delayed_retry minor_version session_id 1 max_operations
            (b4_retry_policy builder))
          (\<lambda>(reclaim_res, sequence_id).
             bnd (or_destroy minor_version session_id (ensure_reclaim_complete reclaim_res)) (\<lambda>_.
             ret (max_operations, sequence_id)))
          (cleanup_session_setup_error minor_version session_id)
      else ret (max_operations, 1))))"

definition setup_session :: "ClientBuilder4 \<Rightarrow> u32 \<Rightarrow> bool \<Rightarrow>
    ('addr, ExchangeIdResult \<times> CreateSessionResult \<times> usize \<times> u32) connop" where
  "setup_session builder minor_version complete_reclaim =
     bnd (on_rpc (RpcClient_set_timeout (b4_timeout builder))) (\<lambda>_.
     bnd (on_rpc (set_max_record_size (max_record_size_for_payloads
       [b4_read_size builder, b4_write_size builder, b4_dir_size builder]))) (\<lambda>_.
     bnd (exchange_and_create builder minor_version) (\<lambda>(exchange, session).
     bnd (finish_session builder minor_version complete_reclaim session) (\<lambda>(max_operations, sequence_id).
     ret (exchange, session, max_operations, sequence_id)))))"

definition connect_session_minor :: "ClientBuilder4 \<Rightarrow> u32 \<Rightarrow> bool \<Rightarrow> ('addr sys, error, Client4) op" where
  "connect_session_minor builder minor_version complete_reclaim sys =
     (let sys1 = sys\<lparr>sys_dials := sys_dials sys + 1\<rparr> in
      case rpc_connect (sys_net sys (sys_dials sys)) (b4_host builder) (b4_port builder) (Sys (b4_auth builder))
        (b4_timeout builder) of
        Inl e \<Rightarrow> (Inl e, sys1)
      | Inr rpc \<Rightarrow>
          (case setup_session builder minor_version complete_reclaim (sys1, rpc) of
             (Inl e, sys2, _) \<Rightarrow> (Inl e, sys2)
           | (Inr (exchange, session, max_operations, sequence_id), sys2, rpc') \<Rightarrow>
               (Inr \<lparr>c4_rpc = rpc', c4_locks = [], c4_recovery_pending = False, c4_lease_renewal = None,
                  c4_builder = builder, c4_client_id = eir_client_id exchange,
                  c4_session_id = csr_session_id session, c4_sequence_id = sequence_id, c4_open_seqid = 1,
                  c4_open_owner = b4_open_owner builder, c4_minor_version = minor_version,
                  c4_max_operations = max_operations,
                  c4_max_request_size = ca_max_request_size (csr_fore_channel_attrs session),
                  c4_max_response_size = ca_max_response_size (csr_fore_channel_attrs session),
                  c4_root_fsinfo = None, c4_read_size = b4_read_size builder,
                  c4_write_size = b4_write_size builder, c4_dir_size = b4_dir_size builder,
                  c4_max_dir_entries = b4_max_dir_entries builder, c4_retry_policy = b4_retry_policy builder\<rparr>,
                sys2)))"

fun connect_minors :: "ClientBuilder4 \<Rightarrow> bool \<Rightarrow> error option \<Rightarrow> u32 list \<Rightarrow> ('addr sys, error, Client4) op" where
  "connect_minors builder complete_reclaim last_minor_error [] =
     fail (case last_minor_error of
       Some err \<Rightarrow> err
     | None \<Rightarrow> Protocol ''NFSv4 server did not accept a supported minor version'' [])"
| "connect_minors builder complete_reclaim last_minor_error (minor_version # rest) =
     match_result (connect_session_minor builder minor_version complete_reclaim) ret
       (\<lambda>err. if is_minor_version_mismatch err then connect_minors builder complete_reclaim (Some err) rest
          else fail err)"

definition validate_builder4 :: "ClientBuilder4 \<Rightarrow> unit result" where
  "validate_builder4 builder =
     bindR (validate_host4 (b4_host builder)) (\<lambda>_.
     bindR (validate_port4 ''port'' (b4_port builder)) (\<lambda>_.
     bindR (validate_owner_id (b4_owner_id builder)) (\<lambda>_.
     bindR (validate_open_owner (b4_open_owner builder)) (\<lambda>_.
     bindR (validate_transfer_size4 ''read_size'' (b4_read_size builder)) (\<lambda>_.
     bindR (validate_transfer_size4 ''write_size'' (b4_write_size builder)) (\<lambda>_.
     bindR (validate_transfer_size4 ''dir_size'' (b4_dir_size builder)) (\<lambda>_.
     bindR (validate_max_dir_entries4 (b4_max_dir_entries builder)) (\<lambda>_.
     validate_minor_version ''max_minor_version'' (b4_max_minor_version builder)))))))))"

definition connect_session :: "ClientBuilder4 \<Rightarrow> bool \<Rightarrow> ('addr sys, error, Client4) op" where
  "connect_session builder complete_reclaim =
     bnd (of_result (validate_builder4 builder)) (\<lambda>_.
     connect_minors builder complete_reclaim None (negotiated_minor_versions (b4_max_minor_version builder)))"

subsection \<open>COMPOUNDs of the recovery\<close>

definition advance_sequence :: "CompoundResponse \<Rightarrow> ('addr, unit) v4op" where
  "advance_sequence response =
     (if sequence_succeeded response
      then put4 (\<lambda>c. c\<lparr>c4_sequence_id := next_seqid (c4_sequence_id c)\<rparr>)
      else ret ())"

definition with_sequence :: "Client4 \<Rightarrow> Operation list \<Rightarrow> Operation list" where
  "with_sequence c operations = sequence_op (c4_session_id c) (c4_sequence_id c) # operations"

text \<open>The delayed retry at the end of the loops: sleep and go round again, or return the response.\<close>

definition retry_delayed :: "Operation list \<Rightarrow> CompoundResponse \<Rightarrow> u32 \<Rightarrow> 'l \<Rightarrow> ('addr, ('l, CompoundResponse) loop_step) v4op" where
  "retry_delayed operations response retry again =
     bnd (get4 c4_retry_policy) (\<lambda>policy.
     if response_allows_delayed_retry operations response then
       (case delay_for_retry policy retry of
          Some delay \<Rightarrow> bnd (put_sys (sleep4 delay)) (\<lambda>_. ret (Continue again))
        | None \<Rightarrow> ret (Break response))
     else ret (Break response))"

definition recovery_step :: "Operation list \<Rightarrow> u32 \<Rightarrow> ('addr, (u32, CompoundResponse) loop_step) v4op" where
  "recovery_step operations retry =
     bnd (get4 (\<lambda>c. (c4_minor_version c, with_sequence c operations))) (\<lambda>(minor_version, compound).
     bnd (raw_compound ''nfs-rs-recovery'' minor_version compound) (\<lambda>response.
     bnd (advance_sequence response) (\<lambda>_.
     retry_delayed operations response retry (retry + 1))))"

definition same_policy :: "'addr v4 \<Rightarrow> 'addr v4 \<Rightarrow> bool" where
  "same_policy st st' \<longleftrightarrow> c4_retry_policy (v4_client st') = c4_retry_policy (v4_client st) \<and>
     c4_builder (v4_client st') = c4_builder (v4_client st)"

lemma same_policy_order [simp, keeps_intros]: "reflp same_policy" "transp same_policy"
  by (auto simp: same_policy_def intro: reflpI transpI)

lemma same_policy_with_rpc4 [keeps_intros]: "keeps same_policy (with_rpc4 m)"
  by (auto simp: keeps_def same_policy_def with_rpc4_def split: prod.splits)

lemma same_policy_raw [keeps_intros]: "keeps same_policy (raw_compound tag minor operations)"
  unfolding raw_compound_def by (intro keeps_intros)

lemma same_policy_advance [keeps_intros]:
  "keeps same_policy (advance_sequence response)" "keeps same_policy advance_open_seqid"
  by (auto simp: advance_sequence_def advance_open_seqid_def put4_def keeps_def same_policy_def op_simps)

lemma keeps_get4 [keeps_intros]: "reflp R \<Longrightarrow> keeps R (get4 f)"
  unfolding get4_def by (intro keeps_intros)

lemma same_policy_put_sys [keeps_intros]: "keeps same_policy (put_sys f)"
  by (simp add: put_sys_def keeps_def same_policy_def op_simps)

lemma same_policy_retry [keeps_intros]: "keeps same_policy (retry_delayed operations response retry again)"
  unfolding retry_delayed_def by (intro keeps_intros)

lemma retry_delayed_Continue:
  assumes "retry_delayed operations response retry again st = (Inr (Continue l), st')"
  shows "l = again" "response_allows_delayed_retry operations response"
    "unat (max_retries (c4_retry_policy (v4_client st))) - unat (retry + 1) <
     unat (max_retries (c4_retry_policy (v4_client st))) - unat retry"
    "v4_client st' = v4_client st"
  using assms
  by (auto simp: retry_delayed_def get4_def put_sys_def bnd_Inr_iff op_simps retry_shrinks
      split: if_splits option.splits)

lemma recovery_step_shrinks:
  assumes "recovery_step operations retry st = (Inr (Continue retry'), st')"
  shows "unat (max_retries (c4_retry_policy (v4_client st'))) - unat retry' <
    unat (max_retries (c4_retry_policy (v4_client st))) - unat retry"
proof -
  from assms obtain response st1 st2 where
    1: "raw_compound ''nfs-rs-recovery'' (c4_minor_version (v4_client st)) (with_sequence (v4_client st) operations) st =
      (Inr response, st1)"
    and 2: "advance_sequence response st1 = (Inr (), st2)"
    and 3: "retry_delayed operations response retry (retry + 1) st2 = (Inr (Continue retry'), st')"
    by (auto simp: recovery_step_def get4_def bnd_Inr_iff op_simps split: prod.splits sum.splits)
  from keepsD [OF same_policy_raw 1] keepsD [OF same_policy_advance(1) 2] retry_delayed_Continue [OF 3]
  show ?thesis by (simp add: same_policy_def)
qed

function recovery_loop :: "Operation list \<Rightarrow> u32 \<Rightarrow> ('addr, CompoundResponse) v4op" where
  "recovery_loop operations retry st =
     (case recovery_step operations retry st of
        (Inl e, st') \<Rightarrow> (Inl e, st')
      | (Inr (Continue retry'), st') \<Rightarrow> recovery_loop operations retry' st'
      | (Inr (Break response), st') \<Rightarrow> (Inr response, st'))"
  by pat_completeness auto
termination
  by (relation "measure (\<lambda>(operations, retry, st). unat (max_retries (c4_retry_policy (v4_client st))) - unat retry)")
    (auto intro: recovery_step_shrinks [OF sym])

declare recovery_loop.simps [simp del]

interpretation rvl: body_loop "recovery_step operations" "recovery_loop operations"
  "\<lambda>retry st. unat (max_retries (c4_retry_policy (v4_client st))) - unat retry" for operations
  by unfold_locales (rule recovery_loop.simps, rule recovery_step_shrinks)

definition recovery_compound :: "Operation list \<Rightarrow> ('addr, CompoundResponse) v4op" where
  "recovery_compound operations =
     bnd (get4 c4_max_operations) (\<lambda>max_operations.
     bnd (of_result (validate_session_compound_operation_count (length operations) max_operations)) (\<lambda>_.
     recovery_loop operations 0))"

text \<open>\<open>let _ = m;\<close>\<close>

definition ignore :: "('s, 'e, 'a) op \<Rightarrow> ('s, 'e, unit) op" where
  "ignore m = match_result m (\<lambda>_. ret ()) (\<lambda>_. ret ())"

subsection \<open>Recovering locks\<close>

definition put_lock :: "nat \<Rightarrow> LockState \<Rightarrow> ('addr, unit) v4op" where
  "put_lock index state = modify (\<lambda>st. st\<lparr>v4_sys := restore (c4_locks (v4_client st)) index state (v4_sys st)\<rparr>)"

definition locks_snapshot :: "('addr, LockState list) v4op" where
  "locks_snapshot = gets (\<lambda>st. snapshot (c4_locks (v4_client st)) (v4_sys st))"

definition ensure_locks_valid :: "('addr, unit) v4op" where
  "ensure_locks_valid = bnd locks_snapshot (\<lambda>states. of_result (ensure_valid states))"

fun acknowledge_revoked :: "nat \<Rightarrow> LockState \<Rightarrow> (StateId \<times> Status) list \<Rightarrow> ('addr, unit) v4op" where
  "acknowledge_revoked index lock [] = ret ()"
| "acknowledge_revoked index lock ((stateid, status) # rest) =
     (if \<not> Status_is_ok status then
        bnd (put_lock index (lock\<lparr>ls_lost := Some status\<rparr>)) (\<lambda>_.
        bnd (ignore (recovery_compound [OpState (state_op.FreeStateId stateid)])) (\<lambda>_.
        acknowledge_revoked index (lock\<lparr>ls_lost := Some status\<rparr>) rest))
      else acknowledge_revoked index lock rest)"

definition test_lock_stateids :: "LockState \<Rightarrow> ('addr, Status list) v4op" where
  "test_lock_stateids lock =
     bnd (recovery_compound [OpState (state_op.TestStateIds [ls_open_stateid lock, ls_lock_stateid lock])]) (\<lambda>response.
     bnd (of_result (ensure_ok response)) (\<lambda>_.
     of_result (response_test_stateids 2 response)))"

fun check_revoked :: "(nat \<times> LockState) list \<Rightarrow> ('addr, unit) v4op" where
  "check_revoked [] = ret ()"
| "check_revoked ((index, lock) # rest) =
     (if ls_lost lock \<noteq> None then check_revoked rest
      else
        bnd (test_lock_stateids lock) (\<lambda>statuses.
        bnd (acknowledge_revoked index lock (zip [ls_open_stateid lock, ls_lock_stateid lock] statuses)) (\<lambda>_.
        check_revoked rest)))"

definition check_revoked_locks :: "('addr, unit) v4op" where
  "check_revoked_locks = bnd locks_snapshot (\<lambda>states. check_revoked (enumerate 0 states))"

definition check_recovered_lock :: "LockState \<Rightarrow> ('addr, unit) v4op" where
  "check_recovered_lock lock =
     bnd (test_lock_stateids lock) (\<lambda>statuses.
     case find (\<lambda>status. \<not> Status_is_ok status) statuses of
       Some status \<Rightarrow> fail (NfsV4 ''TEST_STATEID'' status)
     | None \<Rightarrow> ret ())"

definition reclaim_open :: "LockState \<Rightarrow> Client4 \<Rightarrow> Operation" where
  "reclaim_open lock c =
     OpState (state_op.Open \<lparr>oa_seqid = c4_open_seqid c,
       oa_share_access = lock_share_access (ls_lock_type lock) OR OPEN4_SHARE_ACCESS_WANT_NO_DELEG,
       oa_share_deny = OPEN4_SHARE_DENY_NONE,
       oa_owner = \<lparr>oo_client_id = c4_client_id c, oo_owner = ls_open_owner lock\<rparr>,
       oa_openhow = OpenHow.NoCreate, oa_claim = OpenClaim.Previous OpenDelegationType.DelegNone\<rparr>)"

definition put_fh :: "FileHandle4 \<Rightarrow> Operation" where
  "put_fh handle = OpHandle (handle_op.PutFh handle)"

definition advance_if_consumed :: "CompoundResponse \<Rightarrow> OpCode \<Rightarrow> ('addr, unit) v4op" where
  "advance_if_consumed response op =
     (if response_consumed_owner_seqid response op then advance_open_seqid else ret ())"

definition reclaim_lock_op :: "LockState \<Rightarrow> StateId \<Rightarrow> Client4 \<Rightarrow> Operation" where
  "reclaim_lock_op lock open_stateid c =
     OpState (state_op.Lock \<lparr>la_lock_type = ls_lock_type lock, la_reclaim = True, la_offset = ls_offset lock,
       la_length = ls_length lock,
       la_locker = New (c4_open_seqid c) open_stateid 1
         \<lparr>lo_client_id = c4_client_id c, lo_owner = ls_owner lock\<rparr>\<rparr>)"

definition reclaim_opened :: "LockState \<Rightarrow> OpenResult \<Rightarrow> ('addr, LockState) v4op" where
  "reclaim_opened lock opened =
     bnd (get4 id) (\<lambda>c.
     bnd (recovery_compound [put_fh (ls_handle lock), reclaim_lock_op lock (opr_stateid opened) c]) (\<lambda>response.
     bnd (advance_if_consumed response 12) (\<lambda>_.
     case bindR (ensure_ok response) (\<lambda>_. response_lock response) of
       Inr lock_stateid \<Rightarrow>
         bnd (get4 c4_client_id) (\<lambda>client_id.
         ret (lock\<lparr>ls_client_id := client_id, ls_open_stateid := opr_stateid opened,
           ls_lock_stateid := lock_stateid, ls_lock_seqid := 2\<rparr>))
     | Inl err \<Rightarrow>
         bnd (get4 c4_open_seqid) (\<lambda>seqid.
         bnd (ignore (recovery_compound [put_fh (ls_handle lock), OpState (state_op.Close seqid (opr_stateid opened))])) (\<lambda>_.
         bnd advance_open_seqid (\<lambda>_. fail err))))))"

definition return_delegation :: "LockState \<Rightarrow> StateId option \<Rightarrow> ('addr, unit) v4op" where
  "return_delegation lock delegation =
     (case delegation of
        None \<Rightarrow> ret ()
      | Some stateid \<Rightarrow>
          bnd (recovery_compound [put_fh (ls_handle lock), OpState (state_op.DelegReturn stateid)]) (\<lambda>response.
          of_result (ensure_ok response)))"

definition reclaim_lock :: "LockState \<Rightarrow> ('addr, LockState) v4op" where
  "reclaim_lock lock =
     bnd (get4 id) (\<lambda>c.
     bnd (recovery_compound [put_fh (ls_handle lock), reclaim_open lock c]) (\<lambda>response.
     bnd (advance_if_consumed response 18) (\<lambda>_.
     bnd (of_result (ensure_ok response)) (\<lambda>_.
     bnd (of_result (response_open response)) (\<lambda>opened.
     bnd (get4 c4_minor_version) (\<lambda>minor_version.
     bnd (of_result (validate_open_result opened minor_version)) (\<lambda>delegation.
     bnd (return_delegation lock delegation) (\<lambda>_.
     reclaim_opened lock opened))))))))"

fun lock_lost_status :: "error \<Rightarrow> Status option" where
  "lock_lost_status (NfsV4 _ status) =
     (if Status_indicates_lost_state status \<or>
        status \<in> set [Posix posix4.Stale, State state4.FhExpired, State state4.BadHandle, Posix posix4.NoEnt]
      then Some status else None)"
| "lock_lost_status _ = None"

definition recovered_state :: "LockState \<Rightarrow> u64 \<Rightarrow> ('addr, LockState) v4op" where
  "recovered_state state client_id =
     match_result
       (if ls_client_id state = client_id
        then bnd (check_recovered_lock state) (\<lambda>_. ret state)
        else reclaim_lock state)
       ret
       (\<lambda>err. case lock_lost_status err of
          Some status \<Rightarrow> ret (state\<lparr>ls_lost := Some status\<rparr>)
        | None \<Rightarrow> fail err)"

fun recover_locks :: "(nat \<times> LockState) list \<Rightarrow> ('addr, unit) v4op" where
  "recover_locks [] = ret ()"
| "recover_locks ((index, state) # rest) =
     (if ls_lost state \<noteq> None then recover_locks rest
      else
        bnd (get4 c4_client_id) (\<lambda>client_id.
        bnd (recovered_state state client_id) (\<lambda>state'.
        bnd (put_lock index state') (\<lambda>_.
        recover_locks rest))))"

subsection \<open>Lease renewal and shutdown\<close>

definition lease_renewal_interval :: "Client4 \<Rightarrow> duration option" where
  "lease_renewal_interval c =
     (case c4_root_fsinfo c of
        None \<Rightarrow> None
      | Some fsinfo \<Rightarrow>
          (case fi4_lease_time_seconds fsinfo of
             None \<Rightarrow> None
           | Some seconds4 \<Rightarrow> if seconds4 > 0 then Some (from_secs (unat seconds4) div 3) else None))"

definition stop_lease_renewal :: "('addr, unit) v4op" where
  "stop_lease_renewal =
     bnd (get4 id) (\<lambda>c.
     case c4_lease_renewal c of
       None \<Rightarrow> ret ()
     | Some lease \<Rightarrow>
         bnd (put4 (\<lambda>c. c\<lparr>c4_lease_renewal := None\<rparr>)) (\<lambda>_.
         bnd (raw_compound ''destroy-lease-session'' (c4_minor_version c)
           [OpSession (session_op.DestroySession (bl_session_id lease))]) (\<lambda>response.
         if cmp_status response \<in> set [Sess sess4.BadSession, Ext ext4.DeadSession] then ret ()
         else of_result (ensure_ok response))))"

definition shutdown :: "('addr, unit) v4op" where
  "shutdown =
     bnd stop_lease_renewal (\<lambda>_.
     bnd (get4 id) (\<lambda>c.
     bnd (raw_compound ''destroy-session'' (c4_minor_version c)
       [OpSession (session_op.DestroySession (c4_session_id c))]) (\<lambda>response.
     of_result (ensure_ok response))))"

definition destroy_client_id :: "('addr, unit) v4op" where
  "destroy_client_id =
     bnd stop_lease_renewal (\<lambda>_.
     bnd (get4 id) (\<lambda>c.
     bnd (raw_compound ''destroy-session'' (c4_minor_version c)
       [OpSession (session_op.DestroySession (c4_session_id c))]) (\<lambda>session_response.
     bnd (of_result (ensure_ok session_response)) (\<lambda>_.
     bnd (raw_compound ''destroy-clientid'' (c4_minor_version c)
       [OpSession (session_op.DestroyClientId (c4_client_id c))]) (\<lambda>client_response.
     of_result (ensure_ok client_response))))))"

text \<open>An operation of another client of the same process, which is dropped afterwards.\<close>

definition on_client :: "Client4 \<Rightarrow> ('addr, 'a) v4op \<Rightarrow> ('addr, 'a) v4op" where
  "on_client c m st = (case m (st\<lparr>v4_client := c\<rparr>) of (r, st') \<Rightarrow> (r, st'\<lparr>v4_client := v4_client st\<rparr>))"

definition on_sys :: "('addr sys, error, 'a) op \<Rightarrow> ('addr, 'a) v4op" where
  "on_sys m st = (case m (v4_sys st) of (r, sys) \<Rightarrow> (r, st\<lparr>v4_sys := sys\<rparr>))"

text \<open>The thread of a lease: one renewal by its keeper, and starting it.\<close>

definition lease_renew :: "('addr, bool) v4op" where
  "lease_renew =
     match_result (recovery_compound [])
       (\<lambda>response. ret (Status_is_ok (cmp_status response) \<and> response_revoked_lock_status response = None))
       (\<lambda>_. ret False)"

definition BlockingLease_start :: "duration \<Rightarrow> SessionId \<Rightarrow> ('addr, BlockingLease) v4op" where
  "BlockingLease_start interval session_id =
     bnd (gets (\<lambda>st. sys_spawn (v4_sys st) (sys_threads (v4_sys st)))) (\<lambda>outcome.
     bnd (put_sys (\<lambda>sys. sys\<lparr>sys_threads := sys_threads sys + 1\<rparr>)) (\<lambda>_.
     case outcome of
       Some k \<Rightarrow> fail (Io k)
     | None \<Rightarrow> ret \<lparr>bl_interval = interval, bl_session_id = session_id\<rparr>))"

definition keeper_builder :: "ClientBuilder4 \<Rightarrow> duration \<Rightarrow> ClientBuilder4" where
  "keeper_builder builder interval =
     builder\<lparr>b4_automatic_lease_renewal := False,
       b4_timeout := Some (min (case b4_timeout builder of Some t \<Rightarrow> t | None \<Rightarrow> interval) interval)\<rparr>"

definition start_lease_renewal :: "('addr, unit) v4op" where
  "start_lease_renewal =
     bnd (get4 id) (\<lambda>c.
     if \<not> b4_automatic_lease_renewal (c4_builder c) then ret ()
     else
       bnd (of_result (ok_or (lease_renewal_interval c)
         (Protocol ''server did not advertise a usable NFSv4 lease time'' []))) (\<lambda>interval.
       bnd (on_sys (connect_session (keeper_builder (c4_builder c) interval) False)) (\<lambda>keeper.
       if c4_client_id keeper \<noteq> c4_client_id c then
         bnd (ignore (on_client keeper shutdown)) (\<lambda>_.
         fail (NfsV4 ''EXCHANGE_ID'' (State state4.StaleClientId)))
       else
         bnd (BlockingLease_start interval (c4_session_id keeper)) (\<lambda>lease.
         put4 (\<lambda>c. c\<lparr>c4_lease_renewal := Some lease\<rparr>)))))"

definition lease_failed :: "('addr, bool) v4op" where
  "lease_failed =
     bnd (get4 c4_lease_renewal) (\<lambda>lease.
     case lease of
       None \<Rightarrow> ret False
     | Some _ \<Rightarrow>
         bnd (gets (\<lambda>st. sys_lease_failed (v4_sys st) (sys_polls (v4_sys st)))) (\<lambda>failed.
         bnd (put_sys (\<lambda>sys. sys\<lparr>sys_polls := sys_polls sys + 1\<rparr>)) (\<lambda>_. ret failed)))"

subsection \<open>Recovering a session\<close>

definition apply_fsinfo_limits :: "FsInfo4 \<Rightarrow> ('addr, unit) v4op" where
  "apply_fsinfo_limits fsinfo =
     bnd (put4 (\<lambda>c.
       let builder = c4_builder c;
           read_limit = min (b4_read_size builder) (session_payload_limit (c4_max_response_size c));
           write_limit = min (b4_write_size builder) (session_payload_limit (c4_max_request_size c));
           dir_limit = min (b4_dir_size builder) (session_payload_limit (c4_max_response_size c))
       in c\<lparr>c4_read_size := clamp_io_size4 (fi4_max_read fsinfo) read_limit,
            c4_write_size := clamp_io_size4 (fi4_max_write fsinfo) write_limit,
            c4_dir_size := dir_limit\<rparr>)) (\<lambda>_.
     bnd (get4 (\<lambda>c. max_record_size_for_payloads [c4_read_size c, c4_write_size c, c4_dir_size c])) (\<lambda>record_size.
     with_rpc4 (set_max_record_size record_size)))"

definition put_root_fh :: Operation where
  "put_root_fh = OpHandle handle_op.PutRootFh"

definition get_attr :: "Bitmap \<Rightarrow> Operation" where
  "get_attr bitmap = OpName (name_op.GetAttr bitmap)"

definition refresh_recovered_fsinfo :: "('addr, unit) v4op" where
  "refresh_recovered_fsinfo =
     bnd (recovery_compound [put_root_fh, get_attr (from_known_attrs [FATTR4_SUPPORTED_ATTRS])]) (\<lambda>response.
     bnd (of_result (ensure_ok response)) (\<lambda>_.
     bnd (of_result (bindR (response_getattr response) parse_supported_attrs)) (\<lambda>supported.
     bnd (of_result (from_supported_attrs supported FATTR4_FSINFO_ATTRS)) (\<lambda>attrmask.
     bnd (if Bitmap_is_empty attrmask then ret \<lparr>fattr_attrmask = attrmask, fattr_attr_vals = []\<rparr>
          else
            bnd (recovery_compound [put_root_fh, get_attr attrmask]) (\<lambda>response.
            bnd (of_result (ensure_ok response)) (\<lambda>_.
            of_result (response_getattr response)))) (\<lambda>attrs.
     bnd (of_result (parse_fsinfo attrs)) (\<lambda>fsinfo.
     bnd (apply_fsinfo_limits fsinfo) (\<lambda>_.
     put4 (\<lambda>c. c\<lparr>c4_root_fsinfo := Some fsinfo\<rparr>))))))))"

definition reconnect_step :: "ClientBuilder4 \<Rightarrow> RetryPolicy \<Rightarrow> u32 \<Rightarrow> ('addr sys, error, (u32, Client4) loop_step) op" where
  "reconnect_step builder policy retry =
     match_result (connect_session builder False)
       (\<lambda>client. ret (Break client))
       (\<lambda>err.
          if is_transport_failure err then
            (case delay_for_retry policy retry of
               None \<Rightarrow> fail err
             | Some delay \<Rightarrow> bnd (modify (sleep4 delay)) (\<lambda>_. ret (Continue (retry + 1))))
          else fail err)"

lemma reconnect_step_shrinks:
  assumes "reconnect_step builder policy retry sys = (Inr (Continue retry'), sys')"
  shows "unat (max_retries policy) - unat retry' < unat (max_retries policy) - unat retry"
  using assms
  by (auto simp: reconnect_step_def match_result_def bnd_Inr_iff op_simps retry_shrinks
      split: prod.splits sum.splits if_splits option.splits)

function reconnect_loop :: "ClientBuilder4 \<Rightarrow> RetryPolicy \<Rightarrow> u32 \<Rightarrow> ('addr sys, error, Client4) op" where
  "reconnect_loop builder policy retry sys =
     (case reconnect_step builder policy retry sys of
        (Inl e, sys') \<Rightarrow> (Inl e, sys')
      | (Inr (Continue retry'), sys') \<Rightarrow> reconnect_loop builder policy retry' sys'
      | (Inr (Break client), sys') \<Rightarrow> (Inr client, sys'))"
  by pat_completeness auto
termination
  by (relation "measure (\<lambda>(builder, policy, retry, sys). unat (max_retries policy) - unat retry)")
    (auto intro: reconnect_step_shrinks [OF sym])

declare reconnect_loop.simps [simp del]

interpretation rnl: body_loop "reconnect_step builder policy" "reconnect_loop builder policy"
  "\<lambda>retry sys. unat (max_retries policy) - unat retry" for builder policy
  by unfold_locales (rule reconnect_loop.simps, rule reconnect_step_shrinks)

text \<open>What the rebuilt client does before it replaces the old one.\<close>

definition recover_rebuilt :: "LockState list \<Rightarrow> bool \<Rightarrow> ('addr, unit) v4op" where
  "recover_rebuilt states had_fsinfo =
     bnd (recover_locks (enumerate 0 states)) (\<lambda>_.
     bnd (recovery_compound reclaim_operations) (\<lambda>response.
     bnd (of_result (ensure_reclaim_complete response)) (\<lambda>_.
     bnd (if had_fsinfo then refresh_recovered_fsinfo else ret ()) (\<lambda>_.
     start_lease_renewal))))"

definition adopt :: "Client4 \<Rightarrow> Client4 \<Rightarrow> Client4" where
  "adopt old rebuilt =
     rebuilt\<lparr>c4_locks := c4_locks old,
       c4_open_seqid := (if c4_client_id rebuilt = c4_client_id old then c4_open_seqid old else c4_open_seqid rebuilt)\<rparr>"

text \<open>\<open>std::mem::replace\<close> and the shutdown of the old client, whose outcome does not matter.\<close>

definition replace_client :: "Client4 \<Rightarrow> ('addr, unit) v4op" where
  "replace_client rebuilt =
     bnd (get4 id) (\<lambda>old.
     bnd (put4 (\<lambda>_. rebuilt)) (\<lambda>_.
     ignore (on_client old shutdown)))"

text \<open>An operation of the rebuilt client; the old client stays in place and the new state is returned.\<close>

definition on_rebuilt :: "Client4 \<Rightarrow> ('addr, unit) v4op \<Rightarrow> ('addr, Client4) v4op" where
  "on_rebuilt rebuilt m st =
     (case m (st\<lparr>v4_client := rebuilt\<rparr>) of
        (Inl e, st') \<Rightarrow> (Inl e, st'\<lparr>v4_client := v4_client st\<rparr>)
      | (Inr _, st') \<Rightarrow> (Inr (v4_client st'), st'\<lparr>v4_client := v4_client st\<rparr>))"

definition recover_session :: "('addr, unit) v4op" where
  "recover_session =
     bnd (put4 (\<lambda>c. c\<lparr>c4_recovery_pending := True\<rparr>)) (\<lambda>_.
     bnd (ignore stop_lease_renewal) (\<lambda>_.
     bnd (get4 id) (\<lambda>old.
     bnd (on_sys (reconnect_loop (c4_builder old) (c4_retry_policy old) 0)) (\<lambda>rebuilt.
     bnd locks_snapshot (\<lambda>states.
     bnd (on_rebuilt (adopt old rebuilt) (recover_rebuilt states (c4_root_fsinfo old \<noteq> None))) (\<lambda>rebuilt.
     bnd (replace_client rebuilt) (\<lambda>_.
     ensure_locks_valid)))))))"

subsection \<open>COMPOUNDs of the client\<close>

definition checked_revocation :: "Operation list \<Rightarrow> CompoundResponse \<Rightarrow> ('addr, unit) v4op" where
  "checked_revocation operations response =
     (if response_revoked_lock_status response \<noteq> None then
        bnd check_revoked_locks (\<lambda>_.
        if \<not> operations_release_state operations then ensure_locks_valid else ret ())
      else ret ())"

definition compound_response :: "Operation list \<Rightarrow> bool \<Rightarrow> u32 \<times> bool \<Rightarrow> CompoundResponse \<Rightarrow>
    ('addr, (u32 \<times> bool, CompoundResponse) loop_step) v4op" where
  "compound_response operations can_replay = (\<lambda>(retry, recovered_session) response.
     bnd (advance_sequence response) (\<lambda>_.
     bnd (checked_revocation operations response) (\<lambda>_.
     if response_requires_session_recovery response \<and> \<not> recovered_session then
       bnd recover_session (\<lambda>_.
       if \<not> can_replay then fail (session_recovery_error response)
       else ret (Continue (retry, True)))
     else retry_delayed operations response retry (retry + 1, recovered_session))))"

definition compound_failure :: "bool \<Rightarrow> u32 \<times> bool \<Rightarrow> error \<Rightarrow>
    ('addr, (u32 \<times> bool, CompoundResponse) loop_step) v4op" where
  "compound_failure can_replay = (\<lambda>(retry, recovered_session) err.
     if is_transport_failure err \<and> \<not> recovered_session then
       bnd (put4 (\<lambda>c. c\<lparr>c4_recovery_pending := True\<rparr>)) (\<lambda>_.
       match_result recover_session
         (\<lambda>_. if can_replay then ret (Continue (retry, True)) else fail err)
         (\<lambda>recovery. fail (cleanup_error err ''NFSv4 session recovery'' (Inl recovery))))
     else fail err)"

definition compound_step :: "Operation list \<Rightarrow> bool \<Rightarrow> u32 \<times> bool \<Rightarrow>
    ('addr, (u32 \<times> bool, CompoundResponse) loop_step) v4op" where
  "compound_step operations can_replay l =
     bnd (get4 (\<lambda>c. (c4_minor_version c, with_sequence c operations))) (\<lambda>(minor_version, compound).
     match_result (raw_compound ''nfs-rs-v4'' minor_version compound)
       (compound_response operations can_replay l)
       (compound_failure can_replay l))"

lemma same_policy_ignore [keeps_intros]: "keeps same_policy m \<Longrightarrow> keeps same_policy (ignore m)"
  unfolding ignore_def by (intro keeps_intros)

lemma same_policy_recovery [keeps_intros]: "keeps same_policy (recovery_compound operations)"
proof -
  have "keeps same_policy (recovery_loop operations retry)" for retry
  proof (rule rvl.keeps_loop)
    show "keeps same_policy (recovery_step operations l)" for l
      unfolding recovery_step_def by (intro keeps_intros)
  qed simp_all
  then show ?thesis unfolding recovery_compound_def by (intro keeps_intros)
qed

lemma same_policy_snapshot [keeps_intros]: "keeps same_policy locks_snapshot" "keeps same_policy ensure_locks_valid"
  unfolding ensure_locks_valid_def locks_snapshot_def by (intro keeps_intros)+

lemma same_policy_put_lock [keeps_intros]: "keeps same_policy (put_lock index state)"
  by (simp add: put_lock_def keeps_def same_policy_def op_simps)

lemma same_policy_test [keeps_intros]: "keeps same_policy (test_lock_stateids lock)"
  unfolding test_lock_stateids_def by (intro keeps_intros)

lemma same_policy_acknowledge [keeps_intros]: "keeps same_policy (acknowledge_revoked index lock rs)"
  by (induction index lock rs rule: acknowledge_revoked.induct) (auto intro!: keeps_intros)

lemma same_policy_check_revoked [keeps_intros]: "keeps same_policy (check_revoked xs)"
  by (induction xs rule: check_revoked.induct) (auto intro!: keeps_intros)

lemma same_policy_revocation [keeps_intros]: "keeps same_policy (checked_revocation operations response)"
  unfolding checked_revocation_def check_revoked_locks_def by (intro keeps_intros)

text \<open>The measure of the loop: a session is recovered at most once, and every other turn uses up a retry.\<close>

definition compound_left :: "u32 \<times> bool \<Rightarrow> 'addr v4 \<Rightarrow> nat" where
  "compound_left = (\<lambda>(retry, recovered) st.
     (if recovered then 0 else 2 ^ 32) + (unat (max_retries (c4_retry_policy (v4_client st))) - unat retry))"

lemma compound_left_recovered: "compound_left (retry, True) st < compound_left (retry', False) st'"
  using unat_u32_less [of "max_retries (c4_retry_policy (v4_client st))"]
  by (simp add: compound_left_def less_imp_diff_less)

lemma compound_step_cases:
  assumes "compound_step operations can_replay (retry, recovered) st = (Inr (Continue l), st')"
  obtains (Replayed) "can_replay" "\<not> recovered" "l = (retry, True)"
  | (Delayed) response st1 where
      "raw_compound ''nfs-rs-v4'' (c4_minor_version (v4_client st)) (with_sequence (v4_client st) operations) st =
         (Inr response, st1)"
      "response_allows_delayed_retry operations response" "l = (retry + 1, recovered)"
      "compound_left (retry + 1, recovered) st' < compound_left (retry, recovered) st"
proof -
  obtain r st1 where raw:
    "raw_compound ''nfs-rs-v4'' (c4_minor_version (v4_client st)) (with_sequence (v4_client st) operations) st = (r, st1)"
    by fastforce
  show thesis
  proof (cases r)
    case (Inl err)
    with assms raw have "compound_failure can_replay (retry, recovered) err st1 = (Inr (Continue l), st')"
      by (simp add: compound_step_def get4_def bnd_apply op_simps match_result_def)
    then show thesis
      by (auto simp: compound_failure_def match_result_def bnd_Inr_iff op_simps split: if_splits prod.splits sum.splits
          intro: Replayed)
  next
    case (Inr response)
    with assms raw have "compound_response operations can_replay (retry, recovered) response st1 = (Inr (Continue l), st')"
      by (simp add: compound_step_def get4_def bnd_apply op_simps match_result_def)
    then obtain st2 st3 where 2: "advance_sequence response st1 = (Inr (), st2)"
      and 3: "checked_revocation operations response st2 = (Inr (), st3)"
      and 4: "(if response_requires_session_recovery response \<and> \<not> recovered then
          bnd recover_session (\<lambda>_. if \<not> can_replay then fail (session_recovery_error response)
            else ret (Continue (retry, True)))
        else retry_delayed operations response retry (retry + 1, recovered)) st3 = (Inr (Continue l), st')"
      by (auto simp: compound_response_def bnd_Inr_iff)
    show thesis
    proof (cases "response_requires_session_recovery response \<and> \<not> recovered")
      case True
      with 4 show thesis by (auto simp: op_simps split: if_splits prod.splits sum.splits intro: Replayed)
    next
      case False
      with 4 have 5: "retry_delayed operations response retry (retry + 1, recovered) st3 = (Inr (Continue l), st')"
        by (simp only: if_False)
      have policy: "c4_retry_policy (v4_client st3) = c4_retry_policy (v4_client st)"
        using keepsD [OF same_policy_raw raw] keepsD [OF same_policy_advance(1) 2]
          keepsD [OF same_policy_revocation 3] by (simp add: same_policy_def)
      from retry_delayed_Continue [OF 5] policy
      have "compound_left (retry + 1, recovered) st' < compound_left (retry, recovered) st"
        by (simp add: compound_left_def)
      with retry_delayed_Continue [OF 5] raw Inr show thesis by (intro Delayed) simp_all
    qed
  qed
qed

lemma compound_step_shrinks:
  assumes "compound_step operations can_replay l st = (Inr (Continue l'), st')"
  shows "compound_left l' st' < compound_left l st"
proof -
  obtain retry recovered where l: "l = (retry, recovered)" by fastforce
  from assms show ?thesis unfolding l
    by (cases rule: compound_step_cases) (auto simp: compound_left_recovered)
qed

function compound_loop :: "Operation list \<Rightarrow> bool \<Rightarrow> u32 \<times> bool \<Rightarrow> ('addr, CompoundResponse) v4op" where
  "compound_loop operations can_replay l st =
     (case compound_step operations can_replay l st of
        (Inl e, st') \<Rightarrow> (Inl e, st')
      | (Inr (Continue l'), st') \<Rightarrow> compound_loop operations can_replay l' st'
      | (Inr (Break response), st') \<Rightarrow> (Inr response, st'))"
  by pat_completeness auto
termination
  by (relation "measure (\<lambda>(operations, can_replay, l, st). compound_left l st)")
    (auto intro: compound_step_shrinks [OF sym])

declare compound_loop.simps [simp del]

interpretation cpl: body_loop "compound_step operations can_replay" "compound_loop operations can_replay" compound_left
  for operations can_replay
  by unfold_locales (rule compound_loop.simps, rule compound_step_shrinks)

definition recover_if_pending :: "bool \<Rightarrow> ('addr, unit) v4op" where
  "recover_if_pending can_replay =
     bnd (get4 c4_recovery_pending) (\<lambda>pending.
     if pending then
       bnd recover_session (\<lambda>_.
       if \<not> can_replay then fail (NfsV4 ''SEQUENCE'' (Sess sess4.BadSession)) else ret ())
     else ret ())"

definition compound_status :: "Operation list \<Rightarrow> ('addr, CompoundResponse) v4op" where
  "compound_status operations =
     bnd (get4 c4_max_operations) (\<lambda>max_operations.
     bnd (of_result (validate_session_compound_operation_count (length operations) max_operations)) (\<lambda>_.
     let can_replay = operations_can_replay_after_session_recovery operations in
     bnd lease_failed (\<lambda>failed.
     bnd (if failed then put4 (\<lambda>c. c\<lparr>c4_recovery_pending := True\<rparr>) else ret ()) (\<lambda>_.
     bnd (recover_if_pending can_replay) (\<lambda>_.
     bnd (if \<not> operations_release_state operations then ensure_locks_valid else ret ()) (\<lambda>_.
     compound_loop operations can_replay (0, False)))))))"

definition compound :: "Operation list \<Rightarrow> ('addr, CompoundResponse) v4op" where
  "compound operations =
     bnd (compound_status operations) (\<lambda>response.
     bnd (of_result (ensure_ok response)) (\<lambda>_. ret response))"

definition renew :: "('addr, unit) v4op" where
  "renew = bnd (compound []) (\<lambda>_. ret ())"

end
