(* ===== verification/V4_Locks.thy ===== *)
theory V4_Locks
  imports V4_Session
begin

text \<open>
  What the sessions promise about byte-range locks. A lock that was lost is never taken again
  silently: \<open>locks_evolve\<close> says how the shared lock states may change, and every COMPOUND and
  every recovery keeps to it. While a registered lock is lost, the client refuses everything but
  the operations that release state. The last part follows a COMPOUND through its attempts.
\<close>

subsection \<open>How lock states change\<close>

definition lock_evolves :: "LockState \<Rightarrow> LockState \<Rightarrow> bool" where
  "lock_evolves s s' \<longleftrightarrow>
     ls_handle s' = ls_handle s \<and> ls_open_owner s' = ls_open_owner s \<and> ls_lock_type s' = ls_lock_type s \<and>
     ls_offset s' = ls_offset s \<and> ls_length s' = ls_length s \<and> ls_owner s' = ls_owner s \<and>
     (ls_lost s \<noteq> None \<longrightarrow> ls_lost s' \<noteq> None)"

lemma lock_evolves_refl [simp]: "lock_evolves s s"
  by (simp add: lock_evolves_def)

lemma lock_evolves_trans: "lock_evolves s t \<Longrightarrow> lock_evolves t u \<Longrightarrow> lock_evolves s u"
  by (auto simp: lock_evolves_def)

lemma lock_evolves_lost [simp]: "lock_evolves s (s\<lparr>ls_lost := Some status\<rparr>)"
  by (simp add: lock_evolves_def)

text \<open>The registered locks of a client, and that they are different cells of the process.\<close>

definition registered :: "'addr v4 \<Rightarrow> LockState list" where
  "registered st = snapshot (c4_locks (v4_client st)) (v4_sys st)"

definition locks_wf :: "'addr v4 \<Rightarrow> bool" where
  "locks_wf st \<longleftrightarrow> distinct (c4_locks (v4_client st)) \<and>
     (\<forall>cell \<in> set (c4_locks (v4_client st)). cell < length (sys_cells (v4_sys st)))"

definition same_locks :: "'addr v4 \<Rightarrow> 'addr v4 \<Rightarrow> bool" where
  "same_locks st st' \<longleftrightarrow> c4_locks (v4_client st') = c4_locks (v4_client st) \<and>
     sys_cells (v4_sys st') = sys_cells (v4_sys st)"

definition locks_evolve :: "'addr v4 \<Rightarrow> 'addr v4 \<Rightarrow> bool" where
  "locks_evolve st st' \<longleftrightarrow> c4_locks (v4_client st') = c4_locks (v4_client st) \<and>
     list_all2 lock_evolves (sys_cells (v4_sys st)) (sys_cells (v4_sys st'))"

lemma same_locks_order [simp, keeps_intros]: "reflp same_locks" "transp same_locks"
  by (auto simp: same_locks_def intro: reflpI transpI)

lemma locks_evolve_refl [simp]: "locks_evolve st st"
  by (simp add: locks_evolve_def list_all2_refl)

lemma locks_evolve_trans: "locks_evolve st st1 \<Longrightarrow> locks_evolve st1 st2 \<Longrightarrow> locks_evolve st st2"
  using list_all2_trans [of lock_evolves lock_evolves lock_evolves, OF lock_evolves_trans]
  unfolding locks_evolve_def by auto

lemma same_locks_evolve: "same_locks st st' \<Longrightarrow> locks_evolve st st'"
  by (simp add: same_locks_def locks_evolve_def list_all2_refl)

lemma locks_wf_evolve: "locks_evolve st st' \<Longrightarrow> locks_wf st \<Longrightarrow> locks_wf st'"
  by (auto simp: locks_evolve_def locks_wf_def dest: list_all2_lengthD)

lemma registered_same: "same_locks st st' \<Longrightarrow> registered st' = registered st"
  by (simp add: same_locks_def registered_def snapshot_def)

subsection \<open>Operations that leave the locks alone\<close>

lemma keeps_case_sum [keeps_intros]:
  "(\<And>e. t = Inl e \<Longrightarrow> keeps R (h e)) \<Longrightarrow> (\<And>x. t = Inr x \<Longrightarrow> keeps R (k x)) \<Longrightarrow>
   keeps R (case t of Inl e \<Rightarrow> h e | Inr x \<Rightarrow> k x)"
  by (cases t) simp_all

lemma same_locks_with_rpc4 [keeps_intros]: "keeps same_locks (with_rpc4 m)"
  by (auto simp: keeps_def same_locks_def with_rpc4_def split: prod.splits)

lemma same_locks_raw [keeps_intros]: "keeps same_locks (raw_compound tag minor operations)"
  unfolding raw_compound_def by (intro keeps_intros)

lemma same_locks_put4 [keeps_intros]: "(\<And>c. c4_locks (f c) = c4_locks c) \<Longrightarrow> keeps same_locks (put4 f)"
  by (simp add: put4_def keeps_def same_locks_def op_simps)

lemma same_locks_put_sys [keeps_intros]: "(\<And>sys. sys_cells (f sys) = sys_cells sys) \<Longrightarrow> keeps same_locks (put_sys f)"
  by (simp add: put_sys_def keeps_def same_locks_def op_simps)

lemma same_locks_advance [keeps_intros]:
  "keeps same_locks (advance_sequence response)" "keeps same_locks advance_open_seqid"
  unfolding advance_sequence_def advance_open_seqid_def by (intro keeps_intros; simp)+

lemma same_locks_retry [keeps_intros]: "keeps same_locks (retry_delayed operations response retry again)"
  unfolding retry_delayed_def by (intro keeps_intros) (simp add: sleep4_def)

lemma same_locks_ignore [keeps_intros]: "keeps same_locks m \<Longrightarrow> keeps same_locks (ignore m)"
  unfolding ignore_def by (intro keeps_intros)

lemma same_locks_recovery [keeps_intros]: "keeps same_locks (recovery_compound operations)"
proof -
  have "keeps same_locks (recovery_loop operations retry)" for retry
  proof (rule rvl.keeps_loop)
    show "keeps same_locks (recovery_step operations l)" for l
      unfolding recovery_step_def by (intro keeps_intros)
  qed simp_all
  then show ?thesis unfolding recovery_compound_def by (intro keeps_intros)
qed

lemma same_locks_snapshot [keeps_intros]: "keeps same_locks locks_snapshot" "keeps same_locks ensure_locks_valid"
  unfolding ensure_locks_valid_def locks_snapshot_def by (intro keeps_intros)+

lemma same_locks_test [keeps_intros]: "keeps same_locks (test_lock_stateids lock)"
  unfolding test_lock_stateids_def by (intro keeps_intros)

lemma same_locks_check [keeps_intros]: "keeps same_locks (check_recovered_lock lock)"
  unfolding check_recovered_lock_def by (intro keeps_intros)

lemma same_locks_consumed [keeps_intros]: "keeps same_locks (advance_if_consumed response op)"
  unfolding advance_if_consumed_def by (intro keeps_intros)

lemma same_locks_reclaim [keeps_intros]: "keeps same_locks (reclaim_lock lock)"
  unfolding reclaim_lock_def return_delegation_def reclaim_opened_def by (intro keeps_intros)

text \<open>Connecting does not touch the cells.\<close>

abbreviation (input) same_cells :: "'addr sys \<Rightarrow> 'addr sys \<Rightarrow> bool" where
  "same_cells sys sys' \<equiv> sys_cells sys' = sys_cells sys"

abbreviation (input) conn_cells :: "'addr sys \<times> RpcClient \<Rightarrow> 'addr sys \<times> RpcClient \<Rightarrow> bool" where
  "conn_cells a b \<equiv> sys_cells (fst b) = sys_cells (fst a)"

lemma conn_cells_order [simp, keeps_intros]: "reflp conn_cells" "transp conn_cells" "reflp same_cells" "transp same_cells"
  by (auto intro: reflpI transpI)

lemma conn_cells_on_rpc [keeps_intros]: "keeps conn_cells (on_rpc m)"
  by (auto simp: keeps_def on_rpc_def split: prod.splits)

lemma conn_cells_sleep [keeps_intros]: "keeps conn_cells (sleep_conn delay)"
  by (auto simp: keeps_def sleep_conn_def sleep4_def op_simps split: prod.splits)

lemma conn_cells_delayed [keeps_intros]: "keeps conn_cells (raw_compound_with_delayed_retry tag minor operations policy)"
  unfolding raw_compound_with_delayed_retry_def
  by (rule dlp.keeps_loop) (auto simp: delayed_step_def intro!: keeps_intros)

lemma conn_cells_reclaim [keeps_intros]:
  "keeps conn_cells (reclaim_complete_with_delayed_retry minor session_id sequence_id max_operations policy)"
  unfolding reclaim_complete_with_delayed_retry_def
  by (intro keeps_intros, rule rcl.keeps_loop) (auto simp: reclaim_step_def Let_def intro!: keeps_intros)

lemma conn_cells_cleanup [keeps_intros]: "keeps conn_cells (cleanup_session_setup_error minor session_id err)"
  by (auto simp: keeps_def cleanup_session_setup_error_def on_rpc_def split: prod.splits)

lemma conn_cells_setup [keeps_intros]: "keeps conn_cells (setup_session builder minor complete_reclaim)"
  unfolding setup_session_def exchange_and_create_def finish_session_def Let_def or_destroy_def
  by (intro keeps_intros)

lemma same_cells_minor [keeps_intros]: "keeps same_cells (connect_session_minor builder minor complete_reclaim)"
proof (rule keepsI)
  fix sys r sys' assume "connect_session_minor builder minor complete_reclaim sys = (r, sys')"
  then show "sys_cells sys' = sys_cells sys"
    using keepsD [OF conn_cells_setup]
    by (fastforce simp: connect_session_minor_def Let_def split: sum.splits prod.splits)
qed

lemma same_cells_minors [keeps_intros]: "keeps same_cells (connect_minors builder complete_reclaim last_error minors)"
  by (induction builder complete_reclaim last_error minors rule: connect_minors.induct) (auto intro!: keeps_intros)

lemma same_cells_connect [keeps_intros]: "keeps same_cells (connect_session builder complete_reclaim)"
  unfolding connect_session_def by (intro keeps_intros)

lemma same_cells_reconnect [keeps_intros]: "keeps same_cells (reconnect_loop builder policy retry)"
  by (rule rnl.keeps_loop) (auto simp: reconnect_step_def sleep4_def intro!: keeps_intros)

lemma same_locks_on_sys [keeps_intros]: "keeps same_cells m \<Longrightarrow> keeps same_locks (on_sys m)"
  by (auto simp: keeps_def same_locks_def on_sys_def split: prod.splits) (metis snd_conv)

lemma same_locks_on_client [keeps_intros]:
  assumes "keeps same_locks m"
  shows "keeps same_locks (on_client c m)"
proof (rule keepsI)
  fix st :: "'a v4" and r st'
  assume run: "on_client c m st = (r, st')"
  obtain t st1 where m: "m (st\<lparr>v4_client := c\<rparr>) = (t, st1)" by fastforce
  with run have "st' = st1\<lparr>v4_client := v4_client st\<rparr>" by (simp add: on_client_def)
  with keepsD [OF assms m] show "same_locks st st'" by (simp add: same_locks_def)
qed

lemma same_locks_stop [keeps_intros]: "keeps same_locks stop_lease_renewal"
  unfolding stop_lease_renewal_def by (intro keeps_intros) simp

lemma same_locks_shutdown [keeps_intros]: "keeps same_locks shutdown"
  unfolding shutdown_def by (intro keeps_intros)

lemma same_locks_start [keeps_intros]: "keeps same_locks start_lease_renewal"
  unfolding start_lease_renewal_def BlockingLease_start_def by (intro keeps_intros) simp_all

lemma same_locks_refresh [keeps_intros]: "keeps same_locks refresh_recovered_fsinfo"
  unfolding refresh_recovered_fsinfo_def apply_fsinfo_limits_def by (intro keeps_intros) (simp_all add: Let_def)

lemma same_locks_lease_failed [keeps_intros]: "keeps same_locks lease_failed"
  unfolding lease_failed_def by (intro keeps_intros) simp

subsection \<open>Marking, reclaiming and recovering\<close>

text \<open>One entry of the registry changes, and it evolves.\<close>

definition lock_step :: "nat \<Rightarrow> 'addr v4 \<Rightarrow> 'addr v4 \<Rightarrow> bool" where
  "lock_step i st st' \<longleftrightarrow>
     (let entries = c4_locks (v4_client st); cells = sys_cells (v4_sys st); cells' = sys_cells (v4_sys st') in
      c4_locks (v4_client st') = entries \<and> length cells' = length cells \<and>
      lock_evolves (cells ! (entries ! i)) (cells' ! (entries ! i)) \<and>
      (\<forall>cell. cell \<noteq> entries ! i \<longrightarrow> cells' ! cell = cells ! cell))"

lemma lock_step_trans: "lock_step i st st1 \<Longrightarrow> lock_step i st1 st2 \<Longrightarrow> lock_step i st st2"
  by (auto simp: lock_step_def Let_def intro: lock_evolves_trans)

lemma same_lock_step: "same_locks st st' \<Longrightarrow> lock_step i st st'"
  by (simp add: same_locks_def lock_step_def Let_def)

lemma lock_step_evolve: "lock_step i st st' \<Longrightarrow> locks_evolve st st'"
  unfolding lock_step_def locks_evolve_def Let_def list_all2_conv_all_nth
proof (elim conjE, intro conjI allI impI)
  fix cell
  assume "lock_evolves (sys_cells (v4_sys st) ! (c4_locks (v4_client st) ! i)) (sys_cells (v4_sys st') ! (c4_locks (v4_client st) ! i))"
    "\<forall>cell. cell \<noteq> c4_locks (v4_client st) ! i \<longrightarrow> sys_cells (v4_sys st') ! cell = sys_cells (v4_sys st) ! cell"
  then show "lock_evolves (sys_cells (v4_sys st) ! cell) (sys_cells (v4_sys st') ! cell)"
    by (cases "cell = c4_locks (v4_client st) ! i") simp_all
qed simp_all

text \<open>The state an operation holds for an entry is the one in its cell.\<close>

definition holds_lock :: "'addr v4 \<Rightarrow> nat \<times> LockState \<Rightarrow> bool" where
  "holds_lock st p \<longleftrightarrow> fst p < length (c4_locks (v4_client st)) \<and>
     sys_cells (v4_sys st) ! (c4_locks (v4_client st) ! fst p) = snd p"

lemma holds_lock_same: "same_locks st st' \<Longrightarrow> holds_lock st' p \<longleftrightarrow> holds_lock st p"
  by (simp add: same_locks_def holds_lock_def)

lemma holds_lock_step:
  assumes "lock_step i st st'" "locks_wf st" "i < length (c4_locks (v4_client st))" "fst p \<noteq> i" "holds_lock st p"
  shows "holds_lock st' p"
  using assms by (auto simp: lock_step_def holds_lock_def locks_wf_def Let_def nth_eq_iff_index_eq)

lemma put_lock_step:
  assumes "put_lock i state st = (r, st')" "locks_wf st" "holds_lock st (i, lock)" "lock_evolves lock state"
  shows "lock_step i st st'" "holds_lock st' (i, state)"
  using assms
  by (auto simp: put_lock_def op_simps restore_def lock_step_def holds_lock_def locks_wf_def Let_def)

lemma acknowledge_step:
  assumes "acknowledge_revoked i lock rs st = (r, st')" "locks_wf st" "holds_lock st (i, lock)"
  shows "lock_step i st st'"
  using assms
proof (induction i lock rs arbitrary: st rule: acknowledge_revoked.induct)
  case (1 i lock)
  then show ?case by (auto simp: op_simps intro: same_lock_step simp: same_locks_def)
next
  case (2 i lock stateid status rest)
  show ?case
  proof (cases "Status_is_ok status")
    case True
    with 2 show ?thesis by simp
  next
    case False
    let ?lost = "lock\<lparr>ls_lost := Some status\<rparr>"
    obtain r1 st1 where put: "put_lock i ?lost st = (r1, st1)" by fastforce
    then have r1: "r1 = Inr ()" by (auto simp: put_lock_def op_simps)
    note step = put_lock_step [OF put 2(4,5) lock_evolves_lost]
    obtain r2 st2 where ign: "ignore (recovery_compound [OpState (state_op.FreeStateId stateid)]) st1 = (r2, st2)"
      by fastforce
    then have r2: "r2 = Inr ()" by (auto simp: ignore_def match_result_def op_simps split: prod.splits sum.splits)
    have same: "same_locks st1 st2"
      using keepsD [OF same_locks_ignore [OF same_locks_recovery] ign] .
    from 2(3) False put r1 ign r2 have "acknowledge_revoked i ?lost rest st2 = (r, st')"
      by (simp add: bnd_apply)
    moreover have "locks_wf st2"
      using 2(4) step(1) same by (blast intro: locks_wf_evolve lock_step_evolve same_locks_evolve)
    moreover have "holds_lock st2 (i, ?lost)" using step(2) same by (simp add: holds_lock_same)
    ultimately have "lock_step i st2 st'" using False 2(1) by blast
    with step(1) same show ?thesis by (blast intro: lock_step_trans same_lock_step)
  qed
qed

text \<open>What is carried along a list of entries still to be visited.\<close>

definition visits :: "'addr v4 \<Rightarrow> (nat \<times> LockState) list \<Rightarrow> bool" where
  "visits st xs \<longleftrightarrow> locks_wf st \<and> distinct (map fst xs) \<and> (\<forall>p \<in> set xs. holds_lock st p)"

lemma visits_head: "visits st (p # xs) \<Longrightarrow> locks_wf st \<and> holds_lock st p"
  by (simp add: visits_def)

lemma visits_tail: "visits st (p # xs) \<Longrightarrow> visits st xs"
  by (simp add: visits_def)

lemma visits_same: "same_locks st st' \<Longrightarrow> visits st xs \<Longrightarrow> visits st' xs"
  by (auto simp: visits_def holds_lock_same intro: locks_wf_evolve same_locks_evolve)

lemma visits_step:
  assumes "visits st ((i, lock) # xs)" "lock_step i st st'"
  shows "visits st' xs"
proof -
  from assms(1) have wf: "locks_wf st" and i: "i < length (c4_locks (v4_client st))"
    by (simp_all add: visits_def holds_lock_def)
  from assms(1) have "\<forall>p \<in> set xs. fst p \<noteq> i \<and> holds_lock st p" "distinct (map fst xs)"
    by (auto simp: visits_def)
  with holds_lock_step [OF assms(2) wf i] locks_wf_evolve [OF lock_step_evolve [OF assms(2)] wf]
  show ?thesis by (simp add: visits_def)
qed

lemma visits_snapshot:
  assumes "locks_wf st"
  shows "visits st (enumerate 0 (registered st))"
  using assms by (auto simp: visits_def holds_lock_def in_set_enumerate_eq registered_def snapshot_def)

lemma check_revoked_evolves:
  assumes "check_revoked xs st = (r, st')" "visits st xs"
  shows "locks_evolve st st'"
  using assms
proof (induction xs arbitrary: st rule: check_revoked.induct)
  case 1
  then show ?case by (auto simp: op_simps)
next
  case (2 i lock xs)
  show ?case
  proof (cases "ls_lost lock = None")
    case False
    with 2(1,3,4) show ?thesis by (auto dest: visits_tail)
  next
    case True
    obtain t st1 where test: "test_lock_stateids lock st = (t, st1)" by fastforce
    have same: "same_locks st st1" using keepsD [OF same_locks_test test] .
    show ?thesis
    proof (cases t)
      case (Inl e)
      with 2(3) True test have "st' = st1" by (simp add: bnd_apply)
      with same show ?thesis by (simp add: same_locks_evolve)
    next
      case (Inr statuses)
      let ?zs = "zip [ls_open_stateid lock, ls_lock_stateid lock] statuses"
      obtain a st2 where ack: "acknowledge_revoked i lock ?zs st1 = (a, st2)" by fastforce
      from visits_same [OF same 2(4)] have v: "visits st1 ((i, lock) # xs)" .
      have step: "lock_step i st1 st2"
        using visits_head [OF v] acknowledge_step [OF ack] by blast
      have "locks_evolve st st2" using same step by (blast intro: locks_evolve_trans same_locks_evolve lock_step_evolve)
      moreover have "locks_evolve st2 st'"
      proof (cases a)
        case Inl
        with 2(3) True test Inr ack show ?thesis by (simp add: bnd_apply)
      next
        case (Inr u)
        with 2(3) True test \<open>t = Inr statuses\<close> ack have "check_revoked xs st2 = (r, st')" by (simp add: bnd_apply)
        from 2(2) [OF _ this visits_step [OF v step]] True show ?thesis by simp
      qed
      ultimately show ?thesis by (rule locks_evolve_trans)
    qed
  qed
qed

lemma reclaimed_evolves: "returns (lock_evolves lock) (reclaim_lock lock)"
  unfolding reclaim_lock_def reclaim_opened_def
  by (intro returns_intros) (auto intro!: returns_intros simp: lock_evolves_def split: sum.split)

lemma same_locks_recovered [keeps_intros]: "keeps same_locks (recovered_state state client_id)"
  unfolding recovered_state_def by (intro keeps_intros)

lemma recovered_state_evolves: "returns (lock_evolves state) (recovered_state state client_id)"
  using returnsD [OF reclaimed_evolves]
  by (fastforce simp: returns_def recovered_state_def match_result_def bnd_Inr_iff op_simps
      split: prod.splits sum.splits option.splits if_splits)

lemma recover_locks_evolves:
  assumes "recover_locks xs st = (r, st')" "visits st xs"
  shows "locks_evolve st st'"
  using assms
proof (induction xs arbitrary: st rule: recover_locks.induct)
  case 1
  then show ?case by (auto simp: op_simps)
next
  case (2 i lock xs)
  show ?case
  proof (cases "ls_lost lock = None")
    case False
    with 2(1,3,4) show ?thesis by (auto dest: visits_tail)
  next
    case True
    let ?id = "c4_client_id (v4_client st)"
    obtain t st1 where rec: "recovered_state lock ?id st = (t, st1)" by fastforce
    have same: "same_locks st st1" using keepsD [OF same_locks_recovered rec] .
    from 2(3) True have run: "bnd (recovered_state lock ?id) (\<lambda>state'. bnd (put_lock i state') (\<lambda>_. recover_locks xs)) st = (r, st')"
      by (simp add: get4_def bnd_apply op_simps)
    show ?thesis
    proof (cases t)
      case (Inl e)
      with run rec have "st' = st1" by (simp add: bnd_apply)
      with same show ?thesis by (simp add: same_locks_evolve)
    next
      case (Inr state)
      obtain a st2 where put: "put_lock i state st1 = (a, st2)" by fastforce
      then have a: "a = Inr ()" by (auto simp: put_lock_def op_simps)
      have v: "visits st1 ((i, lock) # xs)" using visits_same [OF same 2(4)] .
      have step: "lock_step i st1 st2"
        using put_lock_step [OF put] visits_head [OF v] returnsD [OF recovered_state_evolves] rec Inr by blast
      from run rec Inr put a have "recover_locks xs st2 = (r, st')" by (simp add: bnd_apply)
      from 2(2) [OF _ this visits_step [OF v step]] True have "locks_evolve st2 st'" by simp
      with same step show ?thesis by (blast intro: locks_evolve_trans same_locks_evolve lock_step_evolve)
    qed
  qed
qed

subsection \<open>Sessions keep the promise\<close>

text \<open>\<open>evolving m\<close>: from well-formed locks, \<open>m\<close> lets them evolve.\<close>

definition evolving :: "('addr, 'a) v4op \<Rightarrow> bool" where
  "evolving m \<longleftrightarrow> (\<forall>st r st'. locks_wf st \<longrightarrow> m st = (r, st') \<longrightarrow> locks_evolve st st')"

named_theorems evolving_intros "introduction rules for evolving"

lemma evolvingD: "evolving m \<Longrightarrow> m st = (r, st') \<Longrightarrow> locks_wf st \<Longrightarrow> locks_evolve st st'"
  by (simp add: evolving_def)

lemma evolving_same: "keeps same_locks m \<Longrightarrow> evolving m"
  by (auto simp: evolving_def dest: keepsD intro: same_locks_evolve)

lemma evolving_bnd [evolving_intros]:
  assumes "evolving m" "\<And>x. evolving (k x)"
  shows "evolving (bnd m k)"
proof -
  have "locks_evolve st st'" if "locks_wf st" "bnd m k st = (r, st')" for st r st'
  proof -
    obtain t st1 where m: "m st = (t, st1)" by fastforce
    with assms(1) that have 1: "locks_evolve st st1" "locks_wf st1"
      by (auto dest: evolvingD intro: locks_wf_evolve)
    show ?thesis
    proof (cases t)
      case Inl
      with m that 1 show ?thesis by (simp add: bnd_apply)
    next
      case (Inr x)
      with m that have "k x st1 = (r, st')" by (simp add: bnd_apply)
      with assms(2) 1 show ?thesis by (blast dest: evolvingD intro: locks_evolve_trans)
    qed
  qed
  then show ?thesis by (simp add: evolving_def)
qed

lemma evolving_match_result [evolving_intros]:
  assumes "evolving m" "\<And>x. evolving (k x)" "\<And>e. evolving (h e)"
  shows "evolving (match_result m k h)"
proof -
  have "locks_evolve st st'" if "locks_wf st" "match_result m k h st = (r, st')" for st r st'
  proof -
    obtain t st1 where m: "m st = (t, st1)" by fastforce
    with assms(1) that have 1: "locks_evolve st st1" "locks_wf st1"
      by (auto dest: evolvingD intro: locks_wf_evolve)
    have "\<exists>n. evolving n \<and> n st1 = (r, st')"
      using assms(2,3) m that(2) by (cases t) (auto simp: match_result_def)
    with 1 show ?thesis by (blast dest: evolvingD intro: locks_evolve_trans)
  qed
  then show ?thesis by (simp add: evolving_def)
qed

lemma evolving_if [evolving_intros]: "evolving m \<Longrightarrow> evolving n \<Longrightarrow> evolving (if b then m else n)"
  by simp

lemma evolving_case_prod [evolving_intros]: "(\<And>x y. evolving (k x y)) \<Longrightarrow> evolving (case p of (x, y) \<Rightarrow> k x y)"
  by (cases p) simp

lemma evolving_leaf [evolving_intros]:
  "evolving (ret x)" "evolving (fail e)" "evolving (of_result r)" "evolving (get4 f)"
  "evolving (advance_sequence response)" "evolving (retry_delayed operations response retry again)"
  "evolving ensure_locks_valid" "evolving lease_failed" "evolving (raw_compound tag minor operations)"
  by (rule evolving_same, intro keeps_intros)+

lemma evolving_pending [evolving_intros]: "evolving (put4 (\<lambda>c. c\<lparr>c4_recovery_pending := b\<rparr>))"
  by (rule evolving_same, intro keeps_intros) simp

lemma evolving_check_revoked [evolving_intros]: "evolving check_revoked_locks"
  by (auto simp: evolving_def check_revoked_locks_def locks_snapshot_def op_simps simp flip: registered_def
      intro: check_revoked_evolves visits_snapshot)

lemma evolving_recover_rebuilt:
  assumes "recover_rebuilt (registered st) had_fsinfo st = (r, st')" "locks_wf st"
  shows "locks_evolve st st'"
proof -
  obtain t st1 where rec: "recover_locks (enumerate 0 (registered st)) st = (t, st1)" by fastforce
  have 1: "locks_evolve st st1" by (rule recover_locks_evolves [OF rec visits_snapshot [OF assms(2)]])
  have rest: "evolving (bnd (recovery_compound reclaim_operations) (\<lambda>response.
     bnd (of_result (ensure_reclaim_complete response)) (\<lambda>_.
     bnd (if had_fsinfo then refresh_recovered_fsinfo else ret ()) (\<lambda>_. start_lease_renewal))))"
    by (rule evolving_same, intro keeps_intros)
  show ?thesis
  proof (cases t)
    case Inl
    with assms(1) rec 1 show ?thesis by (simp add: recover_rebuilt_def bnd_apply)
  next
    case (Inr u)
    with assms(1) rec evolvingD [OF rest _ locks_wf_evolve [OF 1 assms(2)]]
    have "locks_evolve st1 st'" by (simp add: recover_rebuilt_def bnd_apply [of "recover_locks _"])
    with 1 show ?thesis by (rule locks_evolve_trans)
  qed
qed

lemma replace_client_same:
  assumes "replace_client rebuilt st = (r, st')" "c4_locks rebuilt = c4_locks (v4_client st)"
  shows "same_locks st st'"
proof -
  let ?st1 = "st\<lparr>v4_client := rebuilt\<rparr>"
  from assms(1) have "ignore (on_client (v4_client st) shutdown) ?st1 = (r, st')"
    by (simp add: replace_client_def get4_def put4_def bnd_apply op_simps)
  then have "same_locks ?st1 st'"
    using keepsD [OF same_locks_ignore [OF same_locks_on_client [OF same_locks_shutdown]]] by blast
  with assms(2) show ?thesis by (simp add: same_locks_def)
qed

lemma recovery_tail_evolves:
  assumes run: "bnd (on_rebuilt (adopt old rebuilt) (recover_rebuilt (registered st) had_fsinfo))
      (\<lambda>rebuilt. bnd (replace_client rebuilt) (\<lambda>_. ensure_locks_valid)) st = (r, st')"
    and old: "c4_locks old = c4_locks (v4_client st)" and wf: "locks_wf st"
  shows "locks_evolve st st'"
proof -
  let ?st0 = "st\<lparr>v4_client := adopt old rebuilt\<rparr>"
  have reg: "registered ?st0 = registered st" and wf0: "locks_wf ?st0"
    using old wf by (simp_all add: registered_def adopt_def locks_wf_def)
  obtain t st1 where rec: "recover_rebuilt (registered st) had_fsinfo ?st0 = (t, st1)" by fastforce
  let ?st2 = "st1\<lparr>v4_client := v4_client st\<rparr>"
  from evolving_recover_rebuilt [of ?st0, unfolded reg, OF rec wf0]
  have locks1: "c4_locks (v4_client st1) = c4_locks (v4_client st)" and 2: "locks_evolve st ?st2"
    using old by (simp_all add: locks_evolve_def adopt_def)
  show ?thesis
  proof (cases t)
    case Inl
    with run rec 2 show ?thesis by (simp add: on_rebuilt_def bnd_apply)
  next
    case (Inr u)
    obtain a st3 where rep: "replace_client (v4_client st1) ?st2 = (a, st3)" by fastforce
    then have 3: "same_locks ?st2 st3" using locks1 by (auto intro: replace_client_same)
    from run rec Inr rep have "st' = st3 \<or> ensure_locks_valid st3 = (r, st')"
      by (cases a) (simp_all add: on_rebuilt_def bnd_apply)
    then have "same_locks st3 st'"
      using keepsD [OF same_locks_snapshot(2)] reflpD [OF same_locks_order(1)] by blast
    with 2 3 show ?thesis by (blast intro: locks_evolve_trans same_locks_evolve)
  qed
qed

lemma evolving_recover_session [evolving_intros]: "evolving (recover_session :: ('a, unit) v4op)"
proof -
  have "locks_evolve st st'" if wf: "locks_wf st" and run: "recover_session st = (r, st')" for st :: "'a v4" and r st'
  proof -
    let ?st1 = "st\<lparr>v4_client := (v4_client st)\<lparr>c4_recovery_pending := True\<rparr>\<rparr>"
    obtain a st2 where stop: "ignore stop_lease_renewal ?st1 = (a, st2)" by fastforce
    then have a: "a = Inr ()" by (auto simp: ignore_def match_result_def op_simps split: prod.splits sum.splits)
    let ?old = "v4_client st2"
    obtain t st3 where con: "on_sys (reconnect_loop (c4_builder ?old) (c4_retry_policy ?old) 0) st2 = (t, st3)"
      by fastforce
    have "same_locks ?st1 st2" using keepsD [OF same_locks_ignore [OF same_locks_stop] stop] .
    moreover have 3: "same_locks st2 st3" using keepsD [OF same_locks_on_sys [OF same_cells_reconnect] con] .
    ultimately have s: "same_locks st st3" by (simp add: same_locks_def)
    show ?thesis
    proof (cases t)
      case Inl
      with run stop a con s show ?thesis
        by (simp add: recover_session_def put4_def get4_def op_simps same_locks_evolve)
    next
      case (Inr rebuilt)
      with run stop a con
      have "bnd (on_rebuilt (adopt ?old rebuilt) (recover_rebuilt (registered st3) (c4_root_fsinfo ?old \<noteq> None)))
          (\<lambda>rebuilt. bnd (replace_client rebuilt) (\<lambda>_. ensure_locks_valid)) st3 = (r, st')"
        by (simp add: recover_session_def put4_def get4_def bnd_apply op_simps locks_snapshot_def registered_def)
      moreover have "c4_locks ?old = c4_locks (v4_client st3)" using 3 by (simp add: same_locks_def)
      moreover have "locks_wf st3" using wf s by (blast intro: locks_wf_evolve same_locks_evolve)
      ultimately have "locks_evolve st3 st'" by (rule recovery_tail_evolves)
      with s show ?thesis by (blast intro: locks_evolve_trans same_locks_evolve)
    qed
  qed
  then show ?thesis by (simp add: evolving_def)
qed

lemma evolving_revocation [evolving_intros]: "evolving (checked_revocation operations response)"
  unfolding checked_revocation_def by (intro evolving_intros)

lemma evolving_compound_step [evolving_intros]: "evolving (compound_step operations can_replay l)"
  unfolding compound_step_def compound_response_def compound_failure_def
  by (cases l) (auto intro!: evolving_intros)

lemma evolving_compound_loop [evolving_intros]: "evolving (compound_loop operations can_replay l :: ('a, CompoundResponse) v4op)"
proof -
  have "locks_evolve st st'" if "locks_wf st" "compound_loop operations can_replay l st = (r, st')" for st :: "'a v4" and r st'
  proof (rule cpl.loop_rule [where I = "\<lambda>l s. locks_evolve st s \<and> locks_wf s" and Q = "\<lambda>r s. locks_evolve st s"])
    show "locks_evolve st st \<and> locks_wf st" using that(1) by simp
    show "compound_loop operations can_replay l st = (r, st')" by (rule that(2))
  qed (blast dest: evolvingD [OF evolving_compound_step] intro: locks_evolve_trans locks_wf_evolve)+
  then show ?thesis by (simp add: evolving_def)
qed

lemma evolving_compound_status [evolving_intros]: "evolving (compound_status operations)"
  unfolding compound_status_def recover_if_pending_def Let_def by (intro evolving_intros)

subsection \<open>Valid locks\<close>

definition locks_valid :: "'addr v4 \<Rightarrow> bool" where
  "locks_valid st \<longleftrightarrow> (\<forall>state \<in> set (registered st). ls_lost state = None)"

lemma ensure_valid_iff: "ensure_valid states = Inr () \<longleftrightarrow> (\<forall>state \<in> set states. ls_lost state = None)"
  by (induction states rule: ensure_valid.induct) (auto split: option.splits)

lemma ensure_valid_Inl:
  "ensure_valid states = Inl e \<Longrightarrow> \<exists>state \<in> set states. \<exists>status. ls_lost state = Some status \<and> e = LockLost status"
  by (induction states rule: ensure_valid.induct) (auto split: option.splits)

lemma ensure_locks_valid_Inr: "ensure_locks_valid st = (Inr u, st') \<longleftrightarrow> locks_valid st \<and> st' = st"
  by (cases "ensure_valid (registered st)")
    (auto simp: ensure_locks_valid_def locks_snapshot_def op_simps locks_valid_def ensure_valid_iff
      simp flip: registered_def ensure_valid_iff)

definition establishes :: "('addr, 'a) v4op \<Rightarrow> bool" where
  "establishes m \<longleftrightarrow> (\<forall>st x st'. m st = (Inr x, st') \<longrightarrow> locks_valid st')"

definition preserves :: "('addr, 'a) v4op \<Rightarrow> bool" where
  "preserves m \<longleftrightarrow> (\<forall>st x st'. locks_valid st \<longrightarrow> m st = (Inr x, st') \<longrightarrow> locks_valid st')"

lemma establishes_bnd: "(\<And>x. establishes (k x)) \<Longrightarrow> establishes (bnd m k)"
  unfolding establishes_def bnd_Inr_iff by blast

lemma establishes_ensure: "establishes ensure_locks_valid"
  by (auto simp: establishes_def ensure_locks_valid_Inr)

lemma establishes_preserves: "establishes m \<Longrightarrow> preserves m"
  by (simp add: establishes_def preserves_def)

lemma preserves_bnd: "preserves m \<Longrightarrow> (\<And>x. preserves (k x)) \<Longrightarrow> preserves (bnd m k)"
  unfolding preserves_def bnd_Inr_iff by blast

lemma preserves_same: "keeps same_locks m \<Longrightarrow> preserves m"
  by (auto simp: preserves_def locks_valid_def dest!: keepsD registered_same)

lemma establishes_recover: "establishes recover_session"
  unfolding recover_session_def by (intro establishes_bnd establishes_ensure)

lemma preserves_match_same:
  assumes "keeps same_locks m" "\<And>x. preserves (k x)" "\<And>e. preserves (h e)"
  shows "preserves (match_result m k h)"
  unfolding preserves_def
proof (intro allI impI)
  fix st x st'
  assume valid: "locks_valid st" and run: "match_result m k h st = (Inr x, st')"
  obtain t st1 where m: "m st = (t, st1)" by fastforce
  have "locks_valid st1"
    using valid registered_same [OF keepsD [OF assms(1) m]] by (simp add: locks_valid_def)
  moreover have "\<exists>n. preserves n \<and> n st1 = (Inr x, st')"
    using assms(2,3) run m by (cases t) (auto simp: match_result_def)
  ultimately show "locks_valid st'" by (auto simp: preserves_def)
qed

lemma preserves_recover: "preserves recover_session"
  by (rule establishes_preserves [OF establishes_recover])

lemma preserves_if: "preserves m \<Longrightarrow> preserves n \<Longrightarrow> preserves (if b then m else n)"
  by simp

lemma preserves_leaf:
  "preserves (ret x)" "preserves (fail e)" "preserves (advance_sequence response)"
  "preserves (retry_delayed operations response retry again)"
  by (rule preserves_same, intro keeps_intros)+

lemma preserves_revocation:
  assumes "\<not> operations_release_state operations"
  shows "preserves (checked_revocation operations response)"
proof (cases "response_revoked_lock_status response = None")
  case True
  then show ?thesis by (simp add: checked_revocation_def preserves_def op_simps)
next
  case False
  with assms show ?thesis
    by (auto simp: checked_revocation_def intro!: establishes_preserves establishes_bnd establishes_ensure)
qed

lemma preserves_compound_step:
  assumes "\<not> operations_release_state operations"
  shows "preserves (compound_step operations can_replay l)"
proof -
  obtain retry recovered where l: "l = (retry, recovered)" by fastforce
  have response: "preserves (compound_response operations can_replay l response)" for response
    unfolding l compound_response_def prod.case
    by (intro preserves_bnd preserves_if preserves_leaf preserves_recover preserves_revocation [OF assms])
  have failure: "preserves (compound_failure can_replay l err)" for err
    using establishes_recover
    by (fastforce simp: l compound_failure_def preserves_def establishes_def match_result_def put4_def op_simps
        split: if_splits prod.splits sum.splits)
  have "preserves (match_result (raw_compound tag minor ops) (compound_response operations can_replay l)
      (compound_failure can_replay l))" for tag minor ops
    by (rule preserves_match_same [OF same_locks_raw response failure])
  then show ?thesis unfolding compound_step_def
    by (intro preserves_bnd preserves_same [OF keeps_get4]) (auto split: prod.split)
qed
end
