(* ===== verification/V4_Recovery.thy ===== *)
theory V4_Recovery
  imports V4_Locks
begin

text \<open>
  What a COMPOUND of the NFSv4 client promises: it returns when the server answers, it is sent again
  only for the reasons the code gives and a bounded number of times, it refuses to run over a lost
  lock, and a session that cannot be set up is destroyed.
\<close>

subsection \<open>A demonstration client\<close>

definition demo_builder4 :: ClientBuilder4 where
  "demo_builder4 = \<lparr>b4_host = ''h'', b4_auth = \<lparr>auth_stamp = 0, auth_machine_name = ''m'', auth_uid = 0, auth_gid = 0, auth_gids = []\<rparr>,
     b4_timeout = None, b4_port = 2049, b4_owner_id = [1], b4_open_owner = [2],
     b4_client_owner_verifier = [0, 0, 0, 0, 0, 0, 0, 0], b4_read_size = 4096, b4_write_size = 4096,
     b4_dir_size = 4096, b4_max_dir_entries = 100, b4_max_minor_version = 2,
     b4_retry_policy = \<lparr>max_retries = 1, initial_delay = 1, max_delay = 1\<rparr>, b4_automatic_lease_renewal = False\<rparr>"

definition demo_session :: SessionId where
  "demo_session = replicate 16 7"

definition demo_client4 :: "nat list \<Rightarrow> rx_event list \<Rightarrow> Client4" where
  "demo_client4 entries evs = \<lparr>c4_rpc = demo_client evs, c4_locks = entries, c4_recovery_pending = False,
     c4_lease_renewal = None, c4_builder = demo_builder4, c4_client_id = 1, c4_session_id = demo_session,
     c4_sequence_id = 1, c4_open_seqid = 1, c4_open_owner = [2], c4_minor_version = 1, c4_max_operations = 8,
     c4_max_request_size = 65536, c4_max_response_size = 65536, c4_root_fsinfo = None, c4_read_size = 4096,
     c4_write_size = 4096, c4_dir_size = 4096, c4_max_dir_entries = 100,
     c4_retry_policy = \<lparr>max_retries = 1, initial_delay = 1, max_delay = 1\<rparr>\<rparr>"

definition demo_lock :: "Status option \<Rightarrow> LockState" where
  "demo_lock lost = \<lparr>ls_client_id = 1, ls_open_owner = [2], ls_handle = \<lparr>fh4_data = [9]\<rparr>,
     ls_open_stateid = \<lparr>si_seqid = 1, si_other = replicate 12 0\<rparr>,
     ls_lock_stateid = \<lparr>si_seqid = 1, si_other = replicate 12 1\<rparr>, ls_lock_seqid = 2, ls_lock_type = LockWrite,
     ls_offset = 0, ls_length = 8, ls_owner = [3], ls_lost = lost\<rparr>"

definition demo_v4 :: "Status option list \<Rightarrow> rx_event list \<Rightarrow> nat v4" where
  "demo_v4 losts evs = \<lparr>v4_sys = \<lparr>sys_net = (\<lambda>_. \<lparr>ne_stamp = 0, ne_resolve = (\<lambda>_ _. Inr []), ne_dial = (\<lambda>_ _. Inl ConnectionRefused)\<rparr>),
       sys_dials = 0, sys_cells = map demo_lock losts, sys_slept = [], sys_lease_failed = (\<lambda>_. False),
       sys_polls = 0, sys_spawn = (\<lambda>_. None), sys_threads = 0\<rparr>,
     v4_client = demo_client4 [0..<length losts] evs\<rparr>"

subsection \<open>Lost locks\<close>

lemma demo_locks_wf: "locks_wf (demo_v4 losts evs)"
  by (simp add: locks_wf_def demo_v4_def demo_client4_def)

text \<open>C18. Locks survive sessions: whatever a COMPOUND or a reconnect does and however it ends, the
  client has the same locks registered, each with its file, range, kind and owners, and a lock that was
  lost stays lost: no recovery takes it again silently.\<close>

theorem sessions_keep_locks:
  assumes "locks_wf st"
  shows "locks_evolve st (snd (compound_status operations st)) \<and> locks_evolve st (snd (recover_session st)) \<and>
    locks_wf (snd (compound_status operations st)) \<and> locks_wf (snd (recover_session st))"
  using evolvingD [OF evolving_compound_status _ assms] evolvingD [OF evolving_recover_session _ assms]
    locks_wf_evolve [OF _ assms]
  by (metis prod.collapse)

theorem sessions_keep_locks_witness:
  "locks_evolve (demo_v4 [None, Some (State state4.Expired)] []) (snd (recover_session (demo_v4 [None, Some (State state4.Expired)] [])))"
  using sessions_keep_locks [OF demo_locks_wf [of "[None, Some (State state4.Expired)]" "[]"]] by blast

lemma preservesD: "preserves m \<Longrightarrow> m st = (Inr x, st') \<Longrightarrow> locks_valid st \<Longrightarrow> locks_valid st'"
  by (simp add: preserves_def)

lemma compound_loop_valid:
  assumes "\<not> operations_release_state operations" "locks_valid st"
    "compound_loop operations can_replay l st = (Inr response, st')"
  shows "locks_valid st'"
  using assms(3,2)
  by (rule cpl.loop_ok_rule [where I = "\<lambda>_. locks_valid" and Q = "\<lambda>_. locks_valid"])
    (blast dest: preservesD [OF preserves_compound_step [OF assms(1)]])+

lemma compound_status_valid:
  assumes "\<not> operations_release_state operations" "compound_status operations st = (Inr response, st')"
  shows "locks_valid st'"
proof -
  from assms obtain st1 where "ensure_locks_valid st1 = (Inr (), st1)" "locks_valid st1"
    "compound_loop operations (operations_can_replay_after_session_recovery operations) (0, False) st1 = (Inr response, st')"
    by (auto simp: compound_status_def Let_def bnd_Inr_iff ensure_locks_valid_Inr)
  with compound_loop_valid [OF assms(1)] show ?thesis by blast
qed

text \<open>A client that has nothing to recover.\<close>

definition settled :: "Client4 \<Rightarrow> nat \<Rightarrow> bool" where
  "settled c n \<longleftrightarrow> \<not> c4_recovery_pending c \<and> c4_lease_renewal c = None \<and>
     validate_session_compound_operation_count n (c4_max_operations c) = Inr ()"

lemma settled_compound_status:
  assumes "settled (v4_client st) (length operations)"
  shows "compound_status operations st =
    bnd (if \<not> operations_release_state operations then ensure_locks_valid else ret ()) (\<lambda>_.
      compound_loop operations (operations_can_replay_after_session_recovery operations) (0, False)) st"
proof -
  have "lease_failed st = (Inr False, st)" "recover_if_pending b st = (Inr (), st)" for b
    using assms by (simp_all add: settled_def lease_failed_def recover_if_pending_def get4_def op_simps)
  with assms show ?thesis
    by (simp add: compound_status_def settled_def get4_def bnd_apply gets_apply of_result_apply ret_apply Let_def)
qed

lemma lost_lock_refused:
  assumes "settled (v4_client st) (length operations)" "\<not> operations_release_state operations" "\<not> locks_valid st"
  obtains status where "compound_status operations st = (Inl (LockLost status), st)"
    "Some status \<in> ls_lost ` set (registered st)"
proof -
  from assms(3) obtain e where e: "ensure_valid (registered st) = Inl e"
    by (cases "ensure_valid (registered st)") (auto simp: locks_valid_def ensure_valid_iff)
  then obtain status where "e = LockLost status" "Some status \<in> ls_lost ` set (registered st)"
    by (auto dest!: ensure_valid_Inl intro: image_eqI [OF sym])
  moreover have "compound_status operations st = (Inl e, st)"
    using assms(2) e
    by (simp add: settled_compound_status [OF assms(1)] bnd_apply ensure_locks_valid_def locks_snapshot_def
        op_simps flip: registered_def)
  ultimately show ?thesis by (auto intro: that)
qed

lemma demo_settled: "settled (v4_client (demo_v4 losts evs)) 0"
  by (simp add: settled_def demo_v4_def demo_client4_def validate_session_compound_operation_count_def
      checked_add_usize_def usize_max_def)

lemma demo_registered: "registered (demo_v4 losts evs) = map demo_lock losts"
  by (auto simp: registered_def snapshot_def demo_v4_def demo_client4_def intro: nth_equalityI)



subsection \<open>A COMPOUND and its answer\<close>

abbreviation (input) compound_args :: "string \<Rightarrow> Client4 \<Rightarrow> Operation list \<Rightarrow> CompoundArgs" where
  "compound_args tag c operations \<equiv>
     \<lparr>cpd_tag = tag, cpd_minor_version = c4_minor_version c, cpd_operations = with_sequence c operations\<rparr>"

lemma raw_compound_decoded:
  assumes "raw_compound tag minor operations st = (Inr response, st')"
  shows "list_all carries (cmp_results response)"
    "validate_compound_response_shape tag (map Operation_op_code operations) response = Inr ()"
proof -
  from assms obtain payload where
    1: "decode_compound_reply tag payload = Inr response"
      "validate_compound_response_shape tag (map Operation_op_code operations) response = Inr ()"
    by (auto simp: raw_compound_def with_rpc4_def raw_compound_with_rpc_def Let_def bnd_Inr_iff op_simps
        split: prod.splits sum.splits)
  then obtain d where "decode_CompoundResponse (decoder_new payload) = (Inr response, d)"
    by (auto simp: decode_compound_reply_def split: prod.splits sum.splits)
  with decoded_response 1(2) show "list_all carries (cmp_results response)"
    "validate_compound_response_shape tag (map Operation_op_code operations) response = Inr ()" by blast+
qed

lemma sequence_result:
  assumes "succeeded r" "OperationResult_op_code r = 53"
  obtains s x where "r = ResSession (session_res.Sequence s x)" "Status_is_ok s"
  using assms(1)
proof (cases rule: succeeded_cases)
  case (Session s)
  with assms(2) show ?thesis by (cases s) (auto intro: that simp: content_codes_def)
next
  case (State s)
  with assms(2) show ?thesis using state_code [of s] by auto
next
  case (Layout s)
  with assms(2) show ?thesis using layout_code [of s] by auto
next
  case (Name s)
  with assms(2) show ?thesis using name_code [of s] by auto
next
  case (Data s)
  with assms(2) show ?thesis using data_code [of s] by auto
qed

lemma ok_response:
  assumes "raw_compound tag minor (with_sequence c operations) st = (Inr response, st')"
    "Status_is_ok (cmp_status response)"
  shows "sequence_succeeded response" "\<not> response_requires_session_recovery response"
    "\<not> response_allows_delayed_retry operations response"
proof -
  note decoded = raw_compound_decoded [OF assms(1)]
  from decoded(2) assms(2)
  have ok: "list_all (\<lambda>r. Status_is_ok (OperationResult_status r)) (cmp_results response)" by (auto simp: shape_iff)
  from accepted_succeeded [OF decoded(2,1)] assms(2)
  obtain r rs where r: "cmp_results response = r # rs" "succeeded r" "OperationResult_op_code r = 53"
    by (cases "cmp_results response") (auto simp: ensure_ok_iff with_sequence_def sequence_op_def)
  obtain s x where "r = ResSession (session_res.Sequence s x)" "Status_is_ok s"
    using r(2,3) by (rule sequence_result)
  with r(1) show "sequence_succeeded response" "\<not> response_requires_session_recovery response"
    by (auto simp: sequence_succeeded_def response_requires_session_recovery_def Status_is_ok_def
        Status_requires_session_recovery_def)
  show "\<not> response_allows_delayed_retry operations response"
    using delayed_index_last(1) [OF decoded(2)] assms(2) delayed_not_ok
    by (auto simp: response_allows_delayed_retry_def response_allows_delayed_retry_after_leading_results_def
        split: option.splits)
qed

text \<open>What a COMPOUND that is answered with success does to the client.\<close>

definition answered :: "RpcClient \<Rightarrow> Client4 \<Rightarrow> Client4" where
  "answered rpc c = c\<lparr>c4_rpc := rpc, c4_sequence_id := next_seqid (c4_sequence_id c)\<rparr>"

lemma raw_compound_served:
  assumes "rpc_serves (c4_rpc (v4_client st)) NFS4_PROGRAM NFS4_VERSION 1 args payload rest"
    "encodes (encode_CompoundArgs \<lparr>cpd_tag = tag, cpd_minor_version = minor, cpd_operations = operations\<rparr>) args"
    "decodes decode_CompoundResponse payload response"
    "validate_compound_response_shape tag (map Operation_op_code operations) response = Inr ()"
  shows "\<exists>rpc. raw_compound tag minor operations st = (Inr response, st\<lparr>v4_client := (v4_client st)\<lparr>c4_rpc := rpc\<rparr>\<rparr>) \<and>
    after_call (c4_rpc (v4_client st)) NFS4_PROGRAM NFS4_VERSION 1 args rest rpc"
proof -
  from rpc_call_served [OF assms(1,2)] obtain rpc where
    rpc: "rpc_call NFS4_PROGRAM NFS4_VERSION 1
        (encode_CompoundArgs \<lparr>cpd_tag = tag, cpd_minor_version = minor, cpd_operations = operations\<rparr>)
        (c4_rpc (v4_client st)) = (Inr payload, rpc)"
      "after_call (c4_rpc (v4_client st)) NFS4_PROGRAM NFS4_VERSION 1 args rest rpc" "length payload \<le> usize_max"
    by blast
  have "decode_compound_reply tag payload = Inr response"
    using decodesD [OF assms(3), of "[]" "[]"] rpc(3)
    by (simp add: decode_compound_reply_def decoder_new_def dec_at_def finish_def is_finished_def remaining_def)
  with rpc assms(4) show ?thesis
    by (auto simp: raw_compound_def with_rpc4_def raw_compound_with_rpc_def Let_def op_simps)
qed

lemma compound_served:
  assumes serves: "rpc_serves (c4_rpc (v4_client st)) NFS4_PROGRAM NFS4_VERSION 1 args payload rest"
    "encodes (encode_CompoundArgs (compound_args ''nfs-rs-v4'' (v4_client st) operations)) args"
    "decodes decode_CompoundResponse payload response"
    "validate_compound_response_shape ''nfs-rs-v4'' (53 # map Operation_op_code operations) response = Inr ()"
    and ok: "Status_is_ok (cmp_status response)" "response_revoked_lock_status response = None"
    and client: "settled (v4_client st) (length operations)" "locks_valid st"
  shows "\<exists>rpc. compound operations st = (Inr response, st\<lparr>v4_client := answered rpc (v4_client st)\<rparr>) \<and>
    after_call (c4_rpc (v4_client st)) NFS4_PROGRAM NFS4_VERSION 1 args rest rpc"
proof -
  let ?can_replay = "operations_can_replay_after_session_recovery operations"
  have "map Operation_op_code (with_sequence (v4_client st) operations) = 53 # map Operation_op_code operations"
    by (simp add: with_sequence_def sequence_op_def)
  with raw_compound_served [OF serves(1-3)] serves(4) obtain rpc where
    raw: "raw_compound ''nfs-rs-v4'' (c4_minor_version (v4_client st)) (with_sequence (v4_client st) operations) st =
        (Inr response, st\<lparr>v4_client := (v4_client st)\<lparr>c4_rpc := rpc\<rparr>\<rparr>)"
    and after: "after_call (c4_rpc (v4_client st)) NFS4_PROGRAM NFS4_VERSION 1 args rest rpc" by auto
  note response = ok_response [OF raw ok(1)]
  let ?st1 = "st\<lparr>v4_client := answered rpc (v4_client st)\<rparr>"
  have "compound_step operations ?can_replay (0, False) st = (Inr (Break response), ?st1)"
    using raw response ok(2)
    by (simp add: compound_step_def match_result_def compound_response_def advance_sequence_def checked_revocation_def
        retry_delayed_def get4_def put4_def op_simps answered_def)
  then have "compound_loop operations ?can_replay (0, False) st = (Inr response, ?st1)"
    by (simp add: compound_loop.simps [of operations ?can_replay "(0, False)" st])
  moreover have "(if \<not> operations_release_state operations then ensure_locks_valid else ret ()) st = (Inr (), st)"
    using client(2) by (simp add: ensure_locks_valid_Inr ret_apply)
  ultimately have "compound_status operations st = (Inr response, ?st1)"
    by (simp add: settled_compound_status [OF client(1)] bnd_apply)
  moreover have "ensure_ok response = Inr ()" using ok(1) by (simp add: ensure_ok_iff)
  ultimately show ?thesis using after by (auto simp: compound_def bnd_apply of_result_apply ret_apply)
qed


text \<open>The answer to an empty COMPOUND: the result of its SEQUENCE.\<close>

definition demo_renewed :: CompoundResponse where
  "demo_renewed = \<lparr>cmp_status = Posix posix4.Ok, cmp_tag = ''nfs-rs-v4'',
     cmp_results = [ResSession (session_res.Sequence (Posix posix4.Ok)
       (Some \<lparr>sr_session_id = demo_session, sr_sequence_id = 1, sr_slot_id = 0, sr_highest_slot_id = 0,
         sr_target_highest_slot_id = 0, sr_status_flags = 0\<rparr>))]\<rparr>"

definition demo_renewed_wire :: bytes where
  "demo_renewed_wire = u32_to_be_bytes 0 @ opaque_wire (as_bytes ''nfs-rs-v4'') @ u32_to_be_bytes 1 @
     u32_to_be_bytes 53 @ u32_to_be_bytes 0 @ demo_session @ u32_to_be_bytes 1 @ u32_to_be_bytes 0 @
     u32_to_be_bytes 0 @ u32_to_be_bytes 0 @ u32_to_be_bytes 0"

definition demo_renew_args :: bytes where
  "demo_renew_args = opaque_wire (as_bytes ''nfs-rs-v4'') @ u32_to_be_bytes 1 @ u32_to_be_bytes 1 @
     u32_to_be_bytes 53 @ opaque_pad demo_session @ u32_to_be_bytes 1 @ u32_to_be_bytes 0 @ u32_to_be_bytes 0 @
     bool_wire False"

lemma demo_renew_encoded:
  "encodes (encode_CompoundArgs \<lparr>cpd_tag = ''nfs-rs-v4'', cpd_minor_version = 1,
     cpd_operations = [sequence_op demo_session 1]\<rparr>) demo_renew_args"
proof -
  have "encodes (encode_SequenceArgs \<lparr>sq_session_id = demo_session, sq_sequence_id = 1, sq_slot_id = 0,
      sq_highest_slot_id = 0, sq_cache_this = False\<rparr>)
      (opaque_pad demo_session @ u32_to_be_bytes 1 @ u32_to_be_bytes 0 @ u32_to_be_bytes 0 @ bool_wire False)"
    unfolding encode_SequenceArgs_def by (simp only: SequenceArgs.simps) (intro encodes_structure enc_leaf)
  then have args: "encodes (encode_operation_args (sequence_op demo_session 1))
      (opaque_pad demo_session @ u32_to_be_bytes 1 @ u32_to_be_bytes 0 @ u32_to_be_bytes 0 @ bool_wire False)"
    by (simp add: sequence_op_def encode_operation_args_def encode_session_op_def)
  have op: "encodes (encode_Operation (sequence_op demo_session 1)) (u32_to_be_bytes 53 @ opaque_pad demo_session @
      u32_to_be_bytes 1 @ u32_to_be_bytes 0 @ u32_to_be_bytes 0 @ bool_wire False)"
    unfolding encode_Operation_def
    by (intro encodes_structure args) (simp add: OpCode_as_u32_def sequence_op_def encodes_write_u32)
  have arr: "encodes (write_array encode_Operation [sequence_op demo_session 1] NFS4_MAX_OPS)
      (u32_to_be_bytes 1 @ u32_to_be_bytes 53 @ opaque_pad demo_session @ u32_to_be_bytes 1 @ u32_to_be_bytes 0 @
       u32_to_be_bytes 0 @ bool_wire False)"
    unfolding write_array_def
    by (rule encodes_bnd) (use op in \<open>simp_all add: NFS4_MAX_OPS_def write_len_ok encodes_write_u32 encodes_seq_single del: seq_ops.simps\<close>)
  have tag: "encodes (write_string ''nfs-rs-v4'' NFS4_OPAQUE_LIMIT) (opaque_wire (as_bytes ''nfs-rs-v4''))"
    by (rule encodes_write_string) (simp_all add: NFS4_OPAQUE_LIMIT_def)
  from encodes_seq_Cons [OF tag encodes_seq_Cons [OF encodes_write_u32 [of 1] encodes_seq_single [OF arr]]]
  show ?thesis by (simp only: encode_CompoundArgs_def demo_renew_args_def CompoundArgs.simps)
qed

lemma demo_renewed_decoded: "decodes decode_CompoundResponse demo_renewed_wire demo_renewed"
proof -
  let ?r = "ResSession (session_res.Sequence (Posix posix4.Ok)
       (Some \<lparr>sr_session_id = demo_session, sr_sequence_id = 1, sr_slot_id = 0, sr_highest_slot_id = 0,
         sr_target_highest_slot_id = 0, sr_status_flags = 0\<rparr>))"
  let ?body = "demo_session @ u32_to_be_bytes 1 @ u32_to_be_bytes 0 @ u32_to_be_bytes 0 @ u32_to_be_bytes 0 @ u32_to_be_bytes 0"
  have ok: "Status_from_u32 0 = Posix posix4.Ok" by (simp add: Status_from_u32_def Status_codes_defs)
  have utf8: "utf8_valid (as_bytes ''nfs-rs-v4'')" by code_simp
  have len: "length demo_session = NFS4_SESSIONID_SIZE" by (simp add: demo_session_def)
  have "decodes decode_session_id (opaque_pad demo_session @ []) demo_session"
    unfolding decode_session_id_def read_array_of_def
    by (rule decodes_bnd, rule decodes_read_fixed_opaque) (simp_all only: len if_True decodes_ret refl)
  then have session: "decodes decode_session_id demo_session demo_session"
    by (simp add: opaque_pad_def padding_len_def len)
  have "decodes (bnd decode_session_id (\<lambda>session_id. bnd read_u32 (\<lambda>sequence_id. bnd read_u32 (\<lambda>slot_id.
        bnd read_u32 (\<lambda>highest. bnd read_u32 (\<lambda>target. bnd read_u32 (\<lambda>flags.
        ret \<lparr>sr_session_id = session_id, sr_sequence_id = sequence_id, sr_slot_id = slot_id,
          sr_highest_slot_id = highest, sr_target_highest_slot_id = target, sr_status_flags = flags\<rparr>)))))))
      ?body \<lparr>sr_session_id = demo_session, sr_sequence_id = 1, sr_slot_id = 0, sr_highest_slot_id = 0,
         sr_target_highest_slot_id = 0, sr_status_flags = 0\<rparr>"
    by (rule decodes_bnd, rule session, rule decodes_bnd, rule decodes_read_u32, rule decodes_bnd, rule decodes_read_u32,
        rule decodes_bnd, rule decodes_read_u32, rule decodes_bnd, rule decodes_read_u32, rule decodes_bnd_ret,
        rule decodes_read_u32) simp
  from decodes_bnd_ret [OF decodes_bnd_ret [OF this, of Some, OF refl], of "\<lambda>x. ResSession (session_res.Sequence (Posix posix4.Ok) x)"]
  have "decodes (decode_sequence_result (Posix posix4.Ok)) ?body ?r"
    by (simp add: decode_sequence_result_def lift_ok_def decode_if_ok_def Status_is_ok_def)
  moreover have "decode_result_arm 53 = decode_sequence_result"
    by (rule ext) (simp add: decode_result_arm_def result_arms_def result_arm_defs)
  ultimately have "decodes decode_OperationResult (u32_to_be_bytes 53 @ u32_to_be_bytes 0 @ ?body) ?r"
    by (intro decodes_operation_result) (simp_all add: ok OpCode_from_u32_def OpCode_names_def)
  with decodes_response [of "[u32_to_be_bytes 53 @ u32_to_be_bytes 0 @ ?body]" "[?r]" "''nfs-rs-v4''" 0]
  show ?thesis by (simp add: ok utf8 demo_renewed_def demo_renewed_wire_def)
qed


subsection \<open>The attempts of a COMPOUND\<close>

definition send_compound :: "Operation list \<Rightarrow> ('addr, CompoundResponse) v4op" where
  "send_compound operations st =
     raw_compound ''nfs-rs-v4'' (c4_minor_version (v4_client st)) (with_sequence (v4_client st) operations) st"

definition settle :: "Operation list \<Rightarrow> CompoundResponse \<Rightarrow> ('addr, unit) v4op" where
  "settle operations response = bnd (advance_sequence response) (\<lambda>_. checked_revocation operations response)"

text \<open>The outcome of a request shows that the session is lost; the state in which it is recovered.\<close>

definition session_lost :: "Operation list \<Rightarrow> CompoundResponse result \<Rightarrow> 'addr v4 \<Rightarrow> 'addr v4 \<Rightarrow> bool" where
  "session_lost operations q st st' \<longleftrightarrow>
     (case q of
        Inl err \<Rightarrow> is_transport_failure err \<and>
          st' = st\<lparr>v4_client := (v4_client st)\<lparr>c4_recovery_pending := True\<rparr>\<rparr>
      | Inr response \<Rightarrow> response_requires_session_recovery response \<and> settle operations response st = (Inr (), st'))"

text \<open>\<open>attempts operations st ws st'\<close>: from \<open>st\<close> the request was sent once for every element of \<open>ws\<close>, and
  each time there was the reason to send it again that the element says, with nothing else done in
  between; \<open>st'\<close> is the state in which it is sent next.\<close>

datatype again = Delayed | Recovered

inductive attempts :: "Operation list \<Rightarrow> 'addr v4 \<Rightarrow> again list \<Rightarrow> 'addr v4 \<Rightarrow> bool" for operations where
  First: "attempts operations st [] st"
| Delay: "attempts operations st ws st1 \<Longrightarrow> send_compound operations st1 = (Inr response, st2) \<Longrightarrow>
    settle operations response st2 = (Inr (), st3) \<Longrightarrow> response_allows_delayed_retry operations response \<Longrightarrow>
    delay_for_retry (c4_retry_policy (v4_client st)) (of_nat (count_list ws Delayed)) = Some delay \<Longrightarrow>
    attempts operations st (ws @ [Delayed]) (st3\<lparr>v4_sys := sleep4 delay (v4_sys st3)\<rparr>)"
| Recover: "attempts operations st ws st1 \<Longrightarrow> Recovered \<notin> set ws \<Longrightarrow>
    operations_can_replay_after_session_recovery operations \<Longrightarrow> send_compound operations st1 = (q, st2) \<Longrightarrow>
    session_lost operations q st2 st3 \<Longrightarrow> recover_session st3 = (Inr (), st4) \<Longrightarrow>
    attempts operations st (ws @ [Recovered]) st4"

text \<open>How the last request ends the COMPOUND: its response is returned, or it failed, or a lock was found
  to be revoked, or the session was recovered and the request is not repeated.\<close>

definition ended :: "Operation list \<Rightarrow> CompoundResponse result \<Rightarrow> 'addr v4 \<Rightarrow> CompoundResponse result \<Rightarrow> 'addr v4 \<Rightarrow> bool" where
  "ended operations q st r st' \<longleftrightarrow>
     (case r of
        Inr response \<Rightarrow> q = Inr response \<and> settle operations response st = (Inr (), st')
      | Inl e \<Rightarrow>
          q = Inl e \<and> st' = st \<or>
          (\<exists>response. q = Inr response \<and> settle operations response st = (Inl e, st')) \<or>
          (\<exists>st1 outcome. session_lost operations q st st1 \<and> recover_session st1 = (outcome, st')))"

definition own_policy :: "Client4 \<Rightarrow> bool" where
  "own_policy c \<longleftrightarrow> c4_retry_policy c = b4_retry_policy (c4_builder c)"

lemma same_policy_put4 [keeps_intros]:
  "(\<And>c. c4_retry_policy (f c) = c4_retry_policy c \<and> c4_builder (f c) = c4_builder c) \<Longrightarrow> keeps same_policy (put4 f)"
  by (simp add: put4_def keeps_def same_policy_def op_simps)

lemma same_policy_on_sys [keeps_intros]: "keeps same_policy (on_sys m)"
  by (auto simp: keeps_def same_policy_def on_sys_def split: prod.splits)

lemma same_policy_on_client [keeps_intros]: "keeps same_policy (on_client c m)"
  by (auto simp: keeps_def same_policy_def on_client_def split: prod.splits)

lemma same_policy_stop [keeps_intros]: "keeps same_policy stop_lease_renewal"
  unfolding stop_lease_renewal_def by (intro keeps_intros) simp

lemma same_policy_start [keeps_intros]: "keeps same_policy start_lease_renewal"
  unfolding start_lease_renewal_def BlockingLease_start_def by (intro keeps_intros) simp

lemma same_policy_refresh [keeps_intros]: "keeps same_policy refresh_recovered_fsinfo"
  unfolding refresh_recovered_fsinfo_def apply_fsinfo_limits_def by (intro keeps_intros) (simp_all add: Let_def)

lemma same_policy_recovered [keeps_intros]: "keeps same_policy (recovered_state state client_id)"
  unfolding recovered_state_def check_recovered_lock_def reclaim_lock_def return_delegation_def reclaim_opened_def
    advance_if_consumed_def
  by (intro keeps_intros)

lemma same_policy_recover_locks [keeps_intros]: "keeps same_policy (recover_locks xs)"
  by (induction xs rule: recover_locks.induct) (auto intro!: keeps_intros)

lemma same_policy_rebuilt [keeps_intros]: "keeps same_policy (recover_rebuilt states had_fsinfo)"
  unfolding recover_rebuilt_def by (intro keeps_intros)

abbreviation (input) built_by :: "ClientBuilder4 \<Rightarrow> Client4 \<Rightarrow> bool" where
  "built_by builder c \<equiv> c4_builder c = builder \<and> c4_retry_policy c = b4_retry_policy builder"

lemma returns_match_ret: "returns P m \<Longrightarrow> (\<And>e. returns P (h e)) \<Longrightarrow> returns P (match_result m ret h)"
  by (auto simp: returns_def match_result_def op_simps split: prod.splits sum.splits)

lemma minor_policy: "returns (built_by builder) (connect_session_minor builder minor complete_reclaim)"
  by (auto simp: returns_def connect_session_minor_def Let_def split: sum.splits prod.splits)

lemma minors_policy: "returns (built_by builder) (connect_minors builder complete_reclaim last_error minors)"
  by (induction minors arbitrary: last_error)
    (auto intro!: returns_match_ret minor_policy returns_fail returns_if)

lemma connected_policy: "returns (built_by builder) (connect_session builder complete_reclaim)"
  unfolding connect_session_def by (intro returns_bnd minors_policy)

lemma reconnected_policy:
  assumes "reconnect_loop builder policy retry sys = (Inr c, sys')"
  shows "c4_builder c = builder \<and> c4_retry_policy c = b4_retry_policy builder"
  using assms
  by (rule rnl.loop_ok_rule [where I = "\<lambda>_ _. True" and Q = "\<lambda>c _. c4_builder c = builder \<and> c4_retry_policy c = b4_retry_policy builder"])
    (auto simp: reconnect_step_def match_result_def op_simps dest!: returnsD [OF connected_policy]
       split: prod.splits sum.splits if_splits option.splits)

text \<open>A client that has the policy of its builder keeps it, in a new session too.\<close>

definition policy_evolves :: "'addr v4 \<Rightarrow> 'addr v4 \<Rightarrow> bool" where
  "policy_evolves st st' \<longleftrightarrow> (own_policy (v4_client st) \<longrightarrow> same_policy st st')"

lemma policy_evolves_order [simp, keeps_intros]: "reflp policy_evolves" "transp policy_evolves"
  by (auto simp: policy_evolves_def same_policy_def own_policy_def intro!: reflpI transpI)

lemma policy_evolves_same: "keeps same_policy m \<Longrightarrow> keeps policy_evolves m"
  by (simp add: keeps_def policy_evolves_def)

lemma policy_rebuilt:
  assumes "on_rebuilt c m st = (Inr rebuilt, st')" "keeps same_policy m"
  shows "c4_retry_policy rebuilt = c4_retry_policy c \<and> c4_builder rebuilt = c4_builder c \<and> v4_client st' = v4_client st"
  using assms(1) keepsD [OF assms(2)]
  by (fastforce simp: on_rebuilt_def same_policy_def split: prod.splits sum.splits)

lemma policy_replace:
  assumes "replace_client c st = (r, st')"
  shows "c4_retry_policy (v4_client st') = c4_retry_policy c \<and> c4_builder (v4_client st') = c4_builder c"
proof -
  from assms have "ignore (on_client (v4_client st) shutdown) (st\<lparr>v4_client := c\<rparr>) = (r, st')"
    by (simp add: replace_client_def get4_def put4_def bnd_apply op_simps)
  from keepsD [OF same_policy_ignore [OF same_policy_on_client] this] show ?thesis by (simp add: same_policy_def)
qed

lemma policy_recovery_tail:
  assumes "bnd (on_rebuilt (adopt old rebuilt) (recover_rebuilt states had_fsinfo))
      (\<lambda>rebuilt. bnd (replace_client rebuilt) (\<lambda>_. ensure_locks_valid)) st = (r, st')"
    and "c4_retry_policy rebuilt = c4_retry_policy (v4_client st)" "c4_builder rebuilt = c4_builder (v4_client st)"
  shows "same_policy st st'"
proof -
  obtain t st1 where rb: "on_rebuilt (adopt old rebuilt) (recover_rebuilt states had_fsinfo) st = (t, st1)" by fastforce
  show ?thesis
  proof (cases t)
    case Inl
    with assms(1) rb show ?thesis by (auto simp: bnd_apply on_rebuilt_def same_policy_def split: prod.splits sum.splits)
  next
    case (Inr c)
    with policy_rebuilt [of "adopt old rebuilt" _ st c st1, OF _ same_policy_rebuilt] rb
    have c: "c4_retry_policy c = c4_retry_policy rebuilt \<and> c4_builder c = c4_builder rebuilt"
      by (simp add: adopt_def)
    obtain a st2 where rep: "replace_client c st1 = (a, st2)" by fastforce
    from assms(1) rb Inr rep have "st' = st2 \<or> ensure_locks_valid st2 = (r, st')"
      by (cases a) (simp_all add: bnd_apply)
    then have "same_policy st2 st'"
      using keepsD [OF same_policy_snapshot(2)] reflpD [OF same_policy_order(1)] by blast
    with policy_replace [OF rep] c assms(2,3) show ?thesis by (simp add: same_policy_def)
  qed
qed

lemma policy_recover_session [keeps_intros]: "keeps policy_evolves recover_session"
proof (rule keepsI)
  fix st :: "'a v4" and r st'
  assume run: "recover_session st = (r, st')"
  let ?st1 = "st\<lparr>v4_client := (v4_client st)\<lparr>c4_recovery_pending := True\<rparr>\<rparr>"
  obtain a st2 where stop: "ignore stop_lease_renewal ?st1 = (a, st2)" by fastforce
  then have a: "a = Inr ()" by (auto simp: ignore_def match_result_def op_simps split: prod.splits sum.splits)
  let ?old = "v4_client st2"
  let ?rec = "reconnect_loop (c4_builder ?old) (c4_retry_policy ?old) 0"
  obtain t st3 where con: "on_sys ?rec st2 = (t, st3)" by fastforce
  have 2: "same_policy st st2"
    using keepsD [OF same_policy_ignore [OF same_policy_stop] stop] by (simp add: same_policy_def)
  have 3: "v4_client st3 = v4_client st2" using con by (auto simp: on_sys_def split: prod.splits)
  show "policy_evolves st st'"
  proof (cases t)
    case Inl
    with run stop a con 2 3 show ?thesis
      by (simp add: recover_session_def put4_def get4_def op_simps policy_evolves_def same_policy_def)
  next
    case (Inr rebuilt)
    with run stop a con
    have tail: "bnd (on_rebuilt (adopt ?old rebuilt) (recover_rebuilt (registered st3) (c4_root_fsinfo ?old \<noteq> None)))
        (\<lambda>rebuilt. bnd (replace_client rebuilt) (\<lambda>_. ensure_locks_valid)) st3 = (r, st')"
      by (simp add: recover_session_def put4_def get4_def bnd_apply op_simps locks_snapshot_def registered_def)
    from con Inr have "c4_builder rebuilt = c4_builder ?old \<and> c4_retry_policy rebuilt = b4_retry_policy (c4_builder ?old)"
      by (auto simp: on_sys_def dest: reconnected_policy split: prod.splits)
    with policy_recovery_tail [OF tail] 2 3 show ?thesis
      by (simp add: policy_evolves_def own_policy_def same_policy_def)
  qed
qed

lemma policy_evolves_leaf [keeps_intros]:
  "keeps policy_evolves (raw_compound tag minor operations)" "keeps policy_evolves (advance_sequence response)"
  "keeps policy_evolves (checked_revocation operations response)" "keeps policy_evolves (retry_delayed operations response retry again)"
  "keeps policy_evolves (put4 (\<lambda>c. c\<lparr>c4_recovery_pending := b\<rparr>))"
  by (rule policy_evolves_same, intro keeps_intros; simp)+

lemma policy_compound_step: "keeps policy_evolves (compound_step operations can_replay l)"
  unfolding compound_step_def compound_response_def compound_failure_def
  by (cases l) (auto intro!: keeps_intros)

lemma compound_step_eq:
  "compound_step operations can_replay (retry, recovered) st =
     (case send_compound operations st of
        (Inl err, st1) \<Rightarrow> compound_failure can_replay (retry, recovered) err st1
      | (Inr response, st1) \<Rightarrow>
          bnd (settle operations response) (\<lambda>_.
            if response_requires_session_recovery response \<and> \<not> recovered then
              bnd recover_session (\<lambda>_.
                if \<not> can_replay then fail (session_recovery_error response) else ret (Continue (retry, True)))
            else retry_delayed operations response retry (retry + 1, recovered)) st1)"
  by (simp add: compound_step_def get4_def op_simps match_result_def send_compound_def compound_response_def settle_def
      split: prod.split sum.split)

lemma step_failed:
  assumes "compound_step operations can_replay (retry, recovered) st = (x, st')" "send_compound operations st = (Inl err, st1)"
  obtains (Fails) "x = Inl err" "st' = st1"
  | (Gone) st2 outcome where "session_lost operations (Inl err) st1 st2" "recover_session st2 = (outcome, st')" "\<exists>e. x = Inl e"
  | (Replay) st2 where "session_lost operations (Inl err) st1 st2" "recover_session st2 = (Inr (), st')"
      "can_replay" "\<not> recovered" "x = Inr (Continue (retry, True))"
proof -
  let ?st2 = "st1\<lparr>v4_client := (v4_client st1)\<lparr>c4_recovery_pending := True\<rparr>\<rparr>"
  from assms have run: "compound_failure can_replay (retry, recovered) err st1 = (x, st')" by (simp add: compound_step_eq)
  show thesis
  proof (cases "is_transport_failure err \<and> \<not> recovered")
    case False
    with run have "x = Inl err" "st' = st1" by (simp_all only: compound_failure_def fail_apply if_False case_prod_conv prod.inject)
    then show thesis by (rule Fails)
  next
    case True
    then have lost: "session_lost operations (Inl err) st1 ?st2" by (simp add: session_lost_def)
    obtain outcome st3 where rec: "recover_session ?st2 = (outcome, st3)" by fastforce
    from run [symmetric] True rec have "st' = st3 \<and> (x = Inr (Continue (retry, True)) \<and> can_replay \<and> outcome = Inr () \<or> (\<exists>e. x = Inl e))"
      by (cases outcome)
        (simp_all add: compound_failure_def put4_def match_result_def modify_apply bnd_apply ret_apply fail_apply split: if_splits)
    then show thesis
    proof (elim conjE disjE)
      assume "st' = st3" "x = Inr (Continue (retry, True))" "can_replay" "outcome = Inr ()"
      with lost rec True show thesis by (intro Replay) simp_all
    next
      assume "st' = st3" "\<exists>e. x = Inl e"
      with lost rec show thesis by (intro Gone) simp_all
    qed
  qed
qed

lemma step_answered:
  assumes "compound_step operations can_replay (retry, recovered) st = (x, st')"
    "send_compound operations st = (Inr response, st1)"
  obtains (Revoked) e where "settle operations response st1 = (Inl e, st')" "x = Inl e"
  | (Gone) st2 outcome where "session_lost operations (Inr response) st1 st2" "recover_session st2 = (outcome, st')" "\<exists>e. x = Inl e"
  | (Replay) st2 where "session_lost operations (Inr response) st1 st2" "recover_session st2 = (Inr (), st')"
      "can_replay" "\<not> recovered" "x = Inr (Continue (retry, True))"
  | (Returned) "settle operations response st1 = (Inr (), st')" "x = Inr (Break response)"
  | (Retried) st2 delay where "settle operations response st1 = (Inr (), st2)" "response_allows_delayed_retry operations response"
      "delay_for_retry (c4_retry_policy (v4_client st2)) retry = Some delay"
      "st' = st2\<lparr>v4_sys := sleep4 delay (v4_sys st2)\<rparr>" "x = Inr (Continue (retry + 1, recovered))"
proof -
  obtain t st2 where settled: "settle operations response st1 = (t, st2)" by fastforce
  show thesis
  proof (cases t)
    case (Inl e)
    with assms settled Revoked show thesis by (simp add: compound_step_eq bnd_apply)
  next
    case (Inr u)
    with assms settled have run: "(if response_requires_session_recovery response \<and> \<not> recovered then
        bnd recover_session (\<lambda>_.
          if \<not> can_replay then fail (session_recovery_error response) else ret (Continue (retry, True)))
      else retry_delayed operations response retry (retry + 1, recovered)) st2 = (x, st')"
      by (simp add: compound_step_eq bnd_apply)
    show thesis
    proof (cases "response_requires_session_recovery response \<and> \<not> recovered")
      case True
      with settled Inr have lost: "session_lost operations (Inr response) st1 st2" by (simp add: session_lost_def)
      obtain outcome st3 where rec: "recover_session st2 = (outcome, st3)" by fastforce
      from run [symmetric] True rec have "st' = st3 \<and> (x = Inr (Continue (retry, True)) \<and> can_replay \<and> outcome = Inr () \<or> (\<exists>e. x = Inl e))"
        by (cases outcome) (simp_all add: bnd_apply ret_apply fail_apply split: if_splits)
      then show thesis
      proof (elim conjE disjE)
        assume "st' = st3" "x = Inr (Continue (retry, True))" "can_replay" "outcome = Inr ()"
        with lost rec True show thesis by (intro Replay) simp_all
      next
        assume "st' = st3" "\<exists>e. x = Inl e"
        with lost rec show thesis by (intro Gone) simp_all
      qed
    next
      case False
      with run have "retry_delayed operations response retry (retry + 1, recovered) st2 = (x, st')" by (simp only: if_False)
      with settled Inr show thesis
        by (auto simp: retry_delayed_def get4_def put_sys_def op_simps split: if_splits option.splits
            intro: Returned Retried)
    qed
  qed
qed

lemma attempts_bounded:
  assumes "attempts operations st ws st'"
  shows "count_list ws Delayed \<le> unat (max_retries (c4_retry_policy (v4_client st))) \<and> count_list ws Recovered \<le> 1 \<and>
    (Recovered \<in> set ws \<longrightarrow> operations_can_replay_after_session_recovery operations)"
  using assms
proof (induction rule: attempts.induct)
  case (Delay st ws st1 response st2 st3 delay)
  let ?max = "max_retries (c4_retry_policy (v4_client st))"
  have "count_list ws Delayed < 2 ^ 32" using Delay.IH unat_u32_less [of ?max] by linarith
  then have "unat (of_nat (count_list ws Delayed) :: u32) = count_list ws Delayed" by (simp add: unat_of_nat)
  with Delay.hyps(5) have "count_list ws Delayed < unat ?max"
    by (auto simp: delay_for_retry_backoff split: if_splits)
  with Delay.IH show ?case by simp
next
  case (Recover st ws st1 q st2 st3 st4)
  then show ?case by (simp add: count_list_0_iff)
qed simp

lemma length_again: "length ws = count_list ws Delayed + count_list ws Recovered"
  by (induction ws) (auto intro: again.exhaust)

text \<open>The loop of \<open>compound_status\<close> follows the attempts.\<close>

definition tried :: "Operation list \<Rightarrow> 'addr v4 \<Rightarrow> u32 \<times> bool \<Rightarrow> 'addr v4 \<Rightarrow> bool" where
  "tried operations st l st1 \<longleftrightarrow>
     (\<exists>ws. attempts operations st ws st1 \<and> unat (fst l) = count_list ws Delayed \<and> snd l = (Recovered \<in> set ws)) \<and>
     own_policy (v4_client st1) \<and> c4_retry_policy (v4_client st1) = c4_retry_policy (v4_client st)"

lemma policy_settle [keeps_intros]: "keeps same_policy (settle operations response)"
  unfolding settle_def by (intro keeps_intros)

lemma policy_send: "keeps same_policy (send_compound operations)"
  using same_policy_raw by (auto simp: keeps_def send_compound_def)

lemma tried_step:
  assumes tried: "tried operations st l st1"
    and step: "compound_step operations (operations_can_replay_after_session_recovery operations) l st1 = (Inr (Continue l'), st')"
  shows "tried operations st l' st'"
proof -
  obtain retry recovered where l: "l = (retry, recovered)" by fastforce
  from tried obtain ws where ws: "attempts operations st ws st1" "unat retry = count_list ws Delayed"
      "recovered = (Recovered \<in> set ws)"
    and own: "own_policy (v4_client st1)" "c4_retry_policy (v4_client st1) = c4_retry_policy (v4_client st)"
    by (auto simp: tried_def l)
  from keepsD [OF policy_compound_step step] own
  have own': "own_policy (v4_client st')" "c4_retry_policy (v4_client st') = c4_retry_policy (v4_client st)"
    by (simp_all add: policy_evolves_def same_policy_def own_policy_def)
  obtain q st2 where send: "send_compound operations st1 = (q, st2)" by fastforce
  have replay: ?thesis if "session_lost operations q st2 st3" "recover_session st3 = (Inr (), st')"
      "operations_can_replay_after_session_recovery operations" "\<not> recovered" "l' = (retry, True)" for st3
  proof -
    from attempts.Recover [OF ws(1) _ that(3) send that(1,2)] that(4) ws(3)
    have "attempts operations st (ws @ [Recovered]) st'" by simp
    moreover have "unat retry = count_list (ws @ [Recovered]) Delayed" using ws(2) by simp
    ultimately show ?thesis using own' that(5) unfolding tried_def by (intro conjI exI [of _ "ws @ [Recovered]"]) simp_all
  qed
  show ?thesis
  proof (cases q)
    case (Inl err)
    from step [unfolded l] send [unfolded Inl] show ?thesis
      by (rule step_failed) (use replay Inl in auto)
  next
    case (Inr response)
    from step [unfolded l] send [unfolded Inr] show ?thesis
    proof (rule step_answered)
      fix st3 delay
      assume r: "settle operations response st2 = (Inr (), st3)" "response_allows_delayed_retry operations response"
        "delay_for_retry (c4_retry_policy (v4_client st3)) retry = Some delay"
        "st' = st3\<lparr>v4_sys := sleep4 delay (v4_sys st3)\<rparr>" "Inr (Continue l') = Inr (Continue (retry + 1, recovered))"
      have policy: "c4_retry_policy (v4_client st3) = c4_retry_policy (v4_client st)"
        using keepsD [OF policy_send send] keepsD [OF policy_settle r(1)] own(2) by (simp add: same_policy_def)
      have retry: "of_nat (count_list ws Delayed) = retry" by (simp flip: ws(2))
      from r(3) have less: "unat retry < unat (max_retries (c4_retry_policy (v4_client st)))"
        unfolding policy by (auto simp: delay_for_retry_backoff split: if_splits)
      have "attempts operations st (ws @ [Delayed]) st'"
        unfolding r(4) by (rule attempts.Delay [OF ws(1) send [unfolded Inr] r(1,2)]) (use r(3) policy retry in simp)
      moreover have "unat (retry + 1) = count_list (ws @ [Delayed]) Delayed"
        using less ws(2) unat_u32_less [of "max_retries (c4_retry_policy (v4_client st))"] by (simp add: unat_word_ariths)
      ultimately show ?thesis using own' ws(3) r(5) unfolding tried_def
        by (intro conjI exI [of _ "ws @ [Delayed]"]) simp_all
    qed (use replay Inr in auto)
  qed
qed

lemma step_ends:
  assumes "compound_step operations can_replay l st = (x, st')" "\<And>l'. x \<noteq> Inr (Continue l')"
  obtains q st1 where "send_compound operations st = (q, st1)"
    "ended operations q st1 (map_sum id (\<lambda>y. case y of Break response \<Rightarrow> response | Continue _ \<Rightarrow> undefined) x) st'"
proof -
  obtain retry recovered where l: "l = (retry, recovered)" by fastforce
  obtain q st1 where send: "send_compound operations st = (q, st1)" by fastforce
  let ?r = "map_sum id (\<lambda>y. case y of Break response \<Rightarrow> response | Continue _ \<Rightarrow> undefined) x"
  have "ended operations q st1 ?r st'"
  proof (cases q)
    case (Inl err)
    from assms(1) [unfolded l] send [unfolded Inl] show ?thesis
      by (rule step_failed) (use assms(2) Inl in \<open>auto simp: ended_def\<close>)
  next
    case (Inr response)
    from assms(1) [unfolded l] send [unfolded Inr] show ?thesis
      by (rule step_answered) (use assms(2) Inr in \<open>auto simp: ended_def\<close>)
  qed
  with send that show thesis by blast
qed

lemma compound_loop_attempts:
  assumes "own_policy (v4_client st)"
    "compound_loop operations (operations_can_replay_after_session_recovery operations) (0, False) st = (r, st')"
  shows "\<exists>ws st1 q st2. attempts operations st ws st1 \<and> send_compound operations st1 = (q, st2) \<and>
    ended operations q st2 r st'"
proof (rule cpl.loop_rule [where I = "tried operations st" and Q = "\<lambda>r st'. \<exists>ws st1 q st2. attempts operations st ws st1 \<and>
      send_compound operations st1 = (q, st2) \<and> ended operations q st2 r st'"])
  show "tried operations st (0, False) st"
    using assms(1) unfolding tried_def by (intro conjI exI [of _ "[]"]) (simp_all add: attempts.First)
  show "compound_loop operations (operations_can_replay_after_session_recovery operations) (0, False) st = (r, st')" by fact
next
  fix l s l' s'
  assume "tried operations st l s"
    "compound_step operations (operations_can_replay_after_session_recovery operations) l s = (Inr (Continue l'), s')"
  then show "tried operations st l' s'" by (rule tried_step)
next
  fix l s response s'
  assume t: "tried operations st l s"
    and b: "compound_step operations (operations_can_replay_after_session_recovery operations) l s = (Inr (Break response), s')"
  from b obtain q st2 where "send_compound operations s = (q, st2)" "ended operations q st2 (Inr response) s'"
    by (rule step_ends) simp_all
  with t show "\<exists>ws st1 q st2. attempts operations st ws st1 \<and> send_compound operations st1 = (q, st2) \<and>
      ended operations q st2 (Inr response) s'" unfolding tried_def by blast
next
  fix l s e s'
  assume t: "tried operations st l s"
    and b: "compound_step operations (operations_can_replay_after_session_recovery operations) l s = (Inl e, s')"
  from b obtain q st2 where "send_compound operations s = (q, st2)" "ended operations q st2 (Inl e) s'"
    by (rule step_ends) simp_all
  with t show "\<exists>ws st1 q st2. attempts operations st ws st1 \<and> send_compound operations st1 = (q, st2) \<and>
      ended operations q st2 (Inl e) s'" unfolding tried_def by blast
qed



subsection \<open>Setting up a session\<close>

text \<open>The last thing done on the connection was DESTROY_SESSION, and the error says how that went.\<close>

definition destroyed :: "u32 \<Rightarrow> SessionId \<Rightarrow> error \<Rightarrow> 'addr sys \<times> RpcClient \<Rightarrow> bool" where
  "destroyed minor session_id e st' \<longleftrightarrow>
     (\<exists>st1 err outcome. on_rpc (destroy_session_with_rpc minor session_id) st1 = (outcome, st') \<and>
        e = cleanup_error err ''cleanup DESTROY_SESSION after failed NFSv4 session setup'' outcome)"

lemma cleanup_destroys: "cleanup_session_setup_error minor session_id err st = (Inl e, st') \<Longrightarrow> destroyed minor session_id e st'"
  by (cases st) (auto simp: cleanup_session_setup_error_def destroyed_def split: prod.splits)

lemma cleanup_fails: "cleanup_session_setup_error minor session_id err st \<noteq> (Inr x, st')"
  by (auto simp: cleanup_session_setup_error_def split: prod.splits)

lemma or_destroy_Inl: "or_destroy minor session_id t st = (Inl e, st') \<Longrightarrow> destroyed minor session_id e st'"
  by (cases t) (auto simp: or_destroy_def ret_apply dest!: cleanup_destroys)

lemma finish_session_destroys:
  "finish_session builder minor complete_reclaim session st = (Inl e, st') \<Longrightarrow>
   destroyed minor (csr_session_id session) e st'"
  by (auto simp: finish_session_def Let_def bnd_apply match_result_def ret_apply
      split: prod.splits sum.splits if_splits dest!: or_destroy_Inl cleanup_destroys)

lemma or_destroy_Inr: "or_destroy minor session_id t st = (Inr x, st') \<longleftrightarrow> t = Inr x \<and> st' = st"
  by (cases t) (auto simp: or_destroy_def ret_apply cleanup_fails)

lemma finish_session_ok:
  assumes "finish_session builder minor complete_reclaim session st = (Inr (max_operations, sequence_id), st')"
  shows "validate_session_channel_attrs (csr_fore_channel_attrs session) = Inr ()"
    "session_max_operations (csr_fore_channel_attrs session) = Inr max_operations"
proof -
  let ?fore = "csr_fore_channel_attrs session"
  from assms show valid: "validate_session_channel_attrs ?fore = Inr ()"
    unfolding finish_session_def Let_def by (subst (asm) bnd_Inr_iff) (auto simp: or_destroy_Inr)
  from assms obtain n rest where "session_max_operations ?fore = Inr n"
      "(if complete_reclaim
        then match_result (reclaim_complete_with_delayed_retry minor (csr_session_id session) 1 n (b4_retry_policy builder))
          (\<lambda>(reclaim_res, sequence_id).
             bnd (or_destroy minor (csr_session_id session) (ensure_reclaim_complete reclaim_res)) (\<lambda>_. ret (n, sequence_id)))
          (cleanup_session_setup_error minor (csr_session_id session))
        else ret (n, 1)) st = (Inr (max_operations, sequence_id), st')"
    unfolding finish_session_def Let_def bnd_Inr_iff or_destroy_Inr by blast
  then show "session_max_operations ?fore = Inr max_operations"
    by (cases complete_reclaim)
      (auto simp: match_result_def bnd_Inr_iff ret_apply cleanup_fails split: prod.splits sum.splits)
qed

text \<open>The session that setting up has created, if it came so far.\<close>

definition created_session :: "ClientBuilder4 \<Rightarrow> u32 \<Rightarrow> 'addr sys \<times> RpcClient \<Rightarrow> CreateSessionResult option" where
  "created_session builder minor_version st =
     (case bnd (on_rpc (RpcClient_set_timeout (b4_timeout builder))) (\<lambda>_.
           bnd (on_rpc (set_max_record_size (max_record_size_for_payloads
             [b4_read_size builder, b4_write_size builder, b4_dir_size builder]))) (\<lambda>_.
           exchange_and_create builder minor_version)) st of
        (Inr (_, session), _) \<Rightarrow> Some session
      | _ \<Rightarrow> None)"

lemma setup_session_parts:
  "setup_session builder minor complete_reclaim st =
    (case bnd (on_rpc (RpcClient_set_timeout (b4_timeout builder))) (\<lambda>_.
         bnd (on_rpc (set_max_record_size (max_record_size_for_payloads
           [b4_read_size builder, b4_write_size builder, b4_dir_size builder]))) (\<lambda>_.
         exchange_and_create builder minor)) st of
       (Inl e, st1) \<Rightarrow> (Inl e, st1)
     | (Inr (exchange, session), st1) \<Rightarrow>
         bnd (finish_session builder minor complete_reclaim session) (\<lambda>(max_operations, sequence_id).
           ret (exchange, session, max_operations, sequence_id)) st1)"
  by (simp add: setup_session_def bnd_apply split: prod.splits sum.splits)

text \<open>C19. No session is left behind: when setting up fails after CREATE_SESSION succeeded, the last thing
  the client does on the connection is DESTROY_SESSION for the session it created, and the error says
  how that went. When setting up succeeds, the client has the session that was created, with channel
  attributes it can work with.\<close>

theorem failed_setup_destroys_session:
  "case setup_session builder minor complete_reclaim st of
     (Inl e, st') \<Rightarrow>
       (case created_session builder minor st of
          None \<Rightarrow> True
        | Some session \<Rightarrow> \<exists>st1 err outcome.
            on_rpc (destroy_session_with_rpc minor (csr_session_id session)) st1 = (outcome, st') \<and>
            e = cleanup_error err ''cleanup DESTROY_SESSION after failed NFSv4 session setup'' outcome)
   | (Inr (exchange, session, max_operations, sequence_id), st') \<Rightarrow>
       created_session builder minor st = Some session \<and>
       validate_session_channel_attrs (csr_fore_channel_attrs session) = Inr () \<and>
       session_max_operations (csr_fore_channel_attrs session) = Inr max_operations"
proof -
  let ?create = "bnd (on_rpc (RpcClient_set_timeout (b4_timeout builder))) (\<lambda>_.
         bnd (on_rpc (set_max_record_size (max_record_size_for_payloads
           [b4_read_size builder, b4_write_size builder, b4_dir_size builder]))) (\<lambda>_.
         exchange_and_create builder minor)) st"
  obtain r st1 where create: "?create = (r, st1)" by (rule prod.exhaust)
  show ?thesis
  proof (cases r)
    case Inl
    with create show ?thesis by (simp add: setup_session_parts created_session_def)
  next
    case (Inr p)
    obtain exchange session where p: "p = (exchange, session)" by fastforce
    have created: "created_session builder minor st = Some session"
      using create Inr p by (simp add: created_session_def)
    obtain t st2 where finish: "finish_session builder minor complete_reclaim session st1 = (t, st2)"
      by (rule prod.exhaust)
    then have run: "setup_session builder minor complete_reclaim st =
        (case t of Inl e \<Rightarrow> (Inl e, st2)
         | Inr (max_operations, sequence_id) \<Rightarrow> (Inr (exchange, session, max_operations, sequence_id), st2))"
      using create Inr p by (simp add: setup_session_parts bnd_apply ret_apply split: sum.split prod.split)
    show ?thesis
    proof (cases t)
      case (Inl e)
      with finish_session_destroys [of builder minor complete_reclaim session st1 e st2] finish created run
      show ?thesis by (simp add: destroyed_def)
    next
      case (Inr q)
      obtain max_operations sequence_id where "q = (max_operations, sequence_id)" by fastforce
      with finish_session_ok [of builder minor complete_reclaim session st1 max_operations sequence_id st2] finish created run Inr
      show ?thesis by simp
    qed
  qed
qed
end
