(* ===== verification/Spec2Isabelle.thy ===== *)
theory Spec2Isabelle
  imports Nfs_Prelude Xdr Nfs_Status Nfs_Error Retry Rpc_Message Tcp_Stream Rpc_Client
    V3_Types V3_Messages V3_Nfs3 V3_Mount Rust_Str V3_Path V3_Client V3_Io V3_Evolve V3_Ops V3_Tree V3_Refine V3_Contracts Tokio_Rpc
    V4_Attr V4_Args V4_Results V4_Types V4_Compound V4_Codec V4_Response V4_Session V4_Locks V4_Recovery
begin

text \<open>
  A verification development of a userspace NFS client (\<open>src/src\<close>): NFSv3 and NFSv4 clients over ONC RPC,
  each in a blocking and an asynchronous form. File names below are relative to \<open>src/src\<close>.

  \<^bold>\<open>How the parts interact.\<close> An operation of a client on a path is a sequence of remote calls. A call is
  encoded with XDR, wrapped into an RPC message with the credential of the caller, cut into marked
  fragments and written to a TCP stream; the reply comes back the same way. Above the call, NFSv3 has one
  procedure per action and NFSv4 one COMPOUND with a list of operations, sent in a session. Errors of every
  layer are values of the one error type of the crate.

  \<^bold>\<open>The style of the model.\<close> A method with \<open>&mut self\<close> and a \<open>Result\<close> is a value of type
  \<open>('s, 'e, 'a) op\<close>: from a state to an error or a value and the new state. \<open>bnd\<close> is \<open>?\<close>, \<open>match_result\<close> is
  \<open>match\<close> on a \<open>Result\<close>, and every early return is a branch. A struct is a \<open>record\<close>, an enum a \<open>datatype\<close>,
  machine integers are words; a \<open>Vec<u8>\<close> is a list of bytes, a \<open>String\<close> a list of characters that stand for
  the bytes of its UTF-8 encoding, a \<open>Duration\<close> its nanoseconds. A loop is a step (one turn, which continues
  or leaves) and a function that repeats it; the locale \<open>body_loop\<close> of \<open>Nfs_Prelude\<close> is interpreted for each
  one and gives induction over its turns and the rules for invariants.

  \<^bold>\<open>Theories and sources.\<close>
  \<^item> \<open>Nfs_Prelude\<close>: the types above, \<open>keeps\<close> and \<open>returns\<close> (what an operation does to the state and what it
    returns, with introduction rules along the structure of a program), \<open>body_loop\<close>.
  \<^item> \<open>Xdr\<close> (\<open>xdr/\<close>): encoder, decoder, primitives. The locale \<open>xdr_codec\<close> is the contract of a wire type, and
    arrays of wire types are wire types by a sublocale.
  \<^item> \<open>Nfs_Status\<close>, \<open>Nfs_Error\<close> (\<open>error.rs\<close> and the status enums of \<open>v3/proto.rs\<close>, \<open>v3/mount.rs\<close>,
    \<open>v4/proto.rs\<close>): status numbers and the classification of errors. \<open>Retry\<close> (\<open>retry.rs\<close>): capped exponential
    backoff, without overflow.
  \<^item> \<open>Rpc_Message\<close>, \<open>Tcp_Stream\<close>, \<open>Rpc_Client\<close> (\<open>rpc.rs\<close>): credentials, call and reply messages, the stream of
    the standard library, record marking, connecting and the call. \<open>Tokio_Rpc\<close> (\<open>tokio_rpc.rs\<close>): the
    asynchronous call, over a runtime that is a parameter and may drop the call at every await.
  \<^item> \<open>V3_Types\<close>, \<open>V3_Messages\<close>, \<open>V3_Nfs3\<close> (\<open>v3/proto.rs\<close>): data, messages and the 22 procedures. \<open>V3_Mount\<close>
    (\<open>v3/portmap.rs\<close>, \<open>v3/mount.rs\<close>): the services asked before.
  \<^item> \<open>Rust_Str\<close>, \<open>V3_Path\<close> (\<open>v3/client.rs\<close>): strings, targets and paths. \<open>V3_Client\<close>, \<open>V3_Io\<close>, \<open>V3_Ops\<close>, \<open>V3_Tree\<close>
    (\<open>v3/blocking.rs\<close>): connecting, reading and writing loops, operations on paths, directories. \<open>V3_Evolve\<close>,
    \<open>V3_Refine\<close>, \<open>V3_Contracts\<close> hold what these operations promise.
  \<^item> \<open>V4_Attr\<close>, \<open>V4_Args\<close>, \<open>V4_Results\<close>, \<open>V4_Types\<close>, \<open>V4_Codec\<close> (\<open>v4/proto.rs\<close>): attributes, arguments, results,
    operations and the decoder of a COMPOUND response. \<open>V4_Compound\<close>, \<open>V4_Response\<close> (\<open>v4/client.rs\<close>): which
    responses are accepted, when to retry or recover, typed results and pages.
  \<^item> \<open>V4_Session\<close> (\<open>v4/blocking.rs\<close>, \<open>v4/mod.rs\<close>, the lock registry of \<open>v4/client.rs\<close>): setting up a session,
    COMPOUNDs with their retries, recovery with the check and reclaim of locks, lease renewal and shutdown.
    \<open>V4_Locks\<close> and \<open>V4_Recovery\<close> hold what it promises.

  \<^bold>\<open>What the theorems show.\<close> The connection: a call leaves it unusable exactly when its outcome is unknown, and
  an unusable connection sends nothing; records and replies are read exactly when well-formed, whatever
  bytes arrive; the asynchronous call has the same behaviour and poisons the connection when dropped. The
  protocols: encoders and decoders are inverse on valid values and limits are enforced; results are consistent
  with their requests whatever the server sends. NFSv3: calls are repeated a bounded number of times; a failed
  connect unmounts; the read, write and copy loops refine one action on an abstract file, and return the file
  when the server serves it; an atomic write replaces its target or cleans up; removing a tree stays inside
  it. NFSv4: exactly the well-shaped responses are accepted; a COMPOUND is repeated only when what the server
  executed is read-only, a bounded number of times; an answered COMPOUND returns its response; a lost lock
  is never taken again silently and stops the client; a session that cannot be used is destroyed.

  \<^bold>\<open>The environment.\<close> A TCP stream is a script of what arrives (data, errors, the end) and of what each write
  does; a connection attempt is a value of \<open>net_env\<close> (name resolution, dialling, stamp), and a process that
  connects repeatedly has one per attempt. \<open>thread::sleep\<close> appends to a log. Clock, process id, counter and
  identity are arguments. A lock shared by \<open>Arc<Mutex<_>>\<close> is an index into the cells of the process. The
  runtime of the asynchronous client is a parameter with named laws, which a model of the standard stream
  satisfies.

  \<^bold>\<open>Termination and bounds.\<close> There is no fuel. Every loop is a total function with a measure: retries left
  under the policy, bytes still to arrive (a script is finite, so the loops that read do not run forever),
  distance of an offset to the end of \<open>u64\<close>, or the entries left under a limit. Lengths are natural numbers
  with the 64-bit bound of \<open>usize\<close> where the code checks it.

  \<^bold>\<open>Not modelled.\<close> The operations of the NFSv4 clients on paths, which are compositions of the COMPOUNDs
  modelled here; the asynchronous clients \<open>v3/tokio.rs\<close> and \<open>v4/tokio.rs\<close>, which repeat the blocking ones over
  the asynchronous call; the schedule of the lease thread (\<open>v4/lease.rs\<close>), whose failure is a value of the
  environment; the text of error messages beyond their template and arguments; tests and examples.
\<close>

end
